(* ===== verification/PyPrelude.thy ===== *)
theory PyPrelude
  imports Complex_Main "HOL-Library.Product_Lexorder" "HOL-Library.Sublist"
    "HOL-Library.Multiset"
begin

text \<open>
  The part of Python the modelled code uses, and the generic lemmas every component
  shares: truthiness of optional strings, \<open>a or b\<close>, \<open>str(n)\<close> of an int,
  \<open>str.split(":", 1)\<close>, \<open>max\<close>/\<open>min\<close> with a key (the first extremal element wins),
  \<open>sorted\<close> with a key (stable), and the per-field override of a chain of rows.
  Floats that are only compared are rationals; Python's unbounded ints are \<open>int\<close>.
\<close>

named_theorems py_simps "unfolding rules for the Python helpers"

section \<open>Truthiness and defaults\<close>

definition truthy :: "string option \<Rightarrow> bool" where
  [py_simps]: "truthy s = (case s of None \<Rightarrow> False | Some t \<Rightarrow> t \<noteq> [])"

definition or_else :: "string option \<Rightarrow> string option \<Rightarrow> string option" where
  [py_simps]: "or_else a b = (if truthy a then a else b)"

lemma truthy_simps [simp]:
  "\<not> truthy None" "truthy (Some t) \<longleftrightarrow> t \<noteq> []"
  by (simp_all add: truthy_def)

lemma truthy_Some: "truthy s \<Longrightarrow> \<exists>t. s = Some t \<and> t \<noteq> []"
  by (cases s) auto

section \<open>max and min with a key\<close>

text \<open>\<open>max(xs, key=k)\<close> keeps the first element whose key no later key exceeds.\<close>

fun py_max :: "('a \<Rightarrow> 'k::linorder) \<Rightarrow> 'a list \<Rightarrow> 'a option" where
  "py_max k [] = None"
| "py_max k (x # xs) = Some (foldl (\<lambda>best y. if k best < k y then y else best) x xs)"

fun py_min :: "('a \<Rightarrow> 'k::linorder) \<Rightarrow> 'a list \<Rightarrow> 'a option" where
  "py_min k [] = None"
| "py_min k (x # xs) = Some (foldl (\<lambda>best y. if k y < k best then y else best) x xs)"

lemma foldl_max_in:
  "foldl (\<lambda>best y. if k best < k y then y else best) x xs \<in> insert x (set xs)"
  by (induction xs arbitrary: x) auto

lemma foldl_max_ge:
  fixes k :: "'a \<Rightarrow> 'k::linorder"
  assumes "y \<in> insert x (set xs)"
  shows "k y \<le> k (foldl (\<lambda>best y. if k best < k y then y else best) x xs)"
  using assms
proof (induction xs arbitrary: x y)
  case Nil
  then show ?case by simp
next
  case (Cons z zs)
  let ?b = "if k x < k z then z else x"
  have b: "k ?b \<le> k (foldl (\<lambda>best y. if k best < k y then y else best) ?b zs)"
    by (rule Cons.IH) simp
  have zs: "k u \<le> k (foldl (\<lambda>best y. if k best < k y then y else best) ?b zs)"
    if "u \<in> set zs" for u
    by (rule Cons.IH) (use that in simp)
  have x: "k x \<le> k ?b" and z: "k z \<le> k ?b" by auto
  from Cons.prems consider "y = x" | "y = z" | "y \<in> set zs" by auto
  then show ?case
    using order_trans [OF x b] order_trans [OF z b] zs by cases auto
qed

lemma foldl_min_in:
  "foldl (\<lambda>best y. if k y < k best then y else best) x xs \<in> insert x (set xs)"
  by (induction xs arbitrary: x) auto

lemma foldl_min_le:
  fixes k :: "'a \<Rightarrow> 'k::linorder"
  assumes "y \<in> insert x (set xs)"
  shows "k (foldl (\<lambda>best y. if k y < k best then y else best) x xs) \<le> k y"
  using assms
proof (induction xs arbitrary: x y)
  case Nil
  then show ?case by simp
next
  case (Cons z zs)
  let ?b = "if k z < k x then z else x"
  have b: "k (foldl (\<lambda>best y. if k y < k best then y else best) ?b zs) \<le> k ?b"
    by (rule Cons.IH) simp
  have zs: "k (foldl (\<lambda>best y. if k y < k best then y else best) ?b zs) \<le> k u"
    if "u \<in> set zs" for u
    by (rule Cons.IH) (use that in simp)
  have x: "k ?b \<le> k x" and z: "k ?b \<le> k z" by auto
  from Cons.prems consider "y = x" | "y = z" | "y \<in> set zs" by auto
  then show ?case
    using order_trans [OF b x] order_trans [OF b z] zs by cases auto
qed

lemma py_max_None [simp]: "py_max k xs = None \<longleftrightarrow> xs = []"
  by (cases xs) auto

lemma py_min_None [simp]: "py_min k xs = None \<longleftrightarrow> xs = []"
  by (cases xs) auto

lemma py_max_in: "py_max k xs = Some m \<Longrightarrow> m \<in> set xs"
  using foldl_max_in by (cases xs) fastforce+

lemma py_max_ge: "py_max k xs = Some m \<Longrightarrow> x \<in> set xs \<Longrightarrow> k x \<le> k m"
  by (cases xs) (auto simp del: foldl_Cons intro!: foldl_max_ge)

lemma py_min_in: "py_min k xs = Some m \<Longrightarrow> m \<in> set xs"
  using foldl_min_in by (cases xs) fastforce+

lemma py_min_le: "py_min k xs = Some m \<Longrightarrow> x \<in> set xs \<Longrightarrow> k m \<le> k x"
  by (cases xs) (auto simp del: foldl_Cons intro!: foldl_min_le)

lemma py_max_exists: "xs \<noteq> [] \<Longrightarrow> \<exists>m. py_max k xs = Some m"
  by (cases xs) auto

lemma py_min_exists: "xs \<noteq> [] \<Longrightarrow> \<exists>m. py_min k xs = Some m"
  by (cases xs) auto

text \<open>Where the key is injective on the elements the winner does not depend on their order.\<close>

lemma py_max_unique:
  assumes "inj_on k (set xs)" "py_max k xs = Some m" "x \<in> set xs" "\<forall>y\<in>set xs. k y \<le> k x"
  shows "m = x"
proof -
  have m: "m \<in> set xs" by (rule py_max_in [OF assms(2)])
  have "k m = k x"
    using py_max_ge [OF assms(2) assms(3)] assms(4) m by (simp add: order_antisym)
  with assms(1) m assms(3) show ?thesis by (simp add: inj_on_eq_iff)
qed

lemma py_max_set_cong:
  assumes "inj_on k (set xs)" and eq: "set xs = set ys"
  shows "py_max k xs = py_max k ys"
proof (cases "py_max k ys")
  case None
  with eq show ?thesis by auto
next
  case (Some m)
  then have m: "m \<in> set xs" "\<forall>y\<in>set xs. k y \<le> k m"
    using py_max_in [OF Some] py_max_ge [OF Some] eq by auto
  then have "xs \<noteq> []" by auto
  then obtain m' where m': "py_max k xs = Some m'" using py_max_exists by blast
  have "m' = m" by (rule py_max_unique [OF assms(1) m' m])
  with m' Some show ?thesis by simp
qed

section \<open>sorted with a key\<close>

text \<open>Python's \<open>sorted\<close> is stable, as \<open>sort_key\<close> is.\<close>

abbreviation py_sorted :: "('a \<Rightarrow> 'k::linorder) \<Rightarrow> 'a list \<Rightarrow> 'a list" where
  "py_sorted \<equiv> sort_key"

lemma sorted_map_nth_le:
  "sorted (map f xs) \<Longrightarrow> i \<le> j \<Longrightarrow> j < length xs \<Longrightarrow> f (xs ! i) \<le> f (xs ! j)"
  using sorted_nth_mono [of "map f xs" i j] by simp

text \<open>
  Walking a sorted list to the first element that satisfies \<open>P\<close> finds the minimum, by the
  same key, of the elements that satisfy \<open>P\<close>: the earliest one where keys tie.
\<close>

lemma foldl_min_first:
  fixes k :: "'a \<Rightarrow> 'k::linorder" and x :: 'a and xs :: "'a list"
  defines "m \<equiv> foldl (\<lambda>best y. if k y < k best then y else best) x xs"
  shows "List.find (\<lambda>y. k y = k m) (x # xs) = Some m"
  unfolding m_def
proof (induction xs arbitrary: x)
  case Nil
  then show ?case by simp
next
  case (Cons z zs)
  let ?f = "foldl (\<lambda>best y. if k y < k best then y else best)"
  show ?case
  proof (cases "k z < k x")
    case True
    have "k (?f z zs) \<le> k z" by (rule foldl_min_le) simp
    with True have "k x \<noteq> k (?f z zs)" by auto
    with True Cons.IH [of z] show ?thesis by simp
  next
    case False
    obtain m' where m': "?f x zs = m'" by simp
    have le: "k m' \<le> k x" unfolding m' [symmetric] by (rule foldl_min_le) simp
    have IH: "List.find (\<lambda>y. k y = k m') (x # zs) = Some m'" using Cons.IH [of x] by (simp only: m')
    have step: "?f x (z # zs) = m'" using False m' by simp
    show ?thesis
    proof (cases "k x = k m'")
      case True
      with IH show ?thesis by (simp only: step List.find.simps if_True simp_thms)
    next
      case neq: False
      with le False have "k z \<noteq> k m'" by auto
      with neq IH show ?thesis by (simp only: step List.find.simps if_False simp_thms)
    qed
  qed
qed

lemma py_min_first: "py_min k xs = Some m \<Longrightarrow> List.find (\<lambda>y. k y = k m) xs = Some m"
proof (cases xs)
  case (Cons z zs)
  assume "py_min k xs = Some m"
  with Cons have "m = foldl (\<lambda>best y. if k y < k best then y else best) z zs" by simp
  with Cons show ?thesis using foldl_min_first [of k z zs] by (simp only:)
qed simp

lemma find_Some_in: "List.find P xs = Some x \<Longrightarrow> x \<in> set xs \<and> P x"
  by (auto simp: find_Some_iff)

lemma find_filter_hd: "List.find P xs = (case filter P xs of [] \<Rightarrow> None | y # _ \<Rightarrow> Some y)"
  by (induction xs) auto

lemma hd_sort_key_py_min: "py_min k xs = (case sort_key k xs of [] \<Rightarrow> None | y # _ \<Rightarrow> Some y)"
proof (cases "sort_key k xs")
  case Nil
  then show ?thesis by (metis length_0_conv length_sort list.simps(4) py_min_None)
next
  case (Cons h t)
  then have "xs \<noteq> []" by auto
  then obtain m where m: "py_min k xs = Some m" using py_min_exists by blast
  have "sorted (map k (sort_key k xs))" by simp
  with Cons have ge: "\<forall>y\<in>set (sort_key k xs). k h \<le> k y" by auto
  have "h \<in> set (sort_key k xs)" by (simp add: Cons)
  then have "h \<in> set xs" by simp
  then have "k m \<le> k h" by (rule py_min_le [OF m])
  with ge py_min_in [OF m] have eq: "k h = k m" by (simp add: order_antisym)
  have "List.find (\<lambda>y. k y = k m) (sort_key k xs) = List.find (\<lambda>y. k y = k m) xs"
    unfolding find_filter_hd sort_key_stable ..
  also have "\<dots> = Some m" by (rule py_min_first [OF m])
  finally have "h = m" using eq Cons by simp
  with Cons m show ?thesis by simp
qed

lemma find_sort_key: "List.find P (sort_key k xs) = py_min k (filter P xs)"
  by (simp add: find_filter_hd filter_sort hd_sort_key_py_min)

section \<open>Strings\<close>

definition startswith :: "string \<Rightarrow> string \<Rightarrow> bool" where
  [py_simps]: "startswith p s = (take (length p) s = p)"

lemma startswith_append [simp]: "startswith p (p @ s)"
  by (simp add: startswith_def)

text \<open>\<open>s.split(c, 1)\<close> when \<open>c in s\<close>: what is before the first \<open>c\<close>, what is after it.\<close>

fun split_first :: "char \<Rightarrow> string \<Rightarrow> (string \<times> string) option" where
  "split_first c [] = None"
| "split_first c (x # xs) =
     (if x = c then Some ([], xs)
      else map_option (\<lambda>(p, r). (x # p, r)) (split_first c xs))"

lemma split_first_None: "split_first c s = None \<longleftrightarrow> c \<notin> set s"
  by (induction s) (auto split: option.splits)

lemma split_first_Some:
  "split_first c s = Some (p, r) \<longleftrightarrow> s = p @ c # r \<and> c \<notin> set p"
proof (induction s arbitrary: p)
  case Nil
  then show ?case by simp
next
  case (Cons x xs)
  show ?case
  proof (cases p)
    case Nil
    then show ?thesis by (auto split: option.splits)
  next
    case (Cons y ys)
    then show ?thesis using Cons.IH by auto
  qed
qed

lemma split_first_append: "c \<notin> set p \<Longrightarrow> split_first c (p @ c # r) = Some (p, r)"
  by (simp add: split_first_Some)

text \<open>\<open>sub in s\<close>\<close>

fun contains :: "string \<Rightarrow> string \<Rightarrow> bool" where
  "contains sub [] = (sub = [])"
| "contains sub (x # xs) = (startswith sub (x # xs) \<or> contains sub xs)"

lemma contains_iff: "contains sub s \<longleftrightarrow> (\<exists>a b. s = a @ sub @ b)"
proof (induction s)
  case Nil
  then show ?case by simp
next
  case (Cons x xs)
  show ?case
  proof
    assume "contains sub (x # xs)"
    then consider "startswith sub (x # xs)" | "contains sub xs" by auto
    then show "\<exists>a b. x # xs = a @ sub @ b"
    proof cases
      case 1
      then have "x # xs = [] @ sub @ drop (length sub) (x # xs)"
        by (metis append_take_drop_id append_Nil startswith_def)
      then show ?thesis by blast
    next
      case 2
      with Cons.IH obtain a b where "xs = a @ sub @ b" by auto
      then have "x # xs = (x # a) @ sub @ b" by simp
      then show ?thesis by blast
    qed
  next
    assume "\<exists>a b. x # xs = a @ sub @ b"
    then obtain a b where ab: "x # xs = a @ sub @ b" by blast
    show "contains sub (x # xs)"
    proof (cases a)
      case Nil
      with ab have "startswith sub (x # xs)" by (simp add: startswith_def)
      then show ?thesis by simp
    next
      case (Cons y ys)
      with ab have "xs = ys @ sub @ b" by simp
      with Cons.IH show ?thesis by auto
    qed
  qed
qed

text \<open>\<open>str.lower()\<close> on ASCII.\<close>

definition lower_char :: "char \<Rightarrow> char" where
  "lower_char c =
     (let n = of_char c :: nat in if 65 \<le> n \<and> n \<le> 90 then char_of (n + 32) else c)"

definition lower :: "string \<Rightarrow> string" where
  "lower s = map lower_char s"

fun join :: "string \<Rightarrow> string list \<Rightarrow> string" where
  "join sep [] = []"
| "join sep [x] = x"
| "join sep (x # y # ys) = x @ sep @ join sep (y # ys)"

section \<open>str of an int\<close>

definition digit_char :: "nat \<Rightarrow> char" where
  "digit_char d = char_of (48 + d)"

fun str_nat :: "nat \<Rightarrow> string" where
  "str_nat n = (if n < 10 then [digit_char n] else str_nat (n div 10) @ [digit_char (n mod 10)])"

declare str_nat.simps [simp del]

definition str_int :: "int \<Rightarrow> string" where
  "str_int i = (if i < 0 then CHR ''-'' # str_nat (nat (- i)) else str_nat (nat i))"

lemma digit_char_inj: "d < 10 \<Longrightarrow> e < 10 \<Longrightarrow> digit_char d = digit_char e \<Longrightarrow> d = e"
proof -
  assume "d < 10" "e < 10" "digit_char d = digit_char e"
  then have "of_char (digit_char d) = (of_char (digit_char e) :: nat)" by simp
  then show "d = e" using \<open>d < 10\<close> \<open>e < 10\<close> by (simp add: digit_char_def)
qed

definition is_digit :: "char \<Rightarrow> bool" where
  "is_digit c = (let n = of_char c :: nat in 48 \<le> n \<and> n \<le> 57)"

lemma is_digit_digit_char: "d < 10 \<Longrightarrow> is_digit (digit_char d)"
  by (simp add: is_digit_def digit_char_def)

lemma str_nat_digits: "c \<in> set (str_nat n) \<Longrightarrow> is_digit c"
proof (induction n rule: str_nat.induct)
  case (1 n)
  then show ?case
    by (auto simp: str_nat.simps [of n] is_digit_digit_char split: if_splits)
qed

lemma str_nat_nonempty [simp]: "str_nat n \<noteq> []"
  by (subst str_nat.simps) simp

lemma str_nat_inj: "str_nat m = str_nat n \<Longrightarrow> m = n"
proof (induction m arbitrary: n rule: str_nat.induct)
  case (1 m)
  show ?case
  proof (cases "m < 10")
    case True
    have "n < 10"
    proof (rule ccontr)
      assume "\<not> n < 10"
      with True "1.prems" have "[] = str_nat (n div 10)"
        by (simp add: str_nat.simps [of m] str_nat.simps [of n])
      then show False by (metis str_nat_nonempty)
    qed
    with True "1.prems" show ?thesis
      by (simp add: str_nat.simps [of m] str_nat.simps [of n] digit_char_inj)
  next
    case m: False
    have n: "\<not> n < 10"
    proof
      assume "n < 10"
      with m "1.prems" have "str_nat (m div 10) = []"
        by (simp add: str_nat.simps [of m] str_nat.simps [of n])
      then show False by simp
    qed
    from m n "1.prems" have eq: "str_nat (m div 10) = str_nat (n div 10)"
      and d: "digit_char (m mod 10) = digit_char (n mod 10)"
      by (simp_all add: str_nat.simps [of m] str_nat.simps [of n])
    from "1.IH" [OF m eq] have "m div 10 = n div 10" .
    moreover from d have "m mod 10 = n mod 10" by (intro digit_char_inj) auto
    ultimately show ?thesis by (metis div_mult_mod_eq)
  qed
qed

lemma str_int_inj: "str_int i = str_int j \<Longrightarrow> i = j"
proof -
  assume eq: "str_int i = str_int j"
  have no_minus: "hd (str_nat n) \<noteq> CHR ''-''" for n
    using str_nat_digits [of "hd (str_nat n)" n] by (auto simp: is_digit_def)
  show "i = j"
  proof (cases "i < 0"; cases "j < 0")
    assume "i < 0" "j < 0"
    with eq have "nat (- i) = nat (- j)" by (simp add: str_int_def str_nat_inj)
    with \<open>i < 0\<close> \<open>j < 0\<close> show ?thesis by simp
  next
    assume "i < 0" "\<not> j < 0"
    with eq no_minus [of "nat j"] show ?thesis by (metis list.sel(1) str_int_def)
  next
    assume "\<not> i < 0" "j < 0"
    with eq no_minus [of "nat i"] show ?thesis by (metis list.sel(1) str_int_def)
  next
    assume "\<not> i < 0" "\<not> j < 0"
    with eq have "nat i = nat j" by (simp add: str_int_def str_nat_inj)
    with \<open>\<not> i < 0\<close> \<open>\<not> j < 0\<close> show ?thesis by simp
  qed
qed

lemma str_int_no_colon: "CHR '':'' \<notin> set (str_int i)"
  using str_nat_digits [of "CHR '':''"] by (auto simp: str_int_def is_digit_def)

lemma str_int_nonempty [simp]: "str_int i \<noteq> []"
  by (simp add: str_int_def)

text \<open>Keys built as \<open>f"{prefix}:{n}:{rest}"\<close> determine \<open>n\<close> and \<open>rest\<close>.\<close>

lemma append_colon_inj:
  fixes a b x y :: string
  assumes "c \<notin> set a" "c \<notin> set b" "a @ c # x = b @ c # y"
  shows "a = b \<and> x = y"
proof -
  have "Some (a, x) = split_first c (a @ c # x)"
    by (rule split_first_append [OF assms(1), symmetric])
  also have "\<dots> = split_first c (b @ c # y)" by (simp only: assms(3))
  also have "\<dots> = Some (b, y)" by (rule split_first_append [OF assms(2)])
  finally show ?thesis by simp
qed

end
