(* ===== verification/PyJson.thy ===== *)
theory PyJson
  imports PyPrelude
begin

text \<open>
  JSON documents as Python sees them after \<open>json.loads\<close>, and what the modelled code does
  with values of unknown type: truthiness, iteration, \<open>dict.get\<close>, \<open>int(...)\<close>,
  \<open>str(...)\<close>. Exceptions are values of \<open>py_error\<close>. A dict is an association list,
  because iteration order matters to some callers. \<open>repr\<close> of floats, lists and dicts is a
  parameter (\<open>repr\<close> of CPython); everything else of \<open>str(...)\<close> is written out.
\<close>

datatype py_error = TypeError | ValueError | KeyError | AttributeError | RuntimeError string

datatype json =
    JNull
  | JBool bool
  | JInt int
  | JFloat rat
  | JStr string
  | JList "json list"
  | JDict "(string \<times> json) list"

type_synonym dict = "(string \<times> json) list"

definition jget :: "dict \<Rightarrow> string \<Rightarrow> json option" where
  "jget d k = map_of d k"

text \<open>\<open>d.get(k)\<close> with the default \<open>None\<close>, and with an explicit default.\<close>

definition jget_null :: "dict \<Rightarrow> string \<Rightarrow> json" where
  "jget_null d k = (case jget d k of None \<Rightarrow> JNull | Some v \<Rightarrow> v)"

definition jget_or :: "dict \<Rightarrow> string \<Rightarrow> json \<Rightarrow> json" where
  "jget_or d k v0 = (case jget d k of None \<Rightarrow> v0 | Some v \<Rightarrow> v)"

fun json_truthy :: "json \<Rightarrow> bool" where
  "json_truthy JNull = False"
| "json_truthy (JBool b) = b"
| "json_truthy (JInt i) = (i \<noteq> 0)"
| "json_truthy (JFloat r) = (r \<noteq> 0)"
| "json_truthy (JStr s) = (s \<noteq> [])"
| "json_truthy (JList xs) = (xs \<noteq> [])"
| "json_truthy (JDict d) = (d \<noteq> [])"

definition json_or :: "json \<Rightarrow> json \<Rightarrow> json" where
  "json_or a b = (if json_truthy a then a else b)"

text \<open>\<open>for x in v\<close>: a str yields its characters, a dict its keys, a scalar raises.\<close>

fun py_iter :: "json \<Rightarrow> py_error + json list" where
  "py_iter (JList xs) = Inr xs"
| "py_iter (JStr s) = Inr (map (\<lambda>c. JStr [c]) s)"
| "py_iter (JDict d) = Inr (map (\<lambda>(k, _). JStr k) d)"
| "py_iter _ = Inl TypeError"

text \<open>\<open>int(s)\<close> of a str: surrounding white space, a sign, digits with single underscores.\<close>

definition is_space :: "char \<Rightarrow> bool" where
  "is_space c = (c \<in> {CHR '' '', CHR 0x09, CHR 0x0A, CHR 0x0B, CHR 0x0C, CHR 0x0D,
     CHR 0x1C, CHR 0x1D, CHR 0x1E, CHR 0x1F, CHR 0x85, CHR 0xA0})"

definition py_strip :: "string \<Rightarrow> string" where
  "py_strip s = rev (dropWhile is_space (rev (dropWhile is_space s)))"

fun digits_val :: "string \<Rightarrow> int \<Rightarrow> bool \<Rightarrow> int option" where
  "digits_val [] acc prev = (if prev then Some acc else None)"
| "digits_val (c # cs) acc prev =
     (if is_digit c then digits_val cs (acc * 10 + (of_char c - 48)) True
      else if c = CHR ''_'' \<and> prev then digits_val cs acc False
      else None)"

fun signed_val :: "string \<Rightarrow> int option" where
  "signed_val [] = None"
| "signed_val (c # cs) =
     (if c = CHR ''-'' then map_option uminus (digits_val cs 0 False)
      else if c = CHR ''+'' then digits_val cs 0 False
      else digits_val (c # cs) 0 False)"

definition int_of_str :: "string \<Rightarrow> py_error + int" where
  "int_of_str s = (case signed_val (py_strip s) of None \<Rightarrow> Inl ValueError | Some i \<Rightarrow> Inr i)"

fun py_int :: "json \<Rightarrow> py_error + int" where
  "py_int (JInt i) = Inr i"
| "py_int (JBool b) = Inr (if b then 1 else 0)"
| "py_int (JFloat r) = Inr (if 0 \<le> r then \<lfloor>r\<rfloor> else \<lceil>r\<rceil>)"
| "py_int (JStr s) = int_of_str s"
| "py_int _ = Inl TypeError"

fun py_str :: "(json \<Rightarrow> string) \<Rightarrow> json \<Rightarrow> string" where
  "py_str repr (JStr s) = s"
| "py_str repr JNull = ''None''"
| "py_str repr (JBool b) = (if b then ''True'' else ''False'')"
| "py_str repr (JInt i) = str_int i"
| "py_str repr j = repr j"

text \<open>Sequencing of computations that may raise; \<open>d[k] = v\<close> and \<open>{**d, k: v}\<close>; a receiver that
must be a dict for its \<open>.get\<close>.\<close>

definition rbind :: "'e + 'a \<Rightarrow> ('a \<Rightarrow> 'e + 'b) \<Rightarrow> 'e + 'b" where
  "rbind r f = (case r of Inl e \<Rightarrow> Inl e | Inr a \<Rightarrow> f a)"

lemma rbind_simps [simp]: "rbind (Inl e) f = Inl e" "rbind (Inr a) f = f a"
  by (simp_all add: rbind_def)

lemma rbind_Inr: "rbind r f = Inr b \<longleftrightarrow> (\<exists>a. r = Inr a \<and> f a = Inr b)"
  by (cases r) simp_all

fun rmap :: "('a \<Rightarrow> 'e + 'b) \<Rightarrow> 'a list \<Rightarrow> 'e + 'b list" where
  "rmap f [] = Inr []"
| "rmap f (x # xs) = rbind (f x) (\<lambda>y. rbind (rmap f xs) (\<lambda>ys. Inr (y # ys)))"

lemma rmap_fails: "x \<in> set xs \<Longrightarrow> f x = Inl e \<Longrightarrow> \<exists>e. rmap f xs = Inl e"
proof (induction xs)
  case (Cons a xs)
  then show ?case by (cases "f a"; cases "rmap f xs") auto
qed simp

lemma rmap_member: "rmap f xs = Inr ys \<Longrightarrow> x \<in> set xs \<Longrightarrow> \<exists>y\<in>set ys. f x = Inr y"
proof (induction xs arbitrary: ys)
  case (Cons a xs)
  then show ?case by (cases "f a"; cases "rmap f xs") auto
qed simp

fun dict_set :: "dict \<Rightarrow> string \<Rightarrow> json \<Rightarrow> dict" where
  "dict_set [] k v = [(k, v)]"
| "dict_set ((k', v') # d) k v = (if k' = k then (k, v) # d else (k', v') # dict_set d k v)"

lemma jget_dict_set: "jget (dict_set d k v) k' = (if k' = k then Some v else jget d k')"
  by (induction d k v rule: dict_set.induct) (auto simp: jget_def)

fun must_dict :: "json \<Rightarrow> py_error + dict" where
  "must_dict (JDict d) = Inr d"
| "must_dict _ = Inl AttributeError"

section \<open>Keyword construction from a document\<close>

text \<open>
  \<open>Cls(**data)\<close>: unknown keys raise, a missing key takes the field's default. A value of
  another type than the field's cannot be a field of the model's record, so it is refused
  here; the documents the code writes never hold one.
\<close>

definition kwarg :: "dict \<Rightarrow> string \<Rightarrow> (json \<Rightarrow> 'a option) \<Rightarrow> 'a \<Rightarrow> 'a option" where
  "kwarg d k conv v0 = (case jget d k of None \<Rightarrow> Some v0 | Some j \<Rightarrow> conv j)"

definition kwarg_req :: "dict \<Rightarrow> string \<Rightarrow> (json \<Rightarrow> 'a option) \<Rightarrow> 'a option" where
  "kwarg_req d k conv = (case jget d k of None \<Rightarrow> None | Some j \<Rightarrow> conv j)"

definition only_keys :: "dict \<Rightarrow> string list \<Rightarrow> bool" where
  "only_keys d ks = list_all (\<lambda>kv. fst kv \<in> set ks) d"

fun as_str :: "json \<Rightarrow> string option" where
  "as_str (JStr s) = Some s"
| "as_str _ = None"

fun as_int :: "json \<Rightarrow> int option" where
  "as_int (JInt i) = Some i"
| "as_int _ = None"

fun as_bool :: "json \<Rightarrow> bool option" where
  "as_bool (JBool b) = Some b"
| "as_bool _ = None"

fun as_rat :: "json \<Rightarrow> rat option" where
  "as_rat (JFloat r) = Some r"
| "as_rat _ = None"

fun as_opt :: "(json \<Rightarrow> 'a option) \<Rightarrow> json \<Rightarrow> 'a option option" where
  "as_opt conv JNull = Some None"
| "as_opt conv j = map_option Some (conv j)"

definition of_opt :: "('a \<Rightarrow> json) \<Rightarrow> 'a option \<Rightarrow> json" where
  "of_opt f v = (case v of None \<Rightarrow> JNull | Some a \<Rightarrow> f a)"

definition as_list :: "(json \<Rightarrow> 'a option) \<Rightarrow> json \<Rightarrow> 'a list option" where
  "as_list conv j = (case j of JList xs \<Rightarrow> those (map conv xs) | _ \<Rightarrow> None)"

lemma as_opt_str [simp]: "as_opt as_str (of_opt JStr v) = Some v"
  by (simp add: of_opt_def split: option.splits)

lemma as_opt_int [simp]: "as_opt as_int (of_opt JInt v) = Some v"
  by (simp add: of_opt_def split: option.splits)

lemma those_map_Some: "(\<And>x. x \<in> set xs \<Longrightarrow> f x = Some (g x)) \<Longrightarrow> those (map f xs) = Some (map g xs)"
  by (induction xs) simp_all

lemma as_list_str [simp]: "as_list as_str (JList (map JStr xs)) = Some xs"
  using those_map_Some [of xs "as_str \<circ> JStr" id] by (simp add: as_list_def)

lemma as_list_or_nil [simp]:
  "as_list as_str (json_or (JList (map JStr xs)) (JList [])) = Some xs"
  using as_list_str [of xs] by (cases xs) (simp_all add: json_or_def as_list_def)

lemma as_list_map:
  assumes "\<And>x. dec (enc x) = Some x"
  shows "as_list dec (JList (map enc xs)) = Some xs"
  using those_map_Some [of xs "dec \<circ> enc" id] assms by (simp add: as_list_def)

lemmas kw_simps = kwarg_def kwarg_req_def only_keys_def jget_def

section \<open>int(str(i)) = i\<close>

lemma is_digit_not_space: "is_digit c \<Longrightarrow> \<not> is_space c"
  by (auto simp: is_digit_def is_space_def)

lemma of_char_digit: "d < 10 \<Longrightarrow> (of_char (digit_char d) :: int) - 48 = int d"
proof -
  assume d: "d < 10"
  have "(of_char (digit_char d) :: int) = int (of_char (digit_char d))"
    by (simp only: of_nat_of_char)
  also have "(of_char (digit_char d) :: nat) = 48 + d" using d by (simp add: digit_char_def)
  finally show ?thesis by simp
qed

lemma digits_val_snoc:
  assumes "\<forall>c\<in>set s. is_digit c" "d < 10"
  shows "digits_val (s @ [digit_char d]) acc prev =
    (case digits_val s acc True of Some n \<Rightarrow> Some (n * 10 + int d) | None \<Rightarrow> None)"
  using assms
proof (induction s arbitrary: acc prev)
  case Nil
  then show ?case by (simp add: is_digit_digit_char of_char_digit)
next
  case (Cons c cs)
  then show ?case by simp
qed

lemma digits_val_str_nat: "digits_val (str_nat n) 0 True = Some (int n)"
proof (induction n rule: str_nat.induct)
  case (1 n)
  show ?case
  proof (cases "n < 10")
    case True
    then show ?thesis
      by (simp add: str_nat.simps [of n] is_digit_digit_char of_char_digit)
  next
    case False
    have "digits_val (str_nat n) 0 True = Some (int (n div 10) * 10 + int (n mod 10))"
      using False "1.IH" digits_val_snoc [of "str_nat (n div 10)" "n mod 10" 0 True]
      by (simp add: str_nat.simps [of n] str_nat_digits)
    moreover have "int (n div 10) * 10 + int (n mod 10) = int n" by presburger
    ultimately show ?thesis by simp
  qed
qed

lemma digits_val_prev:
  "s \<noteq> [] \<Longrightarrow> is_digit (hd s) \<Longrightarrow> digits_val s acc False = digits_val s acc True"
  by (cases s) auto

lemma strip_id: "\<forall>c\<in>set s. \<not> is_space c \<Longrightarrow> py_strip s = s"
proof -
  assume s: "\<forall>c\<in>set s. \<not> is_space c"
  have "dropWhile is_space xs = xs" if "\<forall>c\<in>set xs. \<not> is_space c" for xs
    using that by (cases xs) auto
  from this [of s] this [of "rev s"] s show ?thesis by (simp add: py_strip_def)
qed

lemma str_nat_hd_digit: "is_digit (hd (str_nat n))"
  by (rule str_nat_digits [of _ n]) simp

lemma signed_val_str_nat: "signed_val (str_nat n) = Some (int n)"
proof -
  obtain c cs where cs: "str_nat n = c # cs" by (meson neq_Nil_conv str_nat_nonempty)
  then have "is_digit c" using str_nat_hd_digit [of n] by simp
  then have "c \<noteq> CHR ''-''" "c \<noteq> CHR ''+''" by (auto simp: is_digit_def)
  with cs show ?thesis
    using digits_val_str_nat [of n] digits_val_prev [of "str_nat n" 0] str_nat_hd_digit [of n]
    by simp
qed

lemma int_of_str_str_int: "int_of_str (str_int i) = Inr i"
proof -
  have ns: "\<not> is_space c" if "c \<in> set (str_int i)" for c
  proof (cases "c = CHR ''-''")
    case True
    then show ?thesis by (simp add: is_space_def)
  next
    case False
    with that have "is_digit c" by (auto simp: str_int_def str_nat_digits split: if_splits)
    then show ?thesis by (rule is_digit_not_space)
  qed
  then have "py_strip (str_int i) = str_int i" by (simp add: strip_id)
  moreover have "signed_val (str_int i) = Some i"
    using digits_val_str_nat [of "nat (- i)"] digits_val_prev [of "str_nat (nat (- i))" 0]
      str_nat_hd_digit [of "nat (- i)"]
    by (simp add: str_int_def signed_val_str_nat)
  ultimately show ?thesis by (simp add: int_of_str_def)
qed

end
