(* ===== verification/Valkey.thy ===== *)
theory Valkey
  imports PyJson
begin

text \<open>
  The Valkey server is not part of the repository: its client is a parameter, a record of
  the commands the code sends, over a server state \<open>'s\<close> nobody looks into. A command may
  raise (network failure); a read returns \<open>None\<close> for a missing or expired key. What
  the code relies on when it relies on anything is \<open>valkey_laws\<close>, the documented behaviour
  of GET, SET with EX and DEL; \<open>mem_valkey\<close> is an instance of it for the witnesses. Times
  are microseconds, EX is in seconds.

  A stored text is either the rendering of a JSON document or some other text, which
  \<open>json.loads\<close> rejects with ValueError.
\<close>

datatype 'a reply = Raised | Ok 'a

datatype blob = JsonText json | RawText string

fun json_loads :: "blob \<Rightarrow> json option" where
  "json_loads (JsonText j) = Some j"
| "json_loads (RawText s) = None"

definition json_dumps :: "json \<Rightarrow> blob" where
  "json_dumps j = JsonText j"

lemma json_loads_dumps [simp]: "json_loads (json_dumps j) = Some j"
  by (simp add: json_dumps_def)

record 's valkey =
  vk_get :: "int \<Rightarrow> 's \<Rightarrow> string \<Rightarrow> blob option reply"
  vk_set :: "int \<Rightarrow> 's \<Rightarrow> string \<Rightarrow> blob \<Rightarrow> nat option \<Rightarrow> 's reply"
  vk_del :: "int \<Rightarrow> 's \<Rightarrow> string list \<Rightarrow> 's reply"

definition seconds :: "nat \<Rightarrow> int" where
  "seconds n = int n * 1000000"

definition expired :: "int \<Rightarrow> nat option \<Rightarrow> int \<Rightarrow> bool" where
  "expired t ex t' = (case ex of None \<Rightarrow> False | Some n \<Rightarrow> t + seconds n \<le> t')"

definition valkey_laws :: "'s valkey \<Rightarrow> bool" where
  "valkey_laws vk \<longleftrightarrow>
     (\<forall>t s k v ex s' t' k'. vk_set vk t s k v ex = Ok s' \<longrightarrow> t \<le> t' \<longrightarrow>
        vk_get vk t' s' k' =
          (if k' = k then Ok (if expired t ex t' then None else Some v)
           else vk_get vk t' s k')) \<and>
     (\<forall>t s ks s' t' k'. vk_del vk t s ks = Ok s' \<longrightarrow> t \<le> t' \<longrightarrow>
        vk_get vk t' s' k' = (if k' \<in> set ks then Ok None else vk_get vk t' s k'))"

lemma valkey_get_set:
  "valkey_laws vk \<Longrightarrow> vk_set vk t s k v ex = Ok s' \<Longrightarrow> t \<le> t' \<Longrightarrow>
     vk_get vk t' s' k' =
       (if k' = k then Ok (if expired t ex t' then None else Some v) else vk_get vk t' s k')"
  unfolding valkey_laws_def by blast

lemma valkey_get_del:
  "valkey_laws vk \<Longrightarrow> vk_del vk t s ks = Ok s' \<Longrightarrow> t \<le> t' \<Longrightarrow>
     vk_get vk t' s' k' = (if k' \<in> set ks then Ok None else vk_get vk t' s k')"
  unfolding valkey_laws_def by blast

text \<open>A server that accepts every write; reads of a key nothing wrote may still raise.\<close>

definition valkey_up :: "'s valkey \<Rightarrow> bool" where
  "valkey_up vk \<longleftrightarrow> (\<forall>t s k v ex. vk_set vk t s k v ex \<noteq> Raised) \<and>
     (\<forall>t s ks. vk_del vk t s ks \<noteq> Raised)"

lemma valkey_up_set: "valkey_up vk \<Longrightarrow> \<exists>s'. vk_set vk t s k v ex = Ok s'"
  unfolding valkey_up_def by (metis reply.exhaust)

lemma valkey_up_del: "valkey_up vk \<Longrightarrow> \<exists>s'. vk_del vk t s ks = Ok s'"
  unfolding valkey_up_def by (metis reply.exhaust)

section \<open>An in-memory instance\<close>

type_synonym mem = "string \<Rightarrow> (blob \<times> int option) option"

definition mem_get :: "int \<Rightarrow> mem \<Rightarrow> string \<Rightarrow> blob option reply" where
  "mem_get t s k = Ok (case s k of None \<Rightarrow> None
     | Some (v, None) \<Rightarrow> Some v
     | Some (v, Some e) \<Rightarrow> if e \<le> t then None else Some v)"

definition mem_set :: "int \<Rightarrow> mem \<Rightarrow> string \<Rightarrow> blob \<Rightarrow> nat option \<Rightarrow> mem reply" where
  "mem_set t s k v ex = Ok (s(k \<mapsto> (v, map_option (\<lambda>n. t + seconds n) ex)))"

definition mem_del :: "int \<Rightarrow> mem \<Rightarrow> string list \<Rightarrow> mem reply" where
  "mem_del t s ks = Ok (\<lambda>k. if k \<in> set ks then None else s k)"

definition mem_valkey :: "mem valkey" where
  "mem_valkey = \<lparr>vk_get = mem_get, vk_set = mem_set, vk_del = mem_del\<rparr>"

lemmas mem_valkey_simps = mem_valkey_def mem_get_def mem_set_def mem_del_def

lemma mem_valkey_laws: "valkey_laws mem_valkey"
  by (auto simp: valkey_laws_def mem_valkey_simps expired_def split: option.splits)

lemma mem_valkey_up: "valkey_up mem_valkey"
  by (simp add: valkey_up_def mem_valkey_simps)

section \<open>Read-through caching\<close>

text \<open>
  The resolvers share one pattern: any failure of a cache read is a miss, any failure of a
  write is ignored, and no client (\<open>valkey is None\<close>) means no cache.
\<close>

definition cache_read ::
    "'s valkey option \<Rightarrow> (json \<Rightarrow> 'a option) \<Rightarrow> int \<Rightarrow> 's \<Rightarrow> string \<Rightarrow> 'a option" where
  "cache_read vk dec t s key =
     (case vk of None \<Rightarrow> None
      | Some c \<Rightarrow>
         (case vk_get c t s key of
            Ok (Some raw) \<Rightarrow> Option.bind (json_loads raw) dec
          | _ \<Rightarrow> None))"

definition cache_write ::
    "'s valkey option \<Rightarrow> ('a \<Rightarrow> json) \<Rightarrow> int \<Rightarrow> 's \<Rightarrow> string \<Rightarrow> nat \<Rightarrow> 'a \<Rightarrow> 's" where
  "cache_write vk enc t s key ttl a =
     (case vk of None \<Rightarrow> s
      | Some c \<Rightarrow>
         (case vk_set c t s key (json_dumps (enc a)) (Some ttl) of Ok s' \<Rightarrow> s' | Raised \<Rightarrow> s))"

definition cache_delete :: "'s valkey option \<Rightarrow> int \<Rightarrow> 's \<Rightarrow> string list \<Rightarrow> 's" where
  "cache_delete vk t s keys =
     (case vk of None \<Rightarrow> s
      | Some c \<Rightarrow> (case vk_del c t s keys of Ok s' \<Rightarrow> s' | Raised \<Rightarrow> s))"

text \<open>
  The contract a resolver's serialisation keeps: what is written is what is read back. Under
  it, the pair of operations behaves like a map with expiry.
\<close>

locale json_codec =
  fixes enc :: "'a \<Rightarrow> json" and dec :: "json \<Rightarrow> 'a option"
  assumes dec_enc: "dec (enc a) = Some a"
begin

lemma read_after_write:
  assumes "valkey_laws c" "vk_set c t s key (json_dumps (enc a)) (Some ttl) = Ok s'"
    and "t \<le> t'" "t' < t + seconds ttl"
  shows "cache_read (Some c) dec t' (cache_write (Some c) enc t s key ttl a) key = Some a"
  using assms valkey_get_set [OF assms(1,2,3), of key]
  by (simp add: cache_read_def cache_write_def expired_def dec_enc)

lemma read_other_key:
  assumes "valkey_laws c" "t \<le> t'" "key' \<noteq> key"
  shows "cache_read (Some c) dec t' (cache_write (Some c) enc t s key ttl a) key'
       = cache_read (Some c) dec t' s key'"
  using assms valkey_get_set [OF assms(1) _ assms(2), of s key _ _ _ key']
  by (auto simp: cache_read_def cache_write_def split: reply.splits)

lemma read_after_expiry:
  assumes "valkey_laws c" "vk_set c t s key (json_dumps (enc a)) (Some ttl) = Ok s'"
    and "t \<le> t'" "t + seconds ttl \<le> t'"
  shows "cache_read (Some c) dec t' (cache_write (Some c) enc t s key ttl a) key = None"
  using assms valkey_get_set [OF assms(1,2,3), of key]
  by (simp add: cache_read_def cache_write_def expired_def)

end

lemma cache_read_deleted:
  assumes "valkey_laws c" "vk_del c t s keys = Ok s'" "t \<le> t'" "key \<in> set keys"
  shows "cache_read (Some c) dec t' (cache_delete (Some c) t s keys) key = None"
  using assms valkey_get_del [OF assms(1,2,3), of key]
  by (simp add: cache_read_def cache_delete_def)

lemma cache_read_no_client [simp]: "cache_read None dec t s key = None"
  by (simp add: cache_read_def)

lemma cache_write_no_client [simp]: "cache_write None enc t s key ttl a = s"
  by (simp add: cache_write_def)

end
