(* ===== verification/Heuristics.thy ===== *)
theory Heuristics
  imports PyJson
begin

text \<open>
  \<open>shared/routing/heuristics.py\<close>: the stage-1 rules, tried in priority order. A rule's
  \<open>match\<close> is a JSON value; an \<open>action\<close> is a dict of strings.
\<close>

record heuristic_rule =
  priority :: int
  match :: json
  action :: "(string \<times> string) list"
  rule_name :: string

record request_signals =
  tool_names :: "string list"
  endpoint :: string
  has_image :: bool
  sig_model :: string

definition matches_tool_name_present :: "json \<Rightarrow> request_signals \<Rightarrow> bool" where
  "matches_tool_name_present v sg =
     (case v of JList xs \<Rightarrow> list_ex (\<lambda>n. n \<in> JStr ` set (tool_names sg)) xs | _ \<Rightarrow> False)"

definition matches_endpoint :: "json \<Rightarrow> request_signals \<Rightarrow> bool" where
  "matches_endpoint v sg = (case v of JStr s \<Rightarrow> endpoint sg = s | _ \<Rightarrow> False)"

definition matches_has_image :: "json \<Rightarrow> request_signals \<Rightarrow> bool" where
  "matches_has_image v sg = (case v of JBool b \<Rightarrow> has_image sg = b | _ \<Rightarrow> False)"

definition matches_model_prefix :: "json \<Rightarrow> request_signals \<Rightarrow> bool" where
  "matches_model_prefix v sg = (case v of JStr s \<Rightarrow> startswith s (sig_model sg) | _ \<Rightarrow> False)"

definition PREDICATES :: "(string \<times> (json \<Rightarrow> request_signals \<Rightarrow> bool)) list" where
  "PREDICATES =
     [(''tool_name_present'', matches_tool_name_present),
      (''endpoint'', matches_endpoint),
      (''has_image'', matches_has_image),
      (''model_prefix'', matches_model_prefix)]"

definition rule_matches :: "json \<Rightarrow> request_signals \<Rightarrow> bool" where
  "rule_matches m sg =
     (case m of
        JDict d \<Rightarrow>
          d \<noteq> [] \<and>
          list_all (\<lambda>(k, v). case map_of PREDICATES k of None \<Rightarrow> True | Some p \<Rightarrow> p v sg) d
      | _ \<Rightarrow> False)"

definition evaluate_rules ::
    "request_signals \<Rightarrow> heuristic_rule list \<Rightarrow> (string \<times> string) list option" where
  "evaluate_rules sg rules =
     map_option action
       (List.find (\<lambda>r. rule_matches (match r) sg) (py_sorted priority rules))"

section \<open>Which rule fires\<close>

lemma evaluate_rules_py_min:
  "evaluate_rules sg rules =
     map_option action (py_min priority (filter (\<lambda>r. rule_matches (match r) sg) rules))"
  by (simp add: evaluate_rules_def find_sort_key)

lemma evaluate_rules_None:
  "evaluate_rules sg rules = None \<longleftrightarrow> (\<forall>r\<in>set rules. \<not> rule_matches (match r) sg)"
  by (auto simp: evaluate_rules_py_min filter_empty_conv)

text \<open>
  The firing rule has the least priority among those that match; among those with that
  priority it is the first in the list.
\<close>

lemma evaluate_rules_first_least:
  assumes "evaluate_rules sg rules = Some a"
  obtains r where "r \<in> set rules" "rule_matches (match r) sg" "action r = a"
    and "\<And>q. q \<in> set rules \<Longrightarrow> rule_matches (match q) sg \<Longrightarrow> priority r \<le> priority q"
    and "List.find (\<lambda>q. rule_matches (match q) sg \<and> priority q = priority r) rules = Some r"
proof -
  let ?ms = "filter (\<lambda>r. rule_matches (match r) sg) rules"
  from assms obtain r where r: "py_min priority ?ms = Some r" "action r = a"
    by (auto simp: evaluate_rules_py_min)
  have "List.find (\<lambda>q. priority q = priority r) ?ms = Some r" by (rule py_min_first [OF r(1)])
  then have "List.find (\<lambda>q. rule_matches (match q) sg \<and> priority q = priority r) rules = Some r"
    by (simp add: find_filter_hd conj_commute)
  moreover have "\<And>q. q \<in> set rules \<Longrightarrow> rule_matches (match q) sg \<Longrightarrow> priority r \<le> priority q"
    using py_min_le [OF r(1)] by simp
  ultimately show ?thesis using that [of r] py_min_in [OF r(1)] r(2) by simp
qed

section \<open>Properties\<close>

text \<open>
  The heuristic stage answers with the action of the first rule, in list order, among the
  matching rules of least priority number; it answers nothing exactly when no rule matches.
\<close>

theorem evaluate_rules_spec:
  "(evaluate_rules sg rules = None \<longleftrightarrow> (\<forall>r\<in>set rules. \<not> rule_matches (match r) sg)) \<and>
   (evaluate_rules sg rules = Some a \<longrightarrow>
     (\<exists>r\<in>set rules. action r = a \<and> rule_matches (match r) sg \<and>
       (\<forall>q\<in>set rules. rule_matches (match q) sg \<longrightarrow> priority r \<le> priority q) \<and>
       List.find (\<lambda>q. rule_matches (match q) sg \<and> priority q = priority r) rules = Some r))"
proof (intro conjI impI)
  show "evaluate_rules sg rules = None \<longleftrightarrow> (\<forall>r\<in>set rules. \<not> rule_matches (match r) sg)"
    by (rule evaluate_rules_None)
next
  assume "evaluate_rules sg rules = Some a"
  then show "\<exists>r\<in>set rules. action r = a \<and> rule_matches (match r) sg \<and>
       (\<forall>q\<in>set rules. rule_matches (match q) sg \<longrightarrow> priority r \<le> priority q) \<and>
       List.find (\<lambda>q. rule_matches (match q) sg \<and> priority q = priority r) rules = Some r"
    by (rule evaluate_rules_first_least) blast
qed

definition demo_signals :: request_signals where
  "demo_signals = \<lparr>tool_names = [], endpoint = ''/v1'', has_image = True, sig_model = []\<rparr>"

definition demo_rules :: "heuristic_rule list" where
  "demo_rules =
     [\<lparr>priority = 5, match = JDict [(''endpoint'', JStr ''/v1'')],
       action = [(''tool_type'', ''chat'')], rule_name = ''a''\<rparr>,
      \<lparr>priority = 1, match = JDict [(''has_image'', JBool True)],
       action = [(''tool_type'', ''vision'')], rule_name = ''b''\<rparr>]"

theorem evaluate_rules_spec_witness:
  "\<exists>r\<in>set demo_rules. action r = [(''tool_type'', ''vision'')] \<and> priority r = 1"
proof -
  have "evaluate_rules demo_signals demo_rules = Some [(''tool_type'', ''vision'')]" by code_simp
  with evaluate_rules_spec [of demo_signals demo_rules "[(''tool_type'', ''vision'')]"]
  have "\<exists>r\<in>set demo_rules. action r = [(''tool_type'', ''vision'')]" by blast
  then show ?thesis by (auto simp: demo_rules_def)
qed

end
