(* ===== verification/Classifier.thy ===== *)
theory Classifier
  imports Valkey Heuristics
begin

text \<open>
  \<open>shared/routing/classifier.py\<close> and \<open>shared/routing/tool_type.py\<close>: the stage-2
  classifier with its prefix-hash cache, and the cascade explicit signal, heuristic rules,
  classifier. The guard model is the parameter \<open>guard\<close>, its \<open>complete\<close> (prompt, model, system prompt),
  which may raise; SHA-256 is the parameter \<open>sha\<close>.
\<close>

record classification =
  cl_tool_type :: string
  cl_complexity :: int
  cl_domain :: string
  cl_needs_reasoning :: bool

type_synonym classifier_client = "string \<Rightarrow> string \<Rightarrow> string option \<Rightarrow> blob reply"

definition SAFE_DEFAULT :: classification where
  "SAFE_DEFAULT =
     \<lparr>cl_tool_type = ''general'', cl_complexity = 1, cl_domain = ''general'',
      cl_needs_reasoning = False\<rparr>"

definition classifier_cache_key :: "(string \<Rightarrow> string) \<Rightarrow> string \<Rightarrow> string" where
  "classifier_cache_key sha prompt = ''waddleai:route:cls:'' @ sha (take 512 prompt)"

definition parse_classification :: "(json \<Rightarrow> string) \<Rightarrow> blob \<Rightarrow> py_error + classification" where
  "parse_classification repr raw =
     (case json_loads raw of
        None \<Rightarrow> Inl ValueError
      | Some (JDict data) \<Rightarrow>
          (case jget data ''tool_type'' of
             None \<Rightarrow> Inl KeyError
           | Some (JStr tool_type) \<Rightarrow>
               if tool_type = [] then Inl ValueError
               else (case py_int (jget_or data ''complexity'' (JInt 1)) of
                       Inl e \<Rightarrow> Inl e
                     | Inr cx \<Rightarrow>
                         Inr \<lparr>cl_tool_type = tool_type,
                              cl_complexity = max 1 (min 5 cx),
                              cl_domain = py_str repr (jget_or data ''domain'' (JStr ''general'')),
                              cl_needs_reasoning =
                                json_truthy (jget_or data ''needs_reasoning'' (JBool False))\<rparr>)
           | Some _ \<Rightarrow> Inl ValueError)
      | Some _ \<Rightarrow> Inl TypeError)"

definition classification_enc :: "classification \<Rightarrow> json" where
  "classification_enc c =
     JDict [(''tool_type'', JStr (cl_tool_type c)), (''complexity'', JInt (cl_complexity c)),
            (''domain'', JStr (cl_domain c)), (''needs_reasoning'', JBool (cl_needs_reasoning c))]"

definition classification_dec :: "json \<Rightarrow> classification option" where
  "classification_dec j =
     (case j of
        JDict d \<Rightarrow>
          if only_keys d [''tool_type'', ''complexity'', ''domain'', ''needs_reasoning''] then
            Option.bind (kwarg_req d ''tool_type'' as_str) (\<lambda>tt.
            Option.bind (kwarg_req d ''complexity'' as_int) (\<lambda>cx.
            Option.bind (kwarg d ''domain'' as_str ''general'') (\<lambda>dm.
            Option.bind (kwarg d ''needs_reasoning'' as_bool False) (\<lambda>nr.
              Some \<lparr>cl_tool_type = tt, cl_complexity = cx, cl_domain = dm,
                    cl_needs_reasoning = nr\<rparr>))))
          else None
      | _ \<Rightarrow> None)"

definition classify ::
    "(string \<Rightarrow> string) \<Rightarrow> (json \<Rightarrow> string) \<Rightarrow> classifier_client \<Rightarrow> 's valkey option \<Rightarrow> int \<Rightarrow> 's \<Rightarrow>
     string \<Rightarrow> string \<Rightarrow> string option \<Rightarrow> nat \<Rightarrow> classification \<times> 's" where
  "classify sha repr guard vk t s prompt model system_prompt ttl =
     (let key = classifier_cache_key sha prompt in
      case cache_read vk classification_dec t s key of
        Some c \<Rightarrow> (c, s)
      | None \<Rightarrow>
          let result =
            (case guard prompt model system_prompt of
               Raised \<Rightarrow> SAFE_DEFAULT
             | Ok raw \<Rightarrow>
                 (case parse_classification repr raw of Inl e \<Rightarrow> SAFE_DEFAULT | Inr c \<Rightarrow> c))
          in (result, cache_write vk classification_enc t s key ttl result))"

record tool_type_decision =
  tt_tool_type :: string
  tt_source :: string
  tt_rules_fired :: "(string \<times> string) list list"
  tt_classification :: "classification option"

text \<open>
  Stages 1 and 2 of the cascade. \<open>rules_fired\<close> holds the fired action itself where the
  code holds its \<open>str\<close>.
\<close>

definition determine_tool_type ::
    "(string \<Rightarrow> string) \<Rightarrow> (json \<Rightarrow> string) \<Rightarrow> 's valkey option \<Rightarrow> int \<Rightarrow> 's \<Rightarrow>
     string option \<Rightarrow> request_signals \<Rightarrow> heuristic_rule list \<Rightarrow> string \<Rightarrow> string option \<Rightarrow>
     classifier_client option \<Rightarrow> string \<Rightarrow> tool_type_decision \<times> 's" where
  "determine_tool_type sha repr vk t s explicit sg rules prompt classifier_prompt client cmodel =
     (if truthy explicit then
        (\<lparr>tt_tool_type = the explicit, tt_source = ''explicit'', tt_rules_fired = [],
          tt_classification = None\<rparr>, s)
      else
        let fired = evaluate_rules sg rules;
            tool = Option.bind fired (\<lambda>a. map_of a ''tool_type'')
        in if truthy tool then
             (\<lparr>tt_tool_type = the tool, tt_source = ''heuristic'',
               tt_rules_fired = [the fired], tt_classification = None\<rparr>, s)
           else
             case client of
               None \<Rightarrow>
                 (\<lparr>tt_tool_type = ''general'', tt_source = ''classifier'', tt_rules_fired = [],
                   tt_classification = None\<rparr>, s)
             | Some guard \<Rightarrow>
                 (case classify sha repr guard vk t s prompt cmodel classifier_prompt 3600 of
                    (c, s') \<Rightarrow>
                      (\<lparr>tt_tool_type = cl_tool_type c, tt_source = ''classifier'',
                        tt_rules_fired = [], tt_classification = Some c\<rparr>, s')))"

section \<open>A classifier never breaks a request\<close>

interpretation classification_cache: json_codec classification_enc classification_dec
proof
  fix c :: classification
  show "classification_dec (classification_enc c) = Some c"
    by (cases c) (simp add: classification_dec_def classification_enc_def kw_simps)
qed

definition sane :: "classification \<Rightarrow> bool" where
  "sane c \<longleftrightarrow> 1 \<le> cl_complexity c \<and> cl_complexity c \<le> 5 \<and> cl_tool_type c \<noteq> []"

lemma sane_default [simp]: "sane SAFE_DEFAULT"
  by (simp add: sane_def SAFE_DEFAULT_def)

lemma parse_sane: "parse_classification repr raw = Inr c \<Longrightarrow> sane c"
  by (auto simp: parse_classification_def sane_def
      split: option.splits json.splits sum.splits if_splits)

definition classifier_cache_sane :: "'s valkey option \<Rightarrow> int \<Rightarrow> 's \<Rightarrow> bool" where
  "classifier_cache_sane vk t s \<longleftrightarrow>
     (\<forall>t' key c. t \<le> t' \<longrightarrow> cache_read vk classification_dec t' s key = Some c \<longrightarrow> sane c)"

lemma classifier_write_sane:
  assumes "\<forall>c. vk = Some c \<longrightarrow> valkey_laws c" and "classifier_cache_sane vk t s" and "sane c"
  shows "classifier_cache_sane vk t (cache_write vk classification_enc t s key ttl c)"
proof (cases vk)
  case None
  with assms(2) show ?thesis by simp
next
  case (Some k)
  show ?thesis
  proof (cases "vk_set k t s key (json_dumps (classification_enc c)) (Some ttl)")
    case Raised
    with assms(2) Some show ?thesis by (simp add: cache_write_def)
  next
    case (Ok s')
    have laws: "valkey_laws k" using assms(1) Some by simp
    have "sane x" if "t \<le> t'" "cache_read (Some k) classification_dec t' s' key' = Some x"
      for t' key' x
    proof (cases "key' = key")
      case True
      with that valkey_get_set [OF laws Ok that(1), of key'] assms(3) show ?thesis
        by (auto simp: cache_read_def classification_cache.dec_enc split: if_splits)
    next
      case False
      with that valkey_get_set [OF laws Ok that(1), of key']
      have "cache_read (Some k) classification_dec t' s key' = Some x"
        by (simp add: cache_read_def)
      with assms(2) that(1) Some show ?thesis by (auto simp: classifier_cache_sane_def)
    qed
    with Some Ok show ?thesis by (simp add: classifier_cache_sane_def cache_write_def)
  qed
qed

lemma classify_sane:
  assumes "\<forall>c. vk = Some c \<longrightarrow> valkey_laws c" and "classifier_cache_sane vk t s"
    and "classify sha repr guard vk t s prompt model sp ttl = (c, s')"
  shows "sane c \<and> classifier_cache_sane vk t s'"
proof (cases "cache_read vk classification_dec t s (classifier_cache_key sha prompt)")
  case (Some c')
  with assms(2,3) show ?thesis
    by (auto simp: classify_def classifier_cache_sane_def)
next
  case None
  with assms(3) have cs: "(c, s') = (let result = (case guard prompt model sp of Raised \<Rightarrow> SAFE_DEFAULT
      | Ok raw \<Rightarrow> (case parse_classification repr raw of Inl e \<Rightarrow> SAFE_DEFAULT | Inr c \<Rightarrow> c))
      in (result, cache_write vk classification_enc t s (classifier_cache_key sha prompt) ttl result))"
    by (simp only: classify_def Let_def option.case)
  define r where "r = (case guard prompt model sp of Raised \<Rightarrow> SAFE_DEFAULT
      | Ok raw \<Rightarrow> (case parse_classification repr raw of Inl e \<Rightarrow> SAFE_DEFAULT | Inr c \<Rightarrow> c))"
  have c: "c = r" and s': "s' = cache_write vk classification_enc t s (classifier_cache_key sha prompt) ttl r"
    using cs by (simp_all only: Let_def r_def prod.inject)
  have "sane r"
  proof (cases "guard prompt model sp")
    case Raised
    then show ?thesis by (simp add: r_def)
  next
    case (Ok raw)
    then show ?thesis
      by (cases "parse_classification repr raw") (simp_all add: r_def parse_sane [of repr raw])
  qed
  then show ?thesis unfolding s' c using classifier_write_sane [OF assms(1,2)] by simp
qed

section \<open>Properties\<close>

text \<open>
  Whatever the guard model answers, or if it fails, the tool-type cascade ends with a
  non-empty tool type, and a classification it reports has a complexity between 1 and 5; the
  cache it leaves behind holds only such classifications, so the next request's cascade has
  the same guarantee.
\<close>

theorem tool_type_cascade_sane:
  assumes "\<forall>c. vk = Some c \<longrightarrow> valkey_laws c" and "classifier_cache_sane vk t s"
    and "determine_tool_type sha repr vk t s explicit sg rules prompt sp client cmodel = (d, s')"
  shows "tt_tool_type d \<noteq> [] \<and> (\<forall>c. tt_classification d = Some c \<longrightarrow> sane c) \<and>
    classifier_cache_sane vk t s'"
proof -
  have "sane c \<and> classifier_cache_sane vk t s''"
    if "classify sha repr guard vk t s prompt cmodel sp 3600 = (c, s'')" for guard c s''
    using classify_sane [OF assms(1,2) that] .
  moreover have "the x \<noteq> []" if "truthy x" for x using truthy_Some [OF that] by auto
  ultimately show ?thesis
    using assms(2,3)
    by (auto simp: determine_tool_type_def Let_def sane_def split: if_splits option.splits prod.splits)
qed

theorem tool_type_cascade_sane_witness:
  "tt_tool_type (fst (determine_tool_type id (\<lambda>_. []) (Some mem_valkey) 0 Map.empty None
      \<lparr>tool_names = [], endpoint = [], has_image = False, sig_model = []\<rparr> [] ''hi'' None
      (Some (\<lambda>_ _ _. Ok (RawText ''no json''))) ''m'')) \<noteq> []"
proof -
  have "classifier_cache_sane (Some mem_valkey) 0 Map.empty"
    by (simp add: classifier_cache_sane_def cache_read_def mem_valkey_simps)
  then show ?thesis
    using tool_type_cascade_sane [OF _ _ surjective_pairing, of "Some mem_valkey" 0 Map.empty]
      mem_valkey_laws
    by blast
qed

end
