(* ===== verification/Requirements.thy ===== *)
theory Requirements
  imports PyJson
begin

text \<open>
  \<open>shared/routing/requirements.py\<close>: the requirements vector of a request body. The
  tokenizer (tiktoken) is the parameter \<open>tok\<close>, the token count of a text; CPython's
  \<open>repr\<close> of non-scalar values is the parameter \<open>repr\<close>. A body whose \<open>messages\<close>
  cannot be iterated or whose \<open>max_tokens\<close> is no integer raises.
\<close>

record requirements_vector =
  min_context :: int
  needs_tools :: bool
  needs_vision :: bool
  structured_output :: bool
  complexity :: "int option"

definition text_part :: "(json \<Rightarrow> string) \<Rightarrow> json \<Rightarrow> string option" where
  "text_part repr p =
     (case p of
        JDict d \<Rightarrow>
          (if jget_null d ''type'' = JStr ''text''
           then Some (py_str repr (jget_or d ''text'' (JStr [])))
           else None)
      | _ \<Rightarrow> None)"

definition message_text :: "(json \<Rightarrow> string) \<Rightarrow> json \<Rightarrow> string" where
  "message_text repr content =
     (case content of
        JStr s \<Rightarrow> s
      | JList parts \<Rightarrow> join [CHR 0x0A] (List.map_filter (text_part repr) parts)
      | _ \<Rightarrow> [])"

definition image_part :: "json \<Rightarrow> bool" where
  "image_part p =
     (case p of
        JDict d \<Rightarrow>
          jget_or d ''type'' (JStr []) \<in>
            {JStr ''image_url'', JStr ''image'', JStr ''input_image''}
      | _ \<Rightarrow> False)"

definition message_has_image :: "json \<Rightarrow> bool" where
  "message_has_image m =
     (case m of
        JDict d \<Rightarrow>
          (case jget_null d ''content'' of JList parts \<Rightarrow> list_ex image_part parts | _ \<Rightarrow> False)
      | _ \<Rightarrow> False)"

definition has_image_content :: "json list \<Rightarrow> bool" where
  "has_image_content messages = list_ex message_has_image messages"

definition body_needs_tools :: "dict \<Rightarrow> bool" where
  "body_needs_tools body =
     (if json_truthy (jget_null body ''tools'') then True
      else jget_null body ''tool_choice'' \<notin> {JNull, JStr ''none''})"

definition needs_structured_output :: "dict \<Rightarrow> bool" where
  "needs_structured_output body =
     (case jget_null body ''response_format'' of
        JDict d \<Rightarrow> jget_null d ''type'' \<in> {JStr ''json_object'', JStr ''json_schema''}
      | _ \<Rightarrow> False)"

definition message_tokens :: "(string \<Rightarrow> nat) \<Rightarrow> (json \<Rightarrow> string) \<Rightarrow> json \<Rightarrow> int" where
  "message_tokens tok repr m =
     (case m of
        JDict d \<Rightarrow> int (tok (message_text repr (jget_or d ''content'' (JStr []))))
      | _ \<Rightarrow> 0)"

fun count_tokens :: "(string \<Rightarrow> nat) \<Rightarrow> (json \<Rightarrow> string) \<Rightarrow> json list \<Rightarrow> int" where
  "count_tokens tok repr [] = 0"
| "count_tokens tok repr (m # ms) = message_tokens tok repr m + count_tokens tok repr ms"

definition body_messages :: "dict \<Rightarrow> py_error + json list" where
  "body_messages body = py_iter (json_or (jget_or body ''messages'' (JList [])) (JList []))"

definition derive_requirements ::
    "(string \<Rightarrow> nat) \<Rightarrow> (json \<Rightarrow> string) \<Rightarrow> dict \<Rightarrow> int option \<Rightarrow> py_error + requirements_vector"
where
  "derive_requirements tok repr body cx =
     (case body_messages body of
        Inl e \<Rightarrow> Inl e
      | Inr messages \<Rightarrow>
          (case py_int (json_or (jget_null body ''max_tokens'') (JInt 0)) of
             Inl e \<Rightarrow> Inl e
           | Inr max_tokens \<Rightarrow>
               Inr \<lparr>min_context = count_tokens tok repr messages + max_tokens,
                    needs_tools = body_needs_tools body,
                    needs_vision = has_image_content messages,
                    structured_output = needs_structured_output body,
                    complexity = cx\<rparr>))"

section \<open>Growing a conversation\<close>

lemma message_tokens_nonneg [simp]: "0 \<le> message_tokens tok repr m"
  by (simp add: message_tokens_def split: json.splits)

lemma count_tokens_nonneg [simp]: "0 \<le> count_tokens tok repr ms"
  by (induction ms) simp_all

lemma count_tokens_append [simp]:
  "count_tokens tok repr (ms @ ns) = count_tokens tok repr ms + count_tokens tok repr ns"
  by (induction ms) simp_all

lemma has_image_append [simp]:
  "has_image_content (ms @ ns) \<longleftrightarrow> has_image_content ms \<or> has_image_content ns"
  by (simp add: has_image_content_def)

text \<open>The order of requirement vectors: \<open>weaker a b\<close> when \<open>b\<close> asks for at least as much.\<close>

definition weaker :: "requirements_vector \<Rightarrow> requirements_vector \<Rightarrow> bool" where
  "weaker a b \<longleftrightarrow> min_context a \<le> min_context b \<and>
     (needs_tools a \<longrightarrow> needs_tools b) \<and> (needs_vision a \<longrightarrow> needs_vision b)"

definition with_messages :: "dict \<Rightarrow> json list \<Rightarrow> dict" where
  "with_messages body ms = (''messages'', JList ms) # body"

lemma jget_with_messages:
  "jget (with_messages body ms) k = (if k = ''messages'' then Some (JList ms) else jget body k)"
  by (simp add: with_messages_def jget_def)

lemma body_messages_with [simp]: "body_messages (with_messages body ms) = Inr ms"
  by (simp add: body_messages_def jget_or_def jget_with_messages json_or_def)

lemma derive_grows:
  assumes "derive_requirements tok repr (with_messages body ms) cx = Inr r"
  obtains r' where "derive_requirements tok repr (with_messages body (ms @ ns)) cx' = Inr r'"
    and "weaker r r'"
proof -
  have other: "jget_null (with_messages body (ms @ ns)) k = jget_null (with_messages body ms) k"
    if "k \<noteq> ''messages''" for k
    using that by (simp add: jget_null_def jget_with_messages)
  from assms obtain mt where
    mt: "py_int (json_or (jget_null (with_messages body ms) ''max_tokens'') (JInt 0)) = Inr mt"
    and r: "min_context r = count_tokens tok repr ms + mt"
      "needs_tools r = body_needs_tools (with_messages body ms)"
      "needs_vision r = has_image_content ms"
    by (auto simp: derive_requirements_def split: sum.splits)
  define r' where "r' = \<lparr>min_context = count_tokens tok repr (ms @ ns) + mt,
     needs_tools = body_needs_tools (with_messages body (ms @ ns)),
     needs_vision = has_image_content (ms @ ns),
     structured_output = needs_structured_output (with_messages body (ms @ ns)),
     complexity = cx'\<rparr>"
  have "derive_requirements tok repr (with_messages body (ms @ ns)) cx' = Inr r'"
    using mt by (simp add: derive_requirements_def other r'_def)
  moreover have "weaker r r'"
    by (simp add: weaker_def r r'_def body_needs_tools_def other)
  ultimately show ?thesis by (rule that)
qed

end
