(* ===== verification/Capability.thy ===== *)
theory Capability
  imports Requirements
begin

text \<open>
  \<open>shared/routing/capability.py\<close>: what a model offers, whether it qualifies for a request,
  and the veto that re-routes to the best qualified offer. Scores and costs are floats the
  code only compares.
\<close>

record model_offer =
  model_name :: string
  capability_score :: rat
  supports_tools :: bool
  supports_vision :: bool
  context_window :: int
  cost_per_token :: rat
  location :: string
  available :: bool

definition qualifies :: "model_offer \<Rightarrow> requirements_vector \<Rightarrow> bool" where
  "qualifies ofr reqs =
     (if \<not> available ofr then False
      else if context_window ofr < min_context reqs then False
      else if needs_tools reqs \<and> \<not> supports_tools ofr then False
      else if needs_vision reqs \<and> \<not> supports_vision ofr then False
      else True)"

text \<open>Every caller uses the default ranking key, the capability score.\<close>

definition best_candidate :: "model_offer list \<Rightarrow> requirements_vector \<Rightarrow> model_offer option" where
  "best_candidate offers reqs =
     py_max capability_score (filter (\<lambda>ofr. qualifies ofr reqs) offers)"

definition veto_reason_of :: "model_offer \<Rightarrow> requirements_vector \<Rightarrow> string" where
  "veto_reason_of ofr reqs =
     (if \<not> available ofr then ''unavailable''
      else if context_window ofr < min_context reqs then ''context_overflow''
      else if needs_tools reqs \<and> \<not> supports_tools ofr then ''tools_unsupported''
      else if needs_vision reqs \<and> \<not> supports_vision ofr then ''vision_unsupported''
      else ''unqualified'')"

definition veto_and_reroute ::
    "model_offer option \<Rightarrow> model_offer list \<Rightarrow> requirements_vector \<Rightarrow>
       model_offer option \<times> string option" where
  "veto_and_reroute assigned offers reqs =
     (case assigned of
        Some a \<Rightarrow>
          if qualifies a reqs then (Some a, None)
          else (best_candidate offers reqs, Some (veto_reason_of a reqs))
      | None \<Rightarrow> (best_candidate offers reqs, Some ''no_assignment''))"

definition validate_assignment ::
    "model_offer option \<Rightarrow> requirements_vector option \<Rightarrow> string list" where
  "validate_assignment ofr reqs =
     (case ofr of
        None \<Rightarrow> [''model is not present in the registry'']
      | Some a \<Rightarrow>
          (if available a then [] else [''model is currently unavailable in the fleet'']) @
          (case reqs of
             None \<Rightarrow> []
           | Some r \<Rightarrow>
               if qualifies a r then []
               else [''assignment fails hard requirement: '' @ veto_reason_of a r]))"

section \<open>The veto\<close>

lemma qualifies_iff:
  "qualifies ofr r \<longleftrightarrow> available ofr \<and> min_context r \<le> context_window ofr \<and>
     (needs_tools r \<longrightarrow> supports_tools ofr) \<and> (needs_vision r \<longrightarrow> supports_vision ofr)"
  by (auto simp: qualifies_def)

lemma qualifies_antimono: "weaker r r' \<Longrightarrow> qualifies ofr r' \<Longrightarrow> qualifies ofr r"
  by (auto simp: qualifies_iff weaker_def)

lemma best_candidate_None:
  "best_candidate offers r = None \<longleftrightarrow> (\<forall>ofr\<in>set offers. \<not> qualifies ofr r)"
  by (simp add: best_candidate_def filter_empty_conv)

lemma best_candidate_Some:
  assumes "best_candidate offers r = Some b"
  shows "b \<in> set offers \<and> qualifies b r \<and>
    (\<forall>ofr\<in>set offers. qualifies ofr r \<longrightarrow> capability_score ofr \<le> capability_score b)"
  using py_max_in [OF assms [unfolded best_candidate_def]]
    py_max_ge [OF assms [unfolded best_candidate_def]]
  by auto

lemma veto_chosen_in:
  assumes "veto_and_reroute assigned offers r = (Some c, reason)" "set_option assigned \<subseteq> set offers"
  shows "c \<in> set offers \<and> qualifies c r"
  using assms best_candidate_Some
  by (auto simp: veto_and_reroute_def split: option.splits if_splits)

lemma veto_reason_None:
  "veto_and_reroute assigned offers r = (c, None) \<longleftrightarrow>
     (\<exists>a. assigned = Some a \<and> qualifies a r \<and> c = Some a)"
  by (auto simp: veto_and_reroute_def split: option.splits if_splits)

lemma veto_reason_no_assignment:
  "veto_and_reroute assigned offers r = (c, Some ''no_assignment'') \<longleftrightarrow>
     assigned = None \<and> c = best_candidate offers r"
  by (auto simp: veto_and_reroute_def veto_reason_of_def split: option.splits if_splits)

section \<open>Properties\<close>

text \<open>
  Appending messages to a conversation never makes a model qualify that did not qualify
  before: what the longer request needs is at least what the shorter one needed, in context,
  tools and vision, and derivation of the requirements still succeeds.
\<close>

theorem longer_conversation_qualifies_less:
  assumes "derive_requirements tok repr (with_messages bd ms) cx = Inr r"
  shows "\<exists>r'. derive_requirements tok repr (with_messages bd (ms @ ns)) cx = Inr r' \<and>
    min_context r' = min_context r + count_tokens tok repr ns \<and>
    {ofr. qualifies ofr r'} \<subseteq> {ofr. qualifies ofr r}"
proof -
  obtain r' where r': "derive_requirements tok repr (with_messages bd (ms @ ns)) cx = Inr r'"
    and w: "weaker r r'"
    using derive_grows [OF assms] by blast
  moreover have "min_context r' = min_context r + count_tokens tok repr ns"
    using assms r'
    by (auto simp: derive_requirements_def jget_null_def jget_with_messages split: sum.splits)
  moreover have "{ofr. qualifies ofr r'} \<subseteq> {ofr. qualifies ofr r}"
    using qualifies_antimono [OF w] by blast
  ultimately show ?thesis by blast
qed

theorem longer_conversation_qualifies_less_witness:
  "\<exists>r'. derive_requirements length (\<lambda>_. []) (with_messages [(''max_tokens'', JInt 10)]
      ([JDict [(''content'', JStr ''abc'')]] @ [JDict [(''content'', JStr ''de'')]])) None = Inr r' \<and>
    min_context r' = 15"
proof -
  have "derive_requirements length (\<lambda>_. []) (with_messages [(''max_tokens'', JInt 10)]
      [JDict [(''content'', JStr ''abc'')]]) None =
    Inr \<lparr>min_context = 13, needs_tools = False, needs_vision = False,
         structured_output = False, complexity = None\<rparr>"
    by code_simp
  from longer_conversation_qualifies_less [OF this, of "[JDict [(''content'', JStr ''de'')]]"]
  show ?thesis by (auto simp: message_tokens_def message_text_def jget_or_def jget_def)
qed

end
