(* ===== verification/RoutingPolicy.thy ===== *)
theory RoutingPolicy
  imports Valkey Capability
begin

text \<open>
  \<open>shared/routing/policy.py\<close>: the org's routing policy (row, defaults, cache) and the
  filter-and-sort that yields the fallback chain. The table is the list of its rows.
\<close>

record routing_policy_config =
  mode :: string
  escalation_threshold :: int
  escalation_target :: "string option"
  classifier_prompt :: "string option"
  de_escalation :: string
  idle_reset_minutes :: int
  sensitivity_routing :: string
  budget_pressure_enabled :: bool
  provider_failover :: string

definition default_routing_policy :: routing_policy_config where
  "default_routing_policy =
     \<lparr>mode = ''local_first'', escalation_threshold = 3, escalation_target = None,
      classifier_prompt = None, de_escalation = ''idle_reset'', idle_reset_minutes = 10,
      sensitivity_routing = ''local_only'', budget_pressure_enabled = True,
      provider_failover = ''off''\<rparr>"

definition VALID_MODES :: "string list" where
  "VALID_MODES = [''local_only'', ''local_first'', ''commercial_only'', ''cost'', ''latency'']"

text \<open>A row of \<open>routing_policies\<close>: every column but the org is nullable.\<close>

record routing_policy_row =
  rp_org :: int
  rp_mode :: "string option"
  rp_escalation_threshold :: "int option"
  rp_escalation_target :: "string option"
  rp_classifier_prompt :: "string option"
  rp_de_escalation :: "string option"
  rp_idle_reset_minutes :: "int option"
  rp_sensitivity_routing :: "string option"
  rp_budget_pressure_enabled :: "bool option"
  rp_provider_failover :: "string option"

definition override :: "'a \<Rightarrow> 'a option \<Rightarrow> 'a" where
  "override a v = (case v of None \<Rightarrow> a | Some b \<Rightarrow> b)"

definition override_opt :: "'a option \<Rightarrow> 'a option \<Rightarrow> 'a option" where
  "override_opt a v = (case v of None \<Rightarrow> a | Some b \<Rightarrow> Some b)"

definition fetch_routing_policy :: "routing_policy_row list \<Rightarrow> int \<Rightarrow> routing_policy_config" where
  "fetch_routing_policy table org =
     (case List.find (\<lambda>r. rp_org r = org) table of
        None \<Rightarrow> default_routing_policy
      | Some r \<Rightarrow>
          (let d = default_routing_policy in
           \<lparr>mode = override (mode d) (rp_mode r),
            escalation_threshold = override (escalation_threshold d) (rp_escalation_threshold r),
            escalation_target = override_opt (escalation_target d) (rp_escalation_target r),
            classifier_prompt = override_opt (classifier_prompt d) (rp_classifier_prompt r),
            de_escalation = override (de_escalation d) (rp_de_escalation r),
            idle_reset_minutes = override (idle_reset_minutes d) (rp_idle_reset_minutes r),
            sensitivity_routing = override (sensitivity_routing d) (rp_sensitivity_routing r),
            budget_pressure_enabled =
              override (budget_pressure_enabled d) (rp_budget_pressure_enabled r),
            provider_failover = override (provider_failover d) (rp_provider_failover r)\<rparr>))"

definition policy_cache_key :: "int \<Rightarrow> string" where
  "policy_cache_key org = ''waddleai:route:policy:'' @ str_int org"

definition routing_policy_enc :: "routing_policy_config \<Rightarrow> json" where
  "routing_policy_enc c =
     JDict [(''mode'', JStr (mode c)),
            (''escalation_threshold'', JInt (escalation_threshold c)),
            (''escalation_target'', of_opt JStr (escalation_target c)),
            (''classifier_prompt'', of_opt JStr (classifier_prompt c)),
            (''de_escalation'', JStr (de_escalation c)),
            (''idle_reset_minutes'', JInt (idle_reset_minutes c)),
            (''sensitivity_routing'', JStr (sensitivity_routing c)),
            (''budget_pressure_enabled'', JBool (budget_pressure_enabled c)),
            (''provider_failover'', JStr (provider_failover c))]"

definition POLICY_FIELDS :: "string list" where
  "POLICY_FIELDS =
     [''mode'', ''escalation_threshold'', ''escalation_target'', ''classifier_prompt'',
      ''de_escalation'', ''idle_reset_minutes'', ''sensitivity_routing'',
      ''budget_pressure_enabled'', ''provider_failover'']"

definition routing_policy_dec :: "json \<Rightarrow> routing_policy_config option" where
  "routing_policy_dec j =
     (case j of
        JDict d \<Rightarrow>
          (let c = default_routing_policy in
           if only_keys d POLICY_FIELDS then
             Option.bind (kwarg d ''mode'' as_str (mode c)) (\<lambda>m.
             Option.bind (kwarg d ''escalation_threshold'' as_int (escalation_threshold c)) (\<lambda>et.
             Option.bind (kwarg d ''escalation_target'' (as_opt as_str) (escalation_target c)) (\<lambda>tg.
             Option.bind (kwarg d ''classifier_prompt'' (as_opt as_str) (classifier_prompt c)) (\<lambda>cp.
             Option.bind (kwarg d ''de_escalation'' as_str (de_escalation c)) (\<lambda>de.
             Option.bind (kwarg d ''idle_reset_minutes'' as_int (idle_reset_minutes c)) (\<lambda>ir.
             Option.bind (kwarg d ''sensitivity_routing'' as_str (sensitivity_routing c)) (\<lambda>sr.
             Option.bind (kwarg d ''budget_pressure_enabled'' as_bool
                (budget_pressure_enabled c)) (\<lambda>bp.
             Option.bind (kwarg d ''provider_failover'' as_str (provider_failover c)) (\<lambda>pf.
               Some \<lparr>mode = m, escalation_threshold = et, escalation_target = tg,
                     classifier_prompt = cp, de_escalation = de, idle_reset_minutes = ir,
                     sensitivity_routing = sr, budget_pressure_enabled = bp,
                     provider_failover = pf\<rparr>)))))))))
           else None)
      | _ \<Rightarrow> None)"

definition resolve_routing_policy ::
    "'s valkey option \<Rightarrow> int \<Rightarrow> 's \<Rightarrow> nat \<Rightarrow> routing_policy_row list \<Rightarrow> int \<Rightarrow>
     routing_policy_config \<times> 's" where
  "resolve_routing_policy vk t s ttl table org =
     (case cache_read vk routing_policy_dec t s (policy_cache_key org) of
        Some c \<Rightarrow> (c, s)
      | None \<Rightarrow>
          let config = fetch_routing_policy table org
          in (config, cache_write vk routing_policy_enc t s (policy_cache_key org) ttl config))"

definition invalidate_routing_policy :: "'s valkey option \<Rightarrow> int \<Rightarrow> 's \<Rightarrow> int \<Rightarrow> 's" where
  "invalidate_routing_policy vk t s org = cache_delete vk t s [policy_cache_key org]"

section \<open>Filter and sort\<close>

definition passes_filters ::
    "model_offer \<Rightarrow> string list option \<Rightarrow> rat option \<Rightarrow> bool" where
  "passes_filters ofr allowed_models tier_cap =
     (if (case allowed_models of None \<Rightarrow> False | Some ms \<Rightarrow> model_name ofr \<notin> set ms) then False
      else if (case tier_cap of None \<Rightarrow> False | Some c \<Rightarrow> c < cost_per_token ofr) then False
      else True)"

text \<open>
  The sort keys as pairs, compared lexicographically: \<open>(cost,)\<close> is \<open>(0, cost)\<close>; an
  unknown latency, \<open>float("inf")\<close>, is \<open>(1, 0)\<close>, above every finite latency \<open>(0, l)\<close>.
\<close>

definition local_first_key :: "model_offer \<Rightarrow> int \<times> rat" where
  "local_first_key ofr = (if location ofr = ''local'' then 0 else 1, cost_per_token ofr)"

definition mode_sort_key :: "string \<Rightarrow> (string \<times> rat) list \<Rightarrow> model_offer \<Rightarrow> int \<times> rat" where
  "mode_sort_key md latency_by_model =
     (if md = ''cost'' then (\<lambda>ofr. (0, cost_per_token ofr))
      else if md = ''latency'' then
        (\<lambda>ofr. case map_of latency_by_model (model_name ofr) of
                 None \<Rightarrow> (1, 0) | Some l \<Rightarrow> (0, l))
      else if md = ''local_first'' then local_first_key
      else if md = ''commercial_only'' then (\<lambda>ofr. (0, cost_per_token ofr))
      else if md = ''local_only'' then (\<lambda>ofr. (0, cost_per_token ofr))
      else local_first_key)"

definition effective_mode :: "routing_policy_config \<Rightarrow> string" where
  "effective_mode policy = (if mode policy \<in> set VALID_MODES then mode policy else ''local_first'')"

definition mode_admits :: "string \<Rightarrow> model_offer \<Rightarrow> bool" where
  "mode_admits md ofr =
     (if md = ''local_only'' then location ofr = ''local''
      else if md = ''commercial_only'' then location ofr = ''commercial''
      else True)"

definition filter_and_sort ::
    "model_offer list \<Rightarrow> routing_policy_config \<Rightarrow> string list option \<Rightarrow> rat option \<Rightarrow>
     (string \<times> rat) list option \<Rightarrow> model_offer list" where
  "filter_and_sort candidates policy allowed_models tier_cap latency_by_model =
     (let md = effective_mode policy;
          filtered = filter (\<lambda>ofr. passes_filters ofr allowed_models tier_cap) candidates;
          filtered' =
            (if md = ''local_only'' then filter (\<lambda>ofr. location ofr = ''local'') filtered
             else if md = ''commercial_only''
                  then filter (\<lambda>ofr. location ofr = ''commercial'') filtered
             else filtered)
      in py_sorted (mode_sort_key md (case latency_by_model of None \<Rightarrow> [] | Some l \<Rightarrow> l)) filtered')"

lemma filter_and_sort_alt:
  "filter_and_sort cs policy al cap lat =
     py_sorted (mode_sort_key (effective_mode policy) (case lat of None \<Rightarrow> [] | Some l \<Rightarrow> l))
       (filter (\<lambda>ofr. passes_filters ofr al cap \<and> mode_admits (effective_mode policy) ofr) cs)"
  by (simp add: filter_and_sort_def mode_admits_def Let_def filter_filter conj_commute)

lemma set_filter_and_sort:
  "set (filter_and_sort cs policy al cap lat) =
     {ofr \<in> set cs. passes_filters ofr al cap \<and> mode_admits (effective_mode policy) ofr}"
  by (simp add: filter_and_sort_alt)

lemma sorted_filter_and_sort:
  "sorted (map (mode_sort_key (effective_mode policy) (case lat of None \<Rightarrow> [] | Some l \<Rightarrow> l))
     (filter_and_sort cs policy al cap lat))"
  by (simp add: filter_and_sort_alt)

section \<open>The cache\<close>

interpretation routing_policy_cache: json_codec routing_policy_enc routing_policy_dec
proof
  fix c :: routing_policy_config
  show "routing_policy_dec (routing_policy_enc c) = Some c"
    by (cases c)
      (simp add: routing_policy_dec_def routing_policy_enc_def POLICY_FIELDS_def kw_simps)
qed

lemma policy_cache_key_inj: "policy_cache_key a = policy_cache_key b \<Longrightarrow> a = b"
  by (simp add: policy_cache_key_def str_int_inj)

end
