(* ===== verification/Assignments.thy ===== *)
theory Assignments
  imports Valkey
begin

text \<open>
  \<open>shared/routing/assignments.py\<close>: tool type to model, an org's row before the global one,
  cached in Valkey and invalidated on writes. The table is the list of its rows.
\<close>

record assignment =
  as_tool_type :: string
  default_model :: string
  escalation_model :: "string option"
  fallback_models :: "string list"

record assignment_row =
  ma_tool_type :: string
  ma_scope :: string
  ma_scope_ref :: "int option"
  ma_enabled :: bool
  ma_model_name :: string
  ma_escalation_model :: "string option"
  ma_fallback_models :: "string list option"

definition assignment_cache_key :: "int option \<Rightarrow> string \<Rightarrow> string" where
  "assignment_cache_key org tool_type =
     ''waddleai:route:assign:'' @
     (case org of None \<Rightarrow> ''global'' | Some i \<Rightarrow> str_int i) @ '':'' @ tool_type"

definition assignment_enc :: "assignment \<Rightarrow> json" where
  "assignment_enc a =
     JDict [(''tool_type'', JStr (as_tool_type a)),
            (''default_model'', JStr (default_model a)),
            (''escalation_model'', of_opt JStr (escalation_model a)),
            (''fallback_models'', JList (map JStr (fallback_models a)))]"

text \<open>\<open>data.get("fallback_models") or []\<close>: a missing or empty value is the empty list.\<close>

definition assignment_dec :: "json \<Rightarrow> assignment option" where
  "assignment_dec j =
     (case j of
        JDict d \<Rightarrow>
          Option.bind (kwarg_req d ''tool_type'' as_str) (\<lambda>tt.
          Option.bind (kwarg_req d ''default_model'' as_str) (\<lambda>dm.
          Option.bind (kwarg d ''escalation_model'' (as_opt as_str) None) (\<lambda>em.
          Option.bind (as_list as_str (json_or (jget_null d ''fallback_models'') (JList []))) (\<lambda>fm.
            Some \<lparr>as_tool_type = tt, default_model = dm, escalation_model = em,
                  fallback_models = fm\<rparr>))))
      | _ \<Rightarrow> None)"

definition row_to_assignment :: "assignment_row \<Rightarrow> assignment" where
  "row_to_assignment r =
     \<lparr>as_tool_type = ma_tool_type r, default_model = ma_model_name r,
      escalation_model = ma_escalation_model r,
      fallback_models = (case ma_fallback_models r of None \<Rightarrow> [] | Some fs \<Rightarrow> fs)\<rparr>"

definition fetch_assignment ::
    "assignment_row list \<Rightarrow> string \<Rightarrow> int option \<Rightarrow> assignment option" where
  "fetch_assignment table tool_type org =
     (let org_row =
        (case org of
           None \<Rightarrow> None
         | Some i \<Rightarrow>
             List.find (\<lambda>r. ma_tool_type r = tool_type \<and> ma_scope r = ''org'' \<and>
                            ma_scope_ref r = Some i \<and> ma_enabled r) table)
      in case org_row of
           Some r \<Rightarrow> Some (row_to_assignment r)
         | None \<Rightarrow>
             (case List.find (\<lambda>r. ma_tool_type r = tool_type \<and> ma_scope r = ''global'' \<and>
                                  ma_enabled r) table of
                None \<Rightarrow> None
              | Some r \<Rightarrow> Some (row_to_assignment r)))"

definition resolve_assignment ::
    "'s valkey option \<Rightarrow> int \<Rightarrow> 's \<Rightarrow> nat \<Rightarrow> assignment_row list \<Rightarrow> string \<Rightarrow> int option \<Rightarrow>
     assignment option \<times> 's" where
  "resolve_assignment vk t s ttl table tool_type org =
     (let key = assignment_cache_key org tool_type in
      case cache_read vk assignment_dec t s key of
        Some a \<Rightarrow> (Some a, s)
      | None \<Rightarrow>
          (case fetch_assignment table tool_type org of
             None \<Rightarrow> (None, s)
           | Some a \<Rightarrow> (Some a, cache_write vk assignment_enc t s key ttl a)))"

definition invalidate_assignment ::
    "'s valkey option \<Rightarrow> int \<Rightarrow> 's \<Rightarrow> int option \<Rightarrow> string option \<Rightarrow> 's" where
  "invalidate_assignment vk t s org tool_type =
     (case tool_type of
        None \<Rightarrow> s
      | Some tt \<Rightarrow>
          cache_delete vk t s [assignment_cache_key org tt, assignment_cache_key None tt])"

section \<open>Precedence and caching\<close>

interpretation assignment_cache: json_codec assignment_enc assignment_dec
proof
  fix a :: assignment
  show "assignment_dec (assignment_enc a) = Some a"
    by (cases a)
      (simp add: assignment_dec_def assignment_enc_def kw_simps jget_null_def)
qed

lemma assignment_cache_key_inj:
  assumes "assignment_cache_key org tt = assignment_cache_key org' tt'"
  shows "org = org' \<and> tt = tt'"
proof -
  let ?r = "\<lambda>o'. case o' of None \<Rightarrow> ''global'' | Some i \<Rightarrow> str_int i"
  have nc: "CHR '':'' \<notin> set (?r o')" for o'
    by (cases o') (simp_all add: str_int_no_colon)
  have g: "?r o' = ?r o'' \<Longrightarrow> o' = o''" for o' o''
  proof -
    have ng: "str_int i \<noteq> ''global''" for i
    proof
      assume "str_int i = ''global''"
      then have "int_of_str ''global'' = Inr i" by (metis int_of_str_str_int)
      moreover have "int_of_str ''global'' = Inl ValueError" by code_simp
      ultimately show False by simp
    qed
    assume "?r o' = ?r o''"
    then show "o' = o''"
      using ng ng [symmetric] by (cases o'; cases o'') (simp_all add: str_int_inj)
  qed
  from assms have "?r org @ CHR '':'' # tt = ?r org' @ CHR '':'' # tt'"
    by (simp add: assignment_cache_key_def)
  from append_colon_inj [OF nc nc this] g show ?thesis by blast
qed

lemma fetch_org_before_global:
  assumes "fetch_assignment table tt (Some i) = Some a"
    and "q \<in> set table" "ma_tool_type q = tt" "ma_scope q = ''org''" "ma_scope_ref q = Some i"
      "ma_enabled q"
  shows "\<exists>r\<in>set table. ma_scope r = ''org'' \<and> ma_scope_ref r = Some i \<and> ma_enabled r \<and>
    ma_tool_type r = tt \<and> a = row_to_assignment r"
proof -
  let ?P = "\<lambda>r. ma_tool_type r = tt \<and> ma_scope r = ''org'' \<and> ma_scope_ref r = Some i \<and> ma_enabled r"
  have "List.find ?P table \<noteq> None" using assms(2-) by (auto simp: find_None_iff)
  then obtain r where r: "List.find ?P table = Some r" by auto
  with assms(1) have "a = row_to_assignment r" by (simp add: fetch_assignment_def)
  moreover from r have "r \<in> set table \<and> ?P r" by (auto simp: find_Some_iff)
  ultimately show ?thesis by blast
qed

section \<open>Properties\<close>

text \<open>
  Staleness of a cached assignment is bounded. After a miss at time \<open>t0\<close> filled the cache
  from the table, later lookups of the same organisation and tool type answer from the cache
  for \<open>ttl\<close> seconds; from then on, or at once after an invalidation of that tool type for
  that organisation, they answer from the table as it is now.
\<close>

theorem assignment_staleness_bounded:
  assumes "valkey_laws c" "valkey_up c"
    and "cache_read (Some c) assignment_dec t0 s (assignment_cache_key org tt) = None"
    and "fetch_assignment table tt org = Some a" and "t0 \<le> t" "t \<le> t'"
    and "resolve_assignment (Some c) t0 s ttl table tt org = (r, s1)"
  shows "fst (resolve_assignment (Some c) t s1 ttl now tt org) =
      (if t < t0 + seconds ttl then Some a else fetch_assignment now tt org) \<and>
    fst (resolve_assignment (Some c) t' (invalidate_assignment (Some c) t s1 org (Some tt)) ttl
      now tt org) = fetch_assignment now tt org"
proof
  let ?k = "assignment_cache_key org tt"
  have s1: "s1 = cache_write (Some c) assignment_enc t0 s ?k ttl a"
    using assms(3,4,7) by (simp add: resolve_assignment_def)
  obtain s' where s': "vk_set c t0 s ?k (json_dumps (assignment_enc a)) (Some ttl) = Ok s'"
    using valkey_up_set [OF assms(2)] by blast
  show "fst (resolve_assignment (Some c) t s1 ttl now tt org) =
      (if t < t0 + seconds ttl then Some a else fetch_assignment now tt org)"
    using assignment_cache.read_after_write [OF assms(1) s' assms(5)]
      assignment_cache.read_after_expiry [OF assms(1) s' assms(5)]
    by (auto simp: s1 resolve_assignment_def Let_def split: option.splits)
  obtain s2 where s2: "vk_del c t s1 [?k, assignment_cache_key None tt] = Ok s2"
    using valkey_up_del [OF assms(2)] by blast
  have "cache_read (Some c) assignment_dec t'
      (invalidate_assignment (Some c) t s1 org (Some tt)) ?k = None"
    unfolding invalidate_assignment_def option.case
    by (rule cache_read_deleted [OF assms(1) s2 assms(6)]) simp
  then show "fst (resolve_assignment (Some c) t' (invalidate_assignment (Some c) t s1 org (Some tt))
      ttl now tt org) = fetch_assignment now tt org"
    by (simp add: resolve_assignment_def split: option.splits)
qed

definition demo_row :: "string \<Rightarrow> assignment_row" where
  "demo_row m = \<lparr>ma_tool_type = ''chat'', ma_scope = ''global'', ma_scope_ref = None,
     ma_enabled = True, ma_model_name = m, ma_escalation_model = None, ma_fallback_models = None\<rparr>"

theorem assignment_staleness_bounded_witness:
  "map_option default_model (fst (resolve_assignment (Some mem_valkey) (seconds 299)
     (snd (resolve_assignment (Some mem_valkey) 0 Map.empty 300 [demo_row ''a''] ''chat'' (Some 1)))
     300 [demo_row ''b''] ''chat'' (Some 1))) = Some ''a''"
proof -
  have miss: "cache_read (Some mem_valkey) assignment_dec 0 Map.empty
      (assignment_cache_key (Some 1) ''chat'') = None"
    by (simp add: cache_read_def mem_valkey_simps)
  have row: "fetch_assignment [demo_row ''a''] ''chat'' (Some 1) = Some (row_to_assignment (demo_row ''a''))"
    by (simp add: fetch_assignment_def demo_row_def)
  have st: "0 \<le> seconds 299" "seconds 299 < 0 + seconds 300" by (simp_all add: seconds_def)
  have "fst (resolve_assignment (Some mem_valkey) (seconds 299)
     (snd (resolve_assignment (Some mem_valkey) 0 Map.empty 300 [demo_row ''a''] ''chat'' (Some 1)))
     300 [demo_row ''b''] ''chat'' (Some 1)) = Some (row_to_assignment (demo_row ''a''))"
    using assignment_staleness_bounded [OF mem_valkey_laws mem_valkey_up miss row st(1) order_refl
        surjective_pairing] st(2) by simp
  then show ?thesis by (simp add: row_to_assignment_def demo_row_def)
qed

end
