(* ===== verification/Aliases.thy ===== *)
theory Aliases
  imports PyPrelude
begin

text \<open>
  \<open>shared/routing/aliases.py\<close>: provider-qualified model strings, the explicit tool type,
  and the \<open>model_aliases\<close> lookup. The table is the list of its rows, in the order the
  database returns them.
\<close>

definition KNOWN_PROVIDERS :: "string list" where
  "KNOWN_PROVIDERS =
     [''openai'', ''anthropic'', ''ollama'', ''llamacpp'', ''gemini'', ''bedrock'',
      ''azure_openai'', ''cohere'', ''xai'']"

record alias_resolution =
  ar_model :: string
  ar_provider :: "string option"
  ar_routed_from :: "string option"

definition split_provider_prefix :: "string \<Rightarrow> string option \<times> string" where
  "split_provider_prefix model =
     (case split_first (CHR '':'') model of
        Some (pfx, rest) \<Rightarrow>
          if pfx \<in> set KNOWN_PROVIDERS then (Some pfx, rest) else (None, model)
      | None \<Rightarrow> (None, model))"

definition explicit_tool_type ::
    "string option \<Rightarrow> string option \<Rightarrow> string option \<Rightarrow> string option" where
  "explicit_tool_type header mcp model =
     (if truthy header then header
      else if truthy mcp then mcp
      else case model of
             Some m \<Rightarrow>
               if m \<noteq> [] \<and> startswith ''waddleai/'' m
               then Some (drop (length ''waddleai/'') m) else None
           | None \<Rightarrow> None)"

record model_alias =
  source_model :: string
  alias_org :: "int option"
  alias_enabled :: bool
  target_model :: string
  target_provider :: "string option"

definition fetch_alias :: "model_alias list \<Rightarrow> string \<Rightarrow> int option \<Rightarrow> model_alias option" where
  "fetch_alias table bare org =
     (let org_row =
        (case org of
           None \<Rightarrow> None
         | Some o' \<Rightarrow>
             List.find (\<lambda>r. source_model r = bare \<and> alias_org r = Some o' \<and> alias_enabled r) table)
      in case org_row of
           Some r \<Rightarrow> Some r
         | None \<Rightarrow>
             List.find (\<lambda>r. source_model r = bare \<and> alias_org r = None \<and> alias_enabled r) table)"

definition resolve_alias :: "model_alias list \<Rightarrow> string \<Rightarrow> int option \<Rightarrow> alias_resolution" where
  "resolve_alias table model org =
     (let (provider, bare) = split_provider_prefix model in
      case fetch_alias table bare org of
        None \<Rightarrow> \<lparr>ar_model = bare, ar_provider = provider, ar_routed_from = None\<rparr>
      | Some row \<Rightarrow>
          \<lparr>ar_model = target_model row,
           ar_provider = or_else (target_provider row) provider,
           ar_routed_from = Some model\<rparr>)"

section \<open>Provider prefixes\<close>

text \<open>The two parts put back together give the string that was split.\<close>

definition rejoin :: "string option \<times> string \<Rightarrow> string" where
  "rejoin pm = (case pm of (None, m) \<Rightarrow> m | (Some p, m) \<Rightarrow> p @ '':'' @ m)"

lemma providers_no_colon: "p \<in> set KNOWN_PROVIDERS \<Longrightarrow> CHR '':'' \<notin> set p"
  by (auto simp: KNOWN_PROVIDERS_def)

lemma split_provider_known:
  "p \<in> set KNOWN_PROVIDERS \<Longrightarrow> split_provider_prefix (p @ '':'' @ m) = (Some p, m)"
  by (simp add: split_provider_prefix_def split_first_append providers_no_colon)

lemma split_provider_Some:
  "split_provider_prefix m = (Some p, r) \<longleftrightarrow> m = p @ '':'' @ r \<and> p \<in> set KNOWN_PROVIDERS"
proof
  assume "split_provider_prefix m = (Some p, r)"
  then show "m = p @ '':'' @ r \<and> p \<in> set KNOWN_PROVIDERS"
    by (auto simp: split_provider_prefix_def split_first_Some split: option.splits if_splits)
next
  assume "m = p @ '':'' @ r \<and> p \<in> set KNOWN_PROVIDERS"
  then show "split_provider_prefix m = (Some p, r)" using split_provider_known by blast
qed

lemma split_provider_rejoin: "rejoin (split_provider_prefix m) = m"
  by (auto simp: split_provider_prefix_def rejoin_def split_first_Some split: option.splits)

lemma split_provider_None:
  "fst (split_provider_prefix m) = None \<Longrightarrow> snd (split_provider_prefix m) = m"
  by (auto simp: split_provider_prefix_def split: option.splits if_splits prod.splits)

section \<open>Aliases\<close>

lemma fetch_alias_SomeD:
  assumes "fetch_alias table bare org = Some r"
  shows "r \<in> set table \<and> source_model r = bare \<and> alias_enabled r \<and>
    (alias_org r = org \<or> alias_org r = None)"
  using assms
  by (auto simp: fetch_alias_def Let_def find_Some_iff split: option.splits)

lemma fetch_alias_org_wins:
  assumes "fetch_alias table bare (Some o') = Some r" "alias_org r = None"
    and "q \<in> set table" "source_model q = bare" "alias_enabled q"
  shows "alias_org q \<noteq> Some o'"
proof
  assume q: "alias_org q = Some o'"
  show False
  proof (cases "List.find (\<lambda>r. source_model r = bare \<and> alias_org r = Some o' \<and> alias_enabled r) table")
    case None
    with assms q show False by (auto simp: find_None_iff)
  next
    case (Some x)
    then have "alias_org x = Some o'" by (auto simp: find_Some_iff)
    moreover from Some assms(1) have "x = r" by (simp add: fetch_alias_def)
    ultimately show False using assms(2) by simp
  qed
qed

section \<open>Properties\<close>

text \<open>
  Splitting a provider-qualified model string: the parts put back together are the string;
  a prefix is split off exactly when the text before the first colon is a known provider, so
  a bare Ollama tag such as \<open>gemma4:e2b\<close> is left whole; and what is left is everything after
  that first colon, later colons included.
\<close>

theorem split_provider_prefix_roundtrip:
  "rejoin (split_provider_prefix m) = m \<and>
   (split_provider_prefix m = (Some p, r) \<longleftrightarrow> m = p @ '':'' @ r \<and> p \<in> set KNOWN_PROVIDERS) \<and>
   split_provider_prefix ''gemma4:e2b'' = (None, ''gemma4:e2b'')"
  using split_provider_rejoin split_provider_Some
  by (auto simp: split_provider_prefix_def KNOWN_PROVIDERS_def)

text \<open>
  Alias resolution keeps an organisation's aliases to that organisation: a redirect comes
  from an enabled row for the bare name that is the organisation's own or a global one, the
  organisation's own wins over a global one, the row's provider wins over the prefix, and
  without such a row the name passes unchanged and nothing is reported as redirected.
\<close>

theorem resolve_alias_scope:
  "case ar_routed_from (resolve_alias table m (Some i)) of
     None \<Rightarrow>
       rejoin (ar_provider (resolve_alias table m (Some i)), ar_model (resolve_alias table m (Some i))) = m \<and>
       (\<forall>r\<in>set table. source_model r = snd (split_provider_prefix m) \<and> alias_enabled r \<longrightarrow>
          alias_org r \<noteq> Some i \<and> alias_org r \<noteq> None)
   | Some old \<Rightarrow> old = m \<and>
       (\<exists>r\<in>set table. source_model r = snd (split_provider_prefix m) \<and> alias_enabled r \<and>
          target_model r = ar_model (resolve_alias table m (Some i)) \<and>
          (truthy (target_provider r) \<longrightarrow>
             ar_provider (resolve_alias table m (Some i)) = target_provider r) \<and>
          (alias_org r = Some i \<or> alias_org r = None \<and>
             (\<forall>q\<in>set table. source_model q = snd (split_provider_prefix m) \<and> alias_enabled q \<longrightarrow>
                alias_org q \<noteq> Some i)))"
proof -
  obtain p b where pb: "split_provider_prefix m = (p, b)" by fastforce
  show ?thesis
  proof (cases "fetch_alias table b (Some i)")
    case None
    then have "\<forall>r\<in>set table. source_model r = b \<and> alias_enabled r \<longrightarrow>
          alias_org r \<noteq> Some i \<and> alias_org r \<noteq> None"
      by (auto simp: fetch_alias_def find_None_iff split: option.splits)
    then show ?thesis
      using None split_provider_rejoin [of m] by (simp add: resolve_alias_def pb)
  next
    case (Some r)
    from fetch_alias_SomeD [OF Some]
    have r: "r \<in> set table" "source_model r = b" "alias_enabled r"
      "alias_org r = Some i \<or> alias_org r = None"
      by auto
    have "alias_org r = Some i \<or> alias_org r = None \<and>
        (\<forall>q\<in>set table. source_model q = b \<and> alias_enabled q \<longrightarrow> alias_org q \<noteq> Some i)"
      using r(4) fetch_alias_org_wins [OF Some] by blast
    then show ?thesis using Some r by (auto simp: resolve_alias_def pb or_else_def)
  qed
qed

theorem resolve_alias_scope_witness:
  "ar_routed_from (resolve_alias
      [\<lparr>source_model = ''gpt'', alias_org = None, alias_enabled = True, target_model = ''a'',
        target_provider = None\<rparr>,
       \<lparr>source_model = ''gpt'', alias_org = Some 4, alias_enabled = True, target_model = ''b'',
        target_provider = None\<rparr>] ''openai:gpt'' (Some 4)) = Some ''openai:gpt'' \<and>
   ar_model (resolve_alias
      [\<lparr>source_model = ''gpt'', alias_org = None, alias_enabled = True, target_model = ''a'',
        target_provider = None\<rparr>,
       \<lparr>source_model = ''gpt'', alias_org = Some 4, alias_enabled = True, target_model = ''b'',
        target_provider = None\<rparr>] ''openai:gpt'' (Some 4)) = ''b''"
proof -
  let ?t = "[\<lparr>source_model = ''gpt'', alias_org = None, alias_enabled = True, target_model = ''a'',
        target_provider = None\<rparr>,
       \<lparr>source_model = ''gpt'', alias_org = Some 4, alias_enabled = True, target_model = ''b'',
        target_provider = None\<rparr>]"
  have a: "ar_routed_from (resolve_alias ?t ''openai:gpt'' (Some 4)) = Some ''openai:gpt''"
    by code_simp
  have b: "split_provider_prefix ''openai:gpt'' = (Some ''openai'', ''gpt'')" by code_simp
  from resolve_alias_scope [of ?t "''openai:gpt''" 4] a b
  show ?thesis by auto
qed

end
