(* ===== verification/Budgets.thy ===== *)
theory Budgets
  imports Valkey
begin

text \<open>
  \<open>shared/routing/budgets.py\<close>: graduated budget pressure over the three typed budgets,
  and the Valkey-backed plan window. Fractions are rationals.
\<close>

record budget_pressure =
  level :: rat
  binding_type :: "string option"
  threshold_delta :: int
  clamp_local :: bool
  hard_block :: bool

definition no_pressure :: budget_pressure where
  "no_pressure = \<lparr>level = 0, binding_type = None, threshold_delta = 0, clamp_local = False,
     hard_block = False\<rparr>"

definition active_budgets :: "rat option \<Rightarrow> rat option \<Rightarrow> rat option \<Rightarrow> (string \<times> rat) list" where
  "active_budgets tok dol plan =
     List.map_filter (\<lambda>(n, v). map_option (Pair n) v)
       [(''token'', tok), (''dollar'', dol), (''plan'', plan)]"

definition compute_pressure ::
    "rat option \<Rightarrow> rat option \<Rightarrow> rat option \<Rightarrow> bool \<Rightarrow> budget_pressure" where
  "compute_pressure tok dol plan enabled =
     (if \<not> enabled then no_pressure
      else case py_max snd (active_budgets tok dol plan) of
             None \<Rightarrow> no_pressure
           | Some (n, lv) \<Rightarrow>
               \<lparr>level = lv, binding_type = Some n,
                threshold_delta = (if 80/100 \<le> lv then 1 else 0),
                clamp_local = (95/100 \<le> lv), hard_block = (1 \<le> lv)\<rparr>)"

definition plan_window_key :: "string \<Rightarrow> string \<Rightarrow> string" where
  "plan_window_key credential window = ''waddleai:route:plan:'' @ credential @ '':'' @ window"

definition headroom ::
    "'s valkey option \<Rightarrow> int \<Rightarrow> 's \<Rightarrow> string \<Rightarrow> string \<Rightarrow> py_error + rat option" where
  "headroom vk t s credential window =
     (case vk of None \<Rightarrow> Inr None
      | Some c \<Rightarrow>
         (case vk_get c t s (plan_window_key credential window) of
            Raised \<Rightarrow> Inr None
          | Ok None \<Rightarrow> Inr None
          | Ok (Some raw) \<Rightarrow>
              (case json_loads raw of
                 None \<Rightarrow> Inl ValueError
               | Some (JDict data) \<Rightarrow>
                   (case (jget data ''remaining'', jget data ''limit'') of
                      (Some (JInt remaining), Some (JInt limit)) \<Rightarrow>
                        if limit \<le> 0 then Inr None
                        else Inr (Some (max 0 (min 1 (of_int remaining / of_int limit))))
                    | (None, _) \<Rightarrow> Inl KeyError
                    | (_, None) \<Rightarrow> Inl KeyError
                    | _ \<Rightarrow> Inl TypeError)
               | Some _ \<Rightarrow> Inl TypeError)))"

definition correct_from_headers ::
    "'s valkey option \<Rightarrow> int \<Rightarrow> 's \<Rightarrow> string \<Rightarrow> string \<Rightarrow> int \<Rightarrow> int \<Rightarrow> 's" where
  "correct_from_headers vk t s credential window remaining limit =
     (case vk of None \<Rightarrow> s
      | Some c \<Rightarrow>
         (case vk_set c t s (plan_window_key credential window)
                 (json_dumps (JDict [(''remaining'', JInt remaining), (''limit'', JInt limit)])) None of
            Raised \<Rightarrow> s | Ok s' \<Rightarrow> s'))"

definition is_depleted ::
    "'s valkey option \<Rightarrow> int \<Rightarrow> 's \<Rightarrow> string \<Rightarrow> string \<Rightarrow> rat \<Rightarrow> py_error + bool" where
  "is_depleted vk t s credential window threshold =
     (case headroom vk t s credential window of
        Inl e \<Rightarrow> Inl e
      | Inr None \<Rightarrow> Inr False
      | Inr (Some h) \<Rightarrow> Inr (threshold \<le> 1 - h))"

definition reset_window :: "'s valkey option \<Rightarrow> int \<Rightarrow> 's \<Rightarrow> string \<Rightarrow> string \<Rightarrow> 's" where
  "reset_window vk t s credential window = cache_delete vk t s [plan_window_key credential window]"

section \<open>The tightest budget binds\<close>

lemma active_budgets_set:
  "set (active_budgets tok dol plan) =
     {(n, v). (n, Some v) \<in> {(''token'', tok), (''dollar'', dol), (''plan'', plan)}}"
  by (cases tok; cases dol; cases plan) (auto simp: active_budgets_def map_filter_def)

lemma compute_pressure_level:
  assumes "tok = Some v \<or> dol = Some v \<or> plan = Some v"
  shows "v \<le> level (compute_pressure tok dol plan True) \<and>
    binding_type (compute_pressure tok dol plan True) \<noteq> None \<and>
    Some (level (compute_pressure tok dol plan True)) \<in> {tok, dol, plan}"
proof -
  let ?A = "active_budgets tok dol plan"
  from assms consider "tok = Some v" | "dol = Some v" | "plan = Some v" by blast
  then have "(''token'', v) \<in> set ?A \<or> (''dollar'', v) \<in> set ?A \<or> (''plan'', v) \<in> set ?A"
    by cases (simp_all add: active_budgets_set)
  then obtain n where n: "(n, v) \<in> set ?A" by blast
  then have "?A \<noteq> []" by auto
  then obtain m where m: "py_max snd ?A = Some m" using py_max_exists by blast
  obtain k lv where k: "m = (k, lv)" by fastforce
  from py_max_ge [OF m n] k have "v \<le> lv" by simp
  moreover from py_max_in [OF m] k have "Some lv \<in> {tok, dol, plan}"
    by (auto simp: active_budgets_set)
  ultimately show ?thesis by (simp add: compute_pressure_def m k)
qed

lemma compute_pressure_shape:
  fixes tok dol plan e
  defines "p \<equiv> compute_pressure tok dol plan e"
  shows "threshold_delta p = (if 80/100 \<le> level p then 1 else 0)"
    and "clamp_local p = (95/100 \<le> level p)" and "hard_block p = (1 \<le> level p)"
  unfolding p_def
  by (simp_all add: compute_pressure_def no_pressure_def split: option.split prod.split)

definition opt_le :: "rat option \<Rightarrow> rat option \<Rightarrow> bool" where
  "opt_le a b = (case (a, b) of (None, _) \<Rightarrow> True | (Some x, Some y) \<Rightarrow> x \<le> y | _ \<Rightarrow> False)"

lemma opt_le_SomeD: "opt_le a b \<Longrightarrow> a = Some x \<Longrightarrow> \<exists>y. b = Some y \<and> x \<le> y"
  by (auto simp: opt_le_def split: option.splits)

definition no_worse :: "budget_pressure \<Rightarrow> budget_pressure \<Rightarrow> bool" where
  "no_worse p q \<longleftrightarrow> level p \<le> level q \<and> threshold_delta p \<le> threshold_delta q \<and>
     (clamp_local p \<longrightarrow> clamp_local q) \<and> (hard_block p \<longrightarrow> hard_block q)"

lemma compute_pressure_mono:
  assumes "opt_le tok tok'" "opt_le dol dol'" "opt_le plan plan'"
    and pos: "\<forall>v\<in>set_option tok' \<union> set_option dol' \<union> set_option plan'. 0 \<le> v"
  shows "no_worse (compute_pressure tok dol plan e) (compute_pressure tok' dol' plan' e)"
proof (cases e)
  case False
  then show ?thesis by (simp add: compute_pressure_def no_worse_def)
next
  case True
  let ?p = "compute_pressure tok dol plan True" and ?q = "compute_pressure tok' dol' plan' True"
  have "level ?p \<le> level ?q"
  proof (cases "\<exists>v. tok = Some v \<or> dol = Some v \<or> plan = Some v")
    case False
    then have "?p = no_pressure" by (auto simp: compute_pressure_def active_budgets_def map_filter_def)
    moreover have "0 \<le> level ?q"
    proof (cases "\<exists>v. tok' = Some v \<or> dol' = Some v \<or> plan' = Some v")
      case True
      then obtain v where "tok' = Some v \<or> dol' = Some v \<or> plan' = Some v" by blast
      with compute_pressure_level [OF this] pos show ?thesis by fastforce
    next
      case False
      then show ?thesis
        by (auto simp: compute_pressure_def active_budgets_def map_filter_def no_pressure_def)
    qed
    ultimately show ?thesis by (simp add: no_pressure_def)
  next
    case True
    then obtain v where "tok = Some v \<or> dol = Some v \<or> plan = Some v" by blast
    from compute_pressure_level [OF this]
    have "Some (level ?p) \<in> {tok, dol, plan}" by simp
    then consider "tok = Some (level ?p)" | "dol = Some (level ?p)" | "plan = Some (level ?p)"
      by auto
    then obtain u where u: "tok' = Some u \<or> dol' = Some u \<or> plan' = Some u" "level ?p \<le> u"
      using opt_le_SomeD assms(1-3) by cases metis+
    with compute_pressure_level [OF u(1)] show ?thesis by simp
  qed
  then show ?thesis using True by (auto simp: no_worse_def compute_pressure_shape)
qed

lemma headroom_after_correct:
  assumes "valkey_laws c" "vk_set c t s (plan_window_key cr w)
      (json_dumps (JDict [(''remaining'', JInt rm), (''limit'', JInt lm)])) None = Ok s'"
    and "t \<le> t'"
  shows "headroom (Some c) t' (correct_from_headers (Some c) t s cr w rm lm) cr w =
     Inr (if lm \<le> 0 then None else Some (max 0 (min 1 (of_int rm / of_int lm))))"
  using assms(2) valkey_get_set [OF assms, of "plan_window_key cr w"]
  by (simp add: headroom_def correct_from_headers_def expired_def jget_def)

section \<open>Properties\<close>

text \<open>
  Budget pressure is the tightest active budget and grows with consumption: the level is
  one of the three fractions and bounds each of them, the clamp, the hard block and the
  threshold shift are its thresholds, and more consumption never relaxes any of them.
\<close>

theorem budget_pressure_tightest:
  assumes "opt_le tok tok'" "opt_le dol dol'" "opt_le plan plan'"
    and "\<forall>v\<in>set_option tok' \<union> set_option dol' \<union> set_option plan'. 0 \<le> v"
  shows "no_worse (compute_pressure tok dol plan e) (compute_pressure tok' dol' plan' e) \<and>
    (\<forall>v. tok = Some v \<or> dol = Some v \<or> plan = Some v \<longrightarrow>
       v \<le> level (compute_pressure tok dol plan True) \<and>
       Some (level (compute_pressure tok dol plan True)) \<in> {tok, dol, plan}) \<and>
    clamp_local (compute_pressure tok dol plan e) =
      (95/100 \<le> level (compute_pressure tok dol plan e)) \<and>
    hard_block (compute_pressure tok dol plan e) = (1 \<le> level (compute_pressure tok dol plan e))"
  using compute_pressure_mono [OF assms] compute_pressure_level [of tok _ dol plan]
    compute_pressure_shape(2,3) [of tok dol plan e]
  by blast

theorem budget_pressure_tightest_witness:
  "no_worse (compute_pressure (Some (1/2)) None (Some (9/10)) True)
     (compute_pressure (Some (1/2)) (Some (1/4)) (Some (97/100)) True)"
  using budget_pressure_tightest [of "Some (1/2)" "Some (1/2)" None "Some (1/4)" "Some (9/10)"
      "Some (97/100)" True]
  by (simp add: opt_le_def)

end
