(* ===== verification/Sensitivity.thy ===== *)
theory Sensitivity
  imports Capability
begin

text \<open>\<open>shared/routing/sensitivity.py\<close>: the local clamp on requests flagged as sensitive.\<close>

definition SENSITIVITY_MODES :: "string list" where
  "SENSITIVITY_MODES = [''local_only'', ''redact_then_any'', ''ignore'']"

record sensitivity_result =
  sr_candidates :: "model_offer list"
  redact_before_dispatch :: bool

definition apply_sensitivity ::
    "model_offer list \<Rightarrow> bool \<Rightarrow> string \<Rightarrow> string option \<Rightarrow> sensitivity_result" where
  "apply_sensitivity candidates pii org_routing override_mode =
     (let md0 = (if truthy override_mode then the override_mode else org_routing);
          md = (if md0 \<in> set SENSITIVITY_MODES then md0 else ''local_only'')
      in if \<not> pii \<or> md = ''ignore'' then
           \<lparr>sr_candidates = candidates, redact_before_dispatch = False\<rparr>
         else if md = ''local_only'' then
           \<lparr>sr_candidates = filter (\<lambda>c. location c = ''local'') candidates,
            redact_before_dispatch = False\<rparr>
         else \<lparr>sr_candidates = candidates, redact_before_dispatch = True\<rparr>)"

lemma apply_sensitivity_subset:
  "set (sr_candidates (apply_sensitivity cs pii rt ov)) \<subseteq> set cs"
  by (auto simp: apply_sensitivity_def Let_def)

lemma apply_sensitivity_local:
  assumes "rt \<notin> {''redact_then_any'', ''ignore''}"
  shows "sr_candidates (apply_sensitivity cs True rt None) =
    filter (\<lambda>c. location c = ''local'') cs"
  using assms by (auto simp: apply_sensitivity_def Let_def SENSITIVITY_MODES_def)

text \<open>Every branch either keeps the whole chain or drops exactly the non-local offers.\<close>

lemma apply_sensitivity_cases:
  "sr_candidates (apply_sensitivity cs pii rt ov) \<in>
     {cs, filter (\<lambda>c. location c = ''local'') cs}"
  by (simp add: apply_sensitivity_def Let_def)

end
