(* ===== verification/Escalation.thy ===== *)
theory Escalation
  imports Valkey
begin

text \<open>
  \<open>shared/routing/escalation.py\<close>: the four escalation triggers and the sticky state of a
  session in Valkey. An ISO timestamp is the instant it denotes, in microseconds; the
  clock reading of a call is its argument \<open>t\<close>.
\<close>

definition validate_de_escalation :: "string \<Rightarrow> py_error + unit" where
  "validate_de_escalation v = (if v = ''task_detect'' then Inl ValueError else Inr ())"

record escalation_decision =
  escalate :: bool
  trigger :: "string option"

definition should_escalate ::
    "int option \<Rightarrow> int \<Rightarrow> bool \<Rightarrow> bool \<Rightarrow> string option \<Rightarrow> escalation_decision" where
  "should_escalate cx threshold local_unhealthy failure_signal hint =
     (if hint \<in> {Some ''true'', Some ''auto:high''}
        then \<lparr>escalate = True, trigger = Some ''explicit_hint''\<rparr>
      else if hint = Some ''auto:low'' then \<lparr>escalate = False, trigger = None\<rparr>
      else if (case cx of None \<Rightarrow> False | Some n \<Rightarrow> threshold \<le> n)
        then \<lparr>escalate = True, trigger = Some ''complexity''\<rparr>
      else if local_unhealthy then \<lparr>escalate = True, trigger = Some ''unhealthy''\<rparr>
      else if failure_signal then \<lparr>escalate = True, trigger = Some ''failure_signal''\<rparr>
      else \<lparr>escalate = False, trigger = None\<rparr>)"

definition resolve_target :: "string option \<Rightarrow> string option \<Rightarrow> string option" where
  "resolve_target assignment_model policy_target = or_else assignment_model policy_target"

definition STICKY_TTL :: nat where
  "STICKY_TTL = 3600"

definition sticky_key :: "string \<Rightarrow> string" where
  "sticky_key session = ''waddleai:route:sticky:'' @ session"

definition minutes :: "int \<Rightarrow> int" where
  "minutes n = n * 60000000"

definition sticky_doc :: "int \<Rightarrow> json" where
  "sticky_doc now = JDict [(''escalated_at'', JInt now), (''last_active'', JInt now)]"

definition mark_escalated :: "'s valkey option \<Rightarrow> nat \<Rightarrow> int \<Rightarrow> 's \<Rightarrow> string \<Rightarrow> 's" where
  "mark_escalated vk ttl t s session =
     (case vk of None \<Rightarrow> s
      | Some c \<Rightarrow>
          if session = [] then s
          else case vk_set c t s (sticky_key session) (json_dumps (sticky_doc t)) (Some ttl) of
                 Raised \<Rightarrow> s | Ok s' \<Rightarrow> s')"

definition reset_sticky :: "'s valkey option \<Rightarrow> int \<Rightarrow> 's \<Rightarrow> string \<Rightarrow> 's" where
  "reset_sticky vk t s session =
     (case vk of None \<Rightarrow> s
      | Some c \<Rightarrow>
          if session = [] then s
          else case vk_del c t s [sticky_key session] of Raised \<Rightarrow> s | Ok s' \<Rightarrow> s')"

definition is_sticky ::
    "'s valkey option \<Rightarrow> nat \<Rightarrow> int \<Rightarrow> 's \<Rightarrow> string \<Rightarrow> string \<Rightarrow> int \<Rightarrow> bool \<Rightarrow> py_error + bool \<times> 's"
where
  "is_sticky vk ttl t s session de_esc idle_minutes new_conversation =
     (case vk of None \<Rightarrow> Inr (False, s)
      | Some c \<Rightarrow>
          if session = [] then Inr (False, s)
          else case vk_get c t s (sticky_key session) of
                 Raised \<Rightarrow> Inr (False, s)
               | Ok None \<Rightarrow> Inr (False, s)
               | Ok (Some raw) \<Rightarrow>
                   (case json_loads raw of
                      None \<Rightarrow> Inl ValueError
                    | Some state \<Rightarrow>
                        if de_esc = ''never'' then Inr (True, s)
                        else if new_conversation then Inr (False, reset_sticky vk t s session)
                        else (case state of
                                JDict d \<Rightarrow>
                                  (case jget d ''last_active'' of
                                     None \<Rightarrow> Inl KeyError
                                   | Some (JInt since) \<Rightarrow>
                                       if minutes idle_minutes \<le> t - since
                                       then Inr (False, reset_sticky vk t s session)
                                       else Inr (True, mark_escalated vk ttl t s session)
                                   | Some _ \<Rightarrow> Inl TypeError)
                              | _ \<Rightarrow> Inl TypeError)))"

section \<open>The triggers\<close>

lemma should_escalate_iff:
  "escalate (should_escalate cx th unh fail hint) \<longleftrightarrow>
     hint \<in> {Some ''true'', Some ''auto:high''} \<or>
     hint \<noteq> Some ''auto:low'' \<and>
       ((\<exists>n. cx = Some n \<and> th \<le> n) \<or> unh \<or> fail)"
  by (auto simp: should_escalate_def split: option.splits)

lemma should_escalate_trigger:
  "trigger (should_escalate cx th unh fail hint) = None \<longleftrightarrow>
     \<not> escalate (should_escalate cx th unh fail hint)"
  by (auto simp: should_escalate_def)

lemma should_escalate_threshold_mono:
  "th \<le> th' \<Longrightarrow> escalate (should_escalate cx th' unh fail hint) \<Longrightarrow>
     escalate (should_escalate cx th unh fail hint)"
  by (fastforce simp: should_escalate_iff)

section \<open>A sticky session over its turns\<close>

text \<open>
  The turns of one session after it escalated: each asks \<open>is_sticky\<close> at its own time, in
  the state the previous turn left.
\<close>

fun sticky_turns ::
    "'s valkey \<Rightarrow> nat \<Rightarrow> string \<Rightarrow> int \<Rightarrow> string \<Rightarrow> 's \<Rightarrow> int list \<Rightarrow> py_error + bool list" where
  "sticky_turns c ttl de idle session s [] = Inr []"
| "sticky_turns c ttl de idle session s (t # ts) =
     (case is_sticky (Some c) ttl t s session de idle False of
        Inl e \<Rightarrow> Inl e
      | Inr (b, s') \<Rightarrow>
          (case sticky_turns c ttl de idle session s' ts of
             Inl e \<Rightarrow> Inl e | Inr bs \<Rightarrow> Inr (b # bs)))"

text \<open>
  What it should do: stay escalated while each turn follows the previous one within the
  window, and be reset for good at the first one that does not.
\<close>

fun within_window :: "int \<Rightarrow> int \<Rightarrow> int list \<Rightarrow> bool list" where
  "within_window w since [] = []"
| "within_window w since (t # ts) =
     (if t - since < w then True # within_window w t ts else map (\<lambda>_. False) (t # ts))"

lemma sticky_turns_gone:
  assumes "\<forall>t'\<ge>t0. vk_get c t' s (sticky_key session) = Ok None" and "\<forall>t\<in>set ts. t0 \<le> t"
  shows "sticky_turns c ttl de idle session s ts = Inr (map (\<lambda>_. False) ts)"
  using assms by (induction ts) (auto simp: is_sticky_def)

lemma get_after_mark:
  assumes "valkey_laws c" "valkey_up c" "session \<noteq> []" "t0 \<le> t"
  shows "vk_get c t (mark_escalated (Some c) ttl t0 s session) (sticky_key session) =
    Ok (if t0 + seconds ttl \<le> t then None else Some (json_dumps (sticky_doc t0)))"
proof -
  obtain s' where
    s': "vk_set c t0 s (sticky_key session) (json_dumps (sticky_doc t0)) (Some ttl) = Ok s'"
    using valkey_up_set [OF assms(2)] by blast
  with valkey_get_set [OF assms(1) s' assms(4), of "sticky_key session"] assms(3)
  show ?thesis by (simp add: mark_escalated_def expired_def)
qed

lemma get_after_reset:
  assumes "valkey_laws c" "valkey_up c" "session \<noteq> []" "t0 \<le> t"
  shows "vk_get c t (reset_sticky (Some c) t0 s session) (sticky_key session) = Ok None"
proof -
  obtain s' where s': "vk_del c t0 s [sticky_key session] = Ok s'"
    using valkey_up_del [OF assms(2)] by blast
  with valkey_get_del [OF assms(1) s' assms(4), of "sticky_key session"] assms(3)
  show ?thesis by (simp add: reset_sticky_def)
qed

lemma sticky_turns_idle_reset:
  assumes laws: "valkey_laws c" "valkey_up c" and ses: "session \<noteq> []" and de: "de \<noteq> ''never''"
    and "sorted (t0 # ts)"
  shows "sticky_turns c ttl de idle session (mark_escalated (Some c) ttl t0 s session) ts =
    Inr (within_window (min (minutes idle) (seconds ttl)) t0 ts)"
  using assms(5)
proof (induction ts arbitrary: t0 s)
  case Nil
  then show ?case by simp
next
  case (Cons t ts)
  let ?s = "mark_escalated (Some c) ttl t0 s session"
  from Cons.prems have le: "t0 \<le> t" and later: "\<forall>u\<in>set ts. t \<le> u" and srt: "sorted (t # ts)"
    by auto
  note get = get_after_mark [OF laws ses le, of ttl s]
  consider (expired) "seconds ttl \<le> t - t0" | (idle) "t - t0 < seconds ttl" "minutes idle \<le> t - t0"
    | (live) "t - t0 < seconds ttl" "t - t0 < minutes idle"
    by linarith
  then show ?case
  proof cases
    case expired
    have "is_sticky (Some c) ttl t ?s session de idle False = Inr (False, ?s)"
      using get expired ses by (simp add: is_sticky_def)
    moreover have "\<forall>t'\<ge>t. vk_get c t' ?s (sticky_key session) = Ok None"
      using get_after_mark [OF laws ses, of t0 _ ttl s] expired le by auto
    ultimately show ?thesis
      using sticky_turns_gone [OF _ later, of c ?s session] expired by simp
  next
    case idle
    let ?r = "reset_sticky (Some c) t ?s session"
    have "is_sticky (Some c) ttl t ?s session de idle False = Inr (False, ?r)"
      using get idle ses de by (simp add: is_sticky_def sticky_doc_def jget_def)
    moreover have "\<forall>t'\<ge>t. vk_get c t' ?r (sticky_key session) = Ok None"
      using get_after_reset [OF laws ses] by blast
    ultimately show ?thesis
      using sticky_turns_gone [OF _ later, of c ?r session] idle by simp
  next
    case live
    have "is_sticky (Some c) ttl t ?s session de idle False =
        Inr (True, mark_escalated (Some c) ttl t ?s session)"
      using get live ses de by (simp add: is_sticky_def sticky_doc_def jget_def)
    with Cons.IH [OF srt, of ?s] live show ?thesis by simp
  qed
qed

lemma sticky_turns_never:
  assumes laws: "valkey_laws c" "valkey_up c" and ses: "session \<noteq> []"
    and "\<forall>t\<in>set ts. t0 \<le> t"
  shows "sticky_turns c ttl ''never'' idle session (mark_escalated (Some c) ttl t0 s session) ts =
    Inr (map (\<lambda>t. t - t0 < seconds ttl) ts)"
  using assms(4)
proof (induction ts)
  case Nil
  then show ?case by simp
next
  case (Cons t ts)
  let ?s = "mark_escalated (Some c) ttl t0 s session"
  have "is_sticky (Some c) ttl t ?s session ''never'' idle False = Inr (t - t0 < seconds ttl, ?s)"
    using get_after_mark [OF laws ses, of t0 t ttl s] Cons.prems ses by (auto simp: is_sticky_def)
  with Cons show ?case by simp
qed

section \<open>Properties\<close>

text \<open>
  The life of an escalated session under the default \<open>idle_reset\<close>: with a Valkey client
  that answers, each later turn is escalated exactly as long as every turn so far followed the
  previous one within the idle window and within the key's lifetime, and once reset no later
  turn is escalated.
\<close>

theorem sticky_session_window:
  assumes "valkey_laws c" "valkey_up c" "session \<noteq> []" "de \<noteq> ''never''" "sorted (t0 # ts)"
  shows "sticky_turns c ttl de idle session (mark_escalated (Some c) ttl t0 s session) ts =
    Inr (within_window (min (minutes idle) (seconds ttl)) t0 ts)"
  using assms by (rule sticky_turns_idle_reset)

theorem sticky_session_window_witness:
  "sticky_turns mem_valkey STICKY_TTL ''idle_reset'' 10 ''s''
     (mark_escalated (Some mem_valkey) STICKY_TTL 0 Map.empty ''s'')
     [minutes 9, minutes 18, minutes 28, minutes 29] = Inr [True, True, False, False]"
  using sticky_session_window [OF mem_valkey_laws mem_valkey_up, of "''s''" "''idle_reset''" 0
      "[minutes 9, minutes 18, minutes 28, minutes 29]" STICKY_TTL 10 Map.empty]
  by (simp add: minutes_def seconds_def STICKY_TTL_def)

text \<open>
  Under \<open>never\<close> the session does not stay escalated for good: its key is written once and
  never refreshed, so every turn at or after the key's lifetime is not escalated, however
  close together the turns are.
\<close>

theorem sticky_never_lapses:
  assumes "valkey_laws c" "valkey_up c" "session \<noteq> []" "\<forall>t\<in>set ts. t0 \<le> t"
  shows "sticky_turns c ttl ''never'' idle session (mark_escalated (Some c) ttl t0 s session) ts =
    Inr (map (\<lambda>t. t - t0 < seconds ttl) ts)"
  using assms by (rule sticky_turns_never)

theorem sticky_never_lapses_witness:
  "sticky_turns mem_valkey STICKY_TTL ''never'' 10 ''s''
     (mark_escalated (Some mem_valkey) STICKY_TTL 0 Map.empty ''s'')
     [minutes 30, minutes 59, minutes 60] = Inr [True, True, False]"
  using sticky_never_lapses [OF mem_valkey_laws mem_valkey_up, of "''s''"
      "[minutes 30, minutes 59, minutes 60]" 0 STICKY_TTL 10 Map.empty]
  by (simp add: minutes_def seconds_def STICKY_TTL_def)

end
