(* ===== verification/RoutingEngine.thy ===== *)
theory RoutingEngine
  imports Classifier RoutingPolicy Assignments Aliases Budgets Sensitivity Escalation
begin

text \<open>
  \<open>shared/routing/engine.py\<close>: the decision the proxy's routing stage asks for, composed of
  the other routing theories in the order of \<open>RoutingEngine.decide\<close>. The tables, the
  tokenizer, the hash, the classifier model and the Valkey client are fields of
  \<open>route_env\<close>; \<open>t\<close> is the clock reading. The engine hands no Valkey client to the
  tool-type cascade, so the classifier runs uncached here, as in the code.
\<close>

record 's route_env =
  env_valkey :: "'s valkey option"
  env_tok :: "string \<Rightarrow> nat"
  env_repr :: "json \<Rightarrow> string"
  env_sha :: "string \<Rightarrow> string"
  env_client :: "classifier_client option"
  env_assignments :: "assignment_row list"
  env_policies :: "routing_policy_row list"
  env_aliases :: "model_alias list"

record routing_input =
  org_id :: int
  request_id :: string
  body :: dict
  explicit_type :: "string option"
  requested_model :: "string option"
  signals :: request_signals
  rules :: "heuristic_rule list"
  offers :: "model_offer list"
  session_id :: "string option"
  pii_detected :: bool
  local_unhealthy :: bool
  failure_signal :: bool
  explicit_escalate_hint :: "string option"
  new_conversation :: bool
  allowed_models :: "string list option"
  tier_cap :: "rat option"
  latency_by_model :: "(string \<times> rat) list option"
  token_consumed_fraction :: "rat option"
  dollar_consumed_fraction :: "rat option"
  plan_consumed_fraction :: "rat option"

text \<open>The transparency metadata: the dicts with \<open>"cause"\<close> alias, escalation, capability_veto.\<close>

datatype routed_from = CauseAlias string string | CauseEscalation "string option" | CauseVeto string

record route_trace =
  tr_request_id :: string
  tr_org :: int
  tr_tool_type :: string
  tr_source :: string
  tr_rules_fired :: "(string \<times> string) list list"
  tr_classifier_output :: "classification option"
  tr_assignment_model :: "string option"
  tr_capability_veto :: bool
  tr_veto_reason :: "string option"
  tr_qualified :: "(string \<times> rat \<times> string) list"
  tr_pressure :: budget_pressure
  tr_final_model :: string
  tr_routed_from :: "routed_from option"
  tr_escalated :: bool

record route_decision =
  rd_model :: string
  rd_fallback_chain :: "string list"
  rd_routed_from :: "routed_from option"
  rd_trace :: route_trace

definition find_offer :: "model_offer list \<Rightarrow> string option \<Rightarrow> model_offer option" where
  "find_offer ofs name =
     (case name of None \<Rightarrow> None | Some n \<Rightarrow> List.find (\<lambda>ofr. model_name ofr = n) ofs)"

fun user_text :: "json list \<Rightarrow> string" where
  "user_text [] = []"
| "user_text (m # ms) =
     (case m of
        JDict d \<Rightarrow>
          if jget_null d ''role'' = JStr ''user''
          then (case jget_or d ''content'' (JStr []) of JStr s \<Rightarrow> s | _ \<Rightarrow> user_text ms)
          else user_text ms
      | _ \<Rightarrow> user_text ms)"

definition last_user_message :: "dict \<Rightarrow> py_error + string" where
  "last_user_message b =
     (case body_messages b of Inl e \<Rightarrow> Inl e | Inr ms \<Rightarrow> Inr (user_text (rev ms)))"

text \<open>What the tables and caches answer before anything is decided.\<close>

record 's route_lookups =
  lk_tool :: tool_type_decision
  lk_assignment :: "assignment option"
  lk_complexity :: "int option"
  lk_reqs :: requirements_vector
  lk_policy :: routing_policy_config
  lk_state :: 's

definition route_lookups :: "'s route_env \<Rightarrow> int \<Rightarrow> 's \<Rightarrow> routing_input \<Rightarrow> py_error + 's route_lookups"
where
  "route_lookups env t s rq =
     (case last_user_message (body rq) of
        Inl e \<Rightarrow> Inl e
      | Inr prompt \<Rightarrow>
          (let (tool, s1) =
                 determine_tool_type (env_sha env) (env_repr env) None t s (explicit_type rq)
                   (signals rq) (rules rq) prompt None (env_client env) ''gemma4:e2b'';
               (asg, s2) =
                 resolve_assignment (env_valkey env) t s1 300 (env_assignments env)
                   (tt_tool_type tool) (Some (org_id rq));
               cx = map_option cl_complexity (tt_classification tool)
           in case derive_requirements (env_tok env) (env_repr env) (body rq) cx of
                Inl e \<Rightarrow> Inl e
              | Inr reqs \<Rightarrow>
                  (let (pol, s3) =
                         resolve_routing_policy (env_valkey env) t s2 300 (env_policies env) (org_id rq)
                   in Inr \<lparr>lk_tool = tool, lk_assignment = asg, lk_complexity = cx, lk_reqs = reqs,
                           lk_policy = pol, lk_state = s3\<rparr>)))"

text \<open>Stage 0: only a concrete model name goes through the alias table.\<close>

definition apply_alias ::
    "'s route_env \<Rightarrow> routing_input \<Rightarrow> string option \<Rightarrow> string option \<times> routed_from option" where
  "apply_alias env rq assigned =
     (case requested_model rq of
        None \<Rightarrow> (assigned, None)
      | Some m \<Rightarrow>
          if m \<noteq> [] \<and> \<not> startswith ''waddleai/'' m then
            (let res = resolve_alias (env_aliases env) m (Some (org_id rq)) in
             case ar_routed_from res of
               None \<Rightarrow> (assigned, None)
             | Some from_model \<Rightarrow>
                 (Some (ar_model res), Some (CauseAlias from_model (ar_model res))))
          else (assigned, None))"

definition request_pressure :: "routing_input \<Rightarrow> routing_policy_config \<Rightarrow> budget_pressure" where
  "request_pressure rq pol =
     compute_pressure (token_consumed_fraction rq) (dollar_consumed_fraction rq)
       (plan_consumed_fraction rq) (budget_pressure_enabled pol)"

definition request_chain :: "routing_input \<Rightarrow> routing_policy_config \<Rightarrow> model_offer list" where
  "request_chain rq pol =
     filter_and_sort (offers rq) pol (allowed_models rq) (tier_cap rq) (latency_by_model rq)"

definition clamp_chain ::
    "model_offer list \<Rightarrow> bool \<Rightarrow> bool \<Rightarrow> routing_policy_config \<Rightarrow> model_offer list" where
  "clamp_chain qualified pii clamp pol =
     (if pii \<or> clamp then
        sr_candidates (apply_sensitivity qualified (pii \<or> clamp)
          (if pii then sensitivity_routing pol else ''local_only'') None)
      else qualified)"

definition resolve_escalation ::
    "'s route_env \<Rightarrow> int \<Rightarrow> 's \<Rightarrow> routing_input \<Rightarrow> int option \<Rightarrow> routing_policy_config \<Rightarrow>
     budget_pressure \<Rightarrow> py_error + escalation_decision \<times> 's" where
  "resolve_escalation env t s rq cx pol pressure =
     (let sid = (case session_id rq of None \<Rightarrow> [] | Some i \<Rightarrow> i) in
      case is_sticky (env_valkey env) STICKY_TTL t s sid (de_escalation pol)
             (idle_reset_minutes pol) (new_conversation rq) of
        Inl e \<Rightarrow> Inl e
      | Inr (True, s') \<Rightarrow> Inr (\<lparr>escalate = True, trigger = Some ''sticky''\<rparr>, s')
      | Inr (False, s') \<Rightarrow>
          (let d = should_escalate cx (escalation_threshold pol + threshold_delta pressure)
                     (local_unhealthy rq) (failure_signal rq) (explicit_escalate_hint rq)
           in Inr (d, if escalate d \<and> truthy (session_id rq)
                      then mark_escalated (env_valkey env) STICKY_TTL t s' sid else s')))"

definition pick_final ::
    "model_offer option \<Rightarrow> model_offer list \<Rightarrow> assignment option \<Rightarrow> escalation_decision \<Rightarrow>
     routing_policy_config \<Rightarrow> string option \<Rightarrow> routed_from option \<Rightarrow>
     string \<times> routed_from option" where
  "pick_final chosen chain asg esc pol veto_reason initial =
     (let target = resolve_target (Option.bind asg escalation_model) (escalation_target pol) in
      if escalate esc \<and> truthy target then
        (the target, Some (CauseEscalation (trigger esc)))
      else if veto_reason \<noteq> None \<and> veto_reason \<noteq> Some ''no_assignment'' \<and> chosen \<noteq> None then
        (model_name (the chosen), Some (CauseVeto (the veto_reason)))
      else if chosen \<noteq> None \<and> list_ex (\<lambda>ofr. model_name ofr = model_name (the chosen)) chain then
        (model_name (the chosen), initial)
      else case chain of
             c # _ \<Rightarrow> (model_name c, initial)
           | [] \<Rightarrow>
               (case chosen of
                  Some c \<Rightarrow> (model_name c, initial)
                | None \<Rightarrow>
                    (case asg of Some a \<Rightarrow> (default_model a, initial) | None \<Rightarrow> (''gpt-4'', initial))))"

text \<open>The last component is the trace handed to \<open>persist_trace\<close>, if any.\<close>

definition decide ::
    "'s route_env \<Rightarrow> int \<Rightarrow> 's \<Rightarrow> routing_input \<Rightarrow> bool \<Rightarrow>
     py_error + route_decision \<times> 's \<times> route_trace option" where
  "decide env t s rq persist =
     (case route_lookups env t s rq of
        Inl e \<Rightarrow> Inl e
      | Inr lk \<Rightarrow>
          (let pol = lk_policy lk;
               asg = lk_assignment lk;
               (assigned, alias_from) = apply_alias env rq (map_option default_model asg);
               (chosen, reason) =
                 veto_and_reroute (find_offer (offers rq) assigned) (offers rq) (lk_reqs lk);
               qualified = request_chain rq pol;
               pressure = request_pressure rq pol
           in case resolve_escalation env t (lk_state lk) rq (lk_complexity lk) pol pressure of
                Inl e \<Rightarrow> Inl e
              | Inr (esc, s') \<Rightarrow>
                  (let chain = clamp_chain qualified (pii_detected rq) (clamp_local pressure) pol;
                       (final, rf) = pick_final chosen chain asg esc pol reason alias_from;
                       tool = lk_tool lk;
                       tr = \<lparr>tr_request_id = request_id rq, tr_org = org_id rq,
                             tr_tool_type = tt_tool_type tool, tr_source = tt_source tool,
                             tr_rules_fired = tt_rules_fired tool,
                             tr_classifier_output = tt_classification tool,
                             tr_assignment_model = map_option default_model asg,
                             tr_capability_veto =
                               (reason \<noteq> None \<and> reason \<noteq> Some ''no_assignment''),
                             tr_veto_reason = reason,
                             tr_qualified =
                               map (\<lambda>ofr. (model_name ofr, capability_score ofr, location ofr))
                                 qualified,
                             tr_pressure = pressure, tr_final_model = final,
                             tr_routed_from = rf, tr_escalated = escalate esc\<rparr>
                   in Inr (\<lparr>rd_model = final,
                           rd_fallback_chain =
                             map model_name (filter (\<lambda>ofr. model_name ofr \<noteq> final) chain),
                           rd_routed_from = rf, rd_trace = tr\<rparr>,
                          s', if persist then Some tr else None))))"

section \<open>What a decision is made of\<close>

lemma decideE:
  assumes "decide env t s rq persist = Inr (d, s', tr)"
  obtains lk assigned alias_from chosen reason esc
  where "route_lookups env t s rq = Inr lk"
    and "apply_alias env rq (map_option default_model (lk_assignment lk)) = (assigned, alias_from)"
    and "veto_and_reroute (find_offer (offers rq) assigned) (offers rq) (lk_reqs lk) = (chosen, reason)"
    and "resolve_escalation env t (lk_state lk) rq (lk_complexity lk) (lk_policy lk)
           (request_pressure rq (lk_policy lk)) = Inr (esc, s')"
    and "(rd_model d, rd_routed_from d) = pick_final chosen
           (clamp_chain (request_chain rq (lk_policy lk)) (pii_detected rq)
              (clamp_local (request_pressure rq (lk_policy lk))) (lk_policy lk))
           (lk_assignment lk) esc (lk_policy lk) reason alias_from"
    and "rd_fallback_chain d = map model_name (filter (\<lambda>ofr. model_name ofr \<noteq> rd_model d)
           (clamp_chain (request_chain rq (lk_policy lk)) (pii_detected rq)
              (clamp_local (request_pressure rq (lk_policy lk))) (lk_policy lk)))"
    and "tr_escalated (rd_trace d) = escalate esc"
    and "tr_capability_veto (rd_trace d) = (reason \<noteq> None \<and> reason \<noteq> Some ''no_assignment'')"
    and "tr = (if persist then Some (rd_trace d) else None)"
  using assms
  by (auto simp: decide_def Let_def split: sum.splits prod.splits)

definition decision_chain :: "routing_input \<Rightarrow> routing_policy_config \<Rightarrow> model_offer list" where
  "decision_chain rq pol =
     clamp_chain (request_chain rq pol) (pii_detected rq) (clamp_local (request_pressure rq pol)) pol"

text \<open>The requests whose chain is cut down to local models.\<close>

definition clamped :: "routing_input \<Rightarrow> routing_policy_config \<Rightarrow> bool" where
  "clamped rq pol \<longleftrightarrow>
     (if pii_detected rq then sensitivity_routing pol \<notin> {''redact_then_any'', ''ignore''}
      else clamp_local (request_pressure rq pol))"

lemma decision_chain_alt:
  "decision_chain rq pol =
     filter (\<lambda>ofr. clamped rq pol \<longrightarrow> location ofr = ''local'') (request_chain rq pol)"
  by (auto simp: decision_chain_def clamp_chain_def clamped_def apply_sensitivity_def
      SENSITIVITY_MODES_def Let_def)

lemma decision_chain_subset: "set (decision_chain rq pol) \<subseteq> set (offers rq)"
  by (auto simp: decision_chain_alt request_chain_def set_filter_and_sort)

lemma sorted_decision_chain:
  "sorted (map (mode_sort_key (effective_mode pol)
       (case latency_by_model rq of None \<Rightarrow> [] | Some l \<Rightarrow> l)) (decision_chain rq pol))"
  unfolding decision_chain_alt request_chain_def
  by (rule sorted_filter) (rule sorted_filter_and_sort)

lemma find_offer_in: "set_option (find_offer ofs name) \<subseteq> set ofs"
  by (auto simp: find_offer_def find_Some_iff split: option.splits)

lemma find_offer_name: "find_offer ofs name = Some ofr \<Longrightarrow> name = Some (model_name ofr)"
  by (auto simp: find_offer_def find_Some_iff split: option.splits)

lemma pick_final_chain:
  assumes "(m, rf) = pick_final chosen chain asg esc pol reason initial"
    and "\<not> escalate esc" "reason = None \<or> reason = Some ''no_assignment''" "chain \<noteq> []"
  shows "\<exists>ofr\<in>set chain. m = model_name ofr"
  using assms by (auto simp: pick_final_def Bex_def list_ex_iff split: list.splits if_splits)

lemma pick_final_veto:
  assumes "(m, Some (CauseVeto why)) = pick_final chosen chain asg esc pol reason initial"
    and "\<And>w. initial \<noteq> Some (CauseVeto w)"
  shows "reason = Some why \<and> (\<exists>c. chosen = Some c \<and> m = model_name c)"
  using assms
  by (cases reason; cases chosen; cases asg; cases chain)
    (auto simp: pick_final_def Let_def split: if_splits)

lemma pick_final_escalated:
  assumes "(m, rf) = pick_final chosen chain asg esc pol reason initial" "escalate esc"
    "truthy (resolve_target (Option.bind asg escalation_model) (escalation_target pol))"
  shows "resolve_target (Option.bind asg escalation_model) (escalation_target pol) = Some m \<and>
    rf = Some (CauseEscalation (trigger esc))"
  using assms truthy_Some [OF assms(3)] by (auto simp: pick_final_def Let_def)

lemma apply_alias_cause: "apply_alias env rq a = (b, rf) \<Longrightarrow> rf \<noteq> Some (CauseVeto w)"
  by (auto simp: apply_alias_def Let_def split: option.splits if_splits)

section \<open>Properties\<close>

text \<open>
  A concrete organisation for the witnesses: one local and two commercial models, an
  assignment of \<open>coding\<close> to the local one that escalates to the large commercial one,
  the default policy (no row), no Valkey client, no classifier.
\<close>

definition small_local :: model_offer where
  "small_local = \<lparr>model_name = ''gemma'', capability_score = 2, supports_tools = False,
     supports_vision = False, context_window = 100, cost_per_token = 0, location = ''local'',
     available = True\<rparr>"

definition large_commercial :: model_offer where
  "large_commercial = \<lparr>model_name = ''opus'', capability_score = 5, supports_tools = True,
     supports_vision = True, context_window = 1000, cost_per_token = 3,
     location = ''commercial'', available = True\<rparr>"

definition mini_commercial :: model_offer where
  "mini_commercial = \<lparr>model_name = ''mini'', capability_score = 3, supports_tools = True,
     supports_vision = False, context_window = 500, cost_per_token = 1,
     location = ''commercial'', available = True\<rparr>"

definition demo_env :: "unit route_env" where
  "demo_env = \<lparr>env_valkey = None, env_tok = length, env_repr = (\<lambda>_. []), env_sha = id,
     env_client = None,
     env_assignments =
       [\<lparr>ma_tool_type = ''coding'', ma_scope = ''org'', ma_scope_ref = Some 7, ma_enabled = True,
         ma_model_name = ''gemma'', ma_escalation_model = Some ''opus'',
         ma_fallback_models = None\<rparr>],
     env_policies = [], env_aliases = []\<rparr>"

definition demo_request :: routing_input where
  "demo_request = \<lparr>org_id = 7, request_id = ''r1'',
     body = [(''messages'', JList [JDict [(''role'', JStr ''user''), (''content'', JStr ''hi'')]])],
     explicit_type = Some ''coding'', requested_model = None,
     signals = \<lparr>tool_names = [], endpoint = [], has_image = False, sig_model = []\<rparr>,
     rules = [], offers = [large_commercial, mini_commercial, small_local],
     session_id = None, pii_detected = False, local_unhealthy = False, failure_signal = False,
     explicit_escalate_hint = None, new_conversation = False, allowed_models = None,
     tier_cap = None, latency_by_model = None, token_consumed_fraction = None,
     dollar_consumed_fraction = None, plan_consumed_fraction = None\<rparr>"

text \<open>The same request with a tool in its body, which the local model cannot serve.\<close>

definition tool_body :: dict where
  "tool_body = (''tools'', JList [JStr ''t'']) # body demo_request"

lemmas demo_defs = demo_env_def demo_request_def small_local_def large_commercial_def
  mini_commercial_def tool_body_def

text \<open>
  C5. Whatever a routing decision returns as its fallback chain is the model names of offers
  of the request, in the order of the policy's mode, each of which passes the allow list and
  the tier cap, is admitted by the mode, and is not the model already chosen; when the
  request is clamped (flagged as sensitive under a local-only policy, or the tightest budget
  at 95 percent) every one of them is local.
\<close>

theorem decide_fallback_chain:
  assumes "decide env t s rq persist = Inr (d, s', tr)" "route_lookups env t s rq = Inr lk"
  shows "\<exists>chain. rd_fallback_chain d = map model_name chain \<and>
    sorted (map (mode_sort_key (effective_mode (lk_policy lk))
        (case latency_by_model rq of None \<Rightarrow> [] | Some l \<Rightarrow> l)) chain) \<and>
    (\<forall>ofr\<in>set chain. ofr \<in> set (offers rq) \<and>
       passes_filters ofr (allowed_models rq) (tier_cap rq) \<and>
       mode_admits (effective_mode (lk_policy lk)) ofr \<and> model_name ofr \<noteq> rd_model d \<and>
       (clamped rq (lk_policy lk) \<longrightarrow> location ofr = ''local''))"
proof -
  let ?chain = "filter (\<lambda>ofr. model_name ofr \<noteq> rd_model d) (decision_chain rq (lk_policy lk))"
  from assms(1) have "rd_fallback_chain d = map model_name ?chain"
    by (rule decideE) (use assms(2) in \<open>simp add: decision_chain_def\<close>)
  moreover have "sorted (map (mode_sort_key (effective_mode (lk_policy lk))
        (case latency_by_model rq of None \<Rightarrow> [] | Some l \<Rightarrow> l)) ?chain)"
    by (rule sorted_filter) (rule sorted_decision_chain)
  moreover have "\<forall>ofr\<in>set ?chain. ofr \<in> set (offers rq) \<and>
       passes_filters ofr (allowed_models rq) (tier_cap rq) \<and>
       mode_admits (effective_mode (lk_policy lk)) ofr \<and> model_name ofr \<noteq> rd_model d \<and>
       (clamped rq (lk_policy lk) \<longrightarrow> location ofr = ''local'')"
    by (simp add: decision_chain_alt request_chain_def set_filter_and_sort)
  ultimately show ?thesis by blast
qed

lemma demo_decides: "\<exists>d s' tr. decide demo_env 0 () demo_request True = Inr (d, s', tr)"
  and demo_lookups: "\<exists>lk. route_lookups demo_env 0 () demo_request = Inr lk"
proof -
  have "\<not> isl (decide demo_env 0 () demo_request True)" by code_simp
  then show "\<exists>d s' tr. decide demo_env 0 () demo_request True = Inr (d, s', tr)"
    by (cases "decide demo_env 0 () demo_request True") auto
  have "\<not> isl (route_lookups demo_env 0 () demo_request)" by code_simp
  then show "\<exists>lk. route_lookups demo_env 0 () demo_request = Inr lk"
    by (cases "route_lookups demo_env 0 () demo_request") auto
qed

theorem decide_fallback_chain_witness:
  "\<exists>d chain. map_sum id fst (decide demo_env 0 () demo_request True) = Inr d \<and>
     rd_fallback_chain d = map model_name chain \<and> set chain \<subseteq> set (offers demo_request)"
proof -
  obtain d s' tr where d: "decide demo_env 0 () demo_request True = Inr (d, s', tr)"
    using demo_decides by blast
  obtain lk where "route_lookups demo_env 0 () demo_request = Inr lk" using demo_lookups by blast
  from decide_fallback_chain [OF d this] d show ?thesis by auto
qed

text \<open>
  C8. When a decision neither escalates nor vetoes the assigned model and the (possibly
  clamped) chain is not empty, the chosen model is one of the chain: in particular a clamped
  request stays on a local model of the request's offers.
\<close>

theorem decide_model_in_chain:
  assumes "decide env t s rq persist = Inr (d, s', tr)" "route_lookups env t s rq = Inr lk"
    and "\<not> tr_escalated (rd_trace d)" "\<not> tr_capability_veto (rd_trace d)"
    and "\<exists>ofr\<in>set (request_chain rq (lk_policy lk)). clamped rq (lk_policy lk) \<longrightarrow> location ofr = ''local''"
  shows "\<exists>ofr\<in>set (offers rq). rd_model d = model_name ofr \<and>
    passes_filters ofr (allowed_models rq) (tier_cap rq) \<and>
    mode_admits (effective_mode (lk_policy lk)) ofr \<and>
    (clamped rq (lk_policy lk) \<longrightarrow> location ofr = ''local'')"
proof -
  let ?chain = "decision_chain rq (lk_policy lk)"
  from assms(5) have ne: "?chain \<noteq> []" by (auto simp: decision_chain_alt filter_empty_conv)
  from assms(1) have "\<exists>ofr\<in>set ?chain. rd_model d = model_name ofr"
  proof (rule decideE)
    fix lk' assigned alias_from chosen reason esc
    assume "route_lookups env t s rq = Inr lk'"
      and p: "(rd_model d, rd_routed_from d) = pick_final chosen
           (clamp_chain (request_chain rq (lk_policy lk')) (pii_detected rq)
              (clamp_local (request_pressure rq (lk_policy lk'))) (lk_policy lk'))
           (lk_assignment lk') esc (lk_policy lk') reason alias_from"
      and "tr_escalated (rd_trace d) = escalate esc"
      and "tr_capability_veto (rd_trace d) = (reason \<noteq> None \<and> reason \<noteq> Some ''no_assignment'')"
    with assms show ?thesis
      using pick_final_chain [OF p] ne by (auto simp: decision_chain_def)
  qed
  then show ?thesis
    by (auto simp: decision_chain_alt request_chain_def set_filter_and_sort)
qed

theorem decide_model_in_chain_witness:
  "\<exists>d ofr. map_sum id fst (decide demo_env 0 () demo_request True) = Inr d \<and>
     ofr \<in> set (offers demo_request) \<and> rd_model d = model_name ofr"
proof -
  obtain d s' tr where d: "decide demo_env 0 () demo_request True = Inr (d, s', tr)"
    using demo_decides by blast
  obtain lk where lk: "route_lookups demo_env 0 () demo_request = Inr lk" using demo_lookups by blast
  have "map_sum id (\<lambda>(d, _, _). tr_escalated (rd_trace d) \<or> tr_capability_veto (rd_trace d))
      (decide demo_env 0 () demo_request True) = Inr False"
    by code_simp
  with d have "\<not> tr_escalated (rd_trace d)" "\<not> tr_capability_veto (rd_trace d)" by simp_all
  moreover have "map_sum id (\<lambda>lk. \<exists>ofr\<in>set (request_chain demo_request (lk_policy lk)).
      clamped demo_request (lk_policy lk) \<longrightarrow> location ofr = ''local'')
      (route_lookups demo_env 0 () demo_request) = Inr True"
    by code_simp
  with lk have "\<exists>ofr\<in>set (request_chain demo_request (lk_policy lk)).
      clamped demo_request (lk_policy lk) \<longrightarrow> location ofr = ''local''" by simp
  ultimately show ?thesis using decide_model_in_chain [OF d lk] d by auto
qed

text \<open>
  C9. A decision whose cause is the capability veto routes to an offer of the request that is
  available, fits the context and supports what the request needs, and no qualifying offer
  has a higher capability score: the veto never downgrades further than it must.
\<close>

theorem decide_veto_best:
  assumes "decide env t s rq persist = Inr (d, s', tr)" "route_lookups env t s rq = Inr lk"
    and "rd_routed_from d = Some (CauseVeto why)"
  shows "\<exists>c\<in>set (offers rq). rd_model d = model_name c \<and> qualifies c (lk_reqs lk) \<and>
    (\<forall>ofr\<in>set (offers rq). qualifies ofr (lk_reqs lk) \<longrightarrow> capability_score ofr \<le> capability_score c)"
  using assms(1)
proof (rule decideE)
  fix lk' assigned alias_from chosen reason esc
  assume "route_lookups env t s rq = Inr lk'"
    and al: "apply_alias env rq (map_option default_model (lk_assignment lk')) = (assigned, alias_from)"
    and v: "veto_and_reroute (find_offer (offers rq) assigned) (offers rq) (lk_reqs lk') =
           (chosen, reason)"
    and p: "(rd_model d, rd_routed_from d) = pick_final chosen
           (clamp_chain (request_chain rq (lk_policy lk')) (pii_detected rq)
              (clamp_local (request_pressure rq (lk_policy lk'))) (lk_policy lk'))
           (lk_assignment lk') esc (lk_policy lk') reason alias_from"
  then have lk: "lk' = lk" using assms(2) by simp
  have init: "alias_from \<noteq> Some (CauseVeto w)" for w by (rule apply_alias_cause [OF al])
  obtain c where c: "reason = Some why" "chosen = Some c" "rd_model d = model_name c"
    using pick_final_veto [OF p [unfolded assms(3)] init] by blast
  with v have "best_candidate (offers rq) (lk_reqs lk) = Some c"
    by (auto simp: veto_and_reroute_def lk split: option.splits if_splits)
  from best_candidate_Some [OF this] c show ?thesis by blast
qed

theorem decide_veto_best_witness:
  "\<exists>d c why. map_sum id fst (decide demo_env 0 () (demo_request \<lparr>body := tool_body\<rparr>) True) = Inr d \<and>
     rd_routed_from d = Some (CauseVeto why) \<and> c \<in> set (offers demo_request) \<and>
     rd_model d = model_name c"
proof -
  let ?rq = "demo_request \<lparr>body := tool_body\<rparr>"
  have "map_sum id (\<lambda>(d, _, _). rd_routed_from d) (decide demo_env 0 () ?rq True) =
      Inr (Some (CauseVeto ''tools_unsupported''))"
    by code_simp
  then obtain d s' tr where d: "decide demo_env 0 () ?rq True = Inr (d, s', tr)"
    and r: "rd_routed_from d = Some (CauseVeto ''tools_unsupported'')"
    by (cases "decide demo_env 0 () ?rq True") auto
  have "\<not> isl (route_lookups demo_env 0 () ?rq)" by code_simp
  then obtain lk where lk: "route_lookups demo_env 0 () ?rq = Inr lk"
    by (cases "route_lookups demo_env 0 () ?rq") auto
  from decide_veto_best [OF d lk r] d r show ?thesis by auto
qed

text \<open>
  An escalated decision with a target goes to that target, the assignment's escalation
  model before the policy's, whatever the capability veto said, and reports the trigger.
\<close>

theorem decide_escalated_target:
  assumes "decide env t s rq persist = Inr (d, s', tr)" "route_lookups env t s rq = Inr lk"
    and "tr_escalated (rd_trace d)"
    and "truthy (resolve_target (Option.bind (lk_assignment lk) escalation_model)
                   (escalation_target (lk_policy lk)))"
  shows "resolve_target (Option.bind (lk_assignment lk) escalation_model)
           (escalation_target (lk_policy lk)) = Some (rd_model d) \<and>
    (\<exists>trg. rd_routed_from d = Some (CauseEscalation trg))"
  using assms(1)
proof (rule decideE)
  fix lk' assigned alias_from chosen reason esc
  assume "route_lookups env t s rq = Inr lk'"
    and p: "(rd_model d, rd_routed_from d) = pick_final chosen
           (clamp_chain (request_chain rq (lk_policy lk')) (pii_detected rq)
              (clamp_local (request_pressure rq (lk_policy lk'))) (lk_policy lk'))
           (lk_assignment lk') esc (lk_policy lk') reason alias_from"
    and e: "tr_escalated (rd_trace d) = escalate esc"
  then have lk: "lk' = lk" and esc: "escalate esc" using assms(2,3) by simp_all
  show ?thesis using pick_final_escalated [OF p esc] assms(4) by (auto simp: lk)
qed

theorem decide_escalated_target_witness:
  "\<exists>d. map_sum id fst (decide demo_env 0 () (demo_request \<lparr>failure_signal := True\<rparr>) True) = Inr d \<and>
     rd_model d = ''opus''"
proof -
  let ?rq = "demo_request \<lparr>failure_signal := True\<rparr>"
  have "map_sum id (\<lambda>(d, _, _). tr_escalated (rd_trace d)) (decide demo_env 0 () ?rq True) = Inr True"
    by code_simp
  then obtain d s' tr where d: "decide demo_env 0 () ?rq True = Inr (d, s', tr)"
    and r: "tr_escalated (rd_trace d)"
    by (cases "decide demo_env 0 () ?rq True") auto
  have "map_sum id (\<lambda>lk. resolve_target (Option.bind (lk_assignment lk) escalation_model)
      (escalation_target (lk_policy lk))) (route_lookups demo_env 0 () ?rq) = Inr (Some ''opus'')"
    by code_simp
  then obtain lk where lk: "route_lookups demo_env 0 () ?rq = Inr lk"
    and tg: "resolve_target (Option.bind (lk_assignment lk) escalation_model)
      (escalation_target (lk_policy lk)) = Some ''opus''"
    by (cases "route_lookups demo_env 0 () ?rq") auto
  from decide_escalated_target [OF d lk r] tg d show ?thesis by simp
qed

text \<open>
  The local clamp does not bind the chosen model. On three requests flagged as sensitive
  under the default local-only policy the decision is a commercial model: through the
  escalation target, through the capability veto, and, with no escalation and no veto,
  because the clamped chain is empty and the assigned offer is used as it stands.
\<close>

theorem decide_sensitive_commercial:
  "map_sum id (\<lambda>(d, _, _). rd_model d)
     (decide demo_env 0 () (demo_request \<lparr>pii_detected := True, failure_signal := True\<rparr>) True)
     = Inr ''opus'' \<and>
   map_sum id (\<lambda>(d, _, _). rd_model d)
     (decide demo_env 0 () (demo_request \<lparr>pii_detected := True, body := tool_body\<rparr>) True)
     = Inr ''opus'' \<and>
   map_sum id (\<lambda>(d, _, _). rd_model d)
     (decide demo_env 0 () (demo_request \<lparr>pii_detected := True, explicit_type := Some ''chat'',
        offers := [large_commercial]\<rparr>) True) = Inr ''opus'' \<and>
   location large_commercial = ''commercial'' \<and> model_name large_commercial = ''opus'' \<and>
   sensitivity_routing default_routing_policy = ''local_only''"
  by (intro conjI) code_simp+

end
