(* ===== verification/PyText.thy ===== *)
theory PyText
  imports PyJson
begin

text \<open>
  The text functions of the Python standard library the security package uses: \<open>upper\<close>,
  \<open>str.find\<close>, the case-insensitive literal \<open>re.sub\<close> of an escaped pattern, the shell globs
  of \<open>hooks_denylist\<close> and the patterns of \<open>fnmatch.fnmatchcase\<close>. Characters are 8-bit; case
  is that of ASCII.
\<close>

definition upper_char :: "char \<Rightarrow> char" where
  "upper_char c =
     (let n = of_char c :: nat in if 97 \<le> n \<and> n \<le> 122 then char_of (n - 32) else c)"

definition upper :: "string \<Rightarrow> string" where
  "upper s = map upper_char s"

fun find_sub :: "string \<Rightarrow> string \<Rightarrow> nat option" where
  "find_sub sub [] = (if sub = [] then Some 0 else None)"
| "find_sub sub (c # cs) =
     (if startswith sub (c # cs) then Some 0 else map_option Suc (find_sub sub cs))"

text \<open>
  \<open>re.sub(re.escape(p), r, s, flags=re.IGNORECASE)\<close>: the leftmost, non-overlapping
  occurrences of \<open>p\<close> become \<open>r\<close>; an empty \<open>p\<close> matches between any two characters.
\<close>

function replace_ci :: "string \<Rightarrow> string \<Rightarrow> string \<Rightarrow> string" where
  "replace_ci p r s =
     (if p = [] then r @ concat (map (\<lambda>c. c # r) s)
      else case s of
             [] \<Rightarrow> []
           | c # cs \<Rightarrow>
               if startswith (lower p) (lower s) then r @ replace_ci p r (drop (length p) s)
               else c # replace_ci p r cs)"
  by pat_completeness auto
termination
  by (relation "measure (\<lambda>(p, r, s). length s)") auto

declare replace_ci.simps [simp del]

text \<open>\<open>str.splitlines\<close> on code points below 256.\<close>

definition line_break :: "char \<Rightarrow> bool" where
  "line_break c = (c \<in> {CHR 0x0A, CHR 0x0B, CHR 0x0C, CHR 0x0D, CHR 0x1C, CHR 0x1D, CHR 0x1E, CHR 0x85})"

text \<open>\<open>prev_cr\<close>: the last character was a carriage return, a following newline belongs to it.\<close>

fun splitlines_from :: "string \<Rightarrow> bool \<Rightarrow> string \<Rightarrow> string list" where
  "splitlines_from cur prev_cr [] = (if cur = [] then [] else [cur])"
| "splitlines_from cur prev_cr (c # cs) =
     (if prev_cr \<and> c = CHR 0x0A then splitlines_from cur False cs
      else if line_break c then cur # splitlines_from [] (c = CHR 0x0D) cs
      else splitlines_from (cur @ [c]) False cs)"

definition splitlines :: "string \<Rightarrow> string list" where
  "splitlines s = splitlines_from [] False s"

text \<open>A glob of \<open>hooks_denylist\<close>, as the regular expression it compiles to, at the start of a text.\<close>

function glob_prefix :: "string \<Rightarrow> string \<Rightarrow> bool" where
  "glob_prefix [] s = True"
| "glob_prefix (p # ps) [] = (p = CHR ''*'' \<and> glob_prefix ps [])"
| "glob_prefix (p # ps) (c # cs) =
     (if p = CHR ''*''
      then glob_prefix ps (c # cs) \<or> c \<noteq> CHR 0x0A \<and> glob_prefix (p # ps) cs
      else if p = CHR ''?'' then c \<noteq> CHR 0x0A \<and> glob_prefix ps cs
      else lower_char c = lower_char p \<and> glob_prefix ps cs)"
  by pat_completeness auto
termination
  by (relation "measure (\<lambda>(p, s). length p + length s)") auto

fun suffixes_of :: "'a list \<Rightarrow> 'a list list" where
  "suffixes_of [] = [[]]"
| "suffixes_of (x # xs) = (x # xs) # suffixes_of xs"

definition glob_anywhere :: "string \<Rightarrow> string \<Rightarrow> bool" where
  "glob_anywhere p s = list_ex (glob_prefix p) (suffixes_of s)"

text \<open>
  \<open>fnmatch\<close>: a \<open>[\<close> without a closing \<open>]\<close> is a literal; in a class a leading \<open>!\<close> negates, a
  leading \<open>]\<close> is a member, \<open>a-z\<close> is a range (empty if reversed).
\<close>

fun class_close :: "string \<Rightarrow> (string \<times> string) option" where
  "class_close [] = None"
| "class_close (c # cs) =
     (if c = CHR '']'' then Some ([], cs)
      else map_option (\<lambda>(body, rest). (c # body, rest)) (class_close cs))"

text \<open>The class body after \<open>[\<close>, with a leading negation and bracket, and the text after \<open>]\<close>.\<close>

definition split_class :: "string \<Rightarrow> (bool \<times> string \<times> string) option" where
  "split_class s =
     (let neg = (case s of c # _ \<Rightarrow> c = CHR ''!'' | [] \<Rightarrow> False);
          s1 = (if neg then tl s else s)
      in case s1 of
           c # cs \<Rightarrow>
             if c = CHR '']''
             then map_option (\<lambda>(body, rest). (neg, c # body, rest)) (class_close cs)
             else map_option (\<lambda>(body, rest). (neg, body, rest)) (class_close s1)
         | [] \<Rightarrow> None)"

definition in_range :: "char \<Rightarrow> char \<Rightarrow> char \<Rightarrow> bool" where
  "in_range a x c \<longleftrightarrow> (of_char a :: nat) \<le> of_char x \<and> (of_char x :: nat) \<le> of_char c"

fun class_member :: "string \<Rightarrow> char \<Rightarrow> bool" where
  "class_member (a # b # c # rest) x =
     (if b = CHR ''-'' then in_range a x c \<or> class_member rest x
      else a = x \<or> class_member (b # c # rest) x)"
| "class_member [a, b] x = (a = x \<or> b = x)"
| "class_member [a] x = (a = x)"
| "class_member [] x = False"

lemma class_close_length: "class_close s = Some (b, r) \<Longrightarrow> length r < length s"
  by (induction s arbitrary: b r) (auto split: if_splits)

lemma split_class_length: "split_class s = Some (n, b, r) \<Longrightarrow> length r < length s"
  using class_close_length
  by (fastforce simp: split_class_def Let_def split: list.splits if_splits)

function fnmatchcase :: "string \<Rightarrow> string \<Rightarrow> bool" where
  "fnmatchcase [] s = (s = [])"
| "fnmatchcase (p # ps) s =
     (if p = CHR ''*'' then
        fnmatchcase ps s \<or> (case s of [] \<Rightarrow> False | c # cs \<Rightarrow> fnmatchcase (p # ps) cs)
      else
        case s of
          [] \<Rightarrow> False
        | c # cs \<Rightarrow>
            if p = CHR ''?'' then fnmatchcase ps cs
            else if p = CHR ''['' then
              (case split_class ps of
                 None \<Rightarrow> c = p \<and> fnmatchcase ps cs
               | Some (neg, body, rest) \<Rightarrow>
                   class_member body c \<noteq> neg \<and> fnmatchcase rest cs)
            else c = p \<and> fnmatchcase ps cs)"
  by pat_completeness auto
termination
  by (relation "measure (\<lambda>(p, s). length p + length s)")
    (auto dest!: split_class_length)

section \<open>Case-insensitive replacement removes its pattern\<close>

lemma lower_append [simp]: "lower (a @ b) = lower a @ lower b"
  by (simp add: lower_def)

lemma lower_Nil [simp]: "lower [] = []"
  by (simp add: lower_def)

lemma lower_Cons: "lower (c # cs) = lower_char c # lower cs"
  by (simp add: lower_def)

lemma length_lower [simp]: "length (lower s) = length s"
  by (simp add: lower_def)

lemma lower_drop: "lower (drop n s) = drop n (lower s)"
  by (simp add: lower_def drop_map)

lemma startswith_replace:
  assumes "set q \<inter> set (lower r) = {}" "r \<noteq> []" "p \<noteq> []"
  shows "startswith q (lower (replace_ci p r s)) \<Longrightarrow> startswith q (lower s)"
  using assms(1)
proof (induction s arbitrary: q)
  case Nil
  with assms show ?case by (simp add: replace_ci.simps [of p r "[]"])
next
  case (Cons c cs)
  show ?case
  proof (cases q)
    case Nil
    then show ?thesis by (simp add: startswith_def)
  next
    case (Cons a q')
    have "\<not> startswith (lower p) (lower (c # cs))"
    proof
      assume "startswith (lower p) (lower (c # cs))"
      then have "startswith q (lower r @ lower (replace_ci p r (drop (length p) (c # cs))))"
        using Cons.prems(1) assms(3) by (simp add: replace_ci.simps [of p r "c # cs"])
      with Cons Cons.prems(2) assms(2) show False
        by (cases r) (auto simp: startswith_def lower_Cons)
    qed
    then have "startswith q (lower_char c # lower (replace_ci p r cs))"
      using Cons.prems(1) assms(3) by (simp add: replace_ci.simps [of p r "c # cs"] lower_Cons)
    with Cons.IH [of q'] Cons.prems(2) Cons show ?thesis
      by (auto simp: startswith_def lower_Cons)
  qed
qed

lemma contains_append_apart:
  assumes "set q \<inter> set r = {}" "q \<noteq> []" "contains q (r @ s)"
  shows "contains q s"
  using assms(1,3)
proof (induction r)
  case Nil
  then show ?case by simp
next
  case (Cons a r)
  have "\<not> startswith q (a # r @ s)"
    using Cons.prems(1) assms(2) by (cases q) (auto simp: startswith_def)
  with Cons show ?case by simp
qed

lemma contains_drop: "contains q (drop n s) \<Longrightarrow> contains q s"
  unfolding contains_iff by (metis append.assoc append_take_drop_id)

lemma replace_empty: "p \<noteq> [] \<Longrightarrow> replace_ci p r [] = []"
  by (simp add: replace_ci.simps)

lemma replace_hit:
  "p \<noteq> [] \<Longrightarrow> startswith (lower p) (lower (c # cs)) \<Longrightarrow>
     replace_ci p r (c # cs) = r @ replace_ci p r (drop (length p) (c # cs))"
  by (simp add: replace_ci.simps [of p r "c # cs"])

lemma replace_miss:
  "p \<noteq> [] \<Longrightarrow> \<not> startswith (lower p) (lower (c # cs)) \<Longrightarrow>
     replace_ci p r (c # cs) = c # replace_ci p r cs"
  by (simp add: replace_ci.simps [of p r "c # cs"])

lemma replace_keeps_absent:
  assumes q: "set q \<inter> set (lower r) = {}" "q \<noteq> []" "r \<noteq> []" and "p \<noteq> []"
  shows "\<not> contains q (lower s) \<Longrightarrow> \<not> contains q (lower (replace_ci p r s))"
proof (induction s rule: measure_induct_rule [of length])
  case (less s)
  show ?case
  proof (cases s)
    case Nil
    with assms less.prems show ?thesis by (simp add: replace_empty)
  next
    case (Cons c cs)
    show ?thesis
    proof (cases "startswith (lower p) (lower (c # cs))")
      case True
      have "\<not> contains q (lower (drop (length p) s))"
        using less.prems contains_drop unfolding lower_drop by blast
      then have "\<not> contains q (lower (replace_ci p r (drop (length p) s)))"
        using less.IH Cons assms(4) by simp
      then show ?thesis
        using contains_append_apart [OF q(1,2)] assms(4) Cons True by (auto simp: replace_hit)
    next
      case False
      have "\<not> startswith q (lower s)" and n: "\<not> contains q (lower cs)"
        using less.prems Cons by (auto simp: lower_Cons)
      then have "\<not> startswith q (lower (replace_ci p r s))"
        using startswith_replace [OF q(1,3) assms(4)] by blast
      moreover have "\<not> contains q (lower (replace_ci p r cs))"
        using less.IH [of cs] n Cons by simp
      ultimately show ?thesis
        using False Cons assms(4) by (simp add: replace_miss lower_Cons)
    qed
  qed
qed

lemma replace_removes:
  assumes "set (lower p) \<inter> set (lower r) = {}" "r \<noteq> []" and "p \<noteq> []"
  shows "\<not> contains (lower p) (lower (replace_ci p r s))"
proof (induction s rule: measure_induct_rule [of length])
  case (less s)
  have q: "lower p \<noteq> []" using assms(3) by (simp add: lower_def)
  show ?case
  proof (cases s)
    case Nil
    with assms q show ?thesis by (simp add: replace_empty)
  next
    case (Cons c cs)
    show ?thesis
    proof (cases "startswith (lower p) (lower (c # cs))")
      case True
      have "\<not> contains (lower p) (lower (replace_ci p r (drop (length p) s)))"
        using less.IH Cons assms(3) by simp
      then show ?thesis
        using contains_append_apart [OF assms(1) q] assms(3) Cons True by (auto simp: replace_hit)
    next
      case False
      then have "\<not> startswith (lower p) (lower (replace_ci p r s))"
        using startswith_replace [OF assms(1,2,3)] Cons by blast
      moreover have "\<not> contains (lower p) (lower (replace_ci p r cs))"
        using less.IH [of cs] Cons by simp
      ultimately show ?thesis
        using False Cons assms(3) by (simp add: replace_miss lower_Cons)
    qed
  qed
qed

end
