(* ===== verification/PromptSecurity.thy ===== *)
theory PromptSecurity
  imports PyText PyJson
begin

text \<open>
  The prompt security scanner (\<open>shared/security/prompt_security.py\<close>). The \<open>re\<close> engine is a
  parameter, \<open>findall\<close> (the matched text of each match, or its first group) and \<open>re_sub\<close>; the
  tables of pattern sources are the scanner's state, because custom patterns extend them. What
  \<open>_log_threat\<close> writes to the database does not influence the scan and is left out.
\<close>

datatype threat_type =
  PROMPT_INJECTION | JAILBREAK | DATA_EXTRACTION | SYSTEM_PROMPT_LEAK | CREDENTIAL_HARVESTING

datatype severity = LOW | MEDIUM | HIGH | CRITICAL

datatype threat_action = LOG | SANITIZE | BLOCK | RATE_LIMIT

record threat_detection =
  th_type :: threat_type
  th_severity :: severity
  th_confidence :: rat
  th_matched :: "string list"
  th_action :: threat_action

record scan_policy =
  sp_name :: string
  sp_enabled :: bool
  sp_max_prompt_length :: nat
  sp_threshold :: nat
  sp_actions :: "threat_type \<Rightarrow> threat_action"
  sp_rate_limit :: nat

section \<open>Policies\<close>

definition strict :: scan_policy where
  "strict = \<lparr>sp_name = ''strict'', sp_enabled = True, sp_max_prompt_length = 10000,
     sp_threshold = 1, sp_actions = \<lambda>_. BLOCK, sp_rate_limit = 10\<rparr>"

definition balanced :: scan_policy where
  "balanced = \<lparr>sp_name = ''balanced'', sp_enabled = True, sp_max_prompt_length = 50000,
     sp_threshold = 2,
     sp_actions = (\<lambda>t. case t of PROMPT_INJECTION \<Rightarrow> BLOCK | JAILBREAK \<Rightarrow> SANITIZE
       | DATA_EXTRACTION \<Rightarrow> BLOCK | SYSTEM_PROMPT_LEAK \<Rightarrow> SANITIZE
       | CREDENTIAL_HARVESTING \<Rightarrow> BLOCK),
     sp_rate_limit = 20\<rparr>"

definition permissive :: scan_policy where
  "permissive = \<lparr>sp_name = ''permissive'', sp_enabled = True, sp_max_prompt_length = 100000,
     sp_threshold = 3,
     sp_actions = (\<lambda>t. case t of PROMPT_INJECTION \<Rightarrow> SANITIZE | JAILBREAK \<Rightarrow> LOG
       | DATA_EXTRACTION \<Rightarrow> SANITIZE | SYSTEM_PROMPT_LEAK \<Rightarrow> LOG
       | CREDENTIAL_HARVESTING \<Rightarrow> BLOCK),
     sp_rate_limit = 50\<rparr>"

definition security_policies :: "string \<Rightarrow> scan_policy option" where
  "security_policies name =
     (if name = ''strict'' then Some strict
      else if name = ''balanced'' then Some balanced
      else if name = ''permissive'' then Some permissive
      else None)"

record scanner =
  sc_policy :: scan_policy
  sc_patterns :: "(threat_type \<times> string list) list"

definition create_security_scanner ::
    "(threat_type \<times> string list) list \<Rightarrow> string \<Rightarrow> scanner" where
  "create_security_scanner patterns policy =
     \<lparr>sc_policy = (case security_policies policy of None \<Rightarrow> balanced | Some p \<Rightarrow> p),
      sc_patterns = patterns\<rparr>"

definition set_policy :: "scanner \<Rightarrow> string \<Rightarrow> bool \<times> scanner" where
  "set_policy sc name = (case security_policies name of
     None \<Rightarrow> (False, sc) | Some p \<Rightarrow> (True, sc\<lparr>sc_policy := p\<rparr>))"

text \<open>\<open>compiles\<close>: whether \<open>re.compile\<close> accepts the source.\<close>

fun append_pattern ::
    "threat_type \<Rightarrow> string \<Rightarrow> (threat_type \<times> string list) list \<Rightarrow> (threat_type \<times> string list) list" where
  "append_pattern t p [] = [(t, [p])]"
| "append_pattern t p ((t', ps) # rest) =
     (if t' = t then (t', ps @ [p]) # rest else (t', ps) # append_pattern t p rest)"

definition add_custom_pattern ::
    "(string \<Rightarrow> bool) \<Rightarrow> scanner \<Rightarrow> threat_type \<Rightarrow> string \<Rightarrow> bool \<times> scanner" where
  "add_custom_pattern compiles sc t pattern =
     (if compiles pattern then (True, sc\<lparr>sc_patterns := append_pattern t pattern (sc_patterns sc)\<rparr>)
      else (False, sc))"

section \<open>Scanning\<close>

definition base_severity :: "threat_type \<Rightarrow> severity" where
  "base_severity t = (case t of PROMPT_INJECTION \<Rightarrow> HIGH | JAILBREAK \<Rightarrow> MEDIUM
     | DATA_EXTRACTION \<Rightarrow> HIGH | SYSTEM_PROMPT_LEAK \<Rightarrow> CRITICAL | CREDENTIAL_HARVESTING \<Rightarrow> CRITICAL)"

definition calculate_severity :: "threat_type \<Rightarrow> nat \<Rightarrow> severity" where
  "calculate_severity t n =
     (if 5 \<le> n then
        (case base_severity t of LOW \<Rightarrow> MEDIUM | MEDIUM \<Rightarrow> HIGH | HIGH \<Rightarrow> CRITICAL | s \<Rightarrow> s)
      else base_severity t)"

definition redaction_label :: "threat_type \<Rightarrow> string" where
  "redaction_label t = (case t of
     PROMPT_INJECTION \<Rightarrow> ''[REDACTED: Instruction override attempt]''
   | JAILBREAK \<Rightarrow> ''[REDACTED: Roleplay attempt]''
   | DATA_EXTRACTION \<Rightarrow> ''[REDACTED: System information request]''
   | SYSTEM_PROMPT_LEAK \<Rightarrow> ''[REDACTED: System token]''
   | CREDENTIAL_HARVESTING \<Rightarrow> ''[REDACTED: Credential]'')"

type_synonym findall = "string \<Rightarrow> string \<Rightarrow> string list"
type_synonym re_sub = "string \<Rightarrow> string \<Rightarrow> string \<Rightarrow> string"

definition sanitize_prompt :: "re_sub \<Rightarrow> string \<Rightarrow> threat_type \<Rightarrow> string list \<Rightarrow> string" where
  "sanitize_prompt re_sub prompt t patterns =
     foldl (\<lambda>acc p. re_sub p (redaction_label t) acc) prompt patterns"

definition too_long :: threat_detection where
  "too_long = \<lparr>th_type = PROMPT_INJECTION, th_severity = MEDIUM, th_confidence = 1,
     th_matched = [''prompt_too_long''], th_action = BLOCK\<rparr>"

definition threat_of :: "scan_policy \<Rightarrow> threat_type \<Rightarrow> string list \<Rightarrow> threat_detection" where
  "threat_of pol t matches = \<lparr>th_type = t, th_severity = calculate_severity t (length matches),
     th_confidence = min 1 (of_nat (length matches) / 5), th_matched = take 5 matches,
     th_action = sp_actions pol t\<rparr>"

definition matches_of :: "findall \<Rightarrow> string list \<Rightarrow> string \<Rightarrow> string list" where
  "matches_of findall patterns prompt = concat (map (\<lambda>p. findall p prompt) patterns)"

fun scan_types ::
    "findall \<Rightarrow> re_sub \<Rightarrow> scan_policy \<Rightarrow> string \<Rightarrow> (threat_type \<times> string list) list \<Rightarrow> string \<Rightarrow>
     threat_detection list \<times> string" where
  "scan_types findall re_sub pol prompt [] sanitized = ([], sanitized)"
| "scan_types findall re_sub pol prompt ((t, patterns) # rest) sanitized =
     (let ms = matches_of findall patterns prompt in
      if sp_threshold pol \<le> length ms then
        (let sanitized' = (if sp_actions pol t = SANITIZE
                           then sanitize_prompt re_sub sanitized t patterns else sanitized);
             (threats, final) = scan_types findall re_sub pol prompt rest sanitized'
         in (threat_of pol t ms # threats, final))
      else scan_types findall re_sub pol prompt rest sanitized)"

definition scan_prompt ::
    "findall \<Rightarrow> re_sub \<Rightarrow> scanner \<Rightarrow> string \<Rightarrow> threat_detection list \<times> string" where
  "scan_prompt findall re_sub sc prompt =
     (if \<not> sp_enabled (sc_policy sc) then ([], prompt)
      else if sp_max_prompt_length (sc_policy sc) < length prompt then ([too_long], prompt)
      else scan_types findall re_sub (sc_policy sc) prompt (sc_patterns sc) prompt)"

text \<open>
  The content of a message: anything but a str makes \<open>len\<close> or the regular expression engine
  raise TypeError, unless the policy is disabled or a list or dict is over-long.
\<close>

definition scan_content ::
    "findall \<Rightarrow> re_sub \<Rightarrow> scanner \<Rightarrow> json \<Rightarrow> py_error + threat_detection list \<times> json" where
  "scan_content findall re_sub sc content =
     (case content of
        JStr s \<Rightarrow> (case scan_prompt findall re_sub sc s of (ts, s') \<Rightarrow> Inr (ts, JStr s'))
      | _ \<Rightarrow>
          if \<not> sp_enabled (sc_policy sc) then Inr ([], content)
          else
            (let over = (case content of
                   JList xs \<Rightarrow> sp_max_prompt_length (sc_policy sc) < length xs
                 | JDict d \<Rightarrow> sp_max_prompt_length (sc_policy sc) < length d
                 | _ \<Rightarrow> False)
             in if over then Inr ([too_long], content)
                else if list_all (\<lambda>tp. snd tp = []) (sc_patterns sc) \<and>
                  (case content of JList _ \<Rightarrow> True | JDict _ \<Rightarrow> True | _ \<Rightarrow> False)
                then Inr ([], content)
                else Inl TypeError))"

fun scan_messages ::
    "findall \<Rightarrow> re_sub \<Rightarrow> scanner \<Rightarrow> json list \<Rightarrow> py_error + threat_detection list \<times> json list" where
  "scan_messages findall re_sub sc [] = Inr ([], [])"
| "scan_messages findall re_sub sc (m # ms) =
     rbind (must_dict m) (\<lambda>d.
     rbind (scan_content findall re_sub sc (jget_or d ''content'' (JStr []))) (\<lambda>(ts, c).
     rbind (scan_messages findall re_sub sc ms) (\<lambda>(us, rest).
       Inr (ts @ us, JDict (dict_set d ''content'' c) # rest))))"

definition should_block :: "threat_detection list \<Rightarrow> bool" where
  "should_block ts = list_ex (\<lambda>t. th_action t = BLOCK) ts"

section \<open>Properties\<close>

lemma scan_types_threats:
  "fst (scan_types findall re_sub pol prompt tps sanitized) =
     map (\<lambda>(t, ps). threat_of pol t (matches_of findall ps prompt))
       (filter (\<lambda>(t, ps). sp_threshold pol \<le> length (matches_of findall ps prompt)) tps)"
proof (induction tps arbitrary: sanitized)
  case (Cons tp tps)
  obtain t ps where "tp = (t, ps)" by fastforce
  with Cons show ?case
    by (auto simp: Let_def split: prod.splits) (metis fst_conv)+
qed simp

definition blocks :: "findall \<Rightarrow> re_sub \<Rightarrow> scan_policy \<Rightarrow> (threat_type \<times> string list) list \<Rightarrow> string \<Rightarrow> bool" where
  "blocks findall re_sub pol patterns prompt =
     should_block (fst (scan_prompt findall re_sub \<lparr>sc_policy = pol, sc_patterns = patterns\<rparr> prompt))"

lemma blocks_iff:
  assumes "sp_enabled pol"
  shows "blocks findall re_sub pol patterns prompt \<longleftrightarrow>
    sp_max_prompt_length pol < length prompt \<or>
    (\<exists>(t, ps)\<in>set patterns. sp_threshold pol \<le> length (matches_of findall ps prompt) \<and> sp_actions pol t = BLOCK)"
  using assms
  by (auto simp: blocks_def should_block_def scan_prompt_def scan_types_threats list_ex_iff too_long_def
      threat_of_def split: prod.splits)

text \<open>
  The policies are ordered: for any patterns and any prompt, what the permissive policy
  blocks the balanced one blocks too, and what that blocks the strict one blocks.
\<close>

theorem policies_ordered:
  "(blocks findall re_sub permissive patterns prompt \<longrightarrow> blocks findall re_sub balanced patterns prompt) \<and>
   (blocks findall re_sub balanced patterns prompt \<longrightarrow> blocks findall re_sub strict patterns prompt)"
proof -
  have "sp_enabled permissive" "sp_enabled balanced" "sp_enabled strict"
    by (simp_all add: permissive_def balanced_def strict_def)
  note iffs = blocks_iff [OF this(1)] blocks_iff [OF this(2)] blocks_iff [OF this(3)]
  show ?thesis
    unfolding iffs
    by (fastforce simp: permissive_def balanced_def strict_def split: threat_type.splits)
qed

lemma policies_ordered_witness:
  "blocks (\<lambda>p s. [s, s, s]) (\<lambda>p r s. s) strict [(CREDENTIAL_HARVESTING, [''pwd''])] ''pwd''"
proof -
  have "blocks (\<lambda>p s. [s, s, s]) (\<lambda>p r s. s) permissive [(CREDENTIAL_HARVESTING, [''pwd''])] ''pwd''"
    by (simp add: blocks_def should_block_def scan_prompt_def permissive_def matches_of_def threat_of_def)
  with policies_ordered [of "\<lambda>p s. [s, s, s]" "\<lambda>p r s. s" "[(CREDENTIAL_HARVESTING, [''pwd''])]" "''pwd''"]
  show ?thesis by blast
qed

text \<open>
  A message whose content is not a text cannot be scanned: for each of the three policies
  and any non-empty pattern table, a short array of content blocks (the shape the Messages API
  documents) or a missing content ends the scan of the whole conversation with TypeError.
\<close>

theorem content_blocks_not_scannable:
  assumes "security_policies name = Some pol" "(t, p # ps) \<in> set patterns"
    and "jget d ''content'' = Some c" "c = JNull \<or> (\<exists>bs. c = JList bs \<and> length bs \<le> 10000)"
    and "\<forall>m\<in>set before. \<exists>d s. m = JDict d \<and> jget d ''content'' = Some (JStr s)"
  shows "scan_messages findall re_sub \<lparr>sc_policy = pol, sc_patterns = patterns\<rparr>
           (before @ JDict d # after) = Inl TypeError"
proof -
  have pol: "sp_enabled pol" "10000 \<le> sp_max_prompt_length pol"
    using assms(1)
    by (auto simp: security_policies_def strict_def balanced_def permissive_def split: if_splits)
  have ne: "\<not> list_all (\<lambda>tp. snd tp = []) patterns"
    using assms(2) by (force simp: list_all_iff)
  have c: "scan_content findall re_sub \<lparr>sc_policy = pol, sc_patterns = patterns\<rparr> c = Inl TypeError"
    using assms(4) pol ne by (auto simp: scan_content_def)
  show ?thesis
    using assms(5)
  proof (induction before)
    case Nil
    from assms(3) c show ?case by (simp add: jget_or_def)
  next
    case (Cons m ms)
    then obtain d' s where "m = JDict d'" "jget d' ''content'' = Some (JStr s)" by auto
    with Cons show ?case
      by (cases "scan_prompt findall re_sub \<lparr>sc_policy = pol, sc_patterns = patterns\<rparr> s")
        (simp add: jget_or_def scan_content_def)
  qed
qed

lemma content_blocks_not_scannable_witness:
  "scan_messages (\<lambda>p s. []) (\<lambda>p r s. s) \<lparr>sc_policy = balanced, sc_patterns = [(JAILBREAK, [''roleplay''])]\<rparr>
     [JDict [(''content'', JList [JDict [(''type'', JStr ''text''), (''text'', JStr ''hi'')]])]]
   = Inl TypeError"
  using content_blocks_not_scannable [of "''balanced''" balanced JAILBREAK "''roleplay''" "[]"
      "[(JAILBREAK, [''roleplay''])]"
      "[(''content'', JList [JDict [(''type'', JStr ''text''), (''text'', JStr ''hi'')]])]"
      "JList [JDict [(''type'', JStr ''text''), (''text'', JStr ''hi'')]]" "[]"
      "\<lambda>p s. []" "\<lambda>p r s. s" "[]"]
  by (simp add: security_policies_def jget_def)

end
