(* ===== verification/ContentFilter.thy ===== *)
theory ContentFilter
  imports PyText Valkey
begin

text \<open>
  \<open>shared/security/content_filter.py\<close> (with the entity table of \<open>ner_filter.py\<close>): the
  violations the three tiers report, the action they amount to, the redaction, the LLM
  auditor and the filter pipeline with its two failure classes. Parameters: \<open>finditer\<close>, the
  matches of a regular expression source in a text (the \<open>re\<close> engine; \<open>None\<close> when it does
  not compile), the NER worker's answer, the auditor's HTTP outcome. Scores are rationals.
\<close>

record filter_rule =
  fr_id :: int
  fr_name :: string
  fr_rule_type :: string
  fr_target :: string
  fr_pattern :: string
  fr_action :: string
  fr_enabled :: bool
  fr_organization_id :: "int option"

record filter_violation =
  v_rule_name :: string
  v_rule_type :: string
  v_matched_text :: string
  v_action :: string
  v_confidence :: rat
  v_full_matched_text :: string

record filter_result =
  fres_allowed :: bool
  fres_action :: string
  fres_violations :: "filter_violation list"
  fres_filtered_text :: string
  fres_auditor_used :: bool

type_synonym finditer = "string \<Rightarrow> string \<Rightarrow> string list option"

section \<open>The tiers\<close>

text \<open>A built-in pattern: name, regular expression, confidence.\<close>

type_synonym builtin_pattern = "string \<times> string \<times> rat"

definition builtin_violations ::
    "finditer \<Rightarrow> string \<Rightarrow> builtin_pattern \<Rightarrow> filter_violation list" where
  "builtin_violations finditer text p =
     (case p of (name, pat, conf) \<Rightarrow>
        map (\<lambda>full. \<lparr>v_rule_name = name, v_rule_type = ''builtin_pii'',
                     v_matched_text = take 100 full, v_action = ''redact'',
                     v_confidence = conf, v_full_matched_text = full\<rparr>)
          (case finditer pat text of None \<Rightarrow> [] | Some ms \<Rightarrow> ms))"

definition run_builtin_patterns ::
    "finditer \<Rightarrow> builtin_pattern list \<Rightarrow> string list \<Rightarrow> string \<Rightarrow> filter_violation list" where
  "run_builtin_patterns finditer patterns disabled text =
     concat (map (builtin_violations finditer text)
       (filter (\<lambda>(name, _, _). name \<notin> set disabled) patterns))"

text \<open>The enabled rules of the organisation and the global ones; without an organisation only those.\<close>

definition load_custom_rules :: "filter_rule list \<Rightarrow> int option \<Rightarrow> filter_rule list" where
  "load_custom_rules table org =
     filter (\<lambda>r. fr_enabled r \<and>
       (fr_organization_id r = None \<or>
        org \<noteq> None \<and> org \<noteq> Some 0 \<and> fr_organization_id r = org)) table"

definition rule_violations ::
    "finditer \<Rightarrow> string \<Rightarrow> filter_rule \<Rightarrow> filter_violation list" where
  "rule_violations finditer text r =
     (if fr_rule_type r = ''custom_string'' then
        (case find_sub (lower (fr_pattern r)) (lower text) of
           None \<Rightarrow> []
         | Some i \<Rightarrow>
             [\<lparr>v_rule_name = fr_name r, v_rule_type = ''custom_string'',
               v_matched_text = take 100 (drop i text), v_action = fr_action r,
               v_confidence = 95/100,
               v_full_matched_text = take (length (fr_pattern r)) (drop i text)\<rparr>])
      else if fr_rule_type r = ''custom_regex'' then
        map (\<lambda>full. \<lparr>v_rule_name = fr_name r, v_rule_type = ''custom_regex'',
                     v_matched_text = take 100 full, v_action = fr_action r,
                     v_confidence = 90/100, v_full_matched_text = full\<rparr>)
          (case finditer (fr_pattern r) text of None \<Rightarrow> [] | Some ms \<Rightarrow> ms)
      else [])"

definition run_custom_rules ::
    "finditer \<Rightarrow> filter_rule list \<Rightarrow> string \<Rightarrow> string \<Rightarrow> filter_violation list" where
  "run_custom_rules finditer rules text target =
     concat (map (rule_violations finditer text)
       (filter (\<lambda>r. fr_target r \<in> {target, ''both''}) rules))"

definition NER_ENTITY_CONFIG :: "(string \<times> string \<times> rat) list" where
  "NER_ENTITY_CONFIG =
     [(''PERSON'', ''redact'', 82/100), (''US_SSN'', ''redact'', 95/100),
      (''US_PASSPORT'', ''redact'', 90/100), (''US_DRIVER_LICENSE'', ''redact'', 85/100),
      (''MEDICAL_LICENSE'', ''redact'', 90/100), (''EMAIL_ADDRESS'', ''redact'', 95/100),
      (''PHONE_NUMBER'', ''redact'', 87/100), (''CREDIT_CARD'', ''redact'', 95/100),
      (''IBAN_CODE'', ''redact'', 90/100), (''CRYPTO'', ''redact'', 85/100),
      (''LOCATION'', ''log'', 65/100), (''IP_ADDRESS'', ''log'', 80/100),
      (''URL'', ''log'', 55/100), (''NRP'', ''log'', 72/100), (''DATE_TIME'', ''log'', 55/100),
      (''ORG'', ''log'', 50/100)]"

text \<open>An entity as the worker returns it: a dict, whose missing keys raise KeyError.\<close>

definition entity_violation ::
    "string list \<Rightarrow> dict \<Rightarrow> py_error + filter_violation option" where
  "entity_violation disabled e =
     (case jget e ''entity_type'' of
        Some (JStr ty) \<Rightarrow>
          if ty \<in> set disabled then Inr None
          else
            let (action, weight) =
                  (case map_of NER_ENTITY_CONFIG ty of None \<Rightarrow> (''log'', 60/100) | Some aw \<Rightarrow> aw)
            in (case jget e ''score'' of
                  None \<Rightarrow> Inl KeyError
                | Some sc \<Rightarrow>
                    (case (case sc of JFloat f \<Rightarrow> Some f | JInt i \<Rightarrow> Some (of_int i)
                           | _ \<Rightarrow> None) of
                       None \<Rightarrow> Inl TypeError
                     | Some f \<Rightarrow>
                         let confidence = min (f * weight) 1
                         in if confidence < 3/10 then Inr None
                            else (case jget e ''text'' of
                                    Some (JStr tx) \<Rightarrow>
                                      Inr (Some \<lparr>v_rule_name = ''ner:'' @ ty,
                                        v_rule_type = ''ner_entity'',
                                        v_matched_text = take 100 tx, v_action = action,
                                        v_confidence = confidence, v_full_matched_text = tx\<rparr>)
                                  | None \<Rightarrow> Inl KeyError
                                  | Some _ \<Rightarrow> Inl TypeError)))
      | None \<Rightarrow> Inl KeyError
      | Some _ \<Rightarrow> Inl TypeError)"

fun entities_violations :: "string list \<Rightarrow> dict list \<Rightarrow> py_error + filter_violation list" where
  "entities_violations disabled [] = Inr []"
| "entities_violations disabled (e # es) =
     (case entity_violation disabled e of
        Inl err \<Rightarrow> Inl err
      | Inr v \<Rightarrow>
          (case entities_violations disabled es of
             Inl err \<Rightarrow> Inl err
           | Inr vs \<Rightarrow> Inr ((case v of None \<Rightarrow> [] | Some x \<Rightarrow> [x]) @ vs)))"

text \<open>\<open>ner\<close> is \<open>None\<close> without a backend; a worker that fails contributes nothing.\<close>

definition run_ner_patterns ::
    "(string \<Rightarrow> dict list reply) option \<Rightarrow> string list \<Rightarrow> string \<Rightarrow>
     py_error + filter_violation list" where
  "run_ner_patterns ner disabled text =
     (case ner of
        None \<Rightarrow> Inr []
      | Some f \<Rightarrow> (case f text of Raised \<Rightarrow> Inr [] | Ok es \<Rightarrow> entities_violations disabled es))"

section \<open>The action\<close>

definition redact_text :: "filter_violation \<Rightarrow> string" where
  "redact_text v =
     (if v_full_matched_text v \<noteq> [] then v_full_matched_text v else v_matched_text v)"

definition REDACTED :: string where
  "REDACTED = ''[REDACTED]''"

definition apply_redactions :: "string \<Rightarrow> filter_violation list \<Rightarrow> string" where
  "apply_redactions text vs = foldl (\<lambda>t v. replace_ci (redact_text v) REDACTED t) text vs"

definition determine_action :: "string \<Rightarrow> filter_violation list \<Rightarrow> string \<times> string" where
  "determine_action text vs =
     (if vs = [] then (''allow'', text)
      else if list_ex (\<lambda>v. v_action v = ''block'') vs then (''block'', text)
      else let rs = filter (\<lambda>v. v_action v = ''redact'') vs
           in if rs \<noteq> [] then (''redact'', apply_redactions text rs) else (''log'', text))"

definition should_invoke_auditor :: "filter_violation list \<Rightarrow> string \<Rightarrow> bool" where
  "should_invoke_auditor vs action =
     (if vs = [] then False
      else if action = ''block'' then False
      else if action = ''log'' then True
      else
        let avg = sum_list (map v_confidence vs) / of_nat (length vs)
        in if 3/10 \<le> avg \<and> avg \<le> 6/10 then True
           else list_ex (\<lambda>v. v_rule_type v = ''ner_entity'' \<and>
                  v_rule_name v \<in> {''ner:NRP'', ''ner:MEDICAL_LICENSE'', ''ner:DATE_TIME''}) vs)"

section \<open>The auditor\<close>

text \<open>What the POST to the guard model ends with: a 200 with its text, another status, a failure.\<close>

datatype http_outcome = HttpText string | HttpStatus nat | HttpTimeout | HttpFailure

fun strip_chars :: "char set \<Rightarrow> string \<Rightarrow> string" where
  "strip_chars cs s = rev (dropWhile (\<lambda>c. c \<in> cs) (rev (dropWhile (\<lambda>c. c \<in> cs) s)))"

definition parse_granite_guardian_verdict :: "string \<Rightarrow> string" where
  "parse_granite_guardian_verdict resp =
     (let normalized = lower (strip_chars {CHR ''.'', CHR ''!''} (py_strip resp))
      in if normalized = ''yes'' then ''block''
         else if normalized = ''no'' then ''allow''
         else ''unparseable'')"

definition invoke_llm_auditor :: "string \<Rightarrow> http_outcome \<Rightarrow> bool \<times> string" where
  "invoke_llm_auditor model outcome =
     (case outcome of
        HttpText raw \<Rightarrow>
          let response = py_strip raw
          in if contains ''shieldgemma'' (lower model) then
               (startswith ''YES'' (upper response), response)
             else if contains ''guardian'' (lower model) then
               (let verdict = parse_granite_guardian_verdict response
                in if verdict = ''unparseable'' then (True, ''unparseable'')
                   else (verdict = ''block'', response))
             else (contains ''BLOCK'' (upper response), response)
      | HttpTimeout \<Rightarrow> (False, ''auditor timeout'')
      | _ \<Rightarrow> (False, ''auditor unavailable''))"

section \<open>The pipeline\<close>

text \<open>Errors that are defects of the program, as opposed to failures of what it talks to.\<close>

definition is_defect :: "py_error \<Rightarrow> bool" where
  "is_defect e \<longleftrightarrow> e \<in> {TypeError, AttributeError, KeyError}"

record filter_env =
  fe_finditer :: finditer
  fe_patterns :: "builtin_pattern list"
  fe_disabled :: "string list"
  fe_rules :: "filter_rule list"
  fe_ner_enabled :: bool
  fe_ner :: "(string \<Rightarrow> dict list reply) option"
  fe_disabled_ner :: "string list"
  fe_model :: string
  fe_http :: http_outcome

definition tier_violations ::
    "filter_env \<Rightarrow> int option \<Rightarrow> string \<Rightarrow> string \<Rightarrow> py_error + filter_violation list" where
  "tier_violations env org text phase =
     (let v12 = run_builtin_patterns (fe_finditer env) (fe_patterns env) (fe_disabled env) text @
                run_custom_rules (fe_finditer env) (load_custom_rules (fe_rules env) org) text phase
      in if fe_ner_enabled env then
           (case run_ner_patterns (fe_ner env) (fe_disabled_ner env) text of
              Inl e \<Rightarrow> Inl e | Inr v3 \<Rightarrow> Inr (v12 @ v3))
         else Inr v12)"

definition filter_text ::
    "filter_env \<Rightarrow> int option \<Rightarrow> string \<Rightarrow> string \<Rightarrow> filter_result" where
  "filter_text env org text phase =
     (case tier_violations env org text phase of
        Inl e \<Rightarrow>
          if is_defect e
          then \<lparr>fres_allowed = False, fres_action = ''block'', fres_violations = [],
                fres_filtered_text = text, fres_auditor_used = False\<rparr>
          else \<lparr>fres_allowed = True, fres_action = ''allow'', fres_violations = [],
                fres_filtered_text = text, fres_auditor_used = False\<rparr>
      | Inr vs \<Rightarrow>
          (let (action, filtered) = determine_action text vs;
               audited = should_invoke_auditor vs action;
               final =
                 (if audited \<and> fst (invoke_llm_auditor (fe_model env) (fe_http env))
                  then ''block'' else action)
           in \<lparr>fres_allowed = (final \<noteq> ''block''), fres_action = final, fres_violations = vs,
               fres_filtered_text = filtered, fres_auditor_used = audited\<rparr>))"

section \<open>Lemmas\<close>

text \<open>A text the redaction token shares no character with, such as a number of digits.\<close>

definition redactable :: "string \<Rightarrow> bool" where
  "redactable t \<longleftrightarrow> t \<noteq> [] \<and> set (lower t) \<inter> set (lower REDACTED) = {}"

lemma REDACTED_nonempty: "REDACTED \<noteq> []"
  by (simp add: REDACTED_def)

lemma apply_redactions_snoc:
  "apply_redactions text (vs @ [v]) = replace_ci (redact_text v) REDACTED (apply_redactions text vs)"
  by (simp add: apply_redactions_def)

lemma apply_redactions_removes:
  assumes "\<forall>v\<in>set vs. redactable (redact_text v)"
  shows "\<forall>v\<in>set vs. \<not> contains (lower (redact_text v)) (lower (apply_redactions text vs))"
  using assms
proof (induction vs rule: rev_induct)
  case Nil
  then show ?case by simp
next
  case (snoc v vs)
  then have v: "set (lower (redact_text v)) \<inter> set (lower REDACTED) = {}" "redact_text v \<noteq> []"
    by (simp_all add: redactable_def)
  have "\<not> contains (lower (redact_text u)) (lower (apply_redactions text (vs @ [v])))"
    if u: "u \<in> set vs" for u
  proof -
    from u snoc.prems have "set (lower (redact_text u)) \<inter> set (lower REDACTED) = {}"
      "lower (redact_text u) \<noteq> []"
      by (auto simp: redactable_def lower_def)
    with snoc u show ?thesis
      unfolding apply_redactions_snoc
      using replace_keeps_absent [OF _ _ REDACTED_nonempty v(2)] by simp
  qed
  moreover have "\<not> contains (lower (redact_text v)) (lower (apply_redactions text (vs @ [v])))"
    unfolding apply_redactions_snoc by (rule replace_removes [OF v(1) REDACTED_nonempty v(2)])
  ultimately show ?case by simp
qed

lemma determine_action_range:
  "fst (determine_action text vs) \<in> {''allow'', ''block'', ''redact'', ''log''}"
  by (simp add: determine_action_def Let_def)

lemma determine_action_block:
  "fst (determine_action text vs) = ''block'' \<longleftrightarrow> (\<exists>v\<in>set vs. v_action v = ''block'')"
  by (auto simp: determine_action_def Let_def list_ex_iff)

lemma determine_action_redact:
  assumes "fst (determine_action text vs) = ''redact''"
  shows "snd (determine_action text vs) =
    apply_redactions text (filter (\<lambda>v. v_action v = ''redact'') vs)"
  using assms by (auto simp: determine_action_def Let_def split: if_splits)

section \<open>Properties\<close>


definition card_rule :: filter_rule where
  "card_rule = \<lparr>fr_id = 1, fr_name = ''card'', fr_rule_type = ''custom_string'', fr_target = ''both'',
     fr_pattern = ''4111'', fr_action = ''redact'', fr_enabled = True, fr_organization_id = None\<rparr>"

definition demo_filter :: filter_env where
  "demo_filter = \<lparr>fe_finditer = (\<lambda>_ _. None), fe_patterns = [], fe_disabled = [],
     fe_rules = [card_rule], fe_ner_enabled = True, fe_ner = None, fe_disabled_ner = [],
     fe_model = ''shieldgemma:2b'', fe_http = HttpFailure\<rparr>"


text \<open>
  The filter never downgrades: content is let through exactly when its action is not
  block; one block violation of any tier blocks, whatever the auditor would say; the auditor
  can only turn an action into block; and a program defect in a tier blocks, while a failure
  of something the filter talks to leaves the request allowed.
\<close>

theorem filter_monotone:
  "fres_allowed (filter_text env org text phase) =
     (fres_action (filter_text env org text phase) \<noteq> ''block'') \<and>
   (\<forall>vs. tier_violations env org text phase = Inr vs \<longrightarrow>
      fres_action (filter_text env org text phase) \<in> {fst (determine_action text vs), ''block''} \<and>
      ((\<exists>v\<in>set vs. v_action v = ''block'') \<longrightarrow> \<not> fres_allowed (filter_text env org text phase)) \<and>
      (fres_action (filter_text env org text phase) \<noteq> fst (determine_action text vs) \<longrightarrow>
        fst (invoke_llm_auditor (fe_model env) (fe_http env)))) \<and>
   (\<forall>e. tier_violations env org text phase = Inl e \<longrightarrow>
      fres_allowed (filter_text env org text phase) = (\<not> is_defect e))"
proof (cases "tier_violations env org text phase")
  case (Inl e)
  then show ?thesis by (simp add: filter_text_def)
next
  case (Inr vs)
  obtain action filtered where d: "determine_action text vs = (action, filtered)" by fastforce
  with determine_action_block [of "text" vs] have "(action = ''block'') = (\<exists>v\<in>set vs. v_action v = ''block'')"
    by simp
  with Inr d show ?thesis by (auto simp: filter_text_def Let_def)
qed

theorem filter_monotone_witness:
  "\<not> fres_allowed (filter_text (demo_filter\<lparr>fe_rules := [card_rule\<lparr>fr_action := ''block''\<rparr>]\<rparr>)
     (Some 7) ''pay 4111'' ''input'')"
proof -
  let ?e = "demo_filter\<lparr>fe_rules := [card_rule\<lparr>fr_action := ''block''\<rparr>]\<rparr>"
  have "map_sum id (list_ex (\<lambda>v. v_action v = ''block''))
      (tier_violations ?e (Some 7) ''pay 4111'' ''input'') = Inr True"
    by code_simp
  then obtain vs where "tier_violations ?e (Some 7) ''pay 4111'' ''input'' = Inr vs"
    "\<exists>v\<in>set vs. v_action v = ''block''"
    by (cases "tier_violations ?e (Some 7) ''pay 4111'' ''input''") (auto simp: list_ex_iff)
  with filter_monotone [of ?e "Some 7" "''pay 4111''" "''input''"] show ?thesis by blast
qed

end
