(* ===== verification/Script.thy ===== *)
theory Script
  imports Valkey
begin

text \<open>
  A sequence of commands to a server whose state is \<open>'s\<close>: each may raise, and a sequence
  stops at the first that does, keeping the effects so far. Asynchronous handlers that await
  one command after another and the server-side Lua scripts have this shape.
\<close>

type_synonym ('s, 'a) script = "'s \<Rightarrow> 'a reply \<times> 's"

definition sbind :: "('s, 'a) script \<Rightarrow> ('a \<Rightarrow> ('s, 'b) script) \<Rightarrow> ('s, 'b) script" where
  "sbind f g s = (case f s of (Raised, s') \<Rightarrow> (Raised, s') | (Ok a, s') \<Rightarrow> g a s')"

definition sret :: "'a \<Rightarrow> ('s, 'a) script" where
  "sret a s = (Ok a, s)"

definition sraise :: "('s, 'a) script" where
  "sraise s = (Raised, s)"

definition query :: "('s \<Rightarrow> 'a reply) \<Rightarrow> ('s, 'a) script" where
  "query f s = (f s, s)"

definition command :: "('s \<Rightarrow> 's reply) \<Rightarrow> ('s, unit) script" where
  "command f s = (case f s of Raised \<Rightarrow> (Raised, s) | Ok s' \<Rightarrow> (Ok (), s'))"

fun for_each :: "('a \<Rightarrow> ('s, unit) script) \<Rightarrow> 'a list \<Rightarrow> ('s, unit) script" where
  "for_each f [] = sret ()"
| "for_each f (x # xs) = sbind (f x) (\<lambda>_. for_each f xs)"

lemmas script_simps = sbind_def sret_def sraise_def query_def command_def

section \<open>What a script leaves alone\<close>

text \<open>
  \<open>frame obs f\<close>: the script leaves the observation \<open>obs\<close> of the server as it was, whether it
  returns or raises.
\<close>

definition frame :: "('s \<Rightarrow> 'o) \<Rightarrow> ('s, 'a) script \<Rightarrow> bool" where
  "frame obs f \<longleftrightarrow> (\<forall>s. obs (snd (f s)) = obs s)"

named_theorems frame_intro "introduction rules for frames"

lemma frameD: "frame obs f \<Longrightarrow> f s = (r, s') \<Longrightarrow> obs s' = obs s"
  unfolding frame_def by (metis snd_conv)

lemma frame_sret [frame_intro]: "frame obs (sret a)"
  by (simp add: frame_def sret_def)

lemma frame_sraise [frame_intro]: "frame obs sraise"
  by (simp add: frame_def sraise_def)

lemma frame_query [frame_intro]: "frame obs (query f)"
  by (simp add: frame_def query_def)

lemma frame_command: "(\<And>s s'. f s = Ok s' \<Longrightarrow> obs s' = obs s) \<Longrightarrow> frame obs (command f)"
  by (simp add: frame_def command_def split: reply.split)

lemma frame_sbind [frame_intro]:
  assumes "frame obs f" "\<And>a. frame obs (g a)"
  shows "frame obs (sbind f g)"
  unfolding frame_def
proof
  fix s
  obtain r s1 where 1: "f s = (r, s1)" by fastforce
  with frameD [OF assms(1) 1] assms(2) show "obs (snd (sbind f g s)) = obs s"
    by (cases r) (simp_all add: sbind_def frame_def)
qed

lemma frame_if [frame_intro]: "frame obs f \<Longrightarrow> frame obs g \<Longrightarrow> frame obs (if b then f else g)"
  by simp

end
