(* ===== verification/PyTime.thy ===== *)
theory PyTime
  imports PyPrelude
begin

text \<open>
  Dates: times are microseconds since 1970-01-01 UTC, as naive datetimes of the code are.
\<close>

text \<open>The proleptic Gregorian date of a day number.\<close>

definition civil_from_days :: "int \<Rightarrow> int \<times> int \<times> int" where
  "civil_from_days days =
     (let z = days + 719468; era = z div 146097; doe = z mod 146097;
          yoe = (doe - doe div 1460 + doe div 36524 - doe div 146096) div 365;
          doy = doe - (365 * yoe + yoe div 4 - yoe div 100);
          mp = (5 * doy + 2) div 153;
          d = doy - (153 * mp + 2) div 5 + 1;
          m = (if mp < 10 then mp + 3 else mp - 9);
          y = yoe + era * 400 + (if m \<le> 2 then 1 else 0)
      in (y, m, d))"

definition two_digits :: "int \<Rightarrow> string" where
  "two_digits n = (if n < 10 then ''0'' else []) @ str_int n"

text \<open>\<open>%Y-%m-%d\<close>\<close>

definition date_string :: "int \<Rightarrow> string" where
  "date_string t =
     (let (y, m, d) = civil_from_days (t div 86400000000)
      in str_int y @ ''-'' @ two_digits m @ ''-'' @ two_digits d)"

end
