(* ===== verification/TokenLimiter.thy ===== *)
theory TokenLimiter
  imports Script PyTime
begin

text \<open>
  The token and budget gate (\<open>shared/utils/token_limiter.py\<close>). Its two Lua scripts are source
  of the repository and are modelled command by command; the server that runs them is a
  parameter, the commands the scripts call, each of which may raise. A script that raises stops
  there and keeps the effects it had (Redis scripts do not roll back). Lua numbers are exact
  rationals: the rounding of doubles is not modelled. Times are microseconds since 1970-01-01
  UTC.
\<close>

section \<open>Calendar\<close>

text \<open>The two \<open>strftime\<close> formats used: \<open>%Y%m\<close> and \<open>%Y%m%d%H%M\<close>.\<close>

definition month_stamp :: "int \<Rightarrow> string" where
  "month_stamp t =
     (let (y, m, d) = civil_from_days (t div 86400000000) in str_int y @ two_digits m)"

definition minute_stamp :: "int \<Rightarrow> string" where
  "minute_stamp t =
     (let (y, m, d) = civil_from_days (t div 86400000000);
          mins = (t mod 86400000000) div 60000000
      in str_int y @ two_digits m @ two_digits d @ two_digits (mins div 60) @
         two_digits (mins mod 60))"

section \<open>The server\<close>

record reservation =
  rv_vkey :: string
  rv_tokens :: rat
  rv_usd :: rat
  rv_created :: int

datatype redis_val = RNum rat | RResv reservation

record 's redis =
  rd_get :: "int \<Rightarrow> 's \<Rightarrow> string \<Rightarrow> redis_val option reply"
  rd_incrby :: "int \<Rightarrow> 's \<Rightarrow> string \<Rightarrow> rat \<Rightarrow> 's reply"
  rd_expire :: "int \<Rightarrow> 's \<Rightarrow> string \<Rightarrow> nat \<Rightarrow> 's reply"
  rd_set_ex :: "int \<Rightarrow> 's \<Rightarrow> string \<Rightarrow> redis_val \<Rightarrow> nat \<Rightarrow> 's reply"
  rd_del :: "int \<Rightarrow> 's \<Rightarrow> string \<Rightarrow> 's reply"

text \<open>
  The documented behaviour of the commands on keys that hold numbers: INCRBY keeps the time to
  live of an existing key and creates a missing one without any; EXPIRE replaces it.
\<close>

definition rget :: "'s redis \<Rightarrow> int \<Rightarrow> 's \<Rightarrow> string \<Rightarrow> redis_val option" where
  "rget rd t s k = (case rd_get rd t s k of Ok v \<Rightarrow> v | Raised \<Rightarrow> None)"

definition incrby_law :: "'s redis \<Rightarrow> bool" where
  "incrby_law rd \<longleftrightarrow>
     (\<forall>t s k n s' t' k'. rd_incrby rd t s k n = Ok s' \<longrightarrow> t \<le> t' \<longrightarrow>
        rget rd t' s' k' =
          (if k' \<noteq> k then rget rd t' s k'
           else case rget rd t s k of
                  None \<Rightarrow> Some (RNum n)
                | Some _ \<Rightarrow> (case rget rd t' s k of Some (RNum m) \<Rightarrow> Some (RNum (m + n)) | v \<Rightarrow> v)))"

definition expire_law :: "'s redis \<Rightarrow> bool" where
  "expire_law rd \<longleftrightarrow>
     (\<forall>t s k ex s' t' k'. rd_expire rd t s k ex = Ok s' \<longrightarrow> t \<le> t' \<longrightarrow>
        rget rd t' s' k' =
          (if k' \<noteq> k then rget rd t' s k'
           else if t + seconds ex \<le> t' then None else rget rd t s k))"

definition set_ex_law :: "'s redis \<Rightarrow> bool" where
  "set_ex_law rd \<longleftrightarrow>
     (\<forall>t s k v ex s' t' k'. rd_set_ex rd t s k v ex = Ok s' \<longrightarrow> t \<le> t' \<longrightarrow>
        rget rd t' s' k' =
          (if k' \<noteq> k then rget rd t' s k' else if t + seconds ex \<le> t' then None else Some v))"

definition del_law :: "'s redis \<Rightarrow> bool" where
  "del_law rd \<longleftrightarrow>
     (\<forall>t s k s' t' k'. rd_del rd t s k = Ok s' \<longrightarrow> t \<le> t' \<longrightarrow>
        rget rd t' s' k' = (if k' \<noteq> k then rget rd t' s k' else None))"

definition redis_laws :: "'s redis \<Rightarrow> bool" where
  "redis_laws rd \<longleftrightarrow> incrby_law rd \<and> expire_law rd \<and> set_ex_law rd \<and> del_law rd"

lemmas redis_law_defs = redis_laws_def incrby_law_def expire_law_def set_ex_law_def del_law_def

text \<open>A server that answers: only INCRBY of a key that holds no number raises.\<close>

definition redis_up :: "'s redis \<Rightarrow> bool" where
  "redis_up rd \<longleftrightarrow>
     (\<forall>t s k. rd_get rd t s k \<noteq> Raised) \<and>
     (\<forall>t s k n. (\<forall>v. rget rd t s k \<noteq> Some (RResv v)) \<longrightarrow> rd_incrby rd t s k n \<noteq> Raised) \<and>
     (\<forall>t s k ex. rd_expire rd t s k ex \<noteq> Raised) \<and>
     (\<forall>t s k v ex. rd_set_ex rd t s k v ex \<noteq> Raised) \<and>
     (\<forall>t s k. rd_del rd t s k \<noteq> Raised)"

section \<open>The scripts\<close>

text \<open>\<open>tonumber(GET key) or 0\<close>\<close>

definition number_or_0 :: "redis_val option \<Rightarrow> rat" where
  "number_or_0 v = (case v of Some (RNum n) \<Rightarrow> n | _ \<Rightarrow> 0)"

definition tpm_key :: "string \<Rightarrow> string \<Rightarrow> string" where
  "tpm_key vkey minute = ''waddleai:tpm:'' @ vkey @ '':'' @ minute"

definition tok_key :: "string \<Rightarrow> string \<Rightarrow> string" where
  "tok_key vkey month = ''waddleai:budget:tok:'' @ vkey @ '':'' @ month"

definition usd_key :: "string \<Rightarrow> string \<Rightarrow> string" where
  "usd_key vkey month = ''waddleai:budget:usd:'' @ vkey @ '':'' @ month"

definition resv_key :: "string \<Rightarrow> string" where
  "resv_key rid = ''waddleai:resv:'' @ rid"

text \<open>One section of the reserve script: check a counter against its limit and book on it.\<close>

definition check_and_book ::
    "'s redis \<Rightarrow> int \<Rightarrow> string \<Rightarrow> rat \<Rightarrow> rat \<Rightarrow> nat \<Rightarrow> ('s, bool) script" where
  "check_and_book rd t key limit amount ttl =
     (if limit > 0 then
        sbind (query (\<lambda>s. rd_get rd t s key)) (\<lambda>v.
          if number_or_0 v + amount > limit then sret False
          else sbind (command (\<lambda>s. rd_incrby rd t s key amount)) (\<lambda>_.
               sbind (command (\<lambda>s. rd_expire rd t s key ttl)) (\<lambda>_. sret True)))
      else sret True)"

record reserve_args =
  ra_vkey :: string
  ra_tokens :: rat
  ra_usd :: rat
  ra_tpm_limit :: rat
  ra_token_limit :: rat
  ra_usd_limit :: rat
  ra_rid :: string
  ra_minute :: string
  ra_month :: string

text \<open>The result is the reason of a refusal, or the reservation id.\<close>

definition lua_reserve :: "'s redis \<Rightarrow> int \<Rightarrow> reserve_args \<Rightarrow> ('s, string + string) script" where
  "lua_reserve rd t a =
     sbind (check_and_book rd t (tpm_key (ra_vkey a) (ra_minute a)) (ra_tpm_limit a) (ra_tokens a) 60)
       (\<lambda>ok. if \<not> ok then sret (Inl ''tpm_exceeded'') else
     sbind (check_and_book rd t (tok_key (ra_vkey a) (ra_month a)) (ra_token_limit a) (ra_tokens a)
         2592000)
       (\<lambda>ok. if \<not> ok then sret (Inl ''monthly_tokens_exceeded'') else
     sbind (check_and_book rd t (usd_key (ra_vkey a) (ra_month a)) (ra_usd_limit a) (ra_usd a) 2592000)
       (\<lambda>ok. if \<not> ok then sret (Inl ''monthly_usd_exceeded'') else
     sbind (command (\<lambda>s. rd_set_ex rd t s (resv_key (ra_rid a))
         (RResv \<lparr>rv_vkey = ra_vkey a, rv_tokens = ra_tokens a, rv_usd = ra_usd a,
                 rv_created = t div 1000000\<rparr>) 3600))
       (\<lambda>_. sret (Inr (ra_rid a))))))"

record reconcile_args =
  rc_rid :: string
  rc_tokens :: rat
  rc_usd :: rat
  rc_minute :: string
  rc_month :: string

definition adjust :: "'s redis \<Rightarrow> int \<Rightarrow> string \<Rightarrow> rat \<Rightarrow> ('s, unit) script" where
  "adjust rd t key delta =
     (if delta \<noteq> 0 then command (\<lambda>s. rd_incrby rd t s key delta) else sret ())"

definition lua_reconcile :: "'s redis \<Rightarrow> int \<Rightarrow> reconcile_args \<Rightarrow> ('s, bool) script" where
  "lua_reconcile rd t a =
     sbind (query (\<lambda>s. rd_get rd t s (resv_key (rc_rid a)))) (\<lambda>v.
       case v of
         None \<Rightarrow> sret False
       | Some (RNum _) \<Rightarrow> sraise
       | Some (RResv r) \<Rightarrow>
           (let token_delta = rc_tokens a - rv_tokens r; usd_delta = rc_usd a - rv_usd r in
            sbind (adjust rd t (tpm_key (rv_vkey r) (rc_minute a)) token_delta) (\<lambda>_.
            sbind (adjust rd t (tok_key (rv_vkey r) (rc_month a)) token_delta) (\<lambda>_.
            sbind (adjust rd t (usd_key (rv_vkey r) (rc_month a)) usd_delta) (\<lambda>_.
            sbind (command (\<lambda>s. rd_del rd t s (resv_key (rc_rid a)))) (\<lambda>_. sret True))))))"

section \<open>The limiter\<close>

record key_limits =
  kl_tpm :: "int option"
  kl_monthly_tokens :: "int option"
  kl_monthly_usd :: "int option"

record gate_decision =
  gd_allowed :: bool
  gd_reason :: "string option"
  gd_reservation :: "string option"

definition open_gate :: gate_decision where
  "open_gate = \<lparr>gd_allowed = True, gd_reason = None, gd_reservation = None\<rparr>"

text \<open>\<open>limit or 0\<close>\<close>

definition limit_arg :: "int option \<Rightarrow> rat" where
  "limit_arg l = (case l of None \<Rightarrow> 0 | Some n \<Rightarrow> of_int n)"

text \<open>
  \<open>loaded\<close>: \<open>SCRIPT LOAD\<close> has succeeded for this script; \<open>flag\<close>: the feature
  \<open>waddleai.native_rate_limit\<close> for the key; \<open>rid\<close>: the uuid drawn.
\<close>

record 's limiter =
  tl_redis :: "'s redis"
  tl_loaded :: bool
  tl_flag :: "string \<Rightarrow> bool"

definition reserve_args_of ::
    "int \<Rightarrow> int \<Rightarrow> int \<Rightarrow> rat \<Rightarrow> key_limits \<Rightarrow> string \<Rightarrow> reserve_args" where
  "reserve_args_of t vkey tokens usd limits rid =
     \<lparr>ra_vkey = str_int vkey, ra_tokens = of_int tokens, ra_usd = usd,
      ra_tpm_limit = limit_arg (kl_tpm limits), ra_token_limit = limit_arg (kl_monthly_tokens limits),
      ra_usd_limit = limit_arg (kl_monthly_usd limits), ra_rid = rid,
      ra_minute = minute_stamp t, ra_month = month_stamp t\<rparr>"

definition reserve ::
    "'s limiter \<Rightarrow> int \<Rightarrow> 's \<Rightarrow> int \<Rightarrow> int \<Rightarrow> rat \<Rightarrow> key_limits \<Rightarrow> string \<Rightarrow> gate_decision \<times> 's" where
  "reserve l t s vkey tokens usd limits rid =
     (if \<not> tl_flag l (str_int vkey) then (open_gate, s)
      else if kl_tpm limits = None \<and> kl_monthly_tokens limits = None \<and> kl_monthly_usd limits = None
      then (open_gate, s)
      else if \<not> tl_loaded l then (open_gate, s)
      else case lua_reserve (tl_redis l) t (reserve_args_of t vkey tokens usd limits rid) s of
             (Raised, s') \<Rightarrow> (open_gate, s')
           | (Ok (Inl reason), s') \<Rightarrow>
               (\<lparr>gd_allowed = False, gd_reason = Some reason, gd_reservation = None\<rparr>, s')
           | (Ok (Inr r), s') \<Rightarrow>
               (\<lparr>gd_allowed = True, gd_reason = None, gd_reservation = Some r\<rparr>, s'))"

definition reconcile :: "'s limiter \<Rightarrow> int \<Rightarrow> 's \<Rightarrow> string \<Rightarrow> int \<Rightarrow> rat \<Rightarrow> 's" where
  "reconcile l t s rid tokens usd =
     (if \<not> tl_loaded l then s
      else snd (lua_reconcile (tl_redis l) t
        \<lparr>rc_rid = rid, rc_tokens = of_int tokens, rc_usd = usd, rc_minute = minute_stamp t,
         rc_month = month_stamp t\<rparr> s))"

section \<open>An in-memory server\<close>

type_synonym redis_mem = "string \<Rightarrow> (redis_val \<times> int option) option"

definition live :: "int \<Rightarrow> redis_mem \<Rightarrow> string \<Rightarrow> (redis_val \<times> int option) option" where
  "live t s k = (case s k of
     Some (v, Some e) \<Rightarrow> if e \<le> t then None else Some (v, Some e) | x \<Rightarrow> x)"

definition mem_redis :: "redis_mem redis" where
  "mem_redis =
     \<lparr>rd_get = (\<lambda>t s k. Ok (map_option fst (live t s k))),
      rd_incrby = (\<lambda>t s k n. case live t s k of
         None \<Rightarrow> Ok (s(k \<mapsto> (RNum n, None)))
       | Some (RNum m, e) \<Rightarrow> Ok (s(k \<mapsto> (RNum (m + n), e)))
       | Some (RResv _, _) \<Rightarrow> Raised),
      rd_expire = (\<lambda>t s k ex. case live t s k of
         None \<Rightarrow> Ok (s(k := None)) | Some (v, _) \<Rightarrow> Ok (s(k \<mapsto> (v, Some (t + seconds ex))))),
      rd_set_ex = (\<lambda>t s k v ex. Ok (s(k \<mapsto> (v, Some (t + seconds ex))))),
      rd_del = (\<lambda>t s k. Ok (s(k := None)))\<rparr>"

lemma mem_rget: "rget mem_redis t s k = map_option fst (live t s k)"
  by (simp add: rget_def mem_redis_def)

lemma live_upd: "live t (s(k' := x)) k =
    (if k = k' then (case x of Some (v, Some e) \<Rightarrow> if e \<le> t then None else x | _ \<Rightarrow> x) else live t s k)"
  by (auto simp: live_def split: option.splits)

lemma mem_incrby_law: "incrby_law mem_redis"
  unfolding incrby_law_def mem_rget
  by (auto simp: mem_redis_def live_upd split: option.splits redis_val.splits if_splits)
    (auto simp: live_def split: option.splits if_splits)

lemma mem_redis_laws: "redis_laws mem_redis"
  using mem_incrby_law
  unfolding redis_law_defs mem_rget
  by (auto simp: mem_redis_def live_upd split: option.splits)

lemma mem_redis_up: "redis_up mem_redis"
  by (auto simp: redis_up_def mem_redis_def rget_def live_def
      split: option.splits redis_val.splits if_splits)

section \<open>Sequences of requests\<close>

record reserve_request =
  rq_time :: int
  rq_vkey :: int
  rq_tokens :: int
  rq_usd :: rat
  rq_limits :: key_limits
  rq_rid :: string

fun reserve_run ::
    "'s limiter \<Rightarrow> 's \<Rightarrow> reserve_request list \<Rightarrow> (reserve_request \<times> gate_decision) list \<times> 's" where
  "reserve_run l s [] = ([], s)"
| "reserve_run l s (r # rs) =
     (let (d, s1) = reserve l (rq_time r) s (rq_vkey r) (rq_tokens r) (rq_usd r) (rq_limits r)
            (rq_rid r);
          (ds, s2) = reserve_run l s1 rs
      in ((r, d) # ds, s2))"

definition granted :: "int \<Rightarrow> (reserve_request \<times> gate_decision) list \<Rightarrow> int" where
  "granted v ds =
     sum_list (map (\<lambda>(r, d). if rq_vkey r = v \<and> gd_allowed d then rq_tokens r else 0) ds)"

definition booked :: "'s redis \<Rightarrow> int \<Rightarrow> 's \<Rightarrow> string \<Rightarrow> rat" where
  "booked rd t s k = number_or_0 (rget rd t s k)"

section \<open>The keys\<close>

lemmas key_defs = tpm_key_def tok_key_def usd_key_def resv_key_def

lemma keys_apart [simp]:
  "tpm_key v m \<noteq> tok_key v' m'" "tpm_key v m \<noteq> usd_key v' m'" "tpm_key v m \<noteq> resv_key r"
  "tok_key v m \<noteq> tpm_key v' m'" "tok_key v m \<noteq> usd_key v' m'" "tok_key v m \<noteq> resv_key r"
  "usd_key v m \<noteq> tpm_key v' m'" "usd_key v m \<noteq> tok_key v' m'" "usd_key v m \<noteq> resv_key r"
  "resv_key r \<noteq> tpm_key v m" "resv_key r \<noteq> tok_key v m" "resv_key r \<noteq> usd_key v m"
  by (simp_all add: key_defs)

lemma tpm_key_inj: "tpm_key (str_int v) m = tpm_key (str_int v') m' \<longleftrightarrow> v = v' \<and> m = m'"
  using append_colon_inj [OF str_int_no_colon str_int_no_colon, of v m v' m'] str_int_inj
  by (auto simp: tpm_key_def)

text \<open>Only reservation keys hold documents, now and later.\<close>

definition clean :: "'s redis \<Rightarrow> int \<Rightarrow> 's \<Rightarrow> bool" where
  "clean rd t s \<longleftrightarrow>
     (\<forall>t' k r. t \<le> t' \<longrightarrow> rget rd t' s k = Some (RResv r) \<longrightarrow> (\<exists>rid. k = resv_key rid))"

lemma clean_later: "clean rd t s \<Longrightarrow> t \<le> t' \<Longrightarrow> clean rd t' s"
  unfolding clean_def by (meson order_trans)

lemma rget_incr:
  "redis_laws rd \<Longrightarrow> rd_incrby rd t s k n = Ok s' \<Longrightarrow> t \<le> t' \<Longrightarrow>
     rget rd t' s' k' =
       (if k' \<noteq> k then rget rd t' s k'
        else case rget rd t s k of
               None \<Rightarrow> Some (RNum n)
             | Some _ \<Rightarrow> (case rget rd t' s k of Some (RNum m) \<Rightarrow> Some (RNum (m + n)) | v \<Rightarrow> v))"
  unfolding redis_laws_def incrby_law_def by metis

lemma rget_expire:
  "redis_laws rd \<Longrightarrow> rd_expire rd t s k ex = Ok s' \<Longrightarrow> t \<le> t' \<Longrightarrow>
     rget rd t' s' k' =
       (if k' \<noteq> k then rget rd t' s k' else if t + seconds ex \<le> t' then None else rget rd t s k)"
  unfolding redis_laws_def expire_law_def by metis

lemma rget_set_ex:
  "redis_laws rd \<Longrightarrow> rd_set_ex rd t s k v ex = Ok s' \<Longrightarrow> t \<le> t' \<Longrightarrow>
     rget rd t' s' k' =
       (if k' \<noteq> k then rget rd t' s k' else if t + seconds ex \<le> t' then None else Some v)"
  unfolding redis_laws_def set_ex_law_def by metis

lemma rget_del:
  "redis_laws rd \<Longrightarrow> rd_del rd t s k = Ok s' \<Longrightarrow> t \<le> t' \<Longrightarrow>
     rget rd t' s' k' = (if k' \<noteq> k then rget rd t' s k' else None)"
  unfolding redis_laws_def del_law_def by metis

lemma rd_get_up: "redis_up rd \<Longrightarrow> rd_get rd t s k = Ok (rget rd t s k)"
  by (cases "rd_get rd t s k") (auto simp: redis_up_def rget_def)

lemma rd_incr_up:
  "redis_up rd \<Longrightarrow> \<forall>r. rget rd t s k \<noteq> Some (RResv r) \<Longrightarrow> \<exists>s'. rd_incrby rd t s k n = Ok s'"
  unfolding redis_up_def by (metis reply.exhaust)

lemma rd_up_ex:
  assumes "redis_up rd"
  shows "\<exists>s'. rd_expire rd t s k ex = Ok s'" "\<exists>s'. rd_set_ex rd t s k v ex = Ok s'"
    "\<exists>s'. rd_del rd t s k = Ok s'"
  using assms unfolding redis_up_def by (metis reply.exhaust)+

section \<open>One section of the script\<close>

lemma book_effect:
  assumes laws: "redis_laws rd" and up: "redis_up rd" and cl: "clean rd t s"
    and key: "\<forall>rid. key \<noteq> resv_key rid"
  shows "\<exists>s1 s2. rd_incrby rd t s key n = Ok s1 \<and> rd_expire rd t s1 key ttl = Ok s2 \<and>
    clean rd t s2 \<and> (\<forall>t'\<ge>t. \<forall>k'. rget rd t' s2 k' =
      (if k' \<noteq> key then rget rd t' s k'
       else if t + seconds ttl \<le> t' then None else Some (RNum (booked rd t s key + n))))"
proof -
  have num: "\<forall>r. rget rd t s key \<noteq> Some (RResv r)"
    using cl key by (auto simp: clean_def)
  obtain s1 where s1: "rd_incrby rd t s key n = Ok s1" using rd_incr_up [OF up num] by blast
  obtain s2 where s2: "rd_expire rd t s1 key ttl = Ok s2" using rd_up_ex(1) [OF up] by blast
  have g: "rget rd t s1 key = Some (RNum (booked rd t s key + n))"
    using num rget_incr [OF laws s1, of t key]
    by (auto simp: booked_def number_or_0_def split: option.splits redis_val.splits)
  have e: "rget rd t' s2 k' = (if k' \<noteq> key then rget rd t' s k'
       else if t + seconds ttl \<le> t' then None else Some (RNum (booked rd t s key + n)))"
    if "t \<le> t'" for t' k'
    using rget_expire [OF laws s2 that, of k'] rget_incr [OF laws s1 that, of k'] g by simp
  have "clean rd t s2"
    using cl e by (auto simp: clean_def split: if_splits)
  with s1 s2 e show ?thesis by blast
qed

lemma check_and_book_effect:
  assumes "redis_laws rd" "redis_up rd" "clean rd t s" "\<forall>rid. key \<noteq> resv_key rid"
  shows "\<exists>s'. check_and_book rd t key limit amount ttl s =
      (Ok (limit > 0 \<longrightarrow> booked rd t s key + amount \<le> limit), s') \<and> clean rd t s' \<and>
    (\<forall>t'\<ge>t. \<forall>k'. k' \<noteq> key \<longrightarrow> rget rd t' s' k' = rget rd t' s k') \<and>
    (if limit > 0 \<and> booked rd t s key + amount \<le> limit
     then \<forall>t'\<ge>t. rget rd t' s' key =
       (if t + seconds ttl \<le> t' then None else Some (RNum (booked rd t s key + amount)))
     else s' = s)"
proof -
  from book_effect [OF assms, of amount ttl] obtain s1 s2 where
    b: "rd_incrby rd t s key amount = Ok s1" "rd_expire rd t s1 key ttl = Ok s2" "clean rd t s2"
    "\<forall>t'\<ge>t. \<forall>k'. rget rd t' s2 k' = (if k' \<noteq> key then rget rd t' s k'
       else if t + seconds ttl \<le> t' then None else Some (RNum (booked rd t s key + amount)))"
    by blast
  show ?thesis
  proof (cases "limit > 0 \<and> booked rd t s key + amount \<le> limit")
    case True
    with b assms(2) show ?thesis
      by (intro exI [of _ s2]) (simp add: check_and_book_def sbind_def query_def command_def sret_def
          rd_get_up booked_def)
  next
    case False
    with assms show ?thesis
      by (intro exI [of _ s]) (auto simp: check_and_book_def sbind_def query_def sret_def
          rd_get_up booked_def not_less)
  qed
qed

section \<open>What a script does to a counter\<close>

text \<open>
  \<open>f\<close> returns, from a clean store to a clean store, and leaves the keys of \<open>K\<close> as they
  are, now and later.
\<close>

definition keeps :: "'s redis \<Rightarrow> int \<Rightarrow> string set \<Rightarrow> ('s, 'a) script \<Rightarrow> bool" where
  "keeps rd t K f \<longleftrightarrow>
     (\<forall>s. clean rd t s \<longrightarrow> (\<exists>a s'. f s = (Ok a, s') \<and> clean rd t s' \<and>
        (\<forall>t'\<ge>t. \<forall>k\<in>K. rget rd t' s' k = rget rd t' s k)))"

lemma keepsE:
  assumes "keeps rd t K f" "clean rd t s"
  obtains a s' where "f s = (Ok a, s')" "clean rd t s'"
    "\<forall>t'\<ge>t. \<forall>k\<in>K. rget rd t' s' k = rget rd t' s k"
  using assms unfolding keeps_def by blast

lemma keeps_sbind: "keeps rd t K f \<Longrightarrow> (\<And>a. keeps rd t K (g a)) \<Longrightarrow> keeps rd t K (sbind f g)"
proof -
  assume f: "keeps rd t K f" and g: "\<And>a. keeps rd t K (g a)"
  show ?thesis
    unfolding keeps_def
  proof (intro allI impI)
    fix s assume "clean rd t s"
    with f obtain a s1 where 1: "f s = (Ok a, s1)" "clean rd t s1"
      "\<forall>t'\<ge>t. \<forall>k\<in>K. rget rd t' s1 k = rget rd t' s k" by (rule keepsE)
    from keepsE [OF g 1(2), of a] obtain b s2 where 2: "g a s1 = (Ok b, s2)" "clean rd t s2"
      "\<forall>t'\<ge>t. \<forall>k\<in>K. rget rd t' s2 k = rget rd t' s1 k" by blast
    from 1 2 show "\<exists>b s'. sbind f g s = (Ok b, s') \<and> clean rd t s' \<and>
        (\<forall>t'\<ge>t. \<forall>k\<in>K. rget rd t' s' k = rget rd t' s k)"
      unfolding sbind_def by (intro exI [of _ b] exI [of _ s2]) simp
  qed
qed

lemma keeps_sret: "keeps rd t K (sret a)"
  by (simp add: keeps_def sret_def)

lemma keeps_if: "keeps rd t K f \<Longrightarrow> keeps rd t K g \<Longrightarrow> keeps rd t K (if b then f else g)"
  by simp

lemma keeps_check_and_book:
  assumes "redis_laws rd" "redis_up rd" "\<forall>rid. key \<noteq> resv_key rid" "key \<notin> K"
  shows "keeps rd t K (check_and_book rd t key limit amount ttl)"
  unfolding keeps_def
proof (intro allI impI)
  fix s assume "clean rd t s"
  from check_and_book_effect [OF assms(1,2) this assms(3), of limit amount ttl]
  obtain b s' where "check_and_book rd t key limit amount ttl s = (Ok b, s')" "clean rd t s'"
    "\<forall>t'\<ge>t. \<forall>k'. k' \<noteq> key \<longrightarrow> rget rd t' s' k' = rget rd t' s k'" by blast
  moreover from this(3) assms(4) have "\<forall>t'\<ge>t. \<forall>k\<in>K. rget rd t' s' k = rget rd t' s k" by metis
  ultimately show "\<exists>a s'. check_and_book rd t key limit amount ttl s = (Ok a, s') \<and>
      clean rd t s' \<and> (\<forall>t'\<ge>t. \<forall>k\<in>K. rget rd t' s' k = rget rd t' s k)"
    by (intro exI conjI)
qed

lemma keeps_set_resv:
  assumes "redis_laws rd" "redis_up rd" "resv_key rid \<notin> K"
  shows "keeps rd t K (command (\<lambda>s. rd_set_ex rd t s (resv_key rid) v ex))"
  unfolding keeps_def
proof (intro allI impI)
  fix s assume cl: "clean rd t s"
  obtain s' where s': "rd_set_ex rd t s (resv_key rid) v ex = Ok s'"
    using rd_up_ex(2) [OF assms(2)] by blast
  note g = rget_set_ex [OF assms(1) s']
  have "clean rd t s'" using cl g by (auto simp: clean_def split: if_splits)
  moreover have "\<forall>t'\<ge>t. \<forall>k\<in>K. rget rd t' s' k = rget rd t' s k" using g assms(3) by auto
  ultimately show "\<exists>a s'. command (\<lambda>s. rd_set_ex rd t s (resv_key rid) v ex) s = (Ok a, s') \<and>
      clean rd t s' \<and> (\<forall>t'\<ge>t. \<forall>k\<in>K. rget rd t' s' k = rget rd t' s k)"
    using s' by (simp add: command_def)
qed

lemmas keeps_intros = keeps_sbind keeps_sret keeps_if keeps_check_and_book keeps_set_resv

text \<open>The reserve script on the counters of other keys, and on its own minute counter.\<close>

lemma lua_reserve_others:
  assumes "redis_laws rd" "redis_up rd"
  shows "keeps rd t {tpm_key v m | v m. (v, m) \<noteq> (ra_vkey a, ra_minute a) \<and>
      tpm_key v m \<noteq> tpm_key (ra_vkey a) (ra_minute a)} (lua_reserve rd t a)"
  unfolding lua_reserve_def by (intro keeps_intros assms) auto

lemma lua_reserve_minute:
  assumes laws: "redis_laws rd" and up: "redis_up rd" and cl: "clean rd t s"
    and lim: "ra_tpm_limit a > 0"
  defines "K \<equiv> tpm_key (ra_vkey a) (ra_minute a)"
  shows "\<exists>r s'. lua_reserve rd t a s = (Ok r, s') \<and> clean rd t s' \<and>
    (if booked rd t s K + ra_tokens a \<le> ra_tpm_limit a
     then r \<noteq> Inl ''tpm_exceeded'' \<and> (\<forall>t'\<ge>t. rget rd t' s' K =
       (if t + seconds 60 \<le> t' then None else Some (RNum (booked rd t s K + ra_tokens a))))
     else r = Inl ''tpm_exceeded'' \<and> s' = s)"
proof -
  let ?first = "check_and_book rd t K (ra_tpm_limit a) (ra_tokens a) 60"
  define rest where "rest =
     sbind (check_and_book rd t (tok_key (ra_vkey a) (ra_month a)) (ra_token_limit a) (ra_tokens a)
         2592000)
       (\<lambda>ok. if \<not> ok then sret (Inl ''monthly_tokens_exceeded'') else
     sbind (check_and_book rd t (usd_key (ra_vkey a) (ra_month a)) (ra_usd_limit a) (ra_usd a) 2592000)
       (\<lambda>ok. if \<not> ok then sret (Inl ''monthly_usd_exceeded'') else
     sbind (command (\<lambda>s. rd_set_ex rd t s (resv_key (ra_rid a))
         (RResv \<lparr>rv_vkey = ra_vkey a, rv_tokens = ra_tokens a, rv_usd = ra_usd a,
                 rv_created = t div 1000000\<rparr>) 3600))
       (\<lambda>_. sret (Inr (ra_rid a)))))"
  have run: "lua_reserve rd t a = sbind ?first (\<lambda>ok. if \<not> ok then sret (Inl ''tpm_exceeded'') else rest)"
    unfolding lua_reserve_def rest_def K_def ..
  have rest: "keeps rd t {K} rest"
    unfolding rest_def by (intro keeps_intros laws up) (auto simp: K_def)
  have reason: "fst (rest s1) \<noteq> Ok (Inl ''tpm_exceeded'')" for s1
    by (auto simp: rest_def sbind_def sret_def split: prod.splits reply.splits if_splits)
  have key: "\<forall>rid. K \<noteq> resv_key rid" by (simp add: K_def)
  from check_and_book_effect [OF laws up cl key, of "ra_tpm_limit a" "ra_tokens a" 60] lim
  obtain s1 where s1: "?first s = (Ok (booked rd t s K + ra_tokens a \<le> ra_tpm_limit a), s1)"
    "clean rd t s1"
    "if booked rd t s K + ra_tokens a \<le> ra_tpm_limit a
     then \<forall>t'\<ge>t. rget rd t' s1 K =
       (if t + seconds 60 \<le> t' then None else Some (RNum (booked rd t s K + ra_tokens a)))
     else s1 = s" by auto
  show ?thesis
  proof (cases "booked rd t s K + ra_tokens a \<le> ra_tpm_limit a")
    case True
    from keepsE [OF rest s1(2)] obtain r s' where r: "rest s1 = (Ok r, s')" "clean rd t s'"
      "\<forall>t'\<ge>t. \<forall>k\<in>{K}. rget rd t' s' k = rget rd t' s1 k" by blast
    with True s1 reason [of s1] show ?thesis
      by (intro exI [of _ r] exI [of _ s']) (simp add: run sbind_def)
  next
    case False
    with s1 cl show ?thesis
      by (intro exI [of _ "Inl ''tpm_exceeded''"] exI [of _ s]) (simp add: run sbind_def sret_def)
  qed
qed

lemma reserve_others:
  assumes "redis_laws (tl_redis l)" "redis_up (tl_redis l)" "clean (tl_redis l) t s"
    and "reserve l t s w tokens usd limits rid = (d, s')" and "v \<noteq> w"
  shows "clean (tl_redis l) t s' \<and>
    (\<forall>t'\<ge>t. rget (tl_redis l) t' s' (tpm_key (str_int v) m) =
      rget (tl_redis l) t' s (tpm_key (str_int v) m))"
proof -
  let ?rd = "tl_redis l" and ?a = "reserve_args_of t w tokens usd limits rid"
  from keepsE [OF lua_reserve_others [OF assms(1,2), of t ?a] assms(3)]
  obtain r s1 where s1: "lua_reserve ?rd t ?a s = (Ok r, s1)" "clean ?rd t s1"
    "\<forall>t'\<ge>t. \<forall>k\<in>{tpm_key v m | v m. (v, m) \<noteq> (ra_vkey ?a, ra_minute ?a) \<and>
        tpm_key v m \<noteq> tpm_key (ra_vkey ?a) (ra_minute ?a)}. rget ?rd t' s1 k = rget ?rd t' s k"
    by blast
  have "str_int v \<noteq> str_int w" using assms(5) str_int_inj by blast
  moreover have "tpm_key (str_int v) m \<noteq> tpm_key (str_int w) m'" for m'
    using assms(5) by (simp add: tpm_key_inj)
  ultimately have "tpm_key (str_int v) m \<in>
      {tpm_key v m | v m. (v, m) \<noteq> (ra_vkey ?a, ra_minute ?a) \<and>
        tpm_key v m \<noteq> tpm_key (ra_vkey ?a) (ra_minute ?a)}"
    by (auto simp: reserve_args_of_def)
  with s1 assms(3,4) show ?thesis
    by (auto simp: reserve_def split: if_splits sum.splits)
qed

lemma lua_reserve_reason:
  assumes "lua_reserve rd t a s = (Ok (Inl reason), s')" "ra_token_limit a = 0" "ra_usd_limit a = 0"
  shows "reason = ''tpm_exceeded''"
  using assms
  by (auto simp: lua_reserve_def sbind_def sret_def check_and_book_def command_def query_def
      split: prod.splits reply.splits if_splits)

lemma reserve_minute:
  assumes "redis_laws (tl_redis l)" "redis_up (tl_redis l)" "clean (tl_redis l) t s"
    and "tl_flag l (str_int v)" "tl_loaded l" "kl_tpm limits = Some L" "L > 0"
    and "reserve l t s v tokens usd limits rid = (d, s')"
  defines "K \<equiv> tpm_key (str_int v) (minute_stamp t)"
  shows "clean (tl_redis l) t s' \<and>
    (if booked (tl_redis l) t s K + of_int tokens \<le> of_int L
     then (\<forall>t'\<ge>t. rget (tl_redis l) t' s' K = (if t + seconds 60 \<le> t' then None
         else Some (RNum (booked (tl_redis l) t s K + of_int tokens)))) \<and>
       (kl_monthly_tokens limits = None \<and> kl_monthly_usd limits = None \<longrightarrow> gd_allowed d)
     else \<not> gd_allowed d \<and> gd_reason d = Some ''tpm_exceeded'' \<and> s' = s)"
proof -
  let ?a = "reserve_args_of t v tokens usd limits rid"
  have a: "ra_tpm_limit ?a = of_int L" "ra_tokens ?a = of_int tokens"
    "tpm_key (ra_vkey ?a) (ra_minute ?a) = K"
    using assms(6) by (simp_all add: reserve_args_of_def limit_arg_def K_def)
  have "ra_tpm_limit ?a > 0" using a assms(7) by simp
  from lua_reserve_minute [OF assms(1-3) this] a obtain r s1 where r:
    "lua_reserve (tl_redis l) t ?a s = (Ok r, s1)" "clean (tl_redis l) t s1"
    "if booked (tl_redis l) t s K + of_int tokens \<le> of_int L
     then r \<noteq> Inl ''tpm_exceeded'' \<and> (\<forall>t'\<ge>t. rget (tl_redis l) t' s1 K =
       (if t + seconds 60 \<le> t' then None
        else Some (RNum (booked (tl_redis l) t s K + of_int tokens))))
     else r = Inl ''tpm_exceeded'' \<and> s1 = s" by auto
  have "isl r \<Longrightarrow> kl_monthly_tokens limits = None \<and> kl_monthly_usd limits = None \<Longrightarrow>
      r = Inl ''tpm_exceeded''"
    using lua_reserve_reason [of "tl_redis l" t ?a s _ s1] r(1)
    by (cases r) (auto simp: reserve_args_of_def limit_arg_def)
  with r assms(4-8) show ?thesis
    by (cases r) (auto simp: reserve_def split: if_splits)
qed

section \<open>One minute of requests\<close>

text \<open>The counter \<open>k\<close> does not expire within the minute \<open>m\<close>.\<close>

definition steady :: "'s redis \<Rightarrow> int \<Rightarrow> int \<Rightarrow> 's \<Rightarrow> string \<Rightarrow> bool" where
  "steady rd m t s k \<longleftrightarrow> (\<forall>t'. t \<le> t' \<and> t' div 60000000 = m \<longrightarrow> rget rd t' s k = rget rd t s k)"

lemma minute_stamp_same: "t div 60000000 = t' div 60000000 \<Longrightarrow> minute_stamp t = minute_stamp t'"
proof -
  assume eq: "t div 60000000 = t' div 60000000"
  have day: "t div 86400000000 = (t div 60000000) div 1440" for t :: int
    by (simp add: zdiv_zmult2_eq [symmetric])
  have mins: "(t mod 86400000000) div 60000000 = (t div 60000000) mod 1440" for t :: int
    using zmod_zmult2_eq [of 1440 t 60000000] by simp
  show ?thesis unfolding minute_stamp_def day mins eq ..
qed

lemma within_minute: "t div 60000000 = m \<Longrightarrow> t' div 60000000 = m \<Longrightarrow> t' < t + seconds 60"
  by (simp add: seconds_def)

lemma run_minute:
  assumes laws: "redis_laws (tl_redis l)" and up: "redis_up (tl_redis l)"
    and on: "tl_flag l (str_int v)" "tl_loaded l" and L: "L > 0"
    and stamp: "\<And>t. t div 60000000 = m \<Longrightarrow> minute_stamp t = st"
    and "clean (tl_redis l) t s" "steady (tl_redis l) m t s (tpm_key (str_int v) st)"
    and "sorted (t # map rq_time rs)" "t div 60000000 = m"
    and "\<forall>r\<in>set rs. rq_time r div 60000000 = m \<and>
      (rq_vkey r = v \<longrightarrow> kl_tpm (rq_limits r) = Some L \<and> 0 \<le> rq_tokens r)"
  shows "granted v (fst (reserve_run l s rs)) = 0 \<or>
    booked (tl_redis l) t s (tpm_key (str_int v) st) + of_int (granted v (fst (reserve_run l s rs)))
      \<le> of_int L"
  using assms(7-)
proof (induction rs arbitrary: t s)
  case Nil
  then show ?case by (simp add: granted_def)
next
  case (Cons r rs)
  let ?K = "tpm_key (str_int v) st" and ?rd = "tl_redis l" and ?T = "rq_time r"
  obtain d s1 where d: "reserve l ?T s (rq_vkey r) (rq_tokens r) (rq_usd r) (rq_limits r) (rq_rid r)
      = (d, s1)" by fastforce
  define g where "g = granted v (fst (reserve_run l s1 rs))"
  have g: "granted v (fst (reserve_run l s (r # rs))) =
      (if rq_vkey r = v \<and> gd_allowed d then rq_tokens r else 0) + g"
    by (simp add: d g_def granted_def split: prod.split)
  have T: "t \<le> ?T" "?T div 60000000 = m" using Cons.prems by auto
  have cl: "clean ?rd ?T s" using Cons.prems(1) T(1) by (rule clean_later)
  have now: "rget ?rd t' s ?K = rget ?rd t s ?K" if "?T \<le> t'" "t' div 60000000 = m" for t'
    using Cons.prems(2) that T by (simp add: steady_def)
  have b: "booked ?rd ?T s ?K = booked ?rd t s ?K" by (simp add: booked_def now T)
  have IH: "g = 0 \<or> booked ?rd ?T s1 ?K + of_int g \<le> of_int L"
    if "clean ?rd ?T s1" "steady ?rd m ?T s1 ?K"
    unfolding g_def using that Cons.prems(3-) T by (intro Cons.IH) auto
  show ?case
  proof (cases "rq_vkey r = v")
    case False
    from reserve_others [OF laws up cl d, of v st] False
    have s1: "clean ?rd ?T s1" "\<forall>t'\<ge>?T. rget ?rd t' s1 ?K = rget ?rd t' s ?K" by auto
    then have "steady ?rd m ?T s1 ?K" by (simp add: steady_def now T)
    with IH s1 b False show ?thesis unfolding g by (simp add: booked_def)
  next
    case True
    with Cons.prems(5) have lim: "kl_tpm (rq_limits r) = Some L" "0 \<le> rq_tokens r" by auto
    from d True have d': "reserve l ?T s v (rq_tokens r) (rq_usd r) (rq_limits r) (rq_rid r) = (d, s1)"
      by simp
    note e = reserve_minute [OF laws up cl on lim(1) L d', unfolded stamp [OF T(2)] b]
    show ?thesis
    proof (cases "booked ?rd t s ?K + of_int (rq_tokens r) \<le> of_int L")
      case fits: True
      with e have s1: "clean ?rd ?T s1" "\<forall>t'\<ge>?T. rget ?rd t' s1 ?K = (if ?T + seconds 60 \<le> t'
          then None else Some (RNum (booked ?rd t s ?K + of_int (rq_tokens r))))" by auto
      have k: "rget ?rd t' s1 ?K = Some (RNum (booked ?rd t s ?K + of_int (rq_tokens r)))"
        if "?T \<le> t'" "t' div 60000000 = m" for t'
        using s1(2) that within_minute [OF T(2) that(2)] by simp
      then have "steady ?rd m ?T s1 ?K" by (simp add: steady_def T)
      with IH s1 k [OF order_refl T(2)]
      have "g = 0 \<or> booked ?rd t s ?K + of_int (rq_tokens r) + of_int g \<le> of_int L"
        by (simp add: booked_def number_or_0_def)
      moreover have "(0::rat) \<le> of_int (rq_tokens r)" using lim(2) by simp
      ultimately show ?thesis unfolding g using fits True by auto
    next
      case False
      with e have s1: "clean ?rd ?T s1" "\<not> gd_allowed d" "s1 = s" by auto
      moreover have "steady ?rd m ?T s ?K" by (simp add: steady_def now T)
      ultimately show ?thesis unfolding g using IH b by simp
    qed
  qed
qed

section \<open>A refusal by a later budget, and reconciliation\<close>

lemma reserve_refused_by_month:
  assumes laws: "redis_laws (tl_redis l)" and up: "redis_up (tl_redis l)"
    and cl: "clean (tl_redis l) t s" and on: "tl_flag l (str_int v)" "tl_loaded l"
    and L: "kl_tpm limits = Some L" "L > 0" and Lm: "kl_monthly_tokens limits = Some Lm" "Lm > 0"
  defines "K \<equiv> tpm_key (str_int v) (minute_stamp t)" and "B \<equiv> tok_key (str_int v) (month_stamp t)"
  assumes fits: "booked (tl_redis l) t s K + of_int n \<le> of_int L"
    and over: "booked (tl_redis l) t s B + of_int n > of_int Lm"
    and run: "reserve l t s v n usd limits rid = (d, s')"
  shows "\<not> gd_allowed d \<and> gd_reason d = Some ''monthly_tokens_exceeded'' \<and>
    booked (tl_redis l) t s' K = booked (tl_redis l) t s K + of_int n"
proof -
  let ?rd = "tl_redis l" and ?a = "reserve_args_of t v n usd limits rid"
  have a: "tpm_key (ra_vkey ?a) (ra_minute ?a) = K" "tok_key (ra_vkey ?a) (ra_month ?a) = B"
    "ra_tpm_limit ?a = of_int L" "ra_token_limit ?a = of_int Lm" "ra_tokens ?a = of_int n"
    using L Lm by (simp_all add: reserve_args_of_def limit_arg_def K_def B_def)
  have apart: "\<forall>rid. K \<noteq> resv_key rid" "\<forall>rid. B \<noteq> resv_key rid" "B \<noteq> K"
    by (simp_all add: K_def B_def)
  from check_and_book_effect [OF laws up cl apart(1), of "of_int L" "of_int n" 60] L(2) fits
  obtain s1 where s1: "check_and_book ?rd t K (of_int L) (of_int n) 60 s = (Ok True, s1)"
    "clean ?rd t s1" "\<forall>t'\<ge>t. \<forall>k'. k' \<noteq> K \<longrightarrow> rget ?rd t' s1 k' = rget ?rd t' s k'"
    "\<forall>t'\<ge>t. rget ?rd t' s1 K = (if t + seconds 60 \<le> t' then None
      else Some (RNum (booked ?rd t s K + of_int n)))" by auto
  have B: "booked ?rd t s1 B = booked ?rd t s B" using s1(3) apart(3) by (simp add: booked_def)
  from check_and_book_effect [OF laws up s1(2) apart(2), of "of_int Lm" "of_int n" 2592000] Lm(2) over B
  have s2: "check_and_book ?rd t B (of_int Lm) (of_int n) 2592000 s1 = (Ok False, s1)" by auto
  have "lua_reserve ?rd t ?a s = (Ok (Inl ''monthly_tokens_exceeded''), s1)"
    unfolding lua_reserve_def a by (simp add: sbind_def s1(1) s2 sret_def)
  with run on L have "d = \<lparr>gd_allowed = False, gd_reason = Some ''monthly_tokens_exceeded'',
      gd_reservation = None\<rparr>" "s' = s1"
    by (auto simp: reserve_def)
  moreover have "booked ?rd t s1 K = booked ?rd t s K + of_int n"
    using s1(4) by (simp add: booked_def number_or_0_def seconds_def)
  ultimately show ?thesis by simp
qed

lemma adjust_effect:
  assumes "redis_laws rd" "redis_up rd" "clean rd t s" "\<forall>rid. key \<noteq> resv_key rid"
  shows "\<exists>s'. adjust rd t key delta s = (Ok (), s') \<and> clean rd t s' \<and>
    (\<forall>t'\<ge>t. \<forall>k'. k' \<noteq> key \<longrightarrow> rget rd t' s' k' = rget rd t' s k') \<and>
    (delta \<noteq> 0 \<and> rget rd t s key = None \<longrightarrow> (\<forall>t'\<ge>t. rget rd t' s' key = Some (RNum delta)))"
proof (cases "delta = 0")
  case True
  with assms(3) show ?thesis by (simp add: adjust_def sret_def)
next
  case False
  have "\<forall>r. rget rd t s key \<noteq> Some (RResv r)" using assms(3,4) by (auto simp: clean_def)
  from rd_incr_up [OF assms(2) this] obtain s1 where s1: "rd_incrby rd t s key delta = Ok s1" by blast
  note g = rget_incr [OF assms(1) s1]
  have nr: "rget rd t' s key \<noteq> Some (RResv r)" if "t \<le> t'" for t' r
    using assms(3,4) that by (auto simp: clean_def)
  have "clean rd t s1"
    unfolding clean_def
  proof (intro allI impI)
    fix t' k r assume h: "t \<le> t'" "rget rd t' s1 k = Some (RResv r)"
    then have "k \<noteq> key"
      using g [OF h(1), of key] nr [OF h(1)] by (auto split: option.splits redis_val.splits)
    with h g [OF h(1), of k] have "rget rd t' s k = Some (RResv r)" by simp
    with assms(3) h(1) show "\<exists>rid. k = resv_key rid" unfolding clean_def by blast
  qed
  with s1 g False show ?thesis by (intro exI [of _ s1]) (simp add: adjust_def command_def)
qed

lemma reconcile_effect:
  assumes laws: "redis_laws (tl_redis l)" and up: "redis_up (tl_redis l)"
    and cl: "clean (tl_redis l) t s" and on: "tl_loaded l"
    and r: "rget (tl_redis l) t s (resv_key rid) = Some (RResv r)"
  defines "K \<equiv> tpm_key (rv_vkey r) (minute_stamp t)"
  assumes new: "rget (tl_redis l) t s K = None" and delta: "of_int n \<noteq> rv_tokens r"
  shows "clean (tl_redis l) t (reconcile l t s rid n usd) \<and>
    (\<forall>t'\<ge>t. rget (tl_redis l) t' (reconcile l t s rid n usd) K = Some (RNum (of_int n - rv_tokens r)))"
proof -
  let ?rd = "tl_redis l"
  let ?B = "tok_key (rv_vkey r) (month_stamp t)" and ?U = "usd_key (rv_vkey r) (month_stamp t)"
  let ?d = "of_int n - rv_tokens r"
  have apart: "\<forall>rid. K \<noteq> resv_key rid" "\<forall>rid. ?B \<noteq> resv_key rid" "\<forall>rid. ?U \<noteq> resv_key rid"
    "K \<noteq> ?B" "K \<noteq> ?U" by (simp_all add: K_def)
  from adjust_effect [OF laws up cl apart(1), of ?d] obtain s1 where s1:
    "adjust ?rd t K ?d s = (Ok (), s1)" "clean ?rd t s1"
    "\<forall>t'\<ge>t. rget ?rd t' s1 K = Some (RNum ?d)" using new delta by auto
  from adjust_effect [OF laws up s1(2) apart(2), of ?d] obtain s2 where s2:
    "adjust ?rd t ?B ?d s1 = (Ok (), s2)" "clean ?rd t s2"
    "\<forall>t'\<ge>t. \<forall>k'. k' \<noteq> ?B \<longrightarrow> rget ?rd t' s2 k' = rget ?rd t' s1 k'" by blast
  from adjust_effect [OF laws up s2(2) apart(3), of "usd - rv_usd r"] obtain s3 where s3:
    "adjust ?rd t ?U (usd - rv_usd r) s2 = (Ok (), s3)" "clean ?rd t s3"
    "\<forall>t'\<ge>t. \<forall>k'. k' \<noteq> ?U \<longrightarrow> rget ?rd t' s3 k' = rget ?rd t' s2 k'" by blast
  obtain s4 where s4: "rd_del ?rd t s3 (resv_key rid) = Ok s4" using rd_up_ex(3) [OF up] by blast
  note g = rget_del [OF laws s4]
  have q: "query (\<lambda>s. rd_get ?rd t s (resv_key rid)) s = (Ok (Some (RResv r)), s)"
    by (simp add: query_def rd_get_up [OF up] r)
  have c: "command (\<lambda>s. rd_del ?rd t s (resv_key rid)) s3 = (Ok (), s4)"
    by (simp add: command_def s4)
  have "reconcile l t s rid n usd = s4"
    using on unfolding reconcile_def lua_reconcile_def
    by (simp add: sbind_def q Let_def K_def [symmetric] s1(1) s2(1) s3(1) c sret_def)
  moreover have "clean ?rd t s4" using s3(2) g by (auto simp: clean_def split: if_splits)
  moreover have "\<forall>t'\<ge>t. rget ?rd t' s4 K = Some (RNum ?d)"
    using g s3(3) s2(3) s1(3) apart by simp
  ultimately show ?thesis by simp
qed

definition month_only :: "int \<Rightarrow> key_limits" where
  "month_only n = \<lparr>kl_tpm = None, kl_monthly_tokens = Some n, kl_monthly_usd = None\<rparr>"

lemma check_and_book_off: "limit \<le> 0 \<Longrightarrow> check_and_book rd t key limit amount ttl s = (Ok True, s)"
  by (simp add: check_and_book_def sret_def)

lemma reserve_month_only:
  assumes laws: "redis_laws (tl_redis l)" and up: "redis_up (tl_redis l)"
    and cl: "clean (tl_redis l) t s" and on: "tl_flag l (str_int v)" "tl_loaded l" and n: "0 < n"
  defines "B \<equiv> tok_key (str_int v) (month_stamp t)"
  assumes free: "booked (tl_redis l) t s B = 0"
    and run: "reserve l t s v n 0 (month_only n) rid = (d, s')"
  shows "gd_allowed d \<and> clean (tl_redis l) t s' \<and>
    (\<forall>t'\<ge>t + seconds 2592000. booked (tl_redis l) t' s' B = 0)"
proof -
  let ?rd = "tl_redis l" and ?a = "reserve_args_of t v n 0 (month_only n) rid"
  let ?set = "command (\<lambda>s. rd_set_ex ?rd t s (resv_key (ra_rid ?a))
    (RResv \<lparr>rv_vkey = ra_vkey ?a, rv_tokens = ra_tokens ?a, rv_usd = ra_usd ?a,
            rv_created = t div 1000000\<rparr>) 3600)"
  have a: "ra_tpm_limit ?a = 0" "ra_usd_limit ?a = 0" "ra_token_limit ?a = of_int n"
    "tok_key (ra_vkey ?a) (ra_month ?a) = B" "ra_tokens ?a = of_int n"
    by (simp_all add: reserve_args_of_def limit_arg_def month_only_def B_def)
  have "\<forall>rid. B \<noteq> resv_key rid" by (simp add: B_def)
  from check_and_book_effect [OF laws up cl this, of "of_int n" "of_int n" 2592000] free n
  obtain s1 where s1: "check_and_book ?rd t B (of_int n) (of_int n) 2592000 s = (Ok True, s1)"
    "clean ?rd t s1" "\<forall>t'\<ge>t. rget ?rd t' s1 B =
      (if t + seconds 2592000 \<le> t' then None else Some (RNum (of_int n)))" by auto
  have "keeps ?rd t {B} ?set" by (intro keeps_intros laws up) (simp add: B_def)
  from keepsE [OF this s1(2)] obtain u s2 where s2: "?set s1 = (Ok u, s2)" "clean ?rd t s2"
    "\<forall>t'\<ge>t. \<forall>k\<in>{B}. rget ?rd t' s2 k = rget ?rd t' s1 k" by blast
  have "lua_reserve ?rd t ?a s = (Ok (Inr (ra_rid ?a)), s2)"
    unfolding lua_reserve_def a(3-)
    by (simp add: sbind_def a(1,2) check_and_book_off s1(1) s2(1) [unfolded a(5)] sret_def)
  with run on have "gd_allowed d" "s' = s2"
    by (auto simp: reserve_def month_only_def)
  moreover have "booked ?rd t' s2 B = 0" if "t + seconds 2592000 \<le> t'" for t'
  proof -
    from that have "t \<le> t'" by (simp add: seconds_def)
    with s2(3) s1(3) that show ?thesis by (simp add: booked_def number_or_0_def)
  qed
  ultimately show ?thesis using s2(2) by simp
qed

section \<open>Properties\<close>

text \<open>
  C34. Within one minute, whatever the interleaving of reservations by any keys, the tokens
  granted to a virtual key with a TPM limit, on top of what its minute counter already held,
  never exceed the limit, when the feature is on and the server answers.
\<close>

theorem tpm_limit_kept:
  assumes "redis_laws (tl_redis l)" "redis_up (tl_redis l)" "tl_flag l (str_int v)" "tl_loaded l"
    and "L > 0" "clean (tl_redis l) t s" "t div 60000000 = m"
    and "steady (tl_redis l) m t s (tpm_key (str_int v) (minute_stamp t))"
    and "sorted (t # map rq_time rs)"
    and "\<forall>r\<in>set rs. rq_time r div 60000000 = m \<and>
      (rq_vkey r = v \<longrightarrow> kl_tpm (rq_limits r) = Some L \<and> 0 \<le> rq_tokens r)"
    and "reserve_run l s rs = (ds, s')"
  shows "granted v ds = 0 \<or>
    booked (tl_redis l) t s (tpm_key (str_int v) (minute_stamp t)) + of_int (granted v ds) \<le> of_int L"
  using run_minute [OF assms(1-5) minute_stamp_same, of m, OF _ assms(6,8,9,7,10)] assms(7,11)
  by simp

definition demo_limiter :: "redis_mem limiter" where
  "demo_limiter = \<lparr>tl_redis = mem_redis, tl_loaded = True, tl_flag = (\<lambda>_. True)\<rparr>"

definition tpm_only :: "int \<Rightarrow> key_limits" where
  "tpm_only n = \<lparr>kl_tpm = Some n, kl_monthly_tokens = None, kl_monthly_usd = None\<rparr>"

definition demo_request :: "int \<Rightarrow> int \<Rightarrow> int \<Rightarrow> reserve_request" where
  "demo_request t v n = \<lparr>rq_time = t, rq_vkey = v, rq_tokens = n, rq_usd = 0,
     rq_limits = tpm_only 100, rq_rid = str_int t\<rparr>"

lemma demo_limiter_ok:
  "redis_laws (tl_redis demo_limiter)" "redis_up (tl_redis demo_limiter)"
  "tl_flag demo_limiter k" "tl_loaded demo_limiter"
  by (simp_all add: demo_limiter_def mem_redis_laws mem_redis_up)

lemma mem_empty: "rget (tl_redis demo_limiter) t (\<lambda>_. None) k = None"
  by (simp add: demo_limiter_def mem_rget live_def)

theorem tpm_limit_kept_witness:
  "granted 7 (fst (reserve_run demo_limiter (\<lambda>_. None)
     [demo_request 1 7 60, demo_request 2 8 90, demo_request 3 7 50, demo_request 4 7 40])) \<le> 100"
proof -
  let ?rs = "[demo_request 1 7 60, demo_request 2 8 90, demo_request 3 7 50, demo_request 4 7 40]"
  have "clean (tl_redis demo_limiter) 0 (\<lambda>_. None)" by (simp add: clean_def mem_empty)
  moreover have "steady (tl_redis demo_limiter) 0 0 (\<lambda>_. None)
      (tpm_key (str_int 7) (minute_stamp 0))" by (simp add: steady_def mem_empty)
  moreover have "sorted (0 # map rq_time ?rs)" by (simp add: demo_request_def)
  moreover have "\<forall>r\<in>set ?rs. rq_time r div 60000000 = 0 \<and>
      (rq_vkey r = 7 \<longrightarrow> kl_tpm (rq_limits r) = Some 100 \<and> 0 \<le> rq_tokens r)"
    by (simp add: demo_request_def tpm_only_def)
  ultimately have "granted 7 (fst (reserve_run demo_limiter (\<lambda>_. None) ?rs)) = 0 \<or>
    booked (tl_redis demo_limiter) 0 (\<lambda>_. None) (tpm_key (str_int 7) (minute_stamp 0)) +
      rat_of_int (granted 7 (fst (reserve_run demo_limiter (\<lambda>_. None) ?rs))) \<le> rat_of_int 100"
    using tpm_limit_kept [OF demo_limiter_ok, of 100 0 "\<lambda>_. None" 0 7 ?rs,
        OF _ _ _ _ _ _ surjective_pairing]
    by (simp del: reserve_run.simps)
  then show ?thesis
    by (auto simp: booked_def number_or_0_def mem_empty simp del: reserve_run.simps)
qed

text \<open>
  The surplus of a reservation is credited to the minute of its reconciliation, not to the
  minute it was booked in: reconciling an over-estimate in a minute without a counter makes
  that counter negative, and a single request above the TPM limit is then granted.
\<close>

theorem reconcile_credits_other_minute:
  assumes "redis_laws (tl_redis l)" "redis_up (tl_redis l)" "tl_flag l (str_int v)" "tl_loaded l"
    and "clean (tl_redis l) t s" "L > 0"
    and "rget (tl_redis l) t s (resv_key rid) = Some (RResv r)"
    and "rv_vkey r = str_int v" "rv_tokens r = of_int estimate" "used < estimate"
    and "rget (tl_redis l) t s (tpm_key (str_int v) (minute_stamp t)) = None"
    and "reserve l t (reconcile l t s rid used usd) v (L + (estimate - used)) usd' (tpm_only L) rid' =
      (d, s')"
  shows "gd_allowed d \<and> L < L + (estimate - used)"
proof -
  let ?s = "reconcile l t s rid used usd" and ?K = "tpm_key (str_int v) (minute_stamp t)"
  from reconcile_effect [OF assms(1,2,5,4,7), of used] assms(8-11)
  have e: "clean (tl_redis l) t ?s" "\<forall>t'\<ge>t. rget (tl_redis l) t' ?s ?K =
      Some (RNum (of_int used - of_int estimate))" by auto
  then have b: "booked (tl_redis l) t ?s ?K = of_int used - of_int estimate"
    by (simp add: booked_def number_or_0_def)
  have "kl_tpm (tpm_only L) = Some L" "kl_monthly_tokens (tpm_only L) = None"
    "kl_monthly_usd (tpm_only L) = None" by (simp_all add: tpm_only_def)
  with reserve_minute [OF assms(1,2) e(1) assms(3,4) this(1) assms(6,12)] b assms(10)
  show ?thesis by simp
qed

theorem reconcile_credits_other_minute_witness:
  "gd_allowed (fst (reserve demo_limiter 60000000
     (reconcile demo_limiter 60000000
       ((\<lambda>_. None)(resv_key ''r'' \<mapsto>
         (RResv \<lparr>rv_vkey = str_int 7, rv_tokens = 90, rv_usd = 0, rv_created = 1\<rparr>, None)))
       ''r'' 0 0) 7 (100 + (90 - 0)) 0 (tpm_only 100) ''q''))"
proof -
  let ?r = "\<lparr>rv_vkey = str_int 7, rv_tokens = 90, rv_usd = 0, rv_created = 1\<rparr>"
  let ?s = "(\<lambda>_. None)(resv_key ''r'' \<mapsto> (RResv ?r, None :: int option))"
  have g: "rget (tl_redis demo_limiter) t ?s k = (if k = resv_key ''r'' then Some (RResv ?r) else None)"
    for t k by (simp add: demo_limiter_def mem_rget live_def)
  then have "clean (tl_redis demo_limiter) 60000000 ?s" by (auto simp: clean_def split: if_splits)
  with g reconcile_credits_other_minute [OF demo_limiter_ok, of 60000000 ?s 100 "''r''" ?r 7 90 0,
      OF _ _ _ _ _ _ _ surjective_pairing]
  show ?thesis by simp
qed

text \<open>
  A monthly budget does not last a month of 31 days: the counter expires thirty days after
  its last booking, so a key whose whole budget was granted at some time is granted it again
  thirty days later, in the same month.
\<close>

theorem monthly_budget_restarts:
  assumes "redis_laws (tl_redis l)" "redis_up (tl_redis l)" "tl_flag l (str_int v)" "tl_loaded l"
    and "clean (tl_redis l) t s" "booked (tl_redis l) t s (tok_key (str_int v) (month_stamp t)) = 0"
    and "0 < n" "t + seconds 2592000 \<le> t'" "month_stamp t' = month_stamp t"
    and "reserve l t s v n 0 (month_only n) rid = (d, s1)"
    and "reserve l t' s1 v n 0 (month_only n) rid' = (d', s2)"
  shows "gd_allowed d \<and> gd_allowed d'"
proof -
  from reserve_month_only [OF assms(1,2,5,3,4,7) _ assms(10)] assms(6)
  have 1: "gd_allowed d" "clean (tl_redis l) t s1"
    "\<forall>t'\<ge>t + seconds 2592000. booked (tl_redis l) t' s1 (tok_key (str_int v) (month_stamp t)) = 0"
    by auto
  have "t \<le> t'" using assms(8) by (simp add: seconds_def)
  with 1 have "clean (tl_redis l) t' s1" by (blast intro: clean_later)
  from reserve_month_only [OF assms(1,2) this assms(3,4,7) _ assms(11)] 1 assms(8,9)
  show ?thesis by simp
qed

theorem monthly_budget_restarts_witness:
  "month_stamp 1706659200000000 = ''202401'' \<and>
   gd_allowed (fst (reserve demo_limiter 1706659200000000
     (snd (reserve demo_limiter 1704067200000000 (\<lambda>_. None) 7 100 0 (month_only 100) ''r''))
     7 100 0 (month_only 100) ''q''))"
proof -
  have m: "month_stamp 1706659200000000 = ''202401''" "month_stamp 1704067200000000 = ''202401''"
    by code_simp+
  have "clean (tl_redis demo_limiter) 1704067200000000 (\<lambda>_. None)" by (simp add: clean_def mem_empty)
  with m monthly_budget_restarts [OF demo_limiter_ok, of 1704067200000000 "\<lambda>_. None" 7 100
      1706659200000000 "''r''", OF _ _ _ _ _ surjective_pairing surjective_pairing]
  show ?thesis by (simp add: seconds_def booked_def number_or_0_def mem_empty)
qed

end
