(* ===== verification/Metering.thy ===== *)
theory Metering
  imports Valkey "HOL-Library.AList"
begin

text \<open>
  The batched metering writer (\<open>shared/utils/metering.py\<close>): usage events are buffered, swapped
  out by a flush, aggregated per (virtual key, model, provider, minute), and upserted into
  \<open>token_usage\<close>; a failed write is queued again. The flush awaits between its writes, so
  events, other flushes and a cancellation can come in between: the operations are the atomic
  sections of the coroutines and a history is a list of them.

  Times are microseconds since an epoch at midnight. The database accepts or refuses each
  statement; the model reads that off a list of outcomes in the database state.
\<close>

section \<open>Events and aggregates\<close>

record metering_event =
  me_vkey :: int
  me_model :: string
  me_provider :: string
  me_usage :: "(string \<times> int) list option"
  me_timestamp :: int
  me_estimated :: bool
  me_cache_status :: "string option"
  me_tokens_saved :: int

record aggregated_metrics =
  am_vkey :: int
  am_model :: string
  am_provider :: string
  am_minute :: int
  am_input :: int
  am_output :: int
  am_requests :: int
  am_estimated :: bool
  am_events :: "metering_event list"
  am_saved :: int
  am_cache_status :: "string option"

type_synonym agg_key = "int \<times> string \<times> string \<times> int"

definition MINUTE :: int where
  "MINUTE = 60000000"

definition date_of :: "int \<Rightarrow> int" where
  "date_of t = t div (1440 * MINUTE)"

definition minute_bucket :: "int \<Rightarrow> int" where
  "minute_bucket t = t - t mod MINUTE"

definition aggregation_key :: "metering_event \<Rightarrow> agg_key" where
  "aggregation_key e = (me_vkey e, me_model e, me_provider e, minute_bucket (me_timestamp e))"

definition estimate_tokens :: "metering_event \<Rightarrow> (string \<times> int) list" where
  "estimate_tokens e = [(''input_tokens'', 1), (''output_tokens'', 1)]"

definition usage_get :: "(string \<times> int) list \<Rightarrow> string \<Rightarrow> int" where
  "usage_get u k = (case map_of u k of None \<Rightarrow> 0 | Some n \<Rightarrow> n)"

definition reported :: "metering_event \<Rightarrow> bool" where
  "reported e = (case me_usage e of None \<Rightarrow> False | Some u \<Rightarrow> u \<noteq> [])"

definition event_usage :: "metering_event \<Rightarrow> (string \<times> int) list" where
  "event_usage e = (if reported e then the (me_usage e) else estimate_tokens e)"

definition new_aggregate :: "metering_event \<Rightarrow> aggregated_metrics" where
  "new_aggregate e =
     \<lparr>am_vkey = me_vkey e, am_model = me_model e, am_provider = me_provider e,
      am_minute = minute_bucket (me_timestamp e), am_input = 0, am_output = 0, am_requests = 0,
      am_estimated = False, am_events = [], am_saved = 0, am_cache_status = None\<rparr>"

definition add_event :: "aggregated_metrics \<Rightarrow> metering_event \<Rightarrow> aggregated_metrics" where
  "add_event a e =
     a\<lparr>am_estimated := am_estimated a \<or> \<not> reported e,
       am_input := am_input a + usage_get (event_usage e) ''input_tokens'',
       am_output := am_output a + usage_get (event_usage e) ''output_tokens'',
       am_requests := am_requests a + 1,
       am_saved := am_saved a + me_tokens_saved e,
       am_cache_status :=
         (case me_cache_status e of None \<Rightarrow> am_cache_status a | Some s \<Rightarrow> Some s),
       am_events := am_events a @ [e]\<rparr>"

definition aggregate_event ::
    "(agg_key \<times> aggregated_metrics) list \<Rightarrow> metering_event \<Rightarrow> (agg_key \<times> aggregated_metrics) list"
  where
  "aggregate_event d e =
     (let k = aggregation_key e;
          a = (case map_of d k of None \<Rightarrow> new_aggregate e | Some a \<Rightarrow> a)
      in AList.update k (add_event a e) d)"

definition aggregate_events :: "metering_event list \<Rightarrow> (agg_key \<times> aggregated_metrics) list" where
  "aggregate_events es = foldl aggregate_event [] es"

section \<open>The writer\<close>

record token_usage_row =
  tu_id :: nat
  tu_vkey :: "int option"
  tu_date :: int
  tu_waddleai :: int
  tu_llm_tokens :: "blob option"
  tu_input :: int
  tu_output :: int
  tu_requests :: int
  tu_source :: string
  tu_estimated :: bool
  tu_saved :: "int option"
  tu_cache_status :: "string option"

record usage_db =
  ud_rows :: "token_usage_row list"
  ud_accepts :: "bool list"

definition model_key :: "aggregated_metrics \<Rightarrow> string" where
  "model_key a = am_provider a @ ''_'' @ map (\<lambda>c. if c = CHR ''-'' then CHR ''_'' else c) (am_model a)"

definition json_add :: "dict \<Rightarrow> string \<Rightarrow> int \<Rightarrow> dict option" where
  "json_add d k n = (case map_of d k of Some (JInt i) \<Rightarrow> Some (AList.update k (JInt (i + n)) d)
     | _ \<Rightarrow> None)"

text \<open>The merge of the per-model breakdown; \<open>None\<close> is a KeyError or TypeError.\<close>

definition merge_breakdown :: "dict \<Rightarrow> string \<Rightarrow> int \<Rightarrow> int \<Rightarrow> dict option" where
  "merge_breakdown d k i out =
     (let d1 = (if map_of d k = None
                then AList.update k (JDict [(''input'', JInt 0), (''output'', JInt 0)]) d else d)
      in case map_of d1 k of
           Some (JDict m) \<Rightarrow>
             (case json_add m ''input'' i of
                None \<Rightarrow> None
              | Some m1 \<Rightarrow>
                  (case json_add m1 ''output'' out of
                     None \<Rightarrow> None | Some m2 \<Rightarrow> Some (AList.update k (JDict m2) d1)))
         | _ \<Rightarrow> None)"

definition load_breakdown :: "blob option \<Rightarrow> dict option" where
  "load_breakdown b =
     (case b of None \<Rightarrow> Some []
      | Some raw \<Rightarrow>
          if raw = RawText [] then Some []
          else case json_loads raw of Some (JDict d) \<Rightarrow> Some d | _ \<Rightarrow> None)"

definition same_day :: "aggregated_metrics \<Rightarrow> token_usage_row \<Rightarrow> bool" where
  "same_day a r \<longleftrightarrow> tu_vkey r = Some (am_vkey a) \<and> tu_date r = date_of (am_minute a)"

definition updated_row :: "aggregated_metrics \<Rightarrow> token_usage_row \<Rightarrow> dict \<Rightarrow> token_usage_row" where
  "updated_row a r d =
     r\<lparr>tu_input := tu_input r + am_input a, tu_output := tu_output r + am_output a,
       tu_llm_tokens := Some (json_dumps (JDict d)), tu_requests := tu_requests r + am_requests a,
       tu_source := ''aiproxy'', tu_estimated := tu_estimated r \<or> am_estimated a,
       tu_saved := Some ((case tu_saved r of None \<Rightarrow> 0 | Some n \<Rightarrow> n) + am_saved a),
       tu_cache_status := (if truthy (am_cache_status a) then am_cache_status a
                           else tu_cache_status r)\<rparr>"

definition inserted_row :: "nat \<Rightarrow> aggregated_metrics \<Rightarrow> token_usage_row" where
  "inserted_row n a =
     \<lparr>tu_id = n, tu_vkey = Some (am_vkey a), tu_date = date_of (am_minute a), tu_waddleai = 0,
      tu_llm_tokens = Some (json_dumps (JDict [(model_key a,
        JDict [(''input'', JInt (am_input a)), (''output'', JInt (am_output a))])])),
      tu_input = am_input a, tu_output = am_output a, tu_requests = am_requests a,
      tu_source = ''aiproxy'', tu_estimated = am_estimated a, tu_saved = Some (am_saved a),
      tu_cache_status = am_cache_status a\<rparr>"

text \<open>The database's own part: a fresh key for an insert, the outcome of a statement.\<close>

definition fresh_id :: "token_usage_row list \<Rightarrow> nat" where
  "fresh_id rows = Suc (fold max (map tu_id rows) 0)"

definition db_commit :: "token_usage_row list \<Rightarrow> usage_db \<Rightarrow> unit reply \<times> usage_db" where
  "db_commit rows db =
     (case ud_accepts db of
        [] \<Rightarrow> (Ok (), db\<lparr>ud_rows := rows\<rparr>)
      | ok # rest \<Rightarrow>
          if ok then (Ok (), \<lparr>ud_rows = rows, ud_accepts = rest\<rparr>)
          else (Raised, db\<lparr>ud_accepts := rest\<rparr>))"

definition write_aggregated_row ::
    "aggregated_metrics \<Rightarrow> usage_db \<Rightarrow> unit reply \<times> usage_db" where
  "write_aggregated_row a db =
     (case List.find (same_day a) (ud_rows db) of
        Some r \<Rightarrow>
          (case Option.bind (load_breakdown (tu_llm_tokens r))
                  (\<lambda>d. merge_breakdown d (model_key a) (am_input a) (am_output a)) of
             None \<Rightarrow> (Raised, db)
           | Some d \<Rightarrow>
               db_commit (map (\<lambda>x. if tu_id x = tu_id r then updated_row a r d else x)
                 (ud_rows db)) db)
      | None \<Rightarrow> db_commit (ud_rows db @ [inserted_row (fresh_id (ud_rows db)) a]) db)"

section \<open>The buffer and its flush\<close>

text \<open>
  \<open>mb_flights\<close> are the flush coroutines that have swapped the buffer and not finished: the
  aggregates still to write and those whose write failed. \<open>mb_lost\<close> is not state of the
  program: it collects the aggregates that will never be written, cut off by the bound of the
  retry queue (an error log line in the code) or held by a cancelled coroutine.
\<close>

record flight =
  fl_todo :: "aggregated_metrics list"
  fl_failed :: "aggregated_metrics list"

record 'w metering =
  mb_buffer :: "metering_event list"
  mb_pending :: "aggregated_metrics list"
  mb_flights :: "flight list"
  mb_db :: 'w
  mb_lost :: "aggregated_metrics list"

definition MAX_PENDING :: nat where
  "MAX_PENDING = 1000"

definition metering_init :: "'w \<Rightarrow> 'w metering" where
  "metering_init w = \<lparr>mb_buffer = [], mb_pending = [], mb_flights = [], mb_db = w, mb_lost = []\<rparr>"

definition record_event :: "metering_event \<Rightarrow> 'w metering \<Rightarrow> 'w metering" where
  "record_event e m = m\<lparr>mb_buffer := mb_buffer m @ [e]\<rparr>"

text \<open>The section under the lock, up to the first write; \<open>None\<close> when there is nothing to do.\<close>

definition flush_swap :: "'w metering \<Rightarrow> aggregated_metrics list option \<times> 'w metering" where
  "flush_swap m =
     (let current = mb_buffer m; retries = mb_pending m;
          m' = m\<lparr>mb_buffer := [], mb_pending := []\<rparr>
      in if current = [] \<and> retries = [] then (None, m')
         else (Some (retries @ map snd (aggregate_events current)), m'))"

definition flush_write ::
    "(aggregated_metrics \<Rightarrow> 'w \<Rightarrow> unit reply \<times> 'w) \<Rightarrow> aggregated_metrics \<Rightarrow>
     aggregated_metrics list \<Rightarrow> 'w \<Rightarrow> aggregated_metrics list \<times> 'w" where
  "flush_write wr a failed w =
     (case wr a w of (Raised, w') \<Rightarrow> (failed @ [a], w') | (Ok _, w') \<Rightarrow> (failed, w'))"

definition flush_requeue :: "aggregated_metrics list \<Rightarrow> 'w metering \<Rightarrow> 'w metering" where
  "flush_requeue failed m =
     (if failed = [] then m
      else let pending = mb_pending m @ failed;
               overflow = length pending - MAX_PENDING
           in m\<lparr>mb_pending := drop overflow pending,
                mb_lost := mb_lost m @ take overflow pending\<rparr>)"

fun flush_loop ::
    "(aggregated_metrics \<Rightarrow> 'w \<Rightarrow> unit reply \<times> 'w) \<Rightarrow> aggregated_metrics list \<Rightarrow>
     aggregated_metrics list \<Rightarrow> 'w \<Rightarrow> aggregated_metrics list \<times> 'w" where
  "flush_loop wr [] failed w = (failed, w)"
| "flush_loop wr (a # todo) failed w =
     (let (failed', w') = flush_write wr a failed w in flush_loop wr todo failed' w')"

text \<open>\<open>flush\<close> when nothing else runs between its writes.\<close>

definition flush ::
    "(aggregated_metrics \<Rightarrow> 'w \<Rightarrow> unit reply \<times> 'w) \<Rightarrow> 'w metering \<Rightarrow> 'w metering" where
  "flush wr m =
     (case flush_swap m of
        (None, m') \<Rightarrow> m'
      | (Some todo, m') \<Rightarrow>
          (let (failed, w') = flush_loop wr todo [] (mb_db m')
           in flush_requeue failed (m'\<lparr>mb_db := w'\<rparr>)))"

text \<open>
  The interleavings: an event is recorded, a flush starts, a running flush does its next write
  or ends, a running flush is cancelled (\<open>stop\<close> cancels the background task when it does not
  end within five seconds; a cancellation is not an \<open>Exception\<close>, so nothing catches it).
\<close>

datatype metering_op = Record metering_event | Swap | Write nat | Finish nat | Cancel nat

inductive metering_step ::
    "(aggregated_metrics \<Rightarrow> 'w \<Rightarrow> unit reply \<times> 'w) \<Rightarrow> 'w metering \<Rightarrow> metering_op \<Rightarrow>
     'w metering \<Rightarrow> bool" for wr where
  Record: "metering_step wr m (Record e) (record_event e m)"
| Swap_idle: "flush_swap m = (None, m') \<Longrightarrow> metering_step wr m Swap m'"
| Swap: "flush_swap m = (Some todo, m') \<Longrightarrow>
    metering_step wr m Swap
      (m'\<lparr>mb_flights := mb_flights m' @ [\<lparr>fl_todo = todo, fl_failed = []\<rparr>]\<rparr>)"
| Write: "i < length (mb_flights m) \<Longrightarrow> mb_flights m ! i = \<lparr>fl_todo = a # todo, fl_failed = failed\<rparr> \<Longrightarrow>
    flush_write wr a failed (mb_db m) = (failed', w') \<Longrightarrow>
    metering_step wr m (Write i)
      (m\<lparr>mb_flights := (mb_flights m)[i := \<lparr>fl_todo = todo, fl_failed = failed'\<rparr>], mb_db := w'\<rparr>)"
| Finish: "i < length (mb_flights m) \<Longrightarrow> mb_flights m ! i = \<lparr>fl_todo = [], fl_failed = failed\<rparr> \<Longrightarrow>
    metering_step wr m (Finish i)
      (flush_requeue failed (m\<lparr>mb_flights := take i (mb_flights m) @ drop (Suc i) (mb_flights m)\<rparr>))"
| Cancel: "i < length (mb_flights m) \<Longrightarrow>
    metering_step wr m (Cancel i)
      (m\<lparr>mb_flights := take i (mb_flights m) @ drop (Suc i) (mb_flights m),
         mb_lost := mb_lost m @ fl_todo (mb_flights m ! i) @ fl_failed (mb_flights m ! i)\<rparr>)"

inductive metering_run ::
    "(aggregated_metrics \<Rightarrow> 'w \<Rightarrow> unit reply \<times> 'w) \<Rightarrow> 'w metering \<Rightarrow> metering_op list \<Rightarrow>
     'w metering \<Rightarrow> bool" for wr where
  run_Nil: "metering_run wr m [] m"
| run_Cons: "metering_step wr m op m' \<Longrightarrow> metering_run wr m' ops m'' \<Longrightarrow>
    metering_run wr m (op # ops) m''"

inductive_simps metering_step_simps:
  "metering_step wr m (Record e) m'"
  "metering_step wr m Swap m'"
  "metering_step wr m (Write i) m'"
  "metering_step wr m (Finish i) m'"
  "metering_step wr m (Cancel i) m'"

inductive_simps metering_run_simps:
  "metering_run wr m [] m'"
  "metering_run wr m (op # ops) m'"

section \<open>What is accounted for\<close>

text \<open>
  The amounts a billing record is made of, and their share that belongs to one virtual key on
  one day.
\<close>

datatype quantity = Input | Output | Requests | Saved

type_synonym billing_key = "int \<times> int"

fun event_amount :: "quantity \<Rightarrow> metering_event \<Rightarrow> int" where
  "event_amount Input e = usage_get (event_usage e) ''input_tokens''"
| "event_amount Output e = usage_get (event_usage e) ''output_tokens''"
| "event_amount Requests e = 1"
| "event_amount Saved e = me_tokens_saved e"

fun agg_amount :: "quantity \<Rightarrow> aggregated_metrics \<Rightarrow> int" where
  "agg_amount Input a = am_input a"
| "agg_amount Output a = am_output a"
| "agg_amount Requests a = am_requests a"
| "agg_amount Saved a = am_saved a"

fun row_amount :: "quantity \<Rightarrow> token_usage_row \<Rightarrow> int" where
  "row_amount Input r = tu_input r"
| "row_amount Output r = tu_output r"
| "row_amount Requests r = tu_requests r"
| "row_amount Saved r = (case tu_saved r of None \<Rightarrow> 0 | Some n \<Rightarrow> n)"

definition event_share :: "quantity \<Rightarrow> billing_key \<Rightarrow> metering_event \<Rightarrow> int" where
  "event_share q k e = (if k = (me_vkey e, date_of (me_timestamp e)) then event_amount q e else 0)"

definition agg_share :: "quantity \<Rightarrow> billing_key \<Rightarrow> aggregated_metrics \<Rightarrow> int" where
  "agg_share q k a = (if k = (am_vkey a, date_of (am_minute a)) then agg_amount q a else 0)"

definition row_share :: "quantity \<Rightarrow> billing_key \<Rightarrow> token_usage_row \<Rightarrow> int" where
  "row_share q k r = (if tu_vkey r = Some (fst k) \<and> tu_date r = snd k then row_amount q r else 0)"

definition total :: "('a \<Rightarrow> int) \<Rightarrow> 'a list \<Rightarrow> int" where
  "total f xs = sum_list (map f xs)"

definition flight_share :: "quantity \<Rightarrow> billing_key \<Rightarrow> flight \<Rightarrow> int" where
  "flight_share q k f = total (agg_share q k) (fl_todo f) + total (agg_share q k) (fl_failed f)"

definition db_share :: "quantity \<Rightarrow> billing_key \<Rightarrow> usage_db \<Rightarrow> int" where
  "db_share q k db = total (row_share q k) (ud_rows db)"

definition db_keys :: "usage_db \<Rightarrow> bool" where
  "db_keys db \<longleftrightarrow> distinct (map tu_id (ud_rows db))"

text \<open>Everything that was recorded and is somewhere in the system or known to be lost.\<close>

definition ledger ::
    "(quantity \<Rightarrow> billing_key \<Rightarrow> 'w \<Rightarrow> int) \<Rightarrow> quantity \<Rightarrow> billing_key \<Rightarrow> 'w metering \<Rightarrow> int" where
  "ledger share q k m =
     share q k (mb_db m) + total (event_share q k) (mb_buffer m) +
     total (agg_share q k) (mb_pending m) + total (flight_share q k) (mb_flights m) +
     total (agg_share q k) (mb_lost m)"

fun recorded :: "metering_op list \<Rightarrow> metering_event list" where
  "recorded [] = []"
| "recorded (Record e # ops) = e # recorded ops"
| "recorded (_ # ops) = recorded ops"

lemma total_simps [simp]:
  "total f [] = 0" "total f (x # xs) = f x + total f xs" "total f (xs @ ys) = total f xs + total f ys"
  by (simp_all add: total_def)

lemma total_take_drop:
  assumes "i < length xs"
  shows "total f (take i xs @ drop (Suc i) xs) = total f xs - f (xs ! i)"
proof -
  have "total f xs = total f (take i xs @ xs ! i # drop (Suc i) xs)"
    using assms by (simp add: id_take_nth_drop [symmetric])
  then show ?thesis by simp
qed

lemma total_list_update:
  assumes "i < length xs"
  shows "total f (xs[i := x]) = total f xs - f (xs ! i) + f x"
proof -
  have "total f xs = total f (take i xs @ xs ! i # drop (Suc i) xs)"
    using assms by (simp add: id_take_nth_drop [symmetric])
  with assms show ?thesis by (simp add: upd_conv_take_nth_drop)
qed

lemma total_split: "total f (take n xs) + total f (drop n xs) = total f xs"
  by (metis append_take_drop_id total_simps(3))

lemma total_update:
  assumes "distinct (map fst d)" "map_of d k = Some a"
  shows "total f (map snd (AList.update k b d)) = total f (map snd d) - f a + f b"
  using assms by (induction d) (auto split: if_splits dest: map_of_SomeD)

lemma total_update_new:
  "map_of d k = None \<Longrightarrow> total f (map snd (AList.update k b d)) = total f (map snd d) + f b"
  by (induction d) (auto split: if_splits)

lemma date_of_minute_bucket: "date_of (minute_bucket t) = date_of t"
proof -
  have "minute_bucket t = MINUTE * (t div MINUTE)"
    by (simp add: minute_bucket_def minus_mod_eq_mult_div)
  then have "date_of (minute_bucket t) = (t div MINUTE) div 1440"
    by (simp add: date_of_def MINUTE_def)
  also have "\<dots> = date_of t"
    by (simp add: date_of_def MINUTE_def zdiv_zmult2_eq [symmetric])
  finally show ?thesis .
qed

definition agg_key_of :: "aggregated_metrics \<Rightarrow> agg_key" where
  "agg_key_of a = (am_vkey a, am_model a, am_provider a, am_minute a)"

definition keyed :: "(agg_key \<times> aggregated_metrics) list \<Rightarrow> bool" where
  "keyed d \<longleftrightarrow> distinct (map fst d) \<and> (\<forall>k a. map_of d k = Some a \<longrightarrow> agg_key_of a = k)"

lemma add_event_key [simp]: "agg_key_of (add_event a e) = agg_key_of a"
  by (simp add: agg_key_of_def add_event_def)

lemma new_aggregate_key [simp]: "agg_key_of (new_aggregate e) = aggregation_key e"
  by (simp add: agg_key_of_def new_aggregate_def aggregation_key_def)

lemma aggregate_event_keyed: "keyed d \<Longrightarrow> keyed (aggregate_event d e)"
proof -
  assume d: "keyed d"
  let ?a = "case map_of d (aggregation_key e) of None \<Rightarrow> new_aggregate e | Some a \<Rightarrow> a"
  have "agg_key_of ?a = aggregation_key e"
  proof (cases "map_of d (aggregation_key e)")
    case (Some a)
    with d have "agg_key_of a = aggregation_key e" unfolding keyed_def by blast
    with Some show ?thesis by simp
  qed simp
  with d show ?thesis
    by (simp add: keyed_def aggregate_event_def Let_def update_conv' distinct_update
        del: map_of_eq_Some_iff)
qed

lemma add_event_share:
  assumes "agg_key_of a = aggregation_key e"
  shows "agg_share q k (add_event a e) = agg_share q k a + event_share q k e"
  using assms date_of_minute_bucket [of "me_timestamp e"]
  by (cases q) (auto simp: agg_share_def event_share_def add_event_def agg_key_of_def
      aggregation_key_def)

lemma new_aggregate_share [simp]: "agg_share q k (new_aggregate e) = 0"
  by (cases q) (simp_all add: agg_share_def new_aggregate_def)

lemma aggregate_event_share:
  assumes "keyed d"
  shows "total (agg_share q k) (map snd (aggregate_event d e)) =
    total (agg_share q k) (map snd d) + event_share q k e"
proof (cases "map_of d (aggregation_key e)")
  case None
  then show ?thesis
    by (simp add: aggregate_event_def Let_def total_update_new add_event_share)
next
  case (Some a)
  with assms have "agg_key_of a = aggregation_key e" "distinct (map fst d)"
    unfolding keyed_def by blast+
  with Some show ?thesis
    by (simp add: aggregate_event_def Let_def total_update [OF _ Some] add_event_share)
qed

lemma aggregate_events_share:
  "total (agg_share q k) (map snd (aggregate_events es)) = total (event_share q k) es"
proof -
  have "keyed d \<Longrightarrow> total (agg_share q k) (map snd (foldl aggregate_event d es)) =
      total (agg_share q k) (map snd d) + total (event_share q k) es" for d
    by (induction es arbitrary: d) (simp_all add: aggregate_event_keyed aggregate_event_share)
  from this [of "[]"] show ?thesis by (simp add: keyed_def aggregate_events_def)
qed

section \<open>The contract of a writer\<close>

text \<open>
  What the buffer needs of a \<open>UsageWriter\<close>: a write that returns has added the aggregate to the
  records, a write that raises has added nothing.
\<close>

locale usage_writer =
  fixes wr :: "aggregated_metrics \<Rightarrow> 'w \<Rightarrow> unit reply \<times> 'w"
    and share :: "quantity \<Rightarrow> billing_key \<Rightarrow> 'w \<Rightarrow> int"
    and inv :: "'w \<Rightarrow> bool"
  assumes wr_ok: "inv w \<Longrightarrow> wr a w = (Ok u, w') \<Longrightarrow>
      inv w' \<and> share q k w' = share q k w + agg_share q k a"
    and wr_raised: "inv w \<Longrightarrow> wr a w = (Raised, w') \<Longrightarrow>
      inv w' \<and> share q k w' = share q k w"
begin

lemma flush_write_share:
  assumes "inv w" "flush_write wr a failed w = (failed', w')"
  shows "inv w' \<and> share q k w' + total (agg_share q k) failed' =
    share q k w + total (agg_share q k) failed + agg_share q k a"
  using assms wr_ok [OF assms(1), of a] wr_raised [OF assms(1), of a]
  by (cases "wr a w"; cases "fst (wr a w)") (auto simp: flush_write_def)

lemma flush_requeue_ledger: "ledger share q k (flush_requeue failed m) =
    ledger share q k m + total (agg_share q k) failed"
proof (cases "failed = []")
  case True
  then show ?thesis by (simp add: flush_requeue_def)
next
  case False
  let ?p = "mb_pending m @ failed"
  have "total (agg_share q k) (take n ?p) + total (agg_share q k) (drop n ?p) =
      total (agg_share q k) (mb_pending m) + total (agg_share q k) failed" for n
    using total_split [of "agg_share q k" n ?p] by (simp del: take_append drop_append)
  from this [of "length ?p - MAX_PENDING"] False show ?thesis
    by (simp add: flush_requeue_def Let_def ledger_def del: take_append drop_append)
qed

lemma flush_requeue_db [simp]: "mb_db (flush_requeue failed m) = mb_db m"
  by (simp add: flush_requeue_def Let_def)

lemma flush_swap_ledger:
  "flush_swap m = (r, m') \<Longrightarrow> mb_db m' = mb_db m \<and> mb_flights m' = mb_flights m \<and>
     ledger share q k m = ledger share q k m' +
       (case r of None \<Rightarrow> 0 | Some todo \<Rightarrow> total (agg_share q k) todo)"
  by (auto simp: flush_swap_def Let_def ledger_def aggregate_events_share split: if_splits)

lemma step_ledger:
  assumes "metering_step wr m op m'" "inv (mb_db m)"
  shows "inv (mb_db m') \<and>
    ledger share q k m' = ledger share q k m + total (event_share q k) (recorded [op])"
  using assms
proof (cases rule: metering_step.cases)
  case (Record e)
  with assms show ?thesis by (simp add: record_event_def ledger_def)
next
  case Swap_idle
  with assms flush_swap_ledger [OF Swap_idle(2)] show ?thesis by simp
next
  case (Swap todo n)
  then have "ledger share q k m' = ledger share q k n + total (agg_share q k) todo"
    by (simp add: ledger_def flight_share_def)
  with Swap assms flush_swap_ledger [OF Swap(3), of q k] show ?thesis by simp
next
  case (Write i a todo failed failed' w')
  from flush_write_share [OF assms(2) Write(5), of q k] Write(3,4) show ?thesis
    by (simp add: Write(1,2) ledger_def total_list_update flight_share_def)
next
  case (Finish i failed)
  let ?n = "m\<lparr>mb_flights := take i (mb_flights m) @ drop (Suc i) (mb_flights m)\<rparr>"
  have "ledger share q k ?n = ledger share q k m - total (agg_share q k) failed"
    using Finish(3,4) by (simp add: ledger_def total_take_drop flight_share_def
        del: total_simps(3))
  with Finish assms(2) show ?thesis by (simp add: flush_requeue_ledger)
next
  case (Cancel i)
  have "total (flight_share q k) (mb_flights m') =
      total (flight_share q k) (mb_flights m) - flight_share q k (mb_flights m ! i)"
    using Cancel total_take_drop [OF Cancel(3), of "flight_share q k"] by simp
  with Cancel assms(2) show ?thesis by (simp add: ledger_def flight_share_def [of q k "_ ! i"])
qed

lemma run_ledger:
  assumes "metering_run wr m ops m'" "inv (mb_db m)"
  shows "inv (mb_db m') \<and>
    ledger share q k m' = ledger share q k m + total (event_share q k) (recorded ops)"
  using assms
proof (induction rule: metering_run.induct)
  case (run_Nil m)
  then show ?case by simp
next
  case (run_Cons m op m' ops m'')
  have "recorded (op # ops) = recorded [op] @ recorded ops" by (cases op) simp_all
  with run_Cons step_ledger [OF run_Cons(1), of q k] show ?case by simp
qed

end

section \<open>The database writer keeps the contract\<close>

lemma fresh_id_new: "r \<in> set rows \<Longrightarrow> tu_id r < fresh_id rows"
proof -
  have "x \<in> set xs \<Longrightarrow> x \<le> fold max xs b" and "b \<le> fold max xs b" for x b :: nat and xs
  proof (induction xs arbitrary: b)
    case (Cons y ys)
    { case 1
      then show ?case using Cons(1) [of "max y b"] Cons(2) [of "max y b"] by auto }
    { case 2
      show ?case using Cons(2) [of "max y b"] by simp }
  qed simp_all
  from this(1) [of "tu_id r" "map tu_id rows" 0] show "r \<in> set rows \<Longrightarrow> tu_id r < fresh_id rows"
    by (simp add: fresh_id_def less_Suc_eq_le)
qed

lemma db_commit_cases:
  "db_commit rows db = (r, db') \<Longrightarrow>
     (r = Ok () \<and> ud_rows db' = rows \<and> ud_accepts db' = drop 1 (ud_accepts db)) \<or>
     (r = Raised \<and> ud_rows db' = ud_rows db)"
  by (auto simp: db_commit_def split: list.splits if_splits)

lemma total_map_update:
  assumes "distinct (map tu_id rows)" "r \<in> set rows"
  shows "total f (map (\<lambda>x. if tu_id x = tu_id r then r' else x) rows) = total f rows - f r + f r'"
  using assms
proof (induction rows)
  case (Cons x xs)
  show ?case
  proof (cases "x = r")
    case True
    with Cons.prems have "tu_id y \<noteq> tu_id r" if "y \<in> set xs" for y
      using that by (auto simp: image_iff)
    then have "map (\<lambda>x. if tu_id x = tu_id r then r' else x) xs = xs"
      by (intro map_idI) auto
    with True show ?thesis by simp
  next
    case False
    with Cons.prems have "r \<in> set xs" "tu_id x \<noteq> tu_id r" by auto
    with Cons show ?thesis by simp
  qed
qed simp

lemma update_ids:
  assumes "tu_id r' = tu_id r"
  shows "map tu_id (map (\<lambda>x. if tu_id x = tu_id r then r' else x) rows) = map tu_id rows"
  using assms by simp

lemma updated_row_share:
  "same_day a r \<Longrightarrow> row_share q k (updated_row a r d) = row_share q k r + agg_share q k a"
  by (cases q; cases k) (auto simp: row_share_def agg_share_def updated_row_def same_day_def)

lemma inserted_row_share: "row_share q k (inserted_row n a) = agg_share q k a"
  by (cases q; cases k) (auto simp: row_share_def agg_share_def inserted_row_def)

lemma write_ok:
  assumes "db_keys db" "write_aggregated_row a db = (Ok u, db')"
  shows "db_keys db' \<and> db_share q k db' = db_share q k db + agg_share q k a"
proof (cases "List.find (same_day a) (ud_rows db)")
  case None
  let ?rows = "ud_rows db @ [inserted_row (fresh_id (ud_rows db)) a]"
  from None assms(2) have "db_commit ?rows db = (Ok u, db')" by (simp add: write_aggregated_row_def)
  then have "ud_rows db' = ?rows" using db_commit_cases by blast
  moreover have "fresh_id (ud_rows db) \<notin> set (map tu_id (ud_rows db))"
    using fresh_id_new by fastforce
  ultimately show ?thesis using assms(1)
    by (simp add: db_keys_def db_share_def inserted_row_share) (simp add: inserted_row_def)
next
  case (Some r)
  from find_Some_in [OF Some] have r: "r \<in> set (ud_rows db)" "same_day a r" by auto
  from Some assms(2) obtain d where
    "db_commit (map (\<lambda>x. if tu_id x = tu_id r then updated_row a r d else x) (ud_rows db)) db =
      (Ok u, db')"
    by (auto simp: write_aggregated_row_def split: option.splits)
  then have "ud_rows db' =
      map (\<lambda>x. if tu_id x = tu_id r then updated_row a r d else x) (ud_rows db)"
    using db_commit_cases by blast
  moreover have "tu_id (updated_row a r d) = tu_id r" by (simp add: updated_row_def)
  ultimately show ?thesis using assms(1) r
    by (simp only: db_keys_def db_share_def update_ids total_map_update updated_row_share) simp
qed

lemma write_raised:
  assumes "write_aggregated_row a db = (Raised, db')"
  shows "ud_rows db' = ud_rows db"
  using assms db_commit_cases
  by (fastforce simp: write_aggregated_row_def split: option.splits)

interpretation mw: usage_writer write_aggregated_row db_share db_keys
  by unfold_locales (simp_all add: write_ok, simp_all add: db_keys_def db_share_def write_raised)

section \<open>When nothing is lost\<close>

definition held :: "'w metering \<Rightarrow> nat" where
  "held m = length (mb_buffer m) + length (mb_pending m) +
     sum_list (map (\<lambda>f. length (fl_todo f) + length (fl_failed f)) (mb_flights m))"

lemma length_aggregate_events: "length (aggregate_events es) \<le> length es"
proof -
  have up: "length (AList.update k v d) \<le> Suc (length d)" for k v and d :: "('k \<times> 'v) list"
    by (induction d) auto
  have "length (foldl aggregate_event d es) \<le> length d + length es" for d
  proof (induction es arbitrary: d)
    case (Cons e es)
    from Cons [of "aggregate_event d e"] up show ?case
      by (fastforce simp: aggregate_event_def Let_def intro: order_trans)
  qed simp
  from this [of "[]"] show ?thesis by (simp add: aggregate_events_def)
qed

lemma sum_take_drop:
  "i < length xs \<Longrightarrow>
     sum_list (map f (take i xs @ drop (Suc i) xs)) + f (xs ! i) = (sum_list (map f xs) :: nat)"
proof -
  assume "i < length xs"
  then have "sum_list (map f xs) = sum_list (map f (take i xs @ xs ! i # drop (Suc i) xs))"
    by (simp add: id_take_nth_drop [symmetric])
  then show ?thesis by simp
qed

lemma step_held:
  assumes "metering_step wr m op m'" "\<forall>i. op \<noteq> Cancel i" "held m + length (recorded [op]) \<le> MAX_PENDING"
  shows "held m' \<le> held m + length (recorded [op]) \<and> mb_lost m' = mb_lost m"
  using assms
proof (cases rule: metering_step.cases)
  case (Record e)
  then show ?thesis by (simp add: record_event_def held_def)
next
  case Swap_idle
  then show ?thesis by (auto simp: flush_swap_def Let_def held_def split: if_splits)
next
  case (Swap todo n)
  then show ?thesis
    using length_aggregate_events [of "mb_buffer m"]
    by (auto simp: flush_swap_def Let_def held_def split: if_splits)
next
  case (Write i a todo failed failed' w')
  then have "length failed' \<le> Suc (length failed)"
    by (auto simp: flush_write_def split: prod.splits reply.splits)
  define g where "g = (\<lambda>f::flight. length (fl_todo f) + length (fl_failed f))"
  have "sum_list (map g ((mb_flights m)[i := \<lparr>fl_todo = todo, fl_failed = failed'\<rparr>])) \<le>
      sum_list (map g (mb_flights m))"
  proof -
    let ?xs = "mb_flights m" and ?x = "\<lparr>fl_todo = todo, fl_failed = failed'\<rparr>"
    have "sum_list (map g (?xs[i := ?x])) =
        sum_list (map g (take i ?xs @ ?x # drop (Suc i) ?xs))"
      using Write(3) by (simp add: upd_conv_take_nth_drop)
    moreover have "g ?x \<le> g (?xs ! i)"
      using Write(4) \<open>length failed' \<le> Suc (length failed)\<close> by (simp add: g_def)
    ultimately show ?thesis using sum_take_drop [OF Write(3), of g] by simp
  qed
  with Write(1,2) show ?thesis by (simp add: held_def g_def)
next
  case (Finish i failed)
  from Finish(4) sum_take_drop [OF Finish(3), of "\<lambda>f. length (fl_todo f) + length (fl_failed f)"]
  have h: "held m = held (m\<lparr>mb_flights := take i (mb_flights m) @ drop (Suc i) (mb_flights m)\<rparr>) +
      length failed"
    by (simp add: held_def)
  with assms(3) Finish(2) have "length (mb_pending m) + length failed \<le> MAX_PENDING"
    by (simp add: held_def)
  with h Finish(1,2) show ?thesis
    by (simp add: flush_requeue_def Let_def held_def)
next
  case (Cancel i)
  with assms(2) show ?thesis by simp
qed

lemma run_held:
  assumes "metering_run wr m ops m'" "\<forall>i. Cancel i \<notin> set ops"
    "held m + length (recorded ops) \<le> MAX_PENDING"
  shows "mb_lost m' = mb_lost m"
  using assms
proof (induction rule: metering_run.induct)
  case (run_Nil m)
  then show ?case by simp
next
  case (run_Cons m op m' ops m'')
  have r: "length (recorded (op # ops)) = length (recorded [op]) + length (recorded ops)"
    by (cases op) simp_all
  from run_Cons.prems r have op: "\<forall>i. op \<noteq> Cancel i" "held m + length (recorded [op]) \<le> MAX_PENDING"
    by auto
  from step_held [OF run_Cons(1) op] run_Cons.prems r run_Cons.IH show ?case by simp
qed

section \<open>A flush that nothing interrupts\<close>

definition wf_entry :: "json \<Rightarrow> bool" where
  "wf_entry j = (case j of
     JDict m \<Rightarrow> (case (map_of m ''input'', map_of m ''output'') of
       (Some (JInt i), Some (JInt x)) \<Rightarrow> True | _ \<Rightarrow> False)
   | _ \<Rightarrow> False)"

definition wf_row :: "token_usage_row \<Rightarrow> bool" where
  "wf_row r = (case load_breakdown (tu_llm_tokens r) of
     None \<Rightarrow> False | Some d \<Rightarrow> list_all (\<lambda>(k, j). wf_entry j) d)"

text \<open>A database that accepts every statement and whose breakdowns are as the writer writes them.\<close>

definition db_sound :: "usage_db \<Rightarrow> bool" where
  "db_sound db \<longleftrightarrow> db_keys db \<and> ud_accepts db = [] \<and> list_all wf_row (ud_rows db)"

lemma wf_entryE:
  assumes "wf_entry j"
  obtains m i x where "j = JDict m" "map_of m ''input'' = Some (JInt i)"
    "map_of m ''output'' = Some (JInt x)"
  using assms by (cases j) (auto simp: wf_entry_def split: option.splits json.splits)

lemma update_set: "x \<in> set (AList.update k v d) \<Longrightarrow> x = (k, v) \<or> x \<in> set d"
  by (induction d) (auto split: if_splits)

lemma merge_breakdown_sound:
  assumes "list_all (\<lambda>(k, j). wf_entry j) d"
  shows "\<exists>d'. merge_breakdown d k i x = Some d' \<and> list_all (\<lambda>(k, j). wf_entry j) d'"
proof -
  define d1 where "d1 = (if map_of d k = None
    then AList.update k (JDict [(''input'', JInt 0), (''output'', JInt 0)]) d else d)"
  have d1: "list_all (\<lambda>(k, j). wf_entry j) d1"
    using assms by (auto simp: d1_def list_all_iff wf_entry_def dest!: update_set)
  obtain j where j: "map_of d1 k = Some j"
    by (cases "map_of d k") (simp_all add: d1_def update_conv')
  with d1 have "wf_entry j" by (auto simp: list_all_iff dest: map_of_SomeD)
  then obtain m a b where m: "j = JDict m" "map_of m ''input'' = Some (JInt a)"
    "map_of m ''output'' = Some (JInt b)" by (rule wf_entryE)
  define m' where "m' = AList.update ''output'' (JInt (b + x)) (AList.update ''input'' (JInt (a + i)) m)"
  have "merge_breakdown d k i x = Some (AList.update k (JDict m') d1)"
    using j m by (simp add: merge_breakdown_def d1_def [symmetric] json_add_def update_conv' m'_def)
  moreover have "wf_entry (JDict m')" by (simp add: wf_entry_def m'_def update_conv')
  ultimately show ?thesis using d1 by (auto simp: list_all_iff dest!: update_set)
qed

lemma write_sound:
  assumes "db_sound db"
  shows "\<exists>db'. write_aggregated_row a db = (Ok (), db') \<and> db_sound db'"
proof (cases "List.find (same_day a) (ud_rows db)")
  case None
  with assms have w: "write_aggregated_row a db = (Ok (),
      db\<lparr>ud_rows := ud_rows db @ [inserted_row (fresh_id (ud_rows db)) a]\<rparr>)"
    by (simp add: write_aggregated_row_def db_commit_def db_sound_def)
  have "wf_row (inserted_row (fresh_id (ud_rows db)) a)"
    by (simp add: wf_row_def inserted_row_def load_breakdown_def json_dumps_def wf_entry_def)
  with w assms write_ok [of db a "()"] show ?thesis by (simp add: db_sound_def)
next
  case (Some r)
  from find_Some_in [OF Some] assms have "wf_row r" by (auto simp: db_sound_def list_all_iff)
  then obtain d where d: "load_breakdown (tu_llm_tokens r) = Some d"
    "list_all (\<lambda>(k, j). wf_entry j) d" by (auto simp: wf_row_def split: option.splits)
  from merge_breakdown_sound [OF d(2), of "model_key a" "am_input a" "am_output a"]
  obtain d' where d': "merge_breakdown d (model_key a) (am_input a) (am_output a) = Some d'"
    "list_all (\<lambda>(k, j). wf_entry j) d'" by blast
  let ?rows = "map (\<lambda>x. if tu_id x = tu_id r then updated_row a r d' else x) (ud_rows db)"
  from Some d d' assms have w: "write_aggregated_row a db = (Ok (), db\<lparr>ud_rows := ?rows\<rparr>)"
    by (simp add: write_aggregated_row_def db_commit_def db_sound_def)
  have "wf_row (updated_row a r d')"
    using d' by (simp add: wf_row_def updated_row_def load_breakdown_def json_dumps_def)
  with w assms write_ok [of db a "()"] show ?thesis
    by (auto simp: db_sound_def list_all_iff)
qed

lemma flush_loop_sound:
  assumes "db_sound db"
  shows "\<exists>db'. flush_loop write_aggregated_row todo [] db = ([], db') \<and> db_sound db' \<and>
    (\<forall>q k. db_share q k db' = db_share q k db + total (agg_share q k) todo)"
  using assms
proof (induction todo arbitrary: db)
  case Nil
  then show ?case by simp
next
  case (Cons a todo)
  from write_sound [OF Cons.prems] obtain db1 where
    w: "write_aggregated_row a db = (Ok (), db1)" "db_sound db1" by blast
  from Cons.prems write_ok [OF _ w(1)] have "db_share q k db1 = db_share q k db + agg_share q k a"
    for q k by (simp add: db_sound_def)
  with Cons.IH [OF w(2)] w(1) show ?case by (fastforce simp: flush_write_def)
qed

section \<open>Properties\<close>

text \<open>
  C27. Metering conserves usage: after any interleaving of recorded events, flushes, failed
  writes, retries and cancellations, what the database holds for a virtual key and a day, plus
  what is buffered, queued, in flight or lost, is what it held before plus what was recorded
  for them; and without a cancellation, and with at most 1000 events, nothing is lost.
\<close>

theorem metering_conserves:
  assumes "metering_run write_aggregated_row (metering_init db) ops m" and "db_keys db"
  shows "db_share q k (mb_db m) + total (event_share q k) (mb_buffer m) +
      total (agg_share q k) (mb_pending m) + total (flight_share q k) (mb_flights m) +
      total (agg_share q k) (mb_lost m) =
    db_share q k db + total (event_share q k) (recorded ops) \<and>
    ((\<forall>i. Cancel i \<notin> set ops) \<and> length (recorded ops) \<le> MAX_PENDING \<longrightarrow> mb_lost m = [])"
proof -
  have "db_keys (mb_db (metering_init db))" using assms(2) by (simp add: metering_init_def)
  from mw.run_ledger [OF assms(1) this, of q k]
  have "ledger db_share q k m = db_share q k db + total (event_share q k) (recorded ops)"
    by (simp add: ledger_def metering_init_def)
  moreover from run_held [OF assms(1)]
  have "(\<forall>i. Cancel i \<notin> set ops) \<and> length (recorded ops) \<le> MAX_PENDING \<longrightarrow> mb_lost m = []"
    by (simp add: held_def metering_init_def)
  ultimately show ?thesis by (simp add: ledger_def)
qed

definition demo_event :: "(string \<times> int) list option \<Rightarrow> int \<Rightarrow> metering_event" where
  "demo_event u t = \<lparr>me_vkey = 7, me_model = ''gpt-4'', me_provider = ''openai'', me_usage = u,
     me_timestamp = t, me_estimated = False, me_cache_status = None, me_tokens_saved = 0\<rparr>"

theorem metering_conserves_witness:
  "\<exists>m. metering_run write_aggregated_row (metering_init \<lparr>ud_rows = [], ud_accepts = [False]\<rparr>)
      [Record (demo_event (Some [(''input_tokens'', 5)]) 3), Swap, Record (demo_event None 9),
       Write 0, Finish 0] m \<and>
    db_share Input (7, 0) (mb_db m) + total (event_share Input (7, 0)) (mb_buffer m) +
      total (agg_share Input (7, 0)) (mb_pending m) +
      total (flight_share Input (7, 0)) (mb_flights m) = 6 \<and> mb_lost m = []"
proof -
  let ?ops = "[Record (demo_event (Some [(''input_tokens'', 5)]) 3), Swap,
    Record (demo_event None 9), Write 0, Finish 0]"
  let ?db = "\<lparr>ud_rows = [], ud_accepts = [False]\<rparr>"
  have "\<exists>m. metering_run write_aggregated_row (metering_init ?db) ?ops m"
    by (simp add: metering_run_simps metering_step_simps metering_init_def record_event_def
        flush_swap_def aggregate_events_def aggregate_event_def flush_write_def
        write_aggregated_row_def db_commit_def)
  then obtain m where m: "metering_run write_aggregated_row (metering_init ?db) ?ops m" by blast
  have "total (event_share Input (7, 0)) (recorded ?ops) = 6"
    by (simp add: event_share_def demo_event_def date_of_def MINUTE_def event_usage_def
        reported_def usage_get_def estimate_tokens_def)
  with m metering_conserves [OF m, of Input "(7, 0)"] show ?thesis
    by (intro exI [of _ m]) (auto simp: db_keys_def db_share_def MAX_PENDING_def)
qed

text \<open>
  A flush that runs to its end against a database that accepts its writes leaves nothing
  behind: the buffer and the retry queue are empty and every virtual key and day has been
  credited with exactly what was buffered and queued for it.
\<close>

theorem flush_settles:
  assumes "db_sound (mb_db m)" and "flush write_aggregated_row m = m'"
  shows "mb_buffer m' = [] \<and> mb_pending m' = [] \<and> mb_lost m' = mb_lost m \<and> db_sound (mb_db m') \<and>
    db_share q k (mb_db m') = db_share q k (mb_db m) +
      total (event_share q k) (mb_buffer m) + total (agg_share q k) (mb_pending m)"
proof (cases "mb_buffer m = [] \<and> mb_pending m = []")
  case True
  with assms show ?thesis by (auto simp: flush_def flush_swap_def)
next
  case False
  let ?todo = "mb_pending m @ map snd (aggregate_events (mb_buffer m))"
  from flush_loop_sound [OF assms(1), of ?todo] obtain db' where
    "flush_loop write_aggregated_row ?todo [] (mb_db m) = ([], db')" "db_sound db'"
    "db_share q k db' = db_share q k (mb_db m) + total (agg_share q k) ?todo" by blast
  with False assms(2) show ?thesis
    by (auto simp: flush_def flush_swap_def flush_requeue_def aggregate_events_share)
qed

theorem flush_settles_witness:
  "db_share Output (7, 0)
     (mb_db (flush write_aggregated_row
       ((metering_init \<lparr>ud_rows = [], ud_accepts = []\<rparr>)\<lparr>mb_buffer := [demo_event None 9]\<rparr>))) = 1"
proof -
  let ?m = "(metering_init \<lparr>ud_rows = [], ud_accepts = []\<rparr>)\<lparr>mb_buffer := [demo_event None 9]\<rparr>"
  have "db_sound (mb_db ?m)" by (simp add: db_sound_def db_keys_def metering_init_def)
  from flush_settles [OF this refl, of Output "(7, 0)"] show ?thesis
    by (simp add: metering_init_def db_share_def event_share_def demo_event_def date_of_def
        MINUTE_def event_usage_def reported_def usage_get_def estimate_tokens_def)
qed

text \<open>
  A shutdown that times out loses usage: when \<open>stop\<close> cancels a flush that has swapped the
  buffer out, the events it held are in neither the buffer nor the retry queue, so the final
  flush of \<open>stop\<close> writes none of them.
\<close>

theorem stop_timeout_loses:
  assumes "flush_swap m = (Some todo, m1)"
  shows "\<exists>m2. metering_run write_aggregated_row m [Swap, Cancel (length (mb_flights m))] m2 \<and>
    mb_flights m2 = mb_flights m \<and> mb_lost m2 = mb_lost m @ todo \<and>
    flush write_aggregated_row m2 = m2 \<and> mb_db m2 = mb_db m"
proof -
  from assms have m1: "m1 = m\<lparr>mb_buffer := [], mb_pending := []\<rparr>"
    by (auto simp: flush_swap_def Let_def split: if_splits)
  let ?m2 = "m1\<lparr>mb_lost := mb_lost m @ todo\<rparr>"
  have "metering_step write_aggregated_row
      (m1\<lparr>mb_flights := mb_flights m1 @ [\<lparr>fl_todo = todo, fl_failed = []\<rparr>]\<rparr>)
      (Cancel (length (mb_flights m))) ?m2"
    using m1 by (simp add: metering_step_simps)
  then have "metering_run write_aggregated_row m [Swap, Cancel (length (mb_flights m))] ?m2"
    using metering_step.Swap [OF assms] by (simp only: metering_run_simps) blast
  moreover have "flush write_aggregated_row ?m2 = ?m2"
    using m1 by (simp add: flush_def flush_swap_def)
  ultimately show ?thesis using m1 by (intro exI [of _ ?m2]) simp
qed

theorem stop_timeout_loses_witness:
  "\<exists>m2. metering_run write_aggregated_row
      ((metering_init \<lparr>ud_rows = [], ud_accepts = []\<rparr>)\<lparr>mb_buffer := [demo_event None 9]\<rparr>)
      [Swap, Cancel 0] m2 \<and> ud_rows (mb_db (flush write_aggregated_row m2)) = [] \<and>
    length (mb_lost m2) = 1"
proof -
  let ?m = "(metering_init \<lparr>ud_rows = [], ud_accepts = []\<rparr>)\<lparr>mb_buffer := [demo_event None 9]\<rparr>"
  have "flush_swap ?m = (Some (map snd (aggregate_events [demo_event None 9])),
      ?m\<lparr>mb_buffer := [], mb_pending := []\<rparr>)"
    by (simp add: flush_swap_def metering_init_def)
  from stop_timeout_loses [OF this] show ?thesis
    by (auto simp: metering_init_def aggregate_events_def aggregate_event_def)
qed

end
