(* ===== verification/Layers.thy ===== *)
theory Layers
  imports Valkey
begin

text \<open>
  What the scoped resolvers of the security and cache packages share: a configuration merged
  field by field along a chain of scopes (a NULL column inherits, a value overrides), rows of
  one scope, and the invalidation of every cached resolution under a key prefix.
\<close>

section \<open>Merging field by field\<close>

text \<open>The value the most specific row sets, \<open>rows\<close> going from general to specific.\<close>

definition most_specific :: "('r \<Rightarrow> 'a option) \<Rightarrow> 'r list \<Rightarrow> 'a \<Rightarrow> 'a" where
  "most_specific col rows dflt =
     (case List.find (\<lambda>r. col r \<noteq> None) (rev rows) of None \<Rightarrow> dflt | Some r \<Rightarrow> the (col r))"

lemma most_specific_Nil [simp]: "most_specific col [] d = d"
  by (simp add: most_specific_def)

lemma most_specific_snoc [simp]:
  "most_specific col (rows @ [r]) d =
     (case col r of None \<Rightarrow> most_specific col rows d | Some v \<Rightarrow> v)"
  by (simp add: most_specific_def split: option.split)

lemma most_specific_mem:
  "most_specific col rows d = d \<or> (\<exists>r\<in>set rows. col r = Some (most_specific col rows d))"
proof (induction rows rule: rev_induct)
  case Nil
  then show ?case by simp
next
  case (snoc r rows)
  then show ?case by (cases "col r") auto
qed

text \<open>
  The contract of a merged configuration \<open>'c\<close> and its rows \<open>'r\<close>, for one field: applying a
  row as one more layer replaces the field by the row's value, if it has one. Then the fold
  over the chain gives the value of the most specific row that sets it.
\<close>

locale layered_field =
  fixes layer :: "'c \<Rightarrow> 'r \<Rightarrow> 'c" and get :: "'c \<Rightarrow> 'a" and col :: "'r \<Rightarrow> 'a option"
  assumes get_layer: "get (layer c r) = (case col r of None \<Rightarrow> get c | Some v \<Rightarrow> v)"
begin

lemma get_foldl: "get (foldl layer c rows) = most_specific col rows (get c)"
  by (induction rows rule: rev_induct) (simp_all add: get_layer split: option.split)

lemma get_foldl_untouched: "\<forall>r\<in>set rows. col r = None \<Longrightarrow> get (foldl layer c rows) = get c"
  by (induction rows rule: rev_induct) (simp_all add: get_layer)

lemma get_foldl_last: "col r = Some v \<Longrightarrow> get (foldl layer c (rows @ [r])) = v"
  by (simp add: get_layer)

end

section \<open>Invalidation by prefix\<close>

definition invalidate_prefix ::
    "'s valkey option \<Rightarrow> (int \<Rightarrow> 's \<Rightarrow> string \<Rightarrow> string list reply) \<Rightarrow> int \<Rightarrow> 's \<Rightarrow> string \<Rightarrow> 's" where
  "invalidate_prefix vk scan t s pfx =
     (case vk of None \<Rightarrow> s
      | Some c \<Rightarrow>
         (case scan t s pfx of
            Raised \<Rightarrow> s
          | Ok keys \<Rightarrow>
              if keys = [] then s
              else case vk_del c t s keys of Raised \<Rightarrow> s | Ok s' \<Rightarrow> s'))"

text \<open>
  SCAN with a prefix pattern reports every key of the prefix that still has a value, and a
  key without a value has none later on unless it is written.
\<close>

definition scan_laws ::
    "'s valkey \<Rightarrow> (int \<Rightarrow> 's \<Rightarrow> string \<Rightarrow> string list reply) \<Rightarrow> bool" where
  "scan_laws c scan \<longleftrightarrow>
     (\<forall>t s pfx keys k t'. scan t s pfx = Ok keys \<longrightarrow> startswith pfx k \<longrightarrow> k \<notin> set keys \<longrightarrow> t \<le> t' \<longrightarrow>
        vk_get c t' s k = Ok None)"

lemma get_after_invalidate_prefix:
  assumes "valkey_laws c" "valkey_up c" "scan_laws c scan" "scan t s pfx = Ok keys"
    and "startswith pfx k" "t \<le> t'"
  shows "vk_get c t' (invalidate_prefix (Some c) scan t s pfx) k = Ok None"
proof (cases "keys = []")
  case True
  with assms show ?thesis by (auto simp: invalidate_prefix_def scan_laws_def)
next
  case False
  obtain s' where s': "vk_del c t s keys = Ok s'" using valkey_up_del [OF assms(2)] by blast
  have "vk_get c t' s k = Ok None" if "k \<notin> set keys"
    using that assms(3-6) by (auto simp: scan_laws_def)
  with valkey_get_del [OF assms(1) s' assms(6), of k] False s' assms(4) show ?thesis
    by (auto simp: invalidate_prefix_def)
qed

text \<open>An instance with a scan, over a list of entries, for the witnesses.\<close>

type_synonym entries = "(string \<times> (blob \<times> int option)) list"

definition list_valkey :: "entries valkey" where
  "list_valkey = \<lparr>vk_get = (\<lambda>t s. mem_get t (map_of s)),
     vk_set = (\<lambda>t s k v ex. Ok ((k, (v, map_option (\<lambda>n. t + seconds n) ex)) # s)),
     vk_del = (\<lambda>t s ks. Ok (filter (\<lambda>e. fst e \<notin> set ks) s))\<rparr>"

definition list_scan :: "int \<Rightarrow> entries \<Rightarrow> string \<Rightarrow> string list reply" where
  "list_scan t s pfx = Ok (filter (startswith pfx) (map fst s))"

lemma map_of_filter_keys:
  "map_of (filter (\<lambda>e. fst e \<notin> K) s) k = (if k \<in> K then None else map_of s k)"
  by (induction s) auto

lemma list_valkey_laws: "valkey_laws list_valkey"
  by (auto simp: valkey_laws_def list_valkey_def mem_get_def expired_def map_of_filter_keys
      split: option.splits)

lemma list_valkey_up: "valkey_up list_valkey"
  by (simp add: valkey_up_def list_valkey_def)

lemma list_scan_laws: "scan_laws list_valkey list_scan"
proof -
  have "map_of s k = None" if "k \<notin> set (filter (startswith pfx) (map fst s))" "startswith pfx k"
    for s :: entries and pfx k
    using that by (auto simp: map_of_eq_None_iff)
  then show ?thesis
    by (fastforce simp: scan_laws_def list_scan_def list_valkey_def mem_get_def)
qed

section \<open>Rows of a scope\<close>

text \<open>\<open>scope_type\<close> and \<open>scope_ref\<close> are equal; NULL only equals NULL (\<open>IS NULL\<close>).\<close>

definition scope_ref_of :: "int option \<Rightarrow> string option" where
  "scope_ref_of org = map_option str_int org"

definition org_scope_chain :: "int option \<Rightarrow> (string \<times> string option) list" where
  "org_scope_chain org =
     (''global'', None) # (case org of None \<Rightarrow> [] | Some i \<Rightarrow> [(''org'', Some (str_int i))])"

lemma org_scope_chain_org:
  "(''org'', ref) \<in> set (org_scope_chain org) \<longleftrightarrow> (\<exists>i. org = Some i \<and> ref = Some (str_int i))"
  by (auto simp: org_scope_chain_def split: option.splits)

text \<open>The text an identifier has in a cache key: \<open>None\<close> is rendered too.\<close>

definition ref_text :: "int option \<Rightarrow> string" where
  "ref_text org = (case org of None \<Rightarrow> ''None'' | Some i \<Rightarrow> str_int i)"

lemma ref_text_inj: "ref_text a = ref_text b \<Longrightarrow> a = b"
proof -
  have n: "str_int i \<noteq> ''None''" for i
  proof
    assume "str_int i = ''None''"
    then have "int_of_str ''None'' = Inr i" by (metis int_of_str_str_int)
    moreover have "int_of_str ''None'' = Inl ValueError" by code_simp
    ultimately show False by simp
  qed
  assume "ref_text a = ref_text b"
  then show ?thesis
    using n n [symmetric] by (cases a; cases b) (auto simp: ref_text_def dest: str_int_inj)
qed

lemma ref_text_no_colon: "CHR '':'' \<notin> set (ref_text a)"
  by (cases a) (simp_all add: ref_text_def str_int_no_colon)

end
