(* ===== verification/CacheConfig.thy ===== *)
theory CacheConfig
  imports Script Layers
begin

text \<open>
  The response cache's configuration (\<open>shared/cache/config.py\<close>: one Valkey entry per scope,
  negative entries included, merged field by field at key > org > global precedence) and the
  session affinity map (\<open>shared/cache/affinity.py\<close>).
\<close>

section \<open>Rows and the merged configuration\<close>

type_synonym scope = "string \<times> string option"

record cache_row =
  ro_scope_type :: string
  ro_scope_ref :: "string option"
  ro_exact_enabled :: "bool option"
  ro_semantic_enabled :: "bool option"
  ro_semantic_threshold :: "rat option"
  ro_ttl_seconds :: "int option"
  ro_max_entry_kb :: "int option"
  ro_anthropic_cache_control :: "bool option"

record cache_config =
  cc_exact_enabled :: bool
  cc_semantic_enabled :: bool
  cc_semantic_threshold :: rat
  cc_ttl_seconds :: int
  cc_max_entry_kb :: int
  cc_anthropic_cache_control :: bool

definition HARD_DEFAULTS :: cache_config where
  "HARD_DEFAULTS = \<lparr>cc_exact_enabled = True, cc_semantic_enabled = False,
     cc_semantic_threshold = 95 / 100, cc_ttl_seconds = 86400, cc_max_entry_kb = 256,
     cc_anthropic_cache_control = True\<rparr>"

definition DEFAULT_SCOPE_TTL_SECONDS :: nat where
  "DEFAULT_SCOPE_TTL_SECONDS = 30"

definition over :: "'a option \<Rightarrow> 'a \<Rightarrow> 'a" where
  "over v a = (case v of None \<Rightarrow> a | Some b \<Rightarrow> b)"

definition merge_row :: "cache_config \<Rightarrow> cache_row \<Rightarrow> cache_config" where
  "merge_row c r = \<lparr>
     cc_exact_enabled = over (ro_exact_enabled r) (cc_exact_enabled c),
     cc_semantic_enabled = over (ro_semantic_enabled r) (cc_semantic_enabled c),
     cc_semantic_threshold = over (ro_semantic_threshold r) (cc_semantic_threshold c),
     cc_ttl_seconds = over (ro_ttl_seconds r) (cc_ttl_seconds c),
     cc_max_entry_kb = over (ro_max_entry_kb r) (cc_max_entry_kb c),
     cc_anthropic_cache_control =
       over (ro_anthropic_cache_control r) (cc_anthropic_cache_control c)\<rparr>"

definition merge :: "cache_row option list \<Rightarrow> cache_config" where
  "merge rows = foldl merge_row HARD_DEFAULTS (List.map_filter id rows)"

definition row_enc :: "cache_row \<Rightarrow> json" where
  "row_enc r = JDict [
     (''scope_type'', JStr (ro_scope_type r)),
     (''scope_ref'', of_opt JStr (ro_scope_ref r)),
     (''exact_enabled'', of_opt JBool (ro_exact_enabled r)),
     (''semantic_enabled'', of_opt JBool (ro_semantic_enabled r)),
     (''semantic_threshold'', of_opt JFloat (ro_semantic_threshold r)),
     (''ttl_seconds'', of_opt JInt (ro_ttl_seconds r)),
     (''max_entry_kb'', of_opt JInt (ro_max_entry_kb r)),
     (''anthropic_cache_control'', of_opt JBool (ro_anthropic_cache_control r))]"

text \<open>\<open>orjson.dumps(row)\<close>, with \<open>null\<close> for the absence of a row.\<close>

definition entry_enc :: "cache_row option \<Rightarrow> json" where
  "entry_enc r = (case r of None \<Rightarrow> JNull | Some x \<Rightarrow> row_enc x)"

definition row_dec :: "dict \<Rightarrow> cache_row option" where
  "row_dec d =
     (case kwarg_req d ''scope_type'' as_str of None \<Rightarrow> None | Some a \<Rightarrow>
      case kwarg d ''scope_ref'' (as_opt as_str) None of None \<Rightarrow> None | Some b \<Rightarrow>
      case kwarg d ''exact_enabled'' (as_opt as_bool) None of None \<Rightarrow> None | Some e \<Rightarrow>
      case kwarg d ''semantic_enabled'' (as_opt as_bool) None of None \<Rightarrow> None | Some f \<Rightarrow>
      case kwarg d ''semantic_threshold'' (as_opt as_rat) None of None \<Rightarrow> None | Some g \<Rightarrow>
      case kwarg d ''ttl_seconds'' (as_opt as_int) None of None \<Rightarrow> None | Some h \<Rightarrow>
      case kwarg d ''max_entry_kb'' (as_opt as_int) None of None \<Rightarrow> None | Some i \<Rightarrow>
      case kwarg d ''anthropic_cache_control'' (as_opt as_bool) None of None \<Rightarrow> None | Some j \<Rightarrow>
      Some \<lparr>ro_scope_type = a, ro_scope_ref = b, ro_exact_enabled = e, ro_semantic_enabled = f,
        ro_semantic_threshold = g, ro_ttl_seconds = h, ro_max_entry_kb = i,
        ro_anthropic_cache_control = j\<rparr>)"

definition entry_dec :: "json \<Rightarrow> cache_row option option" where
  "entry_dec j = (case j of
     JNull \<Rightarrow> Some None | JDict d \<Rightarrow> map_option Some (row_dec d) | _ \<Rightarrow> None)"

lemma of_opt_dec [simp]:
  "as_opt as_bool (of_opt JBool b) = Some b" "as_opt as_rat (of_opt JFloat r) = Some r"
  by (cases b; simp add: of_opt_def) (cases r; simp add: of_opt_def)

interpretation entry_codec: json_codec entry_enc entry_dec
proof
  show "entry_dec (entry_enc r) = Some r" for r
    by (cases r) (simp_all add: entry_enc_def entry_dec_def row_enc_def row_dec_def kw_simps)
qed

section \<open>Resolution\<close>

definition scope_cache_key :: "scope \<Rightarrow> string" where
  "scope_cache_key sc =
     ''waddleai:cache:cfg:'' @ fst sc @ '':'' @ (case snd sc of None \<Rightarrow> ''-'' | Some r \<Rightarrow> r)"

definition scopes :: "int \<Rightarrow> int option \<Rightarrow> scope list" where
  "scopes org vkey =
     [(''global'', None), (''org'', Some (str_int org))] @
     (case vkey of None \<Rightarrow> [] | Some k \<Rightarrow> [(''key'', Some (str_int k))])"

definition fetch_rows :: "cache_row list \<Rightarrow> int \<Rightarrow> int option \<Rightarrow> cache_row list" where
  "fetch_rows db org vkey = filter (\<lambda>r.
     ro_scope_type r = ''global'' \<or>
     ro_scope_type r = ''org'' \<and> ro_scope_ref r = Some (str_int org) \<or>
     (case vkey of None \<Rightarrow> False
      | Some k \<Rightarrow> ro_scope_type r = ''key'' \<and> ro_scope_ref r = Some (str_int k))) db"

text \<open>The dict comprehension: of two rows of one scope the later wins.\<close>

definition by_scope :: "cache_row list \<Rightarrow> scope \<Rightarrow> cache_row option" where
  "by_scope rows = map_of (rev (map (\<lambda>r. ((ro_scope_type r, ro_scope_ref r), r)) rows))"

text \<open>
  The first loop of \<open>resolve\<close>: what the cache has for each scope, \<open>None\<close> for a missing entry.
  An entry that is not JSON, or not a document this code wrote, raises.
\<close>

fun read_scopes ::
    "'s valkey \<Rightarrow> int \<Rightarrow> scope list \<Rightarrow> ('s, (scope \<times> cache_row option option) list) script" where
  "read_scopes c t [] = sret []"
| "read_scopes c t (sc # scs) =
     sbind (query (\<lambda>s. vk_get c t s (scope_cache_key sc))) (\<lambda>cached.
       case cached of
         None \<Rightarrow> sbind (read_scopes c t scs) (\<lambda>rest. sret ((sc, None) # rest))
       | Some b \<Rightarrow>
           (case Option.bind (json_loads b) entry_dec of
              None \<Rightarrow> sraise
            | Some r \<Rightarrow> sbind (read_scopes c t scs) (\<lambda>rest. sret ((sc, Some r) # rest))))"

text \<open>The second loop: the missing entries are written, whether or not there is a row.\<close>

fun fill_missing ::
    "'s valkey \<Rightarrow> int \<Rightarrow> nat \<Rightarrow> (scope \<Rightarrow> cache_row option) \<Rightarrow>
     (scope \<times> cache_row option option) list \<Rightarrow> ('s, cache_row option list) script" where
  "fill_missing c t ttl fetched [] = sret []"
| "fill_missing c t ttl fetched ((sc, Some r) # es) =
     sbind (fill_missing c t ttl fetched es) (\<lambda>rest. sret (r # rest))"
| "fill_missing c t ttl fetched ((sc, None) # es) =
     sbind (command (\<lambda>s. vk_set c t s (scope_cache_key sc)
              (json_dumps (entry_enc (fetched sc))) (Some ttl))) (\<lambda>_.
     sbind (fill_missing c t ttl fetched es) (\<lambda>rest. sret (fetched sc # rest)))"

definition resolve ::
    "'s valkey \<Rightarrow> cache_row list \<Rightarrow> nat \<Rightarrow> int \<Rightarrow> int \<Rightarrow> int option \<Rightarrow> ('s, cache_config) script" where
  "resolve c db ttl t org vkey =
     sbind (read_scopes c t (scopes org vkey)) (\<lambda>es.
     sbind (fill_missing c t ttl (by_scope (fetch_rows db org vkey)) es) (\<lambda>rows.
     sret (merge rows)))"

definition invalidate :: "'s valkey \<Rightarrow> int \<Rightarrow> scope \<Rightarrow> ('s, unit) script" where
  "invalidate c t sc = command (\<lambda>s. vk_del c t s [scope_cache_key sc])"

section \<open>Affinity\<close>

definition AFFINITY_TTL_SECONDS :: nat where
  "AFFINITY_TTL_SECONDS = 1800"

definition affinity_key :: "int \<Rightarrow> string \<Rightarrow> string" where
  "affinity_key org h = ''waddleai:affinity:'' @ str_int org @ '':'' @ h"

definition affinity_record ::
    "'s valkey \<Rightarrow> nat \<Rightarrow> int \<Rightarrow> int \<Rightarrow> string \<Rightarrow> blob \<Rightarrow> ('s, unit) script" where
  "affinity_record c ttl t org h backend =
     command (\<lambda>s. vk_set c t s (affinity_key org h) backend (Some ttl))"

definition affinity_lookup ::
    "'s valkey \<Rightarrow> nat \<Rightarrow> int \<Rightarrow> int \<Rightarrow> string \<Rightarrow> ('s, blob option) script" where
  "affinity_lookup c ttl t org h =
     sbind (query (\<lambda>s. vk_get c t s (affinity_key org h))) (\<lambda>raw.
       case raw of
         None \<Rightarrow> sret None
       | Some backend \<Rightarrow>
           sbind (command (\<lambda>s. vk_set c t s (affinity_key org h) backend (Some ttl)))
             (\<lambda>_. sret (Some backend)))"

section \<open>Precedence\<close>

interpretation exact_field: layered_field merge_row cc_exact_enabled ro_exact_enabled
  by unfold_locales (simp add: merge_row_def over_def)

interpretation semantic_field: layered_field merge_row cc_semantic_enabled ro_semantic_enabled
  by unfold_locales (simp add: merge_row_def over_def)

interpretation threshold_field:
    layered_field merge_row cc_semantic_threshold ro_semantic_threshold
  by unfold_locales (simp add: merge_row_def over_def)

interpretation ttl_field: layered_field merge_row cc_ttl_seconds ro_ttl_seconds
  by unfold_locales (simp add: merge_row_def over_def)

interpretation entry_kb_field: layered_field merge_row cc_max_entry_kb ro_max_entry_kb
  by unfold_locales (simp add: merge_row_def over_def)

interpretation control_field:
    layered_field merge_row cc_anthropic_cache_control ro_anthropic_cache_control
  by unfold_locales (simp add: merge_row_def over_def)

lemmas field_merges = exact_field.get_foldl semantic_field.get_foldl threshold_field.get_foldl
  ttl_field.get_foldl entry_kb_field.get_foldl control_field.get_foldl

section \<open>The cached resolution as a read-through map\<close>

text \<open>What the cache holds for a scope, and the row the resolution uses for it.\<close>

definition cfg_view :: "'s valkey \<Rightarrow> int \<Rightarrow> 's \<Rightarrow> scope \<Rightarrow> cache_row option option" where
  "cfg_view c t s sc =
     (case vk_get c t s (scope_cache_key sc) of
        Ok (Some b) \<Rightarrow> Option.bind (json_loads b) entry_dec | _ \<Rightarrow> None)"

definition effective_row ::
    "cache_row list \<Rightarrow> (scope \<Rightarrow> cache_row option option) \<Rightarrow> scope \<Rightarrow> cache_row option" where
  "effective_row db view sc = (case view sc of Some r \<Rightarrow> r | None \<Rightarrow> by_scope db sc)"

definition readable :: "'s valkey \<Rightarrow> int \<Rightarrow> 's \<Rightarrow> scope \<Rightarrow> bool" where
  "readable c t s sc \<longleftrightarrow>
     (case vk_get c t s (scope_cache_key sc) of
        Raised \<Rightarrow> False | Ok None \<Rightarrow> True
      | Ok (Some b) \<Rightarrow> Option.bind (json_loads b) entry_dec \<noteq> None)"

definition scope_ok :: "scope \<Rightarrow> bool" where
  "scope_ok sc \<longleftrightarrow> CHR '':'' \<notin> set (fst sc) \<and> snd sc \<noteq> Some ''-''"

lemma scope_key_inj:
  assumes "scope_ok a" "scope_ok b"
  shows "scope_cache_key a = scope_cache_key b \<longleftrightarrow> a = b"
proof
  assume "scope_cache_key a = scope_cache_key b"
  then have "fst a @ '':'' @ (case snd a of None \<Rightarrow> ''-'' | Some r \<Rightarrow> r)
    = fst b @ '':'' @ (case snd b of None \<Rightarrow> ''-'' | Some r \<Rightarrow> r)"
    by (simp add: scope_cache_key_def)
  from append_colon_inj [OF _ _ this [simplified]] assms
  have "fst a = fst b" "(case snd a of None \<Rightarrow> ''-'' | Some r \<Rightarrow> r) = (case snd b of None \<Rightarrow> ''-'' | Some r \<Rightarrow> r)"
    by (auto simp: scope_ok_def)
  with assms show "a = b"
    by (auto simp: scope_ok_def prod_eq_iff split: option.splits)
qed simp

lemma str_int_not_dash: "str_int i \<noteq> ''-''"
proof
  assume "str_int i = ''-''"
  then have "int_of_str ''-'' = Inr i" by (metis int_of_str_str_int)
  moreover have "int_of_str ''-'' = Inl ValueError" by code_simp
  ultimately show False by simp
qed

lemma scopes_ok: "sc \<in> set (scopes org vkey) \<Longrightarrow> scope_ok sc"
  by (auto simp: scopes_def scope_ok_def str_int_not_dash split: option.splits)

lemma scopes_distinct: "distinct (scopes org vkey)"
  by (simp add: scopes_def split: option.splits)

lemma map_of_rev_map_filter:
  assumes "\<And>r. f r = k \<Longrightarrow> P r"
  shows "map_of (rev (map (\<lambda>r. (f r, r)) (filter P db))) k = map_of (rev (map (\<lambda>r. (f r, r)) db)) k"
  using assms by (induction db rule: rev_induct) auto

lemma by_scope_fetched:
  assumes "sc \<in> set (scopes org vkey)"
  shows "by_scope (fetch_rows db org vkey) sc = by_scope db sc"
  unfolding by_scope_def fetch_rows_def
  by (rule map_of_rev_map_filter)
    (use assms in \<open>auto simp: scopes_def split: option.splits\<close>)

lemma read_scopes_readable:
  assumes "\<forall>sc\<in>set scs. readable c t s sc"
  shows "read_scopes c t scs s = (Ok (map (\<lambda>sc. (sc, cfg_view c t s sc)) scs), s)"
  using assms
proof (induction scs)
  case (Cons sc scs)
  then have r: "readable c t s sc" by simp
  show ?case
  proof (cases "vk_get c t s (scope_cache_key sc)")
    case (Ok raw)
    with r Cons show ?thesis
      by (cases raw) (auto simp: readable_def cfg_view_def script_simps)
  qed (use r in \<open>simp add: readable_def\<close>)
qed (simp add: sret_def)

lemma fill_missing_view:
  assumes laws: "valkey_laws c" and up: "valkey_up c"
    and "distinct (map fst es)" "\<forall>sc\<in>set (map fst es). scope_ok sc"
  shows "\<exists>s'. fill_missing c t ttl fetched es s =
       (Ok (map (\<lambda>(sc, r). case r of Some x \<Rightarrow> x | None \<Rightarrow> fetched sc) es), s')
     \<and> (\<forall>t' sc. t \<le> t' \<longrightarrow> t' < t + seconds ttl \<longrightarrow> scope_ok sc \<longrightarrow>
          cfg_view c t' s' sc =
            (if (sc, None) \<in> set es then Some (fetched sc) else cfg_view c t' s sc))"
  using assms(3,4)
proof (induction es arbitrary: s)
  case Nil
  then show ?case by (simp add: sret_def)
next
  case (Cons e es)
  obtain sc0 r where e: "e = (sc0, r)" by fastforce
  from Cons.prems have es: "distinct (map fst es)" "\<forall>sc\<in>set (map fst es). scope_ok sc"
    and sc0: "scope_ok sc0" "sc0 \<notin> fst ` set es" by (simp_all add: e)
  show ?case
  proof (cases r)
    case (Some x)
    from Cons.IH [OF es, of s] Some show ?thesis
      by (auto simp: e script_simps)
  next
    case None
    obtain s1 where s1: "vk_set c t s (scope_cache_key sc0) (json_dumps (entry_enc (fetched sc0)))
        (Some ttl) = Ok s1"
      using valkey_up_set [OF up] by blast
    obtain s' where s': "fill_missing c t ttl fetched es s1 =
        (Ok (map (\<lambda>(sc, r). case r of Some x \<Rightarrow> x | None \<Rightarrow> fetched sc) es), s')"
      and view: "\<And>t' sc. t \<le> t' \<Longrightarrow> t' < t + seconds ttl \<Longrightarrow> scope_ok sc \<Longrightarrow>
        cfg_view c t' s' sc = (if (sc, None) \<in> set es then Some (fetched sc) else cfg_view c t' s1 sc)"
      using Cons.IH [OF es, of s1] by blast
    have "cfg_view c t' s1 sc = (if sc = sc0 then Some (fetched sc0) else cfg_view c t' s sc)"
      if "t \<le> t'" "t' < t + seconds ttl" "scope_ok sc" for t' sc
      using valkey_get_set [OF laws s1 that(1), of "scope_cache_key sc"] that(2)
        scope_key_inj [OF that(3) sc0(1)]
      by (simp add: cfg_view_def expired_def entry_codec.dec_enc)
    with view sc0(2) have "\<forall>t' sc. t \<le> t' \<longrightarrow> t' < t + seconds ttl \<longrightarrow> scope_ok sc \<longrightarrow>
        cfg_view c t' s' sc =
          (if (sc, None) \<in> set (e # es) then Some (fetched sc) else cfg_view c t' s sc)"
      by (auto simp: e None)
    moreover have "fill_missing c t ttl fetched (e # es) s =
        (Ok (map (\<lambda>(sc, r). case r of Some x \<Rightarrow> x | None \<Rightarrow> fetched sc) (e # es)), s')"
      by (simp add: e None script_simps s1 s')
    ultimately show ?thesis by blast
  qed
qed

section \<open>Properties\<close>

text \<open>
  Precedence: each field of the merged configuration is the value of the narrowest scope
  whose row sets it (key, then organisation, then global), or the built-in default; a row
  that leaves a field NULL does not reset it.
\<close>

theorem merge_takes_narrowest:
  "merge rows = \<lparr>
     cc_exact_enabled = most_specific ro_exact_enabled (List.map_filter id rows) True,
     cc_semantic_enabled = most_specific ro_semantic_enabled (List.map_filter id rows) False,
     cc_semantic_threshold =
       most_specific ro_semantic_threshold (List.map_filter id rows) (95 / 100),
     cc_ttl_seconds = most_specific ro_ttl_seconds (List.map_filter id rows) 86400,
     cc_max_entry_kb = most_specific ro_max_entry_kb (List.map_filter id rows) 256,
     cc_anthropic_cache_control =
       most_specific ro_anthropic_cache_control (List.map_filter id rows) True\<rparr>"
  by (rule cache_config.equality) (simp_all add: merge_def field_merges HARD_DEFAULTS_def)

text \<open>
  C37. Resolution refines a read-through map from scopes to rows: the result merges, for each
  scope, the cached row (or cached absence) if there is one and the database's row otherwise;
  afterwards, until the time-to-live, every scope that was missing is held as the database
  had it, absence included, and every other scope is as before.
\<close>

theorem resolve_refines_read_through:
  assumes "valkey_laws c" "valkey_up c" "\<forall>sc\<in>set (scopes org vkey). readable c t s sc"
  shows "\<exists>s'. resolve c db ttl t org vkey s =
       (Ok (merge (map (effective_row db (cfg_view c t s)) (scopes org vkey))), s')
     \<and> (\<forall>t' sc. t \<le> t' \<longrightarrow> t' < t + seconds ttl \<longrightarrow> scope_ok sc \<longrightarrow>
          cfg_view c t' s' sc =
            (if sc \<in> set (scopes org vkey) \<and> cfg_view c t s sc = None then Some (by_scope db sc)
             else cfg_view c t' s sc))"
proof -
  let ?es = "map (\<lambda>sc. (sc, cfg_view c t s sc)) (scopes org vkey)"
  let ?fetched = "by_scope (fetch_rows db org vkey)"
  have es: "distinct (map fst ?es)" "\<forall>sc\<in>set (map fst ?es). scope_ok sc"
    using scopes_distinct scopes_ok by (simp_all add: comp_def)
  obtain s' where s': "fill_missing c t ttl ?fetched ?es s =
      (Ok (map (\<lambda>(sc, r). case r of Some x \<Rightarrow> x | None \<Rightarrow> ?fetched sc) ?es), s')"
    and view: "\<forall>t' sc. t \<le> t' \<longrightarrow> t' < t + seconds ttl \<longrightarrow> scope_ok sc \<longrightarrow> cfg_view c t' s' sc =
      (if (sc, None) \<in> set ?es then Some (?fetched sc) else cfg_view c t' s sc)"
    using fill_missing_view [OF assms(1,2) es] by blast
  have rows: "map (\<lambda>(sc, r). case r of Some x \<Rightarrow> x | None \<Rightarrow> ?fetched sc) ?es
      = map (effective_row db (cfg_view c t s)) (scopes org vkey)"
    by (simp add: effective_row_def by_scope_fetched cong: option.case_cong)
  from s' [unfolded rows] have "resolve c db ttl t org vkey s =
       (Ok (merge (map (effective_row db (cfg_view c t s)) (scopes org vkey))), s')"
    by (simp add: resolve_def sbind_def sret_def read_scopes_readable [OF assms(3)])
  moreover have "(sc, None) \<in> set ?es \<longleftrightarrow> sc \<in> set (scopes org vkey) \<and> cfg_view c t s sc = None" for sc
    by auto
  ultimately show ?thesis using view by (auto simp: by_scope_fetched)
qed

text \<open>
  Affinity: a recorded backend is found, each hit within the window moves the window
  forward, and another organisation never sees it.
\<close>

theorem affinity_slides:
  assumes "valkey_laws c" "affinity_record c ttl t0 org h backend s = (Ok u, s0)"
    and "t0 \<le> t1" "t1 < t0 + seconds ttl" "affinity_lookup c ttl t1 org h s0 = (Ok a, s1)"
    and "t1 \<le> t2" "t2 < t1 + seconds ttl"
  shows "a = Some backend \<and> vk_get c t2 s1 (affinity_key org h) = Ok (Some backend)
       \<and> (org' \<noteq> org \<longrightarrow>
            vk_get c t2 s1 (affinity_key org' h') = vk_get c t2 s (affinity_key org' h'))"
proof -
  have s0: "vk_set c t0 s (affinity_key org h) backend (Some ttl) = Ok s0"
    using assms(2) by (simp add: affinity_record_def command_def split: reply.splits)
  note get0 = valkey_get_set [OF assms(1) s0]
  have g: "vk_get c t1 s0 (affinity_key org h) = Ok (Some backend)"
    using get0 [OF assms(3)] assms(4) by (simp add: expired_def)
  from assms(5) have a: "a = Some backend"
    and s1: "vk_set c t1 s0 (affinity_key org h) backend (Some ttl) = Ok s1"
    by (auto simp: affinity_lookup_def script_simps g split: prod.splits reply.splits)
  have "affinity_key org' h' \<noteq> affinity_key org h" if "org' \<noteq> org"
    using append_colon_inj [OF str_int_no_colon str_int_no_colon, of org' h' org h] str_int_inj that
    by (auto simp: affinity_key_def)
  with a valkey_get_set [OF assms(1) s1 assms(6)] get0 [of t2] assms(3,6,7) show ?thesis
    by (simp add: expired_def)
qed

section \<open>Witnesses\<close>

definition demo_row :: "string \<Rightarrow> string option \<Rightarrow> int option \<Rightarrow> bool option \<Rightarrow> cache_row" where
  "demo_row ty ref ttl sem = \<lparr>ro_scope_type = ty, ro_scope_ref = ref, ro_exact_enabled = None,
     ro_semantic_enabled = sem, ro_semantic_threshold = None, ro_ttl_seconds = ttl,
     ro_max_entry_kb = None, ro_anthropic_cache_control = None\<rparr>"

definition demo_db :: "cache_row list" where
  "demo_db = [demo_row ''global'' None (Some 600) None,
     demo_row ''org'' (Some (str_int 7)) None (Some True)]"

lemma resolve_refines_read_through_witness:
  "\<exists>s'. resolve mem_valkey demo_db 30 0 7 (Some 3) (\<lambda>_. None) =
     (Ok (HARD_DEFAULTS\<lparr>cc_semantic_enabled := True, cc_ttl_seconds := 600\<rparr>), s')
     \<and> cfg_view mem_valkey 5 s' (''key'', Some (str_int 3)) = Some None"
proof -
  have "\<forall>sc\<in>set (scopes 7 (Some 3)). readable mem_valkey 0 (\<lambda>_. None) sc"
    by (simp add: readable_def mem_valkey_simps)
  from resolve_refines_read_through [OF mem_valkey_laws mem_valkey_up this, of demo_db 30]
  obtain s' where r: "resolve mem_valkey demo_db 30 0 7 (Some 3) (\<lambda>_. None) =
      (Ok (merge (map (effective_row demo_db (cfg_view mem_valkey 0 (\<lambda>_. None)))
         (scopes 7 (Some 3)))), s')"
    and view: "\<forall>t' sc. 0 \<le> t' \<longrightarrow> t' < 0 + seconds 30 \<longrightarrow> scope_ok sc \<longrightarrow>
       cfg_view mem_valkey t' s' sc =
        (if sc \<in> set (scopes 7 (Some 3)) \<and> cfg_view mem_valkey 0 (\<lambda>_. None) sc = None
         then Some (by_scope demo_db sc) else cfg_view mem_valkey t' (\<lambda>_. None) sc)"
    by blast
  have none: "cfg_view mem_valkey 0 (\<lambda>_. None) sc = None" for sc
    by (simp add: cfg_view_def mem_valkey_simps)
  have "merge (map (effective_row demo_db (cfg_view mem_valkey 0 (\<lambda>_. None))) (scopes 7 (Some 3)))
      = HARD_DEFAULTS\<lparr>cc_semantic_enabled := True, cc_ttl_seconds := 600\<rparr>"
    by (simp add: none effective_row_def scopes_def by_scope_def demo_db_def demo_row_def
        merge_def merge_row_def over_def HARD_DEFAULTS_def List.map_filter_def)
  moreover have "cfg_view mem_valkey 5 s' (''key'', Some (str_int 3)) = Some None"
  proof -
    have "scope_ok (''key'', Some (str_int 3))"
      by (rule scopes_ok [of _ 7 "Some 3"]) (simp add: scopes_def)
    with view show ?thesis
      by (simp add: none scopes_def by_scope_def demo_db_def demo_row_def seconds_def)
  qed
  ultimately show ?thesis using r by auto
qed

lemma affinity_slides_witness:
  "\<exists>s1. vk_get mem_valkey 3000000 s1 (affinity_key 1 ''h'') = Ok (Some (RawText ''pod''))
      \<and> vk_get mem_valkey 3000000 s1 (affinity_key 2 ''h'') = Ok None"
proof -
  let ?s0 = "[affinity_key 1 ''h'' \<mapsto> (RawText ''pod'', Some 2000000)]"
  let ?s1 = "[affinity_key 1 ''h'' \<mapsto> (RawText ''pod'', Some 3500000)]"
  have "affinity_record mem_valkey 2 0 1 ''h'' (RawText ''pod'') (\<lambda>_. None) = (Ok (), ?s0)"
    by (simp add: affinity_record_def script_simps mem_valkey_simps seconds_def)
  moreover have "affinity_lookup mem_valkey 2 1500000 1 ''h'' ?s0 = (Ok (Some (RawText ''pod'')), ?s1)"
    by (simp add: affinity_lookup_def script_simps mem_valkey_simps seconds_def)
  ultimately have "vk_get mem_valkey 3000000 ?s1 (affinity_key 1 ''h'') = Ok (Some (RawText ''pod''))
      \<and> vk_get mem_valkey 3000000 ?s1 (affinity_key 2 ''h'')
        = vk_get mem_valkey 3000000 (\<lambda>_. None) (affinity_key 2 ''h'')"
    using affinity_slides [OF mem_valkey_laws, of 2 0 1 "''h''" "RawText ''pod''" "\<lambda>_. None" "()" ?s0
      1500000 "Some (RawText ''pod'')" ?s1 3000000 2 "''h''"] by (simp add: seconds_def)
  moreover have "vk_get mem_valkey 3000000 (\<lambda>_. None) (affinity_key 2 ''h'') = Ok None"
    by (simp add: mem_valkey_simps)
  ultimately show ?thesis by metis
qed

end
