(* ===== verification/ExactCache.thy ===== *)
theory ExactCache
  imports Script
begin

text \<open>
  The exact response cache: eligibility and key derivation (\<open>shared/cache/keys.py\<close>) and the
  per-organisation LRU store (\<open>shared/cache/exact.py\<close>). SHA-256 over the orjson rendering is
  the parameter \<open>sha\<close> on canonical documents (dict keys sorted); the length of a rendered
  payload is the parameter \<open>blen\<close>.
\<close>

section \<open>Canonical documents\<close>

fun str_le :: "string \<Rightarrow> string \<Rightarrow> bool" where
  "str_le [] t = True"
| "str_le (c # s) [] = False"
| "str_le (c # s) (d # t) =
     ((of_char c :: nat) < of_char d \<or> (of_char c :: nat) = of_char d \<and> str_le s t)"

fun insert_key :: "string \<times> json \<Rightarrow> (string \<times> json) list \<Rightarrow> (string \<times> json) list" where
  "insert_key e [] = [e]"
| "insert_key e (f # fs) = (if str_le (fst e) (fst f) then e # f # fs else f # insert_key e fs)"

definition sort_keys :: "(string \<times> json) list \<Rightarrow> (string \<times> json) list" where
  "sort_keys d = foldr insert_key d []"

fun canon :: "json \<Rightarrow> json" where
  "canon (JList xs) = JList (map canon xs)"
| "canon (JDict d) = JDict (sort_keys (map (\<lambda>(k, v). (k, canon v)) d))"
| "canon j = j"

section \<open>Eligibility\<close>

record exact_key_parts =
  kp_org :: int
  kp_model_class :: string
  kp_messages :: "json list"
  kp_tools :: json
  kp_temperature :: rat
  kp_top_p :: json
  kp_max_tokens :: json

definition TOOL_RESULT_ROLES :: "string list" where
  "TOOL_RESULT_ROLES = [''tool'']"

definition TOOL_RESULT_BLOCK_TYPES :: "string list" where
  "TOOL_RESULT_BLOCK_TYPES = [''tool_use'', ''tool_result'']"

definition tool_block :: "json \<Rightarrow> bool" where
  "tool_block b = (case b of
     JDict d \<Rightarrow> (case jget d ''type'' of Some (JStr t) \<Rightarrow> t \<in> set TOOL_RESULT_BLOCK_TYPES | _ \<Rightarrow> False)
   | _ \<Rightarrow> False)"

definition message_has_tool_result :: "json \<Rightarrow> bool" where
  "message_has_tool_result m =
     (case m of
        JDict d \<Rightarrow>
          (case jget d ''role'' of Some (JStr r) \<Rightarrow> r \<in> set TOOL_RESULT_ROLES | _ \<Rightarrow> False) \<or>
          json_truthy (jget_null d ''tool_calls'') \<or>
          (case jget d ''content'' of Some (JList bs) \<Rightarrow> list_ex tool_block bs | _ \<Rightarrow> False)
      | _ \<Rightarrow> False)"

text \<open>
  Whether \<open>float(v)\<close> is zero; \<open>None\<close> is TypeError or ValueError. A decimal literal is zero when
  its mantissa is (underflow of tiny literals to zero is not modelled); \<open>inf\<close> and \<open>nan\<close> are not.
\<close>

fun digit_run :: "string \<Rightarrow> bool \<Rightarrow> (bool \<times> string) option" where
  "digit_run [] seen = (if seen then Some (True, []) else None)"
| "digit_run (c # cs) seen =
     (if is_digit c then map_option (\<lambda>(z, r). (z \<and> c = CHR ''0'', r)) (digit_run cs True)
      else if c = CHR ''_'' \<and> seen then
        (case cs of d # _ \<Rightarrow> if is_digit d then digit_run cs True else None | [] \<Rightarrow> None)
      else if seen then Some (True, c # cs) else None)"

definition exponent_ok :: "string \<Rightarrow> bool" where
  "exponent_ok s = (case s of
     [] \<Rightarrow> True
   | c # r \<Rightarrow> c \<in> {CHR ''e'', CHR ''E''} \<and>
       (let r' = (case r of d # q \<Rightarrow> if d \<in> {CHR ''+'', CHR ''-''} then q else r | [] \<Rightarrow> r)
        in case digit_run r' False of Some (_, []) \<Rightarrow> True | _ \<Rightarrow> False))"

definition float_zero_of_str :: "string \<Rightarrow> bool option" where
  "float_zero_of_str text =
     (let s = py_strip text;
          u = (case s of c # r \<Rightarrow> if c \<in> {CHR ''+'', CHR ''-''} then r else s | [] \<Rightarrow> s)
      in if lower u \<in> {''inf'', ''infinity'', ''nan''} then Some False
         else case digit_run u False of
           None \<Rightarrow>
             (case u of
                c # r \<Rightarrow>
                  if c = CHR ''.'' then
                    (case digit_run r False of
                       Some (z, e) \<Rightarrow> if exponent_ok e then Some z else None | None \<Rightarrow> None)
                  else None
              | [] \<Rightarrow> None)
         | Some (z, rest) \<Rightarrow>
             (case rest of
                c # r \<Rightarrow>
                  if c = CHR ''.'' then
                    (case digit_run r False of
                       Some (z', e) \<Rightarrow> if exponent_ok e then Some (z \<and> z') else None
                     | None \<Rightarrow> if exponent_ok r then Some z else None)
                  else if exponent_ok rest then Some z else None
              | [] \<Rightarrow> Some z))"

fun float_zero :: "json \<Rightarrow> bool option" where
  "float_zero (JInt i) = Some (i = 0)"
| "float_zero (JFloat r) = Some (r = 0)"
| "float_zero (JBool b) = Some (\<not> b)"
| "float_zero (JStr s) = float_zero_of_str s"
| "float_zero _ = None"

text \<open>\<open>Inl\<close> is the TypeError of iterating over something that is not a sequence.\<close>

definition is_exact_eligible :: "dict \<Rightarrow> py_error + bool" where
  "is_exact_eligible body =
     (case jget_null body ''temperature'' of
        JNull \<Rightarrow> Inr False
      | t \<Rightarrow>
          if float_zero t \<noteq> Some True then Inr False
          else case py_iter (json_or (jget_null body ''messages'') (JList [])) of
                 Inl e \<Rightarrow> Inl e
               | Inr ms \<Rightarrow> Inr (\<not> list_ex message_has_tool_result ms))"

definition canonical_payload :: "exact_key_parts \<Rightarrow> json" where
  "canonical_payload p =
     JDict [(''org_id'', JInt (kp_org p)), (''model_class'', JStr (kp_model_class p)),
       (''messages'', JList (kp_messages p)), (''tools'', kp_tools p),
       (''temperature'', JFloat (kp_temperature p)), (''top_p'', kp_top_p p),
       (''max_tokens'', kp_max_tokens p)]"

definition derive_exact_key :: "(json \<Rightarrow> string) \<Rightarrow> exact_key_parts \<Rightarrow> string" where
  "derive_exact_key sha p = sha (canon (canonical_payload p))"

section \<open>The server\<close>

text \<open>
  The commands of the LRU index, next to GET, SET and DEL. \<open>lv_zrange\<close> is the whole sorted set,
  least recently accessed first; the code asks for its first element.
\<close>

record 's lru_valkey =
  lv_kv :: "'s valkey"
  lv_zadd :: "int \<Rightarrow> 's \<Rightarrow> string \<Rightarrow> string \<Rightarrow> 's reply"
  lv_zrange :: "int \<Rightarrow> 's \<Rightarrow> string \<Rightarrow> string list reply"
  lv_zrem :: "int \<Rightarrow> 's \<Rightarrow> string \<Rightarrow> string \<Rightarrow> 's reply"

definition zset :: "'s lru_valkey \<Rightarrow> int \<Rightarrow> 's \<Rightarrow> string \<Rightarrow> string list" where
  "zset v t s k = (case lv_zrange v t s k of Ok ms \<Rightarrow> ms | Raised \<Rightarrow> [])"

text \<open>
  The documented behaviour: strings and sorted sets do not interfere, ZREM removes the member,
  ZADD adds it (or moves it), and neither touches another set.
\<close>

definition zset_strings_law :: "'s lru_valkey \<Rightarrow> bool" where
  "zset_strings_law v \<longleftrightarrow>
     (\<forall>t s k m s'. lv_zadd v t s k m = Ok s' \<or> lv_zrem v t s k m = Ok s' \<longrightarrow>
        (\<forall>t' k'. vk_get (lv_kv v) t' s' k' = vk_get (lv_kv v) t' s k')) \<and>
     (\<forall>t s k x ex ks s'. vk_set (lv_kv v) t s k x ex = Ok s' \<or> vk_del (lv_kv v) t s ks = Ok s' \<longrightarrow>
        (\<forall>t' k'. zset v t' s' k' = zset v t' s k'))"

definition zadd_law :: "'s lru_valkey \<Rightarrow> bool" where
  "zadd_law v \<longleftrightarrow>
     (\<forall>t s k m s' t' k'. lv_zadd v t s k m = Ok s' \<longrightarrow>
        zset v t' s' k' = (if k' = k then removeAll m (zset v t' s k) @ [m] else zset v t' s k'))"

definition zrem_law :: "'s lru_valkey \<Rightarrow> bool" where
  "zrem_law v \<longleftrightarrow>
     (\<forall>t s k m s' t' k'. lv_zrem v t s k m = Ok s' \<longrightarrow>
        zset v t' s' k' = (if k' = k then removeAll m (zset v t' s k) else zset v t' s k'))"

definition lru_laws :: "'s lru_valkey \<Rightarrow> bool" where
  "lru_laws v \<longleftrightarrow> valkey_laws (lv_kv v) \<and> zset_strings_law v \<and> zadd_law v \<and> zrem_law v"

definition lru_up :: "'s lru_valkey \<Rightarrow> bool" where
  "lru_up v \<longleftrightarrow> valkey_up (lv_kv v) \<and> (\<forall>t s k. vk_get (lv_kv v) t s k \<noteq> Raised) \<and>
     (\<forall>t s k m. lv_zadd v t s k m \<noteq> Raised) \<and> (\<forall>t s k. lv_zrange v t s k \<noteq> Raised) \<and>
     (\<forall>t s k m. lv_zrem v t s k m \<noteq> Raised)"

section \<open>The store\<close>

record cached_response =
  cr_response :: dict
  cr_usage :: json
  cr_stored_at :: rat

definition NAMESPACE :: string where
  "NAMESPACE = ''waddleai:cache''"

definition entry_key :: "int \<Rightarrow> string \<Rightarrow> string" where
  "entry_key org key = NAMESPACE @ '':exact:'' @ str_int org @ '':'' @ key"

definition idx_key :: "int \<Rightarrow> string" where
  "idx_key org = NAMESPACE @ '':idx:'' @ str_int org"

definition bytes_key :: "int \<Rightarrow> string" where
  "bytes_key org = NAMESPACE @ '':bytes:'' @ str_int org"

definition response_enc :: "cached_response \<Rightarrow> json" where
  "response_enc v =
     JDict [(''response'', JDict (cr_response v)), (''usage'', cr_usage v),
            (''stored_at'', JFloat (cr_stored_at v))]"

text \<open>\<open>None\<close> is the KeyError of a payload without the three entries.\<close>

definition response_dec :: "json \<Rightarrow> cached_response option" where
  "response_dec j = (case j of
     JDict d \<Rightarrow>
       (case (jget d ''response'', jget d ''usage'', jget d ''stored_at'') of
          (Some (JDict r), Some u, Some (JFloat a)) \<Rightarrow>
            Some \<lparr>cr_response = r, cr_usage = u, cr_stored_at = a\<rparr>
        | _ \<Rightarrow> None)
   | _ \<Rightarrow> None)"

interpretation response_codec: json_codec response_enc response_dec
  by unfold_locales (simp add: response_enc_def response_dec_def jget_def)

definition exact_get ::
    "'s lru_valkey \<Rightarrow> int \<Rightarrow> int \<Rightarrow> string \<Rightarrow> ('s, cached_response option) script" where
  "exact_get v t org key =
     sbind (query (\<lambda>s. vk_get (lv_kv v) t s (entry_key org key))) (\<lambda>raw.
       case raw of
         None \<Rightarrow> sret None
       | Some b \<Rightarrow>
           sbind (command (\<lambda>s. lv_zadd v t s (idx_key org) key)) (\<lambda>_.
             case json_loads b of
               None \<Rightarrow> sret None
             | Some j \<Rightarrow> (case response_dec j of None \<Rightarrow> sraise | Some r \<Rightarrow> sret (Some r))))"

text \<open>\<open>int(raw)\<close> of the byte counter, which is written as a decimal numeral.\<close>

definition blob_int :: "blob \<Rightarrow> int option" where
  "blob_int b = (case b of
     RawText s \<Rightarrow> (case int_of_str s of Inr i \<Rightarrow> Some i | Inl _ \<Rightarrow> None)
   | JsonText (JInt i) \<Rightarrow> Some i
   | JsonText _ \<Rightarrow> None)"

definition current_bytes :: "'s lru_valkey \<Rightarrow> int \<Rightarrow> int \<Rightarrow> ('s, int) script" where
  "current_bytes v t org =
     sbind (query (\<lambda>s. vk_get (lv_kv v) t s (bytes_key org))) (\<lambda>raw.
       case raw of
         None \<Rightarrow> sret 0
       | Some b \<Rightarrow> (case blob_int b of None \<Rightarrow> sraise | Some i \<Rightarrow> sret i))"

definition set_bytes :: "'s lru_valkey \<Rightarrow> int \<Rightarrow> int \<Rightarrow> int \<Rightarrow> ('s, unit) script" where
  "set_bytes v t org n =
     command (\<lambda>s. vk_set (lv_kv v) t s (bytes_key org) (RawText (str_int n)) None)"

definition adjust_bytes :: "'s lru_valkey \<Rightarrow> int \<Rightarrow> int \<Rightarrow> int \<Rightarrow> ('s, unit) script" where
  "adjust_bytes v t org delta =
     sbind (current_bytes v t org) (\<lambda>current. set_bytes v t org (max 0 (current + delta)))"

definition size_of :: "(blob \<Rightarrow> nat) \<Rightarrow> blob option \<Rightarrow> int" where
  "size_of blen raw = (case raw of None \<Rightarrow> 0 | Some b \<Rightarrow> int (blen b))"

text \<open>The eviction loop. The result \<open>False\<close> means the fuel ran out before the loop ended.\<close>

definition evict_member ::
    "(blob \<Rightarrow> nat) \<Rightarrow> 's lru_valkey \<Rightarrow> int \<Rightarrow> int \<Rightarrow> string \<Rightarrow> int \<Rightarrow> ('s, int) script" where
  "evict_member blen v t org member current =
     sbind (query (\<lambda>s. vk_get (lv_kv v) t s (entry_key org member))) (\<lambda>raw.
     sbind (command (\<lambda>s. vk_del (lv_kv v) t s [entry_key org member])) (\<lambda>_.
     sbind (command (\<lambda>s. lv_zrem v t s (idx_key org) member)) (\<lambda>_.
     sbind (set_bytes v t org (max 0 (current - size_of blen raw))) (\<lambda>_.
     sret (max 0 (current - size_of blen raw))))))"

fun evict_loop ::
    "(blob \<Rightarrow> nat) \<Rightarrow> 's lru_valkey \<Rightarrow> int \<Rightarrow> int \<Rightarrow> int \<Rightarrow> int \<Rightarrow> nat \<Rightarrow> int \<Rightarrow> ('s, bool) script" where
  "evict_loop blen v t org needed quota 0 current = sret False"
| "evict_loop blen v t org needed quota (Suc fuel) current =
     (if current + needed \<le> quota then sret True
      else sbind (query (\<lambda>s. lv_zrange v t s (idx_key org))) (\<lambda>lru.
        if lru = [] then sret True
        else sbind (evict_member blen v t org (hd lru) current)
               (evict_loop blen v t org needed quota fuel)))"

definition evict_to_fit ::
    "(blob \<Rightarrow> nat) \<Rightarrow> 's lru_valkey \<Rightarrow> nat \<Rightarrow> int \<Rightarrow> int \<Rightarrow> int \<Rightarrow> int \<Rightarrow> ('s, bool) script" where
  "evict_to_fit blen v fuel t org needed quota_kb =
     sbind (current_bytes v t org) (\<lambda>current.
       evict_loop blen v t org needed (quota_kb * 1024) fuel current)"

definition exact_put ::
    "(blob \<Rightarrow> nat) \<Rightarrow> 's lru_valkey \<Rightarrow> nat \<Rightarrow> int \<Rightarrow> int \<Rightarrow> string \<Rightarrow> cached_response \<Rightarrow> nat \<Rightarrow> int \<Rightarrow>
     int \<Rightarrow> ('s, bool) script" where
  "exact_put blen v fuel t org key r ttl max_entry_kb quota_kb =
     (let payload = json_dumps (response_enc r); size = int (blen payload) in
      if size > max_entry_kb * 1024 then sret False
      else
        sbind (query (\<lambda>s. vk_get (lv_kv v) t s (entry_key org key))) (\<lambda>old_raw.
        let old_size = size_of blen old_raw in
        sbind (evict_to_fit blen v fuel t org (size - old_size) quota_kb) (\<lambda>_.
        sbind (command (\<lambda>s. vk_set (lv_kv v) t s (entry_key org key) payload (Some ttl))) (\<lambda>_.
        sbind (command (\<lambda>s. lv_zadd v t s (idx_key org) key)) (\<lambda>_.
        sbind (adjust_bytes v t org (size - old_size)) (\<lambda>_. sret True))))))"

section \<open>Lemmas\<close>

lemma valkey_of_lru: "lru_laws v \<Longrightarrow> valkey_laws (lv_kv v)"
  by (simp add: lru_laws_def)

lemma get_after_zadd:
  "lru_laws v \<Longrightarrow> lv_zadd v t s k m = Ok s' \<Longrightarrow> vk_get (lv_kv v) t' s' k' = vk_get (lv_kv v) t' s k'"
  unfolding lru_laws_def zset_strings_law_def by metis

lemma get_after_zrem:
  "lru_laws v \<Longrightarrow> lv_zrem v t s k m = Ok s' \<Longrightarrow> vk_get (lv_kv v) t' s' k' = vk_get (lv_kv v) t' s k'"
  unfolding lru_laws_def zset_strings_law_def by metis

lemma zset_after_zadd:
  "lru_laws v \<Longrightarrow> lv_zadd v t s k m = Ok s' \<Longrightarrow>
     zset v t' s' k' = (if k' = k then removeAll m (zset v t' s k) @ [m] else zset v t' s k')"
  unfolding lru_laws_def zadd_law_def by blast

lemma zset_after_zrem:
  "lru_laws v \<Longrightarrow> lv_zrem v t s k m = Ok s' \<Longrightarrow>
     zset v t' s' k' = (if k' = k then removeAll m (zset v t' s k) else zset v t' s k')"
  unfolding lru_laws_def zrem_law_def by blast

lemma zset_after_set:
  "lru_laws v \<Longrightarrow> vk_set (lv_kv v) t s k x ex = Ok s' \<Longrightarrow> zset v t' s' k' = zset v t' s k'"
  unfolding lru_laws_def zset_strings_law_def by metis

lemma zset_after_del:
  "lru_laws v \<Longrightarrow> vk_del (lv_kv v) t s ks = Ok s' \<Longrightarrow> zset v t' s' k' = zset v t' s k'"
  unfolding lru_laws_def zset_strings_law_def by metis

lemmas cache_key_defs = entry_key_def idx_key_def bytes_key_def NAMESPACE_def

lemma entry_key_inj: "entry_key org k = entry_key org' k' \<longleftrightarrow> org = org' \<and> k = k'"
  using append_colon_inj [OF str_int_no_colon str_int_no_colon, of org k org' k'] str_int_inj
  by (auto simp: cache_key_defs)

lemma cache_keys_apart [simp]:
  "entry_key org k \<noteq> bytes_key org'" "bytes_key org' \<noteq> entry_key org k"
  by (simp_all add: cache_key_defs)

lemma org_keys_inj [simp]:
  "bytes_key org = bytes_key org' \<longleftrightarrow> org = org'" "idx_key org = idx_key org' \<longleftrightarrow> org = org'"
  using str_int_inj by (auto simp: cache_key_defs)

text \<open>Everything the cache of one organisation can be asked from time \<open>t\<close> on.\<close>

definition org_view ::
    "'s lru_valkey \<Rightarrow> int \<Rightarrow> int \<Rightarrow> 's \<Rightarrow>
     (int \<Rightarrow> string \<Rightarrow> blob option reply) \<times> (int \<Rightarrow> blob option reply) \<times> (int \<Rightarrow> string list)" where
  "org_view v t org s =
     (\<lambda>t' k. if t \<le> t' then vk_get (lv_kv v) t' s (entry_key org k) else Raised,
      \<lambda>t'. if t \<le> t' then vk_get (lv_kv v) t' s (bytes_key org) else Raised,
      \<lambda>t'. zset v t' s (idx_key org))"

lemma org_view_eqI:
  assumes "\<And>t' k. t \<le> t' \<Longrightarrow>
      vk_get (lv_kv v) t' s' (entry_key org k) = vk_get (lv_kv v) t' s (entry_key org k)"
    and "\<And>t'. t \<le> t' \<Longrightarrow> vk_get (lv_kv v) t' s' (bytes_key org) = vk_get (lv_kv v) t' s (bytes_key org)"
    and "\<And>t'. zset v t' s' (idx_key org) = zset v t' s (idx_key org)"
  shows "org_view v t org s' = org_view v t org s"
  using assms by (auto simp: org_view_def fun_eq_iff)

lemma org_viewD:
  assumes "org_view v t org s' = org_view v t org s" "t \<le> t'"
  shows "vk_get (lv_kv v) t' s' (entry_key org k) = vk_get (lv_kv v) t' s (entry_key org k)"
    and "vk_get (lv_kv v) t' s' (bytes_key org) = vk_get (lv_kv v) t' s (bytes_key org)"
    and "zset v t' s' (idx_key org) = zset v t' s (idx_key org)"
  using assms unfolding org_view_def prod.inject fun_eq_iff by metis+

lemma frame_set_other:
  assumes "lru_laws v" "\<And>j. k \<noteq> entry_key org j" "k \<noteq> bytes_key org"
  shows "frame (org_view v t org) (command (\<lambda>s. vk_set (lv_kv v) t s k x ex))"
  using assms
  by (intro frame_command org_view_eqI)
    (simp_all add: valkey_get_set [OF valkey_of_lru] zset_after_set split: if_splits, metis+)

lemma frame_del_other:
  assumes "lru_laws v" "\<And>j. entry_key org j \<notin> set ks" "bytes_key org \<notin> set ks"
  shows "frame (org_view v t org) (command (\<lambda>s. vk_del (lv_kv v) t s ks))"
  using assms
  by (intro frame_command org_view_eqI)
    (simp_all add: valkey_get_del [OF valkey_of_lru] zset_after_del)

lemma frame_zadd_other:
  assumes "lru_laws v" "k \<noteq> idx_key org"
  shows "frame (org_view v t org) (command (\<lambda>s. lv_zadd v t s k m))"
  using assms
  by (intro frame_command org_view_eqI) (simp_all add: get_after_zadd zset_after_zadd)

lemma frame_zrem_other:
  assumes "lru_laws v" "k \<noteq> idx_key org"
  shows "frame (org_view v t org) (command (\<lambda>s. lv_zrem v t s k m))"
  using assms
  by (intro frame_command org_view_eqI) (simp_all add: get_after_zrem zset_after_zrem)

lemmas frame_lru = frame_set_other frame_del_other frame_zadd_other frame_zrem_other

lemma frame_current_bytes [frame_intro]: "frame obs (current_bytes v t org)"
  unfolding current_bytes_def by (intro frame_intro) (auto intro: frame_intro split: option.split)

lemma frame_set_bytes:
  assumes "lru_laws v" "org \<noteq> org'"
  shows "frame (org_view v t org') (set_bytes v t org n)"
  unfolding set_bytes_def using assms by (intro frame_lru) simp_all

lemma frame_evict_member:
  assumes "lru_laws v" "org \<noteq> org'"
  shows "frame (org_view v t org') (evict_member blen v t org member current)"
  unfolding evict_member_def
  by (intro frame_intro frame_lru frame_set_bytes assms) (use assms in \<open>simp_all add: entry_key_inj\<close>)

lemma frame_evict_loop:
  assumes "lru_laws v" "org \<noteq> org'"
  shows "frame (org_view v t org') (evict_loop blen v t org needed quota fuel current)"
proof (induction fuel arbitrary: current)
  case (Suc fuel)
  show ?case
    unfolding evict_loop.simps by (intro frame_intro frame_evict_member Suc assms)
qed (simp add: frame_sret)

lemma frame_exact_put:
  assumes "lru_laws v" "org \<noteq> org'"
  shows "frame (org_view v t org') (exact_put blen v fuel t org key r ttl max_kb quota_kb)"
  unfolding exact_put_def Let_def evict_to_fit_def adjust_bytes_def
  by (intro frame_intro frame_lru frame_set_bytes frame_evict_loop assms)
    (use assms in \<open>simp_all add: entry_key_inj\<close>)

lemma frame_exact_get:
  assumes "lru_laws v" "org \<noteq> org'"
  shows "frame (org_view v t org') (exact_get v t org key)"
proof -
  have "frame (org_view v t org') (case raw of None \<Rightarrow> sret None
    | Some b \<Rightarrow> sbind (command (\<lambda>s. lv_zadd v t s (idx_key org) key))
        (\<lambda>_. case json_loads b of None \<Rightarrow> sret None
          | Some j \<Rightarrow> (case response_dec j of None \<Rightarrow> sraise | Some r \<Rightarrow> sret (Some r))))" for raw
  proof (cases raw)
    case None
    then show ?thesis by (simp add: frame_sret)
  next
    case (Some b)
    have "frame (org_view v t org') (case json_loads b of None \<Rightarrow> sret None
          | Some j \<Rightarrow> (case response_dec j of None \<Rightarrow> sraise | Some r \<Rightarrow> sret (Some r)))"
      by (auto intro: frame_intro split: option.split)
    with Some assms show ?thesis by (auto intro!: frame_sbind frame_zadd_other)
  qed
  then show ?thesis unfolding exact_get_def by (intro frame_sbind frame_query)
qed

text \<open>What a put leaves behind: the entry.\<close>

lemma sbind_OkD: "sbind f g s = (Ok b, s') \<Longrightarrow> \<exists>a s1. f s = (Ok a, s1) \<and> g a s1 = (Ok b, s')"
  by (auto simp: sbind_def split: prod.splits reply.splits)

lemma command_OkD: "command f s = (Ok u, s') \<Longrightarrow> f s = Ok s'"
  by (simp add: command_def split: reply.splits)

lemma query_OkD: "query f s = (Ok a, s') \<Longrightarrow> s' = s \<and> f s = Ok a"
  by (auto simp: query_def)

lemma exact_put_entry:
  assumes "lru_laws v" and "exact_put blen v fuel t org key r ttl max_kb quota_kb s = (Ok True, s')"
    and "t \<le> t'" "t' < t + seconds ttl"
  shows "vk_get (lv_kv v) t' s' (entry_key org key) = Ok (Some (json_dumps (response_enc r)))"
proof -
  let ?p = "json_dumps (response_enc r)"
  from assms(2) obtain old s1 s2 s3 u s4 s5 where
    "vk_set (lv_kv v) t s2 (entry_key org key) ?p (Some ttl) = Ok s3"
    and zadd: "lv_zadd v t s3 (idx_key org) key = Ok s4"
    and adj: "adjust_bytes v t org (int (blen ?p) - size_of blen old) s4 = (Ok u, s')"
    by (auto simp: exact_put_def Let_def sret_def split: if_splits
        dest!: sbind_OkD command_OkD query_OkD)
  note set = valkey_get_set [OF valkey_of_lru [OF assms(1)] this(1) assms(3), of "entry_key org key"]
  from adj obtain n where "vk_set (lv_kv v) t s4 (bytes_key org) (RawText (str_int n)) None = Ok s'"
    unfolding adjust_bytes_def set_bytes_def current_bytes_def
    by (auto dest!: sbind_OkD command_OkD query_OkD simp: sret_def sraise_def
        split: option.splits)
  from valkey_get_set [OF valkey_of_lru [OF assms(1)] this assms(3), of "entry_key org key"]
    get_after_zadd [OF assms(1) zadd, of t'] set assms(4)
  show ?thesis by (simp add: expired_def)
qed

lemma evict_loop_ends:
  assumes laws: "lru_laws v" and up: "lru_up v" and "length (zset v t s (idx_key org)) < fuel"
  shows "\<exists>s'. evict_loop blen v t org needed quota fuel current s = (Ok True, s')"
  using assms(3)
proof (induction fuel arbitrary: current s)
  case 0
  then show ?case by simp
next
  case (Suc fuel)
  show ?case
  proof (cases "current + needed \<le> quota \<or> zset v t s (idx_key org) = []")
    case True
    then show ?thesis using up
      by (cases "lv_zrange v t s (idx_key org)")
        (auto simp: sret_def sbind_def query_def zset_def lru_up_def)
  next
    case False
    let ?m = "hd (zset v t s (idx_key org))"
    have z: "lv_zrange v t s (idx_key org) = Ok (zset v t s (idx_key org))"
      using up by (cases "lv_zrange v t s (idx_key org)") (auto simp: zset_def lru_up_def)
    obtain raw where raw: "vk_get (lv_kv v) t s (entry_key org ?m) = Ok raw"
      using up by (cases "vk_get (lv_kv v) t s (entry_key org ?m)") (auto simp: lru_up_def)
    have kv: "valkey_up (lv_kv v)" using up by (simp add: lru_up_def)
    obtain s1 where s1: "vk_del (lv_kv v) t s [entry_key org ?m] = Ok s1"
      using valkey_up_del [OF kv] by blast
    obtain s2 where s2: "lv_zrem v t s1 (idx_key org) ?m = Ok s2"
      using up by (cases "lv_zrem v t s1 (idx_key org) ?m") (auto simp: lru_up_def)
    define n where "n = max 0 (current - size_of blen raw)"
    obtain s3 where s3: "vk_set (lv_kv v) t s2 (bytes_key org) (RawText (str_int n)) None = Ok s3"
      using valkey_up_set [OF kv] by blast
    have "zset v t s3 (idx_key org) = removeAll ?m (zset v t s (idx_key org))"
      by (simp add: zset_after_set [OF laws s3] zset_after_zrem [OF laws s2]
          zset_after_del [OF laws s1])
    moreover have "length (removeAll ?m (zset v t s (idx_key org))) < length (zset v t s (idx_key org))"
      using False by (cases "zset v t s (idx_key org)") (simp_all add: le_imp_less_Suc)
    ultimately have "length (zset v t s3 (idx_key org)) < fuel" using Suc.prems by simp
    from Suc.IH [OF this, of n] obtain s' where
      "evict_loop blen v t org needed quota fuel n s3 = (Ok True, s')" by blast
    with False z raw s1 s2 s3 show ?thesis
      by (simp add: sbind_def query_def command_def evict_member_def set_bytes_def sret_def
          n_def [symmetric])
  qed
qed

section \<open>An in-memory instance\<close>

text \<open>Every access has a later time than those before it, so the latest goes last.\<close>

type_synonym mem_lru_state = "mem \<times> (string \<Rightarrow> string list)"

definition mem_zadd :: "int \<Rightarrow> mem_lru_state \<Rightarrow> string \<Rightarrow> string \<Rightarrow> mem_lru_state reply" where
  "mem_zadd t s k m = Ok (fst s, (snd s)(k := removeAll m (snd s k) @ [m]))"

definition mem_zrem :: "int \<Rightarrow> mem_lru_state \<Rightarrow> string \<Rightarrow> string \<Rightarrow> mem_lru_state reply" where
  "mem_zrem t s k m = Ok (fst s, (snd s)(k := removeAll m (snd s k)))"

definition on_fst :: "'a reply \<Rightarrow> 'b \<Rightarrow> ('a \<times> 'b) reply" where
  "on_fst r b = (case r of Raised \<Rightarrow> Raised | Ok a \<Rightarrow> Ok (a, b))"

definition mem_lru :: "mem_lru_state lru_valkey" where
  "mem_lru = \<lparr>
     lv_kv = \<lparr>vk_get = \<lambda>t s k. mem_get t (fst s) k,
       vk_set = \<lambda>t s k x ex. on_fst (mem_set t (fst s) k x ex) (snd s),
       vk_del = \<lambda>t s ks. on_fst (mem_del t (fst s) ks) (snd s)\<rparr>,
     lv_zadd = mem_zadd, lv_zrange = \<lambda>t s k. Ok (snd s k), lv_zrem = mem_zrem\<rparr>"

lemmas mem_lru_simps = mem_lru_def mem_zadd_def mem_zrem_def on_fst_def mem_get_def mem_set_def
  mem_del_def

lemma mem_lru_laws: "lru_laws mem_lru"
proof -
  have "valkey_laws (lv_kv mem_lru)"
    by (auto simp: valkey_laws_def mem_lru_simps expired_def split: option.splits)
  moreover have "zset_strings_law mem_lru" "zadd_law mem_lru" "zrem_law mem_lru"
    by (auto simp: zset_strings_law_def zadd_law_def zrem_law_def zset_def mem_lru_simps)
  ultimately show ?thesis by (simp add: lru_laws_def)
qed

lemma mem_lru_up: "lru_up mem_lru"
  by (simp add: lru_up_def valkey_up_def mem_lru_simps)

definition empty_lru :: mem_lru_state where
  "empty_lru = (\<lambda>_. None, \<lambda>_. [])"

definition demo_response :: "nat \<Rightarrow> cached_response" where
  "demo_response n = \<lparr>cr_response = [], cr_usage = JDict [], cr_stored_at = of_nat n\<rparr>"

text \<open>A rendering whose length is chosen by the entry, for the examples.\<close>

definition demo_len :: "blob \<Rightarrow> nat" where
  "demo_len b = (case json_loads b of
     Some (JDict [_, _, (_, JFloat r)]) \<Rightarrow> nat (floor r)
   | _ \<Rightarrow> 0)"

lemma evict_loop_numeral [simp]:
  "evict_loop blen v t org needed quota (numeral n) current =
     (if current + needed \<le> quota then sret True
      else sbind (query (\<lambda>s. lv_zrange v t s (idx_key org))) (\<lambda>lru.
        if lru = [] then sret True
        else sbind (evict_member blen v t org (hd lru) current)
               (evict_loop blen v t org needed quota (pred_numeral n))))"
  by (simp add: numeral_eq_Suc)

lemmas demo_put_simps = exact_put_def evict_to_fit_def current_bytes_def adjust_bytes_def
  set_bytes_def evict_member_def size_of_def script_simps mem_lru_simps demo_len_def
  demo_response_def response_enc_def json_dumps_def empty_lru_def blob_int_def
  seconds_def int_of_str_str_int

section \<open>Properties\<close>

text \<open>
  Organisations are isolated: a put of one organisation, evictions included, changes
  nothing another organisation can observe of its entries, its byte counter and its index.
\<close>

theorem exact_put_isolated:
  assumes "lru_laws v" "org \<noteq> org'" "t \<le> t'"
    and "exact_put blen v fuel t org key r ttl max_kb quota_kb s = (res, s')"
  shows "vk_get (lv_kv v) t' s' (entry_key org' k) = vk_get (lv_kv v) t' s (entry_key org' k)
       \<and> vk_get (lv_kv v) t' s' (bytes_key org') = vk_get (lv_kv v) t' s (bytes_key org')
       \<and> zset v t' s' (idx_key org') = zset v t' s (idx_key org')"
proof -
  from frameD [OF frame_exact_put [OF assms(1,2)] assms(4)]
  have "org_view v t org' s' = org_view v t org' s" .
  from org_viewD [OF this assms(3)] show ?thesis by blast
qed

text \<open>
  Round trip: after a put that reports success, and until its time-to-live ends, a get of
  the same organisation and key returns exactly the response that was stored.
\<close>

theorem exact_get_after_put:
  assumes "lru_laws v" "lru_up v"
    and "exact_put blen v fuel t org key r ttl max_kb quota_kb s = (Ok True, s')"
    and "t \<le> t'" "t' < t + seconds ttl"
  shows "fst (exact_get v t' org key s') = Ok (Some r)"
proof -
  obtain s1 where "lv_zadd v t' s' (idx_key org) key = Ok s1"
    using assms(2) by (cases "lv_zadd v t' s' (idx_key org) key") (auto simp: lru_up_def)
  with exact_put_entry [OF assms(1,3-5)] show ?thesis
    by (simp add: exact_get_def script_simps response_codec.dec_enc)
qed


section \<open>Witnesses\<close>

lemma exact_put_isolated_witness:
  "let s' = snd (exact_put demo_len mem_lru 5 0 1 ''k'' (demo_response 100) 60 1 1 empty_lru)
   in fst s' (entry_key 1 ''k'') \<noteq> None \<and> vk_get (lv_kv mem_lru) 3 s' (entry_key 2 ''k'') = Ok None"
proof -
  obtain res s' where
    p: "exact_put demo_len mem_lru 5 0 1 ''k'' (demo_response 100) 60 1 1 empty_lru = (res, s')"
    by (rule that [OF surjective_pairing])
  have "fst s' (entry_key 1 ''k'') \<noteq> None" using p by (auto simp: demo_put_simps Let_def)
  moreover have "vk_get (lv_kv mem_lru) 3 empty_lru (entry_key 2 ''k'') = Ok None"
    by (simp add: mem_lru_simps empty_lru_def)
  ultimately show ?thesis
    using exact_put_isolated [OF mem_lru_laws _ _ p, of 2 3 "''k''"] by (simp add: p)
qed

lemma exact_get_after_put_witness:
  "fst (exact_get mem_lru 5 1 ''k''
     (snd (exact_put demo_len mem_lru 5 0 1 ''k'' (demo_response 100) 60 1 1 empty_lru)))
   = Ok (Some (demo_response 100))"
proof -
  obtain res s' where
    p: "exact_put demo_len mem_lru 5 0 1 ''k'' (demo_response 100) 60 1 1 empty_lru = (res, s')"
    by (rule that [OF surjective_pairing])
  then have "res = Ok True" by (auto simp: demo_put_simps Let_def)
  with p have "exact_put demo_len mem_lru 5 0 1 ''k'' (demo_response 100) 60 1 1 empty_lru
    = (Ok True, s')" by simp
  from exact_get_after_put [OF mem_lru_laws mem_lru_up this, of 5]
  show ?thesis by (simp add: p seconds_def)
qed

text \<open>Two entries and an overwrite of the older one with a bigger response.\<close>

definition full_lru :: mem_lru_state where
  "full_lru = snd (sbind (exact_put demo_len mem_lru 5 0 1 ''a'' (demo_response 800) 60 1 1) (\<lambda>_.
     exact_put demo_len mem_lru 5 1 1 ''b'' (demo_response 200) 60 1 1) empty_lru)"

lemma full_lru_eq:
  "full_lru =
     ([entry_key 1 ''a'' \<mapsto> (json_dumps (response_enc (demo_response 800)), Some 60000000),
       bytes_key 1 \<mapsto> (RawText (str_int 1000), None),
       entry_key 1 ''b'' \<mapsto> (json_dumps (response_enc (demo_response 200)), Some 60000001)],
      (\<lambda>_. [])(idx_key 1 := [''a'', ''b'']))"
  by (simp add: full_lru_def demo_put_simps Let_def entry_key_inj fun_upd_twist)


text \<open>
  Overwriting an entry that eviction removes first: \<open>old_size\<close> is subtracted once by the
  eviction and once more by the adjustment, so the byte counter falls below what is stored and
  the organisation keeps more than its quota (1200 bytes against 1024, counted as 400).
\<close>

theorem put_evicting_itself_undercounts:
  "\<exists>s'. exact_put demo_len mem_lru 5 2 1 ''a'' (demo_response 1000) 60 1 1 full_lru = (Ok True, s')
      \<and> fst (current_bytes mem_lru 3 1 s') = Ok 400
      \<and> vk_get (lv_kv mem_lru) 3 s' (entry_key 1 ''a'')
          = Ok (Some (json_dumps (response_enc (demo_response 1000))))
      \<and> vk_get (lv_kv mem_lru) 3 s' (entry_key 1 ''b'')
          = Ok (Some (json_dumps (response_enc (demo_response 200))))"
  by (simp add: full_lru_eq demo_put_simps Let_def entry_key_inj)

end
