(* ===== verification/Scoping.thy ===== *)
theory Scoping
  imports PyJson
begin

text \<open>
  The isolation core of the knowledge base (\<open>shared/knowledge/scoping.py\<close>): which records a
  caller may read, how they are ranked, and which of two contradicting records wins. Times are
  microseconds since 1970-01-01, floats that are only compared or multiplied are exact
  rationals, the similarity of two embeddings is a parameter with the cosine as the default.
\<close>

section \<open>Data\<close>

datatype scope_type = SESSION | USER | REPO | PROJECT | ORG

datatype trust_tier = VERIFIED | CONFIRMED | DERIVED | UNVERIFIED

fun trust_weight :: "trust_tier \<Rightarrow> rat" where
  "trust_weight VERIFIED = 1"
| "trust_weight CONFIRMED = 85/100"
| "trust_weight DERIVED = 7/10"
| "trust_weight UNVERIFIED = 1/2"

fun trust_precedence :: "trust_tier \<Rightarrow> int" where
  "trust_precedence VERIFIED = 4"
| "trust_precedence CONFIRMED = 3"
| "trust_precedence DERIVED = 2"
| "trust_precedence UNVERIFIED = 1"

record scope_key =
  sk_org :: string
  sk_project :: "string option"
  sk_repo :: "string option"
  sk_branch :: "string option"
  sk_user :: "string option"
  sk_session :: "string option"

record scoped_record =
  sr_id :: string
  sr_content :: string
  sr_scope_type :: scope_type
  sr_scope_ref :: string
  sr_trust :: trust_tier
  sr_author :: "string option"
  sr_org :: string
  sr_project :: "string option"
  sr_repo :: "string option"
  sr_branch :: "string option"
  sr_version :: int
  sr_superseded_by :: "string option"
  sr_status :: string
  sr_expires_at :: "int option"
  sr_created_at :: "int option"
  sr_embedding :: "rat list option"
  sr_relevance :: rat

section \<open>Visibility\<close>

definition visible_scopes :: "scope_key \<Rightarrow> (scope_type \<times> string) set" where
  "visible_scopes c =
     {(ORG, sk_org c)} \<union>
     (if truthy (sk_project c) then {(PROJECT, the (sk_project c))} else {}) \<union>
     (if truthy (sk_repo c) then {(REPO, the (sk_repo c))} else {}) \<union>
     (if truthy (sk_user c) then {(USER, the (sk_user c))} else {}) \<union>
     (if truthy (sk_session c) then {(SESSION, the (sk_session c))} else {})"

definition is_own_narrow_scope :: "'a scoped_record_scheme \<Rightarrow> scope_key \<Rightarrow> bool" where
  "is_own_narrow_scope r c =
     (if sr_scope_type r = SESSION then sk_session c = Some (sr_scope_ref r)
      else if sr_scope_type r = USER then sk_user c = Some (sr_scope_ref r)
      else True)"

definition is_visible :: "'a scoped_record_scheme \<Rightarrow> scope_key \<Rightarrow> int \<Rightarrow> bool" where
  "is_visible r c now =
     (if sr_status r \<noteq> ''active'' then False
      else if sr_org r \<noteq> sk_org c then False
      else if sr_scope_type r \<in> {SESSION, USER} \<and> \<not> is_own_narrow_scope r c then False
      else if sr_scope_type r = REPO \<and> sk_repo c \<noteq> None \<and> sr_repo r \<noteq> sk_repo c then False
      else if sr_scope_type r = REPO \<and> sr_branch r \<noteq> None \<and> sk_branch c \<noteq> None \<and>
        sr_branch r \<noteq> sk_branch c then False
      else if sr_scope_type r = PROJECT \<and> sk_project c \<noteq> None \<and> sr_project r \<noteq> sk_project c then False
      else case sr_expires_at r of
             Some e \<Rightarrow> \<not> (sr_trust r = UNVERIFIED \<and> e \<le> now)
           | None \<Rightarrow> True)"

definition filter_visible ::
    "'a scoped_record_scheme list \<Rightarrow> scope_key \<Rightarrow> int \<Rightarrow> 'a scoped_record_scheme list" where
  "filter_visible rs c now = filter (\<lambda>r. is_visible r c now) rs"

section \<open>Ranking\<close>

definition rank_key :: "'a scoped_record_scheme \<Rightarrow> rat \<times> int" where
  "rank_key r = (sr_relevance r * trust_weight (sr_trust r), trust_precedence (sr_trust r))"

text \<open>\<open>sorted(..., reverse=True)\<close> keeps the order of equal keys.\<close>

definition rank :: "'a scoped_record_scheme list \<Rightarrow> 'a scoped_record_scheme list" where
  "rank rs = sort_key (\<lambda>r. (- fst (rank_key r), - snd (rank_key r))) rs"

definition needs_provenance_header :: "'a scoped_record_scheme \<Rightarrow> bool" where
  "needs_provenance_header r = (sr_trust r = UNVERIFIED)"

section \<open>Contradictions\<close>

record conflict_resolution =
  winner_id :: string
  loser_id :: string
  reason :: string

definition cosine_similarity :: "rat list \<Rightarrow> rat list \<Rightarrow> real" where
  "cosine_similarity a b =
     (if length a \<noteq> length b \<or> a = [] then 0
      else
        let x = map of_rat a; y = map of_rat b;
            dot = sum_list (map2 (*) x y);
            norm_a = sqrt (sum_list (map (\<lambda>u. u * u) x));
            norm_b = sqrt (sum_list (map (\<lambda>u. u * u) y))
        in if norm_a = 0 \<or> norm_b = 0 then 0 else dot / (norm_a * norm_b))"

definition contradicts ::
    "(rat list \<Rightarrow> rat list \<Rightarrow> real) \<Rightarrow> real \<Rightarrow> scoped_record \<Rightarrow> scoped_record \<Rightarrow> bool" where
  "contradicts sim threshold new c =
     (case (sr_embedding new, sr_embedding c) of
        (Some a, Some b) \<Rightarrow>
          sr_id c \<noteq> sr_id new \<and> sr_status c = ''active'' \<and>
          py_strip (sr_content c) \<noteq> py_strip (sr_content new) \<and> threshold \<le> sim a b
      | _ \<Rightarrow> False)"

fun detect_contradiction ::
    "(rat list \<Rightarrow> rat list \<Rightarrow> real) \<Rightarrow> real \<Rightarrow> scoped_record \<Rightarrow> scoped_record list \<Rightarrow>
     scoped_record option" where
  "detect_contradiction sim threshold new [] = None"
| "detect_contradiction sim threshold new (c # cs) =
     (if contradicts sim threshold new c then Some c
      else detect_contradiction sim threshold new cs)"

definition DATETIME_MIN :: int where
  "DATETIME_MIN = - 62135596800000000"

definition record_time :: "scoped_record \<Rightarrow> int" where
  "record_time r = (case sr_created_at r of None \<Rightarrow> DATETIME_MIN | Some t \<Rightarrow> t)"

definition resolution :: "bool \<Rightarrow> scoped_record \<Rightarrow> scoped_record \<Rightarrow> string \<Rightarrow> conflict_resolution" where
  "resolution new_wins new old why =
     (if new_wins then \<lparr>winner_id = sr_id new, loser_id = sr_id old, reason = why\<rparr>
      else \<lparr>winner_id = sr_id old, loser_id = sr_id new, reason = why\<rparr>)"

definition resolve_conflict :: "scoped_record \<Rightarrow> scoped_record \<Rightarrow> conflict_resolution" where
  "resolve_conflict new old =
     (let new_rank = trust_precedence (sr_trust new); old_rank = trust_precedence (sr_trust old)
      in if new_rank \<noteq> old_rank then resolution (new_rank > old_rank) new old ''trust''
         else if sr_version new \<noteq> sr_version old
         then resolution (sr_version new > sr_version old) new old ''confirmation''
         else resolution (record_time new \<ge> record_time old) new old ''recency'')"

section \<open>Lemmas\<close>

text \<open>A record whose scope columns agree with its scope reference, as the writers fill them.\<close>

definition wf_record :: "'a scoped_record_scheme \<Rightarrow> bool" where
  "wf_record r = (sr_scope_ref r \<noteq> [] \<and>
     (case sr_scope_type r of
        ORG \<Rightarrow> sr_scope_ref r = sr_org r
      | PROJECT \<Rightarrow> sr_project r = Some (sr_scope_ref r)
      | REPO \<Rightarrow> sr_repo r = Some (sr_scope_ref r)
      | _ \<Rightarrow> True))"

lemma is_visibleD:
  assumes "is_visible r c now"
  shows "sr_status r = ''active''" "sr_org r = sk_org c"
    "sr_scope_type r = SESSION \<Longrightarrow> sk_session c = Some (sr_scope_ref r)"
    "sr_scope_type r = USER \<Longrightarrow> sk_user c = Some (sr_scope_ref r)"
    "sr_scope_type r = REPO \<Longrightarrow> sk_repo c = None \<or> sr_repo r = sk_repo c"
    "sr_scope_type r = REPO \<Longrightarrow> sr_branch r = None \<or> sk_branch c = None \<or> sr_branch r = sk_branch c"
    "sr_scope_type r = PROJECT \<Longrightarrow> sk_project c = None \<or> sr_project r = sk_project c"
    "sr_trust r = UNVERIFIED \<Longrightarrow> sr_expires_at r = Some e \<Longrightarrow> now < e"
  using assms by (auto simp: is_visible_def is_own_narrow_scope_def split: if_splits)

lemma visible_in_scopes:
  assumes "is_visible r c now" "wf_record r" "sk_repo c \<noteq> None" "sk_project c \<noteq> None"
  shows "(sr_scope_type r, sr_scope_ref r) \<in> visible_scopes c"
proof -
  note v = is_visibleD [OF assms(1)]
  show ?thesis
    using v assms(2-4)
    by (cases "sr_scope_type r") (auto simp: wf_record_def visible_scopes_def truthy_def)
qed

lemma detect_contradiction_Some:
  "detect_contradiction sim th new cs = Some c \<Longrightarrow> c \<in> set cs \<and> contradicts sim th new c"
  by (induction cs) (auto split: if_splits)

lemma detect_contradiction_None:
  "detect_contradiction sim th new cs = None \<longleftrightarrow> (\<forall>c\<in>set cs. \<not> contradicts sim th new c)"
  by (induction cs) auto

definition claim_key :: "scoped_record \<Rightarrow> int \<times> int \<times> int" where
  "claim_key r = (trust_precedence (sr_trust r), sr_version r, record_time r)"

lemma resolve_conflict_wins:
  "resolve_conflict new old =
     (if claim_key old \<le> claim_key new
      then \<lparr>winner_id = sr_id new, loser_id = sr_id old, reason = reason (resolve_conflict new old)\<rparr>
      else \<lparr>winner_id = sr_id old, loser_id = sr_id new, reason = reason (resolve_conflict new old)\<rparr>)"
  by (auto simp: resolve_conflict_def resolution_def claim_key_def Let_def)

section \<open>Properties\<close>


definition demo_record :: "scope_type \<Rightarrow> string \<Rightarrow> scoped_record" where
  "demo_record st ref =
     \<lparr>sr_id = ref, sr_content = ''fact'', sr_scope_type = st, sr_scope_ref = ref,
      sr_trust = CONFIRMED, sr_author = Some ''u1'', sr_org = ''o1'', sr_project = Some ''p1'',
      sr_repo = Some ''r1'', sr_branch = None, sr_version = 1, sr_superseded_by = None,
      sr_status = ''active'', sr_expires_at = None, sr_created_at = None, sr_embedding = None,
      sr_relevance = 1\<rparr>"

definition demo_caller :: scope_key where
  "demo_caller = \<lparr>sk_org = ''o1'', sk_project = Some ''p1'', sk_repo = Some ''r1'',
     sk_branch = None, sk_user = Some ''u1'', sk_session = Some ''s1''\<rparr>"


text \<open>
  Without a project, a caller sees every project: \<open>is_visible\<close> compares projects only when
  the caller has one, so an active project record of the organisation is visible to a caller
  that is in no project, although its scope is not among the caller's readable scopes. The same
  holds of repositories.
\<close>

theorem no_project_sees_all_projects:
  assumes "sr_status r = ''active''" "sr_org r = sk_org c" "sr_expires_at r = None"
    and "sr_scope_type r = PROJECT \<and> sk_project c = None \<or>
      sr_scope_type r = REPO \<and> sk_repo c = None \<and> sr_branch r = None"
  shows "is_visible r c now \<and> (sr_scope_type r, sr_scope_ref r) \<notin> visible_scopes c"
proof -
  have "is_visible r c now" using assms by (elim disjE) (simp_all add: is_visible_def)
  moreover from assms(4) have "(sr_scope_type r, sr_scope_ref r) \<notin> visible_scopes c"
    by (elim disjE conjE) (simp_all add: visible_scopes_def)
  ultimately show ?thesis ..
qed

theorem no_project_sees_all_projects_witness:
  "is_visible (demo_record PROJECT ''secret'') (demo_caller\<lparr>sk_project := None\<rparr>) 0 \<and>
   (PROJECT, ''secret'') \<notin> visible_scopes (demo_caller\<lparr>sk_project := None\<rparr>)"
  using no_project_sees_all_projects
    [of "demo_record PROJECT ''secret''" "demo_caller\<lparr>sk_project := None\<rparr>" 0]
  by (simp add: demo_record_def demo_caller_def)

text \<open>
  Conflict resolution is a lexicographic comparison of trust, version and time: the winner
  has the larger key, the newcomer wins a complete tie, and unless the keys tie completely the
  outcome does not depend on which of the two is the newcomer.
\<close>

theorem conflict_winner_lexicographic:
  "(winner_id (resolve_conflict new old), loser_id (resolve_conflict new old)) =
     (if claim_key old \<le> claim_key new then (sr_id new, sr_id old) else (sr_id old, sr_id new)) \<and>
   (reason (resolve_conflict new old) = ''trust'' \<longleftrightarrow>
      trust_precedence (sr_trust new) \<noteq> trust_precedence (sr_trust old)) \<and>
   (claim_key new = claim_key old \<or>
    winner_id (resolve_conflict new old) = winner_id (resolve_conflict old new))"
proof -
  have w: "winner_id (resolve_conflict a b) = (if claim_key b \<le> claim_key a then sr_id a else sr_id b)"
    "loser_id (resolve_conflict a b) = (if claim_key b \<le> claim_key a then sr_id b else sr_id a)"
    for a b by (subst resolve_conflict_wins, simp)+
  have "reason (resolve_conflict new old) = ''trust'' \<longleftrightarrow>
      trust_precedence (sr_trust new) \<noteq> trust_precedence (sr_trust old)"
    by (simp add: resolve_conflict_def resolution_def Let_def)
  moreover have "claim_key new = claim_key old \<or>
      winner_id (resolve_conflict new old) = winner_id (resolve_conflict old new)"
    unfolding w by (metis linorder_linear order_antisym)
  ultimately show ?thesis by (simp add: w)
qed

end
