(* ===== verification/SemanticCache.thy ===== *)
theory SemanticCache
  imports ExactCache Scoping PyText
begin

text \<open>
  The semantic response cache (\<open>shared/cache/semantic.py\<close>): which requests are eligible, and the
  table of embedded prompts. The embedder and the intent classifier are parameters (the
  heuristic default of the classifier is modelled); a similarity is a real number, the rounding
  of Python floats is not modelled. Times are microseconds.
\<close>

section \<open>Eligibility\<close>

record ctx_flags =
  cf_is_single_turn :: bool
  cf_has_tools_schema :: bool
  cf_has_memory_injection :: bool
  cf_temperature :: json

definition INFORMATIONAL_STARTS :: "string list" where
  "INFORMATIONAL_STARTS = [''what'', ''who'', ''when'', ''where'', ''why'', ''how'', ''is '',
     ''are '', ''does '', ''do '', ''can '', ''could '', ''would '', ''which'']"

definition IMPERATIVE_MARKERS :: "string list" where
  "IMPERATIVE_MARKERS = [''write'', ''generate'', ''create'', ''implement'', ''refactor'',
     ''fix '', ''debug'', ''code'']"

definition default_classify_intent :: "string \<Rightarrow> string" where
  "default_classify_intent prompt =
     (let stripped = py_strip prompt; lowered = lower stripped in
      if stripped = [] then ''other''
      else if list_ex (\<lambda>m. contains m lowered) IMPERATIVE_MARKERS then ''other''
      else if suffix ''?'' stripped \<or> list_ex (\<lambda>p. startswith p lowered) INFORMATIONAL_STARTS
      then ''informational''
      else ''other'')"

text \<open>\<open>next((m for m in reversed(messages) if m.get("role") == "user"), None)\<close>.\<close>

fun first_user :: "json list \<Rightarrow> py_error + dict option" where
  "first_user [] = Inr None"
| "first_user (m # ms) =
     rbind (must_dict m) (\<lambda>d.
       if jget_null d ''role'' = JStr ''user'' then Inr (Some d) else first_user ms)"

definition last_user :: "json list \<Rightarrow> py_error + dict option" where
  "last_user ms = first_user (rev ms)"

text \<open>\<open>temperature is None or float(temperature) != 0.0\<close>.\<close>

definition temperature_nonzero :: "json \<Rightarrow> py_error + bool" where
  "temperature_nonzero t =
     (case t of
        JNull \<Rightarrow> Inr True
      | _ \<Rightarrow> (case float_zero t of
               Some z \<Rightarrow> Inr (\<not> z)
             | None \<Rightarrow> Inl (case t of JStr _ \<Rightarrow> ValueError | _ \<Rightarrow> TypeError)))"

definition is_semantic_eligible ::
    "(string \<Rightarrow> string) \<Rightarrow> dict \<Rightarrow> ctx_flags \<Rightarrow> py_error + bool" where
  "is_semantic_eligible classify body flags =
     (if \<not> cf_is_single_turn flags then Inr False
      else if cf_has_tools_schema flags \<or> json_truthy (jget_null body ''tools'') then Inr False
      else if cf_has_memory_injection flags then Inr False
      else
        rbind (temperature_nonzero (cf_temperature flags)) (\<lambda>nonzero.
          if nonzero then Inr False
          else
            rbind (py_iter (json_or (jget_null body ''messages'') (JList []))) (\<lambda>ms.
            rbind (last_user ms) (\<lambda>u.
              case u of
                None \<Rightarrow> Inr False
              | Some d \<Rightarrow>
                  (case jget_null d ''content'' of
                     JStr s \<Rightarrow> Inr (classify s = ''informational'')
                   | _ \<Rightarrow> Inr False)))))"

section \<open>The table\<close>

text \<open>\<open>prompt_embedding_json\<close> is kept as the parsed list; \<open>None\<close> and the empty text are both
skipped by the candidate loop.\<close>

record cache_entry =
  ce_id :: int
  ce_org_id :: int
  ce_model_class :: string
  ce_context_hash :: string
  ce_embedding :: "rat list option"
  ce_response :: dict
  ce_hit_count :: int
  ce_created_at :: int
  ce_expires_at :: int

type_synonym cache_table = "cache_entry list"

definition fetch_candidates ::
    "cache_table \<Rightarrow> int \<Rightarrow> int \<Rightarrow> string \<Rightarrow> string \<Rightarrow> cache_entry list" where
  "fetch_candidates tbl now org model_class context_hash =
     filter (\<lambda>e. ce_org_id e = org \<and> ce_model_class e = model_class \<and>
       ce_context_hash e = context_hash \<and> now < ce_expires_at e \<and> ce_embedding e \<noteq> None) tbl"

text \<open>The ranking loop: a strictly better score wins, so the first of equal scores is kept.\<close>

fun best_candidate ::
    "rat list \<Rightarrow> cache_entry list \<Rightarrow> cache_entry option \<times> real \<Rightarrow> cache_entry option \<times> real" where
  "best_candidate q [] best = best"
| "best_candidate q (e # es) best =
     (let score = cosine_similarity q (the (ce_embedding e)) in
      best_candidate q es (if snd best < score then (Some e, score) else best))"

definition increment_hit_count :: "int \<Rightarrow> cache_table \<Rightarrow> cache_table" where
  "increment_hit_count i tbl =
     map (\<lambda>e. if ce_id e = i then e\<lparr>ce_hit_count := ce_hit_count e + 1\<rparr> else e) tbl"

definition semantic_lookup ::
    "(string \<Rightarrow> rat list) \<Rightarrow> int \<Rightarrow> int \<Rightarrow> string \<Rightarrow> string \<Rightarrow> string \<Rightarrow> rat \<Rightarrow> cache_table \<Rightarrow>
     cached_response option \<times> cache_table" where
  "semantic_lookup embedder now org model_class last_msg context_hash threshold tbl =
     (case best_candidate (embedder last_msg) (fetch_candidates tbl now org model_class context_hash)
            (None, -1) of
        (None, _) \<Rightarrow> (None, tbl)
      | (Some e, score) \<Rightarrow>
          if score < of_rat threshold then (None, tbl)
          else (Some \<lparr>cr_response = ce_response e,
                  cr_usage = jget_or (ce_response e) ''usage'' (JDict []), cr_stored_at = 0\<rparr>,
                increment_hit_count (ce_id e) tbl))"

text \<open>\<open>fresh\<close> is the identifier the database gives the row.\<close>

definition semantic_put ::
    "(string \<Rightarrow> rat list) \<Rightarrow> int \<Rightarrow> int \<Rightarrow> int \<Rightarrow> string \<Rightarrow> string \<Rightarrow> string \<Rightarrow> dict \<Rightarrow> int \<Rightarrow>
     cache_table \<Rightarrow> cache_table" where
  "semantic_put embedder now fresh org model_class last_msg context_hash response ttl_seconds tbl =
     tbl @ [\<lparr>ce_id = fresh, ce_org_id = org, ce_model_class = model_class,
       ce_context_hash = context_hash, ce_embedding = Some (embedder last_msg),
       ce_response = response, ce_hit_count = 0, ce_created_at = now,
       ce_expires_at = now + ttl_seconds * 1000000\<rparr>]"

section \<open>Properties\<close>

definition entry_score :: "rat list \<Rightarrow> cache_entry \<Rightarrow> real" where
  "entry_score q e = cosine_similarity q (the (ce_embedding e))"

lemma best_candidate_spec:
  "best_candidate q es (b, s0) = (r, s) \<Longrightarrow>
     s0 \<le> s \<and> (\<forall>e\<in>set es. entry_score q e \<le> s) \<and>
     (r = b \<and> s = s0 \<or> (\<exists>e\<in>set es. r = Some e \<and> s = entry_score q e))"
proof (induction es arbitrary: b s0)
  case Nil
  then show ?case by simp
next
  case (Cons e es)
  show ?case
  proof (cases "s0 < entry_score q e")
    case True
    with Cons.prems have "best_candidate q es (Some e, entry_score q e) = (r, s)"
      by (simp add: entry_score_def Let_def)
    from Cons.IH [OF this] True show ?thesis by auto
  next
    case False
    with Cons.prems have "best_candidate q es (b, s0) = (r, s)"
      by (simp add: entry_score_def Let_def)
    from Cons.IH [OF this] False show ?thesis by auto
  qed
qed

text \<open>
  A semantic hit is an unexpired entry of the same organisation, the same model and wire
  format and the same conversation shape, at least as similar as the threshold demands, and no
  other such entry is more similar; the lookup changes nothing but that entry's hit count.
\<close>

theorem semantic_hit_sound:
  assumes "semantic_lookup embedder now org mc msg h threshold tbl = (Some c, tbl')"
  shows "\<exists>e\<in>set tbl. c = \<lparr>cr_response = ce_response e,
            cr_usage = jget_or (ce_response e) ''usage'' (JDict []), cr_stored_at = 0\<rparr>
         \<and> ce_org_id e = org \<and> ce_model_class e = mc \<and> ce_context_hash e = h
         \<and> now < ce_expires_at e \<and> of_rat threshold \<le> entry_score (embedder msg) e
         \<and> (\<forall>e'\<in>set (fetch_candidates tbl now org mc h).
              entry_score (embedder msg) e' \<le> entry_score (embedder msg) e)
         \<and> tbl' = increment_hit_count (ce_id e) tbl"
proof -
  let ?cs = "fetch_candidates tbl now org mc h"
  obtain r score where best: "best_candidate (embedder msg) ?cs (None, -1) = (r, score)"
    by (rule that [OF surjective_pairing])
  with assms obtain e where e: "r = Some e" and t: "\<not> score < of_rat threshold"
    and c: "c = \<lparr>cr_response = ce_response e,
       cr_usage = jget_or (ce_response e) ''usage'' (JDict []), cr_stored_at = 0\<rparr>"
    and tbl': "tbl' = increment_hit_count (ce_id e) tbl"
    by (auto simp: semantic_lookup_def split: option.splits if_splits)
  from best_candidate_spec [OF best] e have cs: "e \<in> set ?cs" "score = entry_score (embedder msg) e"
    and best: "\<forall>e'\<in>set ?cs. entry_score (embedder msg) e' \<le> entry_score (embedder msg) e"
    by auto
  from cs(1) have "e \<in> set tbl" "ce_org_id e = org" "ce_model_class e = mc" "ce_context_hash e = h"
    "now < ce_expires_at e" by (auto simp: fetch_candidates_def)
  with best cs(2) t c tbl' show ?thesis by (intro bexI conjI) simp_all
qed

section \<open>Witnesses\<close>

definition demo_embed :: "string \<Rightarrow> rat list" where
  "demo_embed s = [1]"

lemma semantic_hit_sound_witness:
  "\<exists>e\<in>set (semantic_put demo_embed 0 1 7 ''m'' ''what is x'' ''h'' [] 60 []).
     ce_org_id e = 7 \<and> of_rat (95 / 100) \<le> entry_score (demo_embed ''what is y'') e"
proof -
  let ?tbl = "semantic_put demo_embed 0 1 7 ''m'' ''what is x'' ''h'' [] 60 []"
  have "semantic_lookup demo_embed 5 7 ''m'' ''what is y'' ''h'' (95 / 100) ?tbl
      = (Some \<lparr>cr_response = [], cr_usage = JDict [], cr_stored_at = 0\<rparr>, increment_hit_count 1 ?tbl)"
    by (simp add: semantic_lookup_def semantic_put_def fetch_candidates_def demo_embed_def
        cosine_similarity_def jget_or_def jget_def of_rat_divide)
  from semantic_hit_sound [OF this] show ?thesis by blast
qed

end
