(* ===== verification/Upstream.thy ===== *)
theory Upstream
  imports CacheConfig SemanticCache
begin

text \<open>
  Upstream prompt-cache orchestration (\<open>shared/cache/upstream.py\<close>). The tokenizer's count
  \<open>tokens\<close>, \<open>orjson.dumps\<close> as text \<open>render\<close>, SHA-256 of a canonical document \<open>sha\<close> and the
  provider's client are parameters. A key's observations are counted by INCR, whose time to
  live is set by EXPIRE when the count is one.
\<close>

section \<open>Prefixes\<close>

definition has_block_with :: "string \<Rightarrow> json \<Rightarrow> bool" where
  "has_block_with k j = (case j of
     JList bs \<Rightarrow> list_ex (\<lambda>b. case b of JDict d \<Rightarrow> jget d k \<noteq> None | _ \<Rightarrow> False) bs
   | _ \<Rightarrow> False)"

fun any_message :: "(dict \<Rightarrow> bool) \<Rightarrow> json list \<Rightarrow> py_error + bool" where
  "any_message p [] = Inr False"
| "any_message p (m # ms) =
     rbind (must_dict m) (\<lambda>d. if p d then Inr True else any_message p ms)"

definition has_client_cache_control :: "dict \<Rightarrow> py_error + bool" where
  "has_client_cache_control body =
     (if has_block_with ''cache_control'' (jget_null body ''system'') then Inr True
      else
        rbind (py_iter (json_or (jget_null body ''messages'') (JList []))) (\<lambda>ms.
          any_message (\<lambda>d. has_block_with ''cache_control'' (jget_null d ''content'')) ms))"

text \<open>\<open>messages[:-1]\<close>; only lists of messages are sliced here, as the callers pass.\<close>

definition stable_prefix_messages :: "dict \<Rightarrow> json list" where
  "stable_prefix_messages body =
     (case json_or (jget_null body ''messages'') (JList []) of
        JList ms \<Rightarrow> if length ms \<le> 1 then [] else butlast ms
      | _ \<Rightarrow> [])"

text \<open>\<open>block.get("text", "") or ""\<close>, joined later: a text that is not a str raises there.\<close>

definition block_texts :: "json \<Rightarrow> json list" where
  "block_texts j = (case j of
     JStr s \<Rightarrow> [JStr s]
   | JList bs \<Rightarrow>
       List.map_filter (\<lambda>b. case b of
         JDict d \<Rightarrow> Some (json_or (jget_or d ''text'' (JStr [])) (JStr [])) | _ \<Rightarrow> None) bs
   | _ \<Rightarrow> [])"

fun join_lines :: "json list \<Rightarrow> py_error + string" where
  "join_lines [] = Inr []"
| "join_lines (JStr s # rest) =
     (if rest = [] then Inr s else rbind (join_lines rest) (\<lambda>t. Inr (s @ CHR 0x0A # t)))"
| "join_lines (_ # rest) = Inl TypeError"

definition prefix_text_parts ::
    "(json \<Rightarrow> string) \<Rightarrow> dict \<Rightarrow> json list \<Rightarrow> py_error + json list" where
  "prefix_text_parts render body prefix_messages =
     rbind (rmap must_dict prefix_messages) (\<lambda>ds.
       Inr (block_texts (jget_null body ''system'') @
         (if json_truthy (jget_null body ''tools'') then [JStr (render (jget_null body ''tools''))]
          else []) @
         concat (map (\<lambda>d. block_texts (jget_null d ''content'')) ds)))"

definition estimate_prefix_tokens ::
    "(string \<Rightarrow> nat) \<Rightarrow> (json \<Rightarrow> string) \<Rightarrow> dict \<Rightarrow> json list \<Rightarrow> py_error + nat" where
  "estimate_prefix_tokens tokens render body prefix_messages =
     rbind (prefix_text_parts render body prefix_messages) (\<lambda>parts.
     rbind (join_lines parts) (\<lambda>joined. Inr (if joined = [] then 0 else tokens joined)))"

definition prefix_hash :: "(json \<Rightarrow> string) \<Rightarrow> dict \<Rightarrow> json list \<Rightarrow> string" where
  "prefix_hash sha body prefix_messages =
     sha (canon (JDict [(''system'', jget_null body ''system''),
       (''tools'', jget_null body ''tools''), (''messages'', JList prefix_messages)]))"

section \<open>The breakpoint\<close>

definition EPHEMERAL :: json where
  "EPHEMERAL = JDict [(''type'', JStr ''ephemeral'')]"

text \<open>\<open>content[-1]["cache_control"] = ...\<close> on the content of the target message.\<close>

definition mark_last_block :: "json \<Rightarrow> py_error + json" where
  "mark_last_block content = (case content of
     JList bs \<Rightarrow>
       (case last bs of
          JDict d \<Rightarrow> Inr (JList (butlast bs @ [JDict (dict_set d ''cache_control'' EPHEMERAL)]))
        | _ \<Rightarrow> Inl TypeError)
   | JDict _ \<Rightarrow> Inl KeyError
   | _ \<Rightarrow> Inl TypeError)"

text \<open>\<open>None\<close>: the body itself is returned, not a copy.\<close>

definition inject_cache_control :: "dict \<Rightarrow> nat \<Rightarrow> py_error + dict option" where
  "inject_cache_control body prefix_len =
     (case jget_null body ''messages'' of
        JList ms \<Rightarrow>
          rbind (must_dict (ms ! (prefix_len - 1))) (\<lambda>target.
            let content = (case jget_null target ''content'' of
                  JStr s \<Rightarrow> JList [JDict [(''type'', JStr ''text''), (''text'', JStr s)]]
                | c \<Rightarrow> c)
            in if \<not> json_truthy content then Inr None
               else rbind (mark_last_block content) (\<lambda>marked.
                 Inr (Some (dict_set body ''messages''
                   (JList (ms[prefix_len - 1 := JDict (dict_set target ''content'' marked)]))))))
      | _ \<Rightarrow> Inl TypeError)"

definition MIN_PREFIX_TOKENS :: nat where
  "MIN_PREFIX_TOKENS = 1024"

definition MIN_OBSERVATIONS :: int where
  "MIN_OBSERVATIONS = 2"

definition PREFIX_COUNTER_TTL_SECONDS :: nat where
  "PREFIX_COUNTER_TTL_SECONDS = 3600"

definition DEFAULT_CACHE_TTL_SECONDS :: nat where
  "DEFAULT_CACHE_TTL_SECONDS = 3600"

definition prefix_counter_key :: "int \<Rightarrow> string \<Rightarrow> string" where
  "prefix_counter_key vkey sha = ''waddleai:cache:prefix:'' @ str_int vkey @ '':'' @ sha"

record 's counting_valkey =
  nv_kv :: "'s valkey"
  nv_incr :: "int \<Rightarrow> 's \<Rightarrow> string \<Rightarrow> (int \<times> 's) reply"
  nv_expire :: "int \<Rightarrow> 's \<Rightarrow> string \<Rightarrow> nat \<Rightarrow> 's reply"

definition incr :: "'s counting_valkey \<Rightarrow> int \<Rightarrow> string \<Rightarrow> ('s, int) script" where
  "incr v t key s = (case nv_incr v t s key of Raised \<Rightarrow> (Raised, s) | Ok (n, s') \<Rightarrow> (Ok n, s'))"

definition observe :: "'s counting_valkey \<Rightarrow> int \<Rightarrow> string \<Rightarrow> ('s, int) script" where
  "observe v t key =
     sbind (incr v t key) (\<lambda>n.
     sbind (if n = 1 then command (\<lambda>s. nv_expire v t s key PREFIX_COUNTER_TTL_SECONDS) else sret ())
       (\<lambda>_. sret n))"

text \<open>An exception of a pure step, inside a script.\<close>

definition slift :: "py_error + 'a \<Rightarrow> ('s, 'a) script" where
  "slift r = (case r of Inl _ \<Rightarrow> sraise | Inr a \<Rightarrow> sret a)"

definition qualifying_prefix ::
    "(string \<Rightarrow> nat) \<Rightarrow> (json \<Rightarrow> string) \<Rightarrow> dict \<Rightarrow> py_error + json list option" where
  "qualifying_prefix tokens render body =
     (let ms = stable_prefix_messages body in
      if ms = [] then Inr None
      else rbind (estimate_prefix_tokens tokens render body ms) (\<lambda>n.
             Inr (if n \<le> MIN_PREFIX_TOKENS then None else Some ms)))"

definition annotate_request ::
    "(string \<Rightarrow> nat) \<Rightarrow> (json \<Rightarrow> string) \<Rightarrow> (json \<Rightarrow> string) \<Rightarrow> 's counting_valkey \<Rightarrow> int \<Rightarrow> dict \<Rightarrow> int \<Rightarrow>
     cache_config \<Rightarrow> ('s, dict option) script" where
  "annotate_request tokens render sha v t body vkey cfg =
     (if \<not> cc_anthropic_cache_control cfg then sret None
      else
        sbind (slift (has_client_cache_control body)) (\<lambda>has.
          if has then sret None
          else
            sbind (slift (qualifying_prefix tokens render body)) (\<lambda>p.
              case p of
                None \<Rightarrow> sret None
              | Some ms \<Rightarrow>
                  sbind (observe v t (prefix_counter_key vkey (prefix_hash sha body ms))) (\<lambda>n.
                    if n < MIN_OBSERVATIONS then sret None
                    else slift (inject_cache_control body (length ms))))))"

section \<open>Usage reported by the providers\<close>

definition usage_int :: "json \<Rightarrow> py_error + int" where
  "usage_int v = py_int (json_or v (JInt 0))"

definition extract_cache_usage :: "dict \<Rightarrow> py_error + int \<times> int" where
  "extract_cache_usage u =
     rbind (usage_int (jget_null u ''cache_creation_input_tokens'')) (\<lambda>c.
     rbind (usage_int (jget_null u ''cache_read_input_tokens'')) (\<lambda>r. Inr (c, r)))"

definition extract_openai_cached_tokens :: "dict \<Rightarrow> py_error + int" where
  "extract_openai_cached_tokens u =
     rbind (must_dict (json_or (jget_null u ''prompt_tokens_details'') (JDict []))) (\<lambda>d.
       usage_int (jget_null d ''cached_tokens''))"

definition extract_gemini_cached_tokens :: "dict \<Rightarrow> py_error + int" where
  "extract_gemini_cached_tokens u = usage_int (jget_null u ''cached_content_token_count'')"

section \<open>Gemini cached contents\<close>

text \<open>
  The client's two calls, over a state \<open>'g\<close> of the provider: \<open>create\<close> gives the name of the new
  resource, and both may raise.
\<close>

record 'g genai_client =
  gc_create :: "'g \<Rightarrow> string \<Rightarrow> string \<Rightarrow> nat \<Rightarrow> (string \<times> 'g) reply"
  gc_delete :: "'g \<Rightarrow> string \<Rightarrow> 'g reply"

definition gemini_key :: "int \<Rightarrow> string \<Rightarrow> string" where
  "gemini_key vkey sha = ''waddleai:cache:gemini:'' @ str_int vkey @ '':'' @ sha"

definition on_left :: "('s, 'a) script \<Rightarrow> ('s \<times> 'g, 'a) script" where
  "on_left f = (\<lambda>(s, g). let (r, s') = f s in (r, (s', g)))"

definition gemini_create ::
    "'g genai_client \<Rightarrow> string \<Rightarrow> string \<Rightarrow> ('s \<times> 'g, string) script" where
  "gemini_create gc model contents = (\<lambda>(s, g).
     case gc_create gc g model contents DEFAULT_CACHE_TTL_SECONDS of
       Raised \<Rightarrow> (Raised, (s, g)) | Ok (name, g') \<Rightarrow> (Ok name, (s, g')))"

text \<open>A mapping is the name as text; the empty name counts as no mapping.\<close>

definition mapped_name :: "blob option \<Rightarrow> string option" where
  "mapped_name raw = (case raw of Some (RawText n) \<Rightarrow> if n = [] then None else Some n | _ \<Rightarrow> None)"

definition get_or_create ::
    "(string \<Rightarrow> nat) \<Rightarrow> (json \<Rightarrow> string) \<Rightarrow> (json \<Rightarrow> string) \<Rightarrow> 's counting_valkey \<Rightarrow> 'g genai_client \<Rightarrow>
     int \<Rightarrow> dict \<Rightarrow> int \<Rightarrow> string \<Rightarrow> cache_config \<Rightarrow> ('s \<times> 'g, string option) script" where
  "get_or_create tokens render sha v gc t body vkey model cfg =
     (if \<not> cc_anthropic_cache_control cfg then sret None
      else
        sbind (slift (qualifying_prefix tokens render body)) (\<lambda>p.
          case p of
            None \<Rightarrow> sret None
          | Some ms \<Rightarrow>
              (let h = prefix_hash sha body ms; mapping = gemini_key vkey h in
               sbind (on_left (query (\<lambda>s. vk_get (nv_kv v) t s mapping))) (\<lambda>raw.
                 case mapped_name raw of
                   Some n \<Rightarrow> sret (Some n)
                 | None \<Rightarrow>
                     sbind (on_left (observe v t (prefix_counter_key vkey h))) (\<lambda>n.
                       if n < MIN_OBSERVATIONS then sret None
                       else
                         sbind (slift (rbind (prefix_text_parts render body ms) join_lines))
                           (\<lambda>contents.
                         sbind (gemini_create gc model contents) (\<lambda>name.
                         sbind (on_left (command (\<lambda>s. vk_set (nv_kv v) t s mapping (RawText name)
                             (Some DEFAULT_CACHE_TTL_SECONDS)))) (\<lambda>_. sret (Some name))))))))
     )"

definition gemini_expire ::
    "'s counting_valkey \<Rightarrow> 'g genai_client \<Rightarrow> int \<Rightarrow> int \<Rightarrow> string \<Rightarrow> ('s \<times> 'g, unit) script" where
  "gemini_expire v gc t vkey h =
     (let mapping = gemini_key vkey h in
      sbind (on_left (query (\<lambda>s. vk_get (nv_kv v) t s mapping))) (\<lambda>raw.
      sbind (case mapped_name raw of
               None \<Rightarrow> sret ()
             | Some n \<Rightarrow> (\<lambda>(s, g). case gc_delete gc g n of
                 Raised \<Rightarrow> (Ok (), (s, g)) | Ok g' \<Rightarrow> (Ok (), (s, g')))) (\<lambda>_.
      on_left (command (\<lambda>s. vk_del (nv_kv v) t s [mapping])))))"

section \<open>Properties\<close>

lemma any_message_True_upd:
  assumes "any_message P ms = Inr False" "i < length ms" "P d"
  shows "any_message P (ms[i := JDict d]) = Inr True"
  using assms
proof (induction ms arbitrary: i)
  case (Cons m ms)
  from Cons.prems(1) obtain d0 where "must_dict m = Inr d0" "\<not> P d0" "any_message P ms = Inr False"
    by (auto simp: rbind_Inr split: if_splits)
  with Cons show ?case by (cases i) simp_all
qed simp

lemma mark_last_block_marks:
  assumes "mark_last_block c = Inr c'"
  shows "has_block_with ''cache_control'' c'"
  using assms
  by (auto simp: mark_last_block_def has_block_with_def jget_dict_set split: json.splits)

lemma jget_null_dict_set:
  "jget_null (dict_set d k v) k' = (if k' = k then v else jget_null d k')"
  by (simp add: jget_null_def jget_dict_set)

lemma slift_Ok: "slift r s = (Ok a, s') \<longleftrightarrow> r = Inr a \<and> s' = s"
  by (auto simp: slift_def sret_def sraise_def split: sum.split)

text \<open>
  Annotation of a request only ever adds a breakpoint, and only where the client set none:
  when a changed request comes back the organisation allows it, the client had no
  \<open>cache_control\<close>, the last message and all other parameters are untouched, and the only
  message changed is the last of the stable prefix, in its content. A second pass would find
  the mark and leave the request alone.
\<close>

theorem annotate_marks_prefix_end:
  assumes "annotate_request tokens render sha v t body vkey cfg s = (Ok (Some body'), s')"
  shows "\<exists>ms target marked. jget_null body ''messages'' = JList ms \<and> 2 \<le> length ms
       \<and> ms ! (length ms - 2) = JDict target
       \<and> body' = dict_set body ''messages''
           (JList (ms[length ms - 2 := JDict (dict_set target ''content'' marked)]))
       \<and> cc_anthropic_cache_control cfg
       \<and> has_client_cache_control body = Inr False
       \<and> has_client_cache_control body' = Inr True"
proof -
  from assms obtain p n s1 where on: "cc_anthropic_cache_control cfg"
    and no_client: "has_client_cache_control body = Inr False"
    and prefix: "qualifying_prefix tokens render body = Inr (Some p)"
    and inj: "inject_cache_control body (length p) = Inr (Some body')"
    unfolding annotate_request_def
    by (auto simp: sbind_def slift_Ok sret_def split: if_splits prod.splits reply.splits option.splits)
  from prefix have p: "p = stable_prefix_messages body" "p \<noteq> []"
    by (auto simp: qualifying_prefix_def Let_def rbind_Inr split: if_splits)
  then obtain ms where ms: "json_or (jget_null body ''messages'') (JList []) = JList ms"
    "1 < length ms" "p = butlast ms"
    by (auto simp: stable_prefix_messages_def split: json.splits if_splits)
  then have body: "jget_null body ''messages'' = JList ms"
    by (auto simp: json_or_def split: if_splits)
  have idx: "length p - 1 = length ms - 2" using ms by simp
  from inj body idx obtain target content marked where
    target: "ms ! (length ms - 2) = JDict target" and mark: "mark_last_block content = Inr marked"
    and body': "body' = dict_set body ''messages''
      (JList (ms[length ms - 2 := JDict (dict_set target ''content'' marked)]))"
    unfolding inject_cache_control_def
    by (cases "ms ! (length ms - 2)") (auto simp: Let_def rbind_Inr split: if_splits)
  from no_client body have sys: "\<not> has_block_with ''cache_control'' (jget_null body ''system'')"
    and anym: "any_message (\<lambda>d. has_block_with ''cache_control'' (jget_null d ''content'')) ms = Inr False"
    using ms(1) by (auto simp: has_client_cache_control_def rbind_Inr split: if_splits)
  have "any_message (\<lambda>d. has_block_with ''cache_control'' (jget_null d ''content''))
      (ms[length ms - 2 := JDict (dict_set target ''content'' marked)]) = Inr True"
    by (rule any_message_True_upd [OF anym])
      (use ms(2) mark_last_block_marks [OF mark] in \<open>simp_all add: jget_null_dict_set\<close>)
  then have "has_client_cache_control body' = Inr True"
    using sys ms(2) list.size(3)
    by (auto simp: has_client_cache_control_def body' jget_null_dict_set json_or_def)
  with on no_client body target body' ms(2) show ?thesis by (intro exI conjI) simp_all
qed

section \<open>Examples\<close>

text \<open>A counting server, and a conversation whose tool list carries the client's own mark.\<close>

definition demo_counting :: "(string \<Rightarrow> int) counting_valkey" where
  "demo_counting = \<lparr>nv_kv = \<lparr>vk_get = \<lambda>t s k. Ok None, vk_set = \<lambda>t s k v ex. Ok s,
       vk_del = \<lambda>t s ks. Ok s\<rparr>,
     nv_incr = \<lambda>t s k. Ok (s k + 1, s(k := s k + 1)), nv_expire = \<lambda>t s k n. Ok s\<rparr>"

definition demo_body :: "dict \<Rightarrow> dict" where
  "demo_body tool = [(''tools'', JList [JDict tool]),
     (''messages'', JList [JDict [(''role'', JStr ''user''), (''content'', JStr ''long'')],
        JDict [(''role'', JStr ''user''), (''content'', JStr ''q'')]])]"

definition demo_marked :: "dict \<Rightarrow> dict" where
  "demo_marked tool = [(''tools'', JList [JDict tool]),
     (''messages'', JList [JDict [(''role'', JStr ''user''), (''content'', JList [JDict
          [(''type'', JStr ''text''), (''text'', JStr ''long''), (''cache_control'', EPHEMERAL)]])],
        JDict [(''role'', JStr ''user''), (''content'', JStr ''q'')]])]"

lemmas demo_annotate_simps = annotate_request_def sbind_def slift_def sret_def sraise_def
  has_client_cache_control_def has_block_with_def jget_null_def jget_def json_or_def
  qualifying_prefix_def stable_prefix_messages_def estimate_prefix_tokens_def
  prefix_text_parts_def block_texts_def observe_def incr_def command_def demo_counting_def
  MIN_OBSERVATIONS_def MIN_PREFIX_TOKENS_def inject_cache_control_def mark_last_block_def
  List.map_filter_def HARD_DEFAULTS_def

lemma demo_annotated:
  "annotate_request (\<lambda>_. 2000) (\<lambda>_. ''[]'') (\<lambda>_. ''sha'') demo_counting 0 (demo_body tool) 0
     HARD_DEFAULTS (\<lambda>_. 1) = (Ok (Some (demo_marked tool)),
       (\<lambda>_. 1)(prefix_counter_key 0 ''sha'' := 2))"
  by (simp add: demo_annotate_simps demo_body_def demo_marked_def prefix_hash_def)

text \<open>
  A mark the client puts on a tool definition is not seen: the second time the prefix is
  observed, the request is annotated although the client manages a breakpoint of its own.
\<close>

theorem client_mark_on_tool_unseen:
  "fst (annotate_request (\<lambda>_. 2000) (\<lambda>_. ''[]'') (\<lambda>_. ''sha'') demo_counting 0
       (demo_body [(''name'', JStr ''ls''), (''cache_control'', EPHEMERAL)]) 0 HARD_DEFAULTS (\<lambda>_. 1))
   = Ok (Some (demo_marked [(''name'', JStr ''ls''), (''cache_control'', EPHEMERAL)]))"
  by (simp add: demo_annotated)

lemma annotate_marks_prefix_end_witness:
  "has_client_cache_control (demo_body []) = Inr False \<and>
   has_client_cache_control (demo_marked []) = Inr True"
  using annotate_marks_prefix_end [OF demo_annotated [of "[]"]] by blast

end
