(* ===== verification/ResponseCache.thy ===== *)
theory ResponseCache
  imports Upstream
begin

text \<open>
  The response cache facade (\<open>shared/cache/response_cache.py\<close>): a lookup through the exact and
  then the semantic layer, the write-back a miss carries, and the annotations of a miss. A
  write-back closure is the list of writes it makes, run in order by \<open>run_write_back\<close>. The
  state is the Valkey server's and the semantic table.
\<close>

section \<open>Requests and environment\<close>

text \<open>The attributes of the request context the facade reads; \<open>rq_org\<close> is \<open>_org_id(ctx.user)\<close>.\<close>

record cache_request =
  rq_org :: "int option"
  rq_vkey :: "int option"
  rq_body :: dict
  rq_messages :: "json list"
  rq_model :: "string option"
  rq_format :: string

record 's cache_env =
  en_lru :: "'s lru_valkey"
  en_incr :: "int \<Rightarrow> 's \<Rightarrow> string \<Rightarrow> (int \<times> 's) reply"
  en_expire :: "int \<Rightarrow> 's \<Rightarrow> string \<Rightarrow> nat \<Rightarrow> 's reply"
  en_configs :: "cache_row list"
  en_sha :: "json \<Rightarrow> string"
  en_render :: "json \<Rightarrow> string"
  en_tokens :: "string \<Rightarrow> nat"
  en_blen :: "blob \<Rightarrow> nat"
  en_embedder :: "(string \<Rightarrow> rat list) option"
  en_classify :: "string \<Rightarrow> string"
  en_fresh :: "cache_table \<Rightarrow> int"
  en_quota_kb :: int
  en_fuel :: nat

definition en_kv :: "'s cache_env \<Rightarrow> 's valkey" where
  "en_kv env = lv_kv (en_lru env)"

definition en_counting :: "'s cache_env \<Rightarrow> 's counting_valkey" where
  "en_counting env = \<lparr>nv_kv = en_kv env, nv_incr = en_incr env, nv_expire = en_expire env\<rparr>"

datatype cache_write =
    ExactWrite int string int int
  | SemanticWrite int string string string int

datatype cache_status = Exact | Semantic | Miss

record lookup_result =
  lk_status :: cache_status
  lk_cached :: "cached_response option"
  lk_write_back :: "cache_write list option"

type_synonym 's cache_state = "'s \<times> cache_table"

definition RESPONSE_CACHE_FLAG :: string where
  "RESPONSE_CACHE_FLAG = ''waddleai.response_cache''"

section \<open>Keys\<close>

definition model_class :: "cache_request \<Rightarrow> string" where
  "model_class rq = (case rq_model rq of None \<Rightarrow> [] | Some m \<Rightarrow> m) @ ''::'' @ rq_format rq"

definition eligibility_body :: "cache_request \<Rightarrow> dict" where
  "eligibility_body rq = dict_set (rq_body rq) ''messages'' (JList (rq_messages rq))"

text \<open>
  The parts of an eligible request: \<open>float(temperature or 0.0)\<close> is zero there, which is what
  eligibility tests.
\<close>

definition exact_parts :: "int \<Rightarrow> cache_request \<Rightarrow> exact_key_parts" where
  "exact_parts org rq = \<lparr>kp_org = org, kp_model_class = model_class rq,
     kp_messages = rq_messages rq, kp_tools = jget_null (rq_body rq) ''tools'',
     kp_temperature = 0, kp_top_p = jget_null (rq_body rq) ''top_p'',
     kp_max_tokens = jget_null (rq_body rq) ''max_tokens''\<rparr>"

definition exact_key :: "'s cache_env \<Rightarrow> int \<Rightarrow> cache_request \<Rightarrow> string" where
  "exact_key env org rq = derive_exact_key (en_sha env) (exact_parts org rq)"

definition context_hash :: "'s cache_env \<Rightarrow> int \<Rightarrow> cache_request \<Rightarrow> string" where
  "context_hash env org rq = derive_exact_key (en_sha env)
     \<lparr>kp_org = org, kp_model_class = model_class rq, kp_messages = butlast (rq_messages rq),
      kp_tools = JNull, kp_temperature = 0, kp_top_p = JNull, kp_max_tokens = JNull\<rparr>"

section \<open>Lookup\<close>

definition miss :: "cache_write list option \<Rightarrow> lookup_result" where
  "miss wb = \<lparr>lk_status = Miss, lk_cached = None, lk_write_back = wb\<rparr>"

definition hit :: "cache_status \<Rightarrow> cached_response \<Rightarrow> lookup_result" where
  "hit st c = \<lparr>lk_status = st, lk_cached = Some c, lk_write_back = None\<rparr>"

definition request_flags :: "cache_request \<Rightarrow> ctx_flags" where
  "request_flags rq = \<lparr>cf_is_single_turn = length (rq_messages rq) \<le> 1,
     cf_has_tools_schema = json_truthy (jget_null (rq_body rq) ''tools''),
     cf_has_memory_injection =
       canon (JList (rq_messages rq)) \<noteq>
         canon (json_or (jget_null (rq_body rq) ''messages'') (JList [])),
     cf_temperature = jget_null (rq_body rq) ''temperature''\<rparr>"

text \<open>The exact layer: a hit, or the write-back of a miss; \<open>None\<close> where it does not apply.\<close>

definition exact_layer ::
    "'s cache_env \<Rightarrow> int \<Rightarrow> int \<Rightarrow> cache_request \<Rightarrow> cache_config \<Rightarrow>
     ('s cache_state, cached_response option \<times> cache_write list option) script" where
  "exact_layer env t org rq cfg =
     (if \<not> cc_exact_enabled cfg then sret (None, None)
      else
        sbind (slift (is_exact_eligible (eligibility_body rq))) (\<lambda>eligible.
          if \<not> eligible then sret (None, None)
          else
            (let key = exact_key env org rq in
             sbind (on_left (exact_get (en_lru env) t org key)) (\<lambda>cached.
               case cached of
                 Some c \<Rightarrow> sret (Some c, None)
               | None \<Rightarrow> sret (None, Some [ExactWrite org key (cc_ttl_seconds cfg)
                   (cc_max_entry_kb cfg)])))))"

definition on_table :: "(cache_table \<Rightarrow> 'a \<times> cache_table) \<Rightarrow> ('s cache_state, 'a) script" where
  "on_table f = (\<lambda>(s, tbl). let (a, tbl') = f tbl in (Ok a, (s, tbl')))"

text \<open>The user message the semantic layer compares, where that layer applies.\<close>

definition semantic_prompt :: "'s cache_env \<Rightarrow> cache_request \<Rightarrow> py_error + string option" where
  "semantic_prompt env rq =
     rbind (is_semantic_eligible (en_classify env) (eligibility_body rq) (request_flags rq))
       (\<lambda>eligible.
         if \<not> eligible then Inr None
         else rbind (last_user (rq_messages rq)) (\<lambda>u.
           Inr (case u of
              None \<Rightarrow> None
            | Some d \<Rightarrow> (case jget_null d ''content'' of JStr s \<Rightarrow> Some s | _ \<Rightarrow> None))))"

definition combine_write_backs ::
    "cache_write list option \<Rightarrow> cache_write list \<Rightarrow> cache_write list" where
  "combine_write_backs first second = (case first of None \<Rightarrow> second | Some ws \<Rightarrow> ws @ second)"

definition semantic_layer ::
    "'s cache_env \<Rightarrow> int \<Rightarrow> int \<Rightarrow> cache_request \<Rightarrow> cache_config \<Rightarrow> cache_write list option \<Rightarrow>
     ('s cache_state, lookup_result) script" where
  "semantic_layer env t org rq cfg wb =
     (case en_embedder env of
        None \<Rightarrow> sret (miss wb)
      | Some embedder \<Rightarrow>
          if \<not> cc_semantic_enabled cfg then sret (miss wb)
          else
            sbind (slift (semantic_prompt env rq)) (\<lambda>prompt.
              case prompt of
                None \<Rightarrow> sret (miss wb)
              | Some msg \<Rightarrow>
                  (let h = context_hash env org rq in
                   sbind (on_table (semantic_lookup embedder t org (model_class rq) msg h
                     (cc_semantic_threshold cfg))) (\<lambda>cached.
                     case cached of
                       Some c \<Rightarrow> sret (hit Semantic c)
                     | None \<Rightarrow> sret (miss (Some (combine_write_backs wb
                         [SemanticWrite org (model_class rq) msg h (cc_ttl_seconds cfg)])))))))"

definition lookup ::
    "'s cache_env \<Rightarrow> int \<Rightarrow> cache_request \<Rightarrow> ('s cache_state, lookup_result) script" where
  "lookup env t rq =
     (case rq_org rq of
        None \<Rightarrow> sret (miss None)
      | Some org \<Rightarrow>
          sbind (on_left (resolve (en_kv env) (en_configs env) DEFAULT_SCOPE_TTL_SECONDS t org
            (rq_vkey rq))) (\<lambda>cfg.
          sbind (exact_layer env t org rq cfg) (\<lambda>(cached, wb).
            case cached of
              Some c \<Rightarrow> sret (hit Exact c)
            | None \<Rightarrow> semantic_layer env t org rq cfg wb)))"

section \<open>Write-backs\<close>

definition cached_of :: "dict \<Rightarrow> dict \<Rightarrow> cached_response" where
  "cached_of response usage =
     \<lparr>cr_response = response, cr_usage = JDict usage, cr_stored_at = 0\<rparr>"

definition run_write ::
    "'s cache_env \<Rightarrow> int \<Rightarrow> dict \<Rightarrow> dict \<Rightarrow> cache_write \<Rightarrow> ('s cache_state, unit) script" where
  "run_write env t response usage w =
     (case w of
        ExactWrite org key ttl max_kb \<Rightarrow>
          sbind (on_left (exact_put (en_blen env) (en_lru env) (en_fuel env) t org key
            (cached_of response usage) (nat ttl) max_kb (en_quota_kb env))) (\<lambda>_. sret ())
      | SemanticWrite org mc msg h ttl \<Rightarrow>
          (case en_embedder env of
             None \<Rightarrow> sraise
           | Some embedder \<Rightarrow>
               on_table (\<lambda>tbl. ((), semantic_put embedder t (en_fresh env tbl) org mc msg h
                 response ttl tbl))))"

definition run_write_back ::
    "'s cache_env \<Rightarrow> int \<Rightarrow> dict \<Rightarrow> dict \<Rightarrow> cache_write list \<Rightarrow> ('s cache_state, unit) script" where
  "run_write_back env t response usage ws = for_each (run_write env t response usage) ws"

section \<open>Annotating a miss\<close>

text \<open>The new messages, if the orchestrator changed them, and the preferred backend.\<close>

record annotation =
  an_messages :: "json option"
  an_preferred :: "blob option"

definition blob_truthy :: "blob \<Rightarrow> bool" where
  "blob_truthy b = (b \<noteq> RawText [])"

definition annotate_miss ::
    "'s cache_env \<Rightarrow> int \<Rightarrow> cache_request \<Rightarrow> ('s cache_state, annotation) script" where
  "annotate_miss env t rq =
     (case rq_org rq of
        None \<Rightarrow> sret \<lparr>an_messages = None, an_preferred = None\<rparr>
      | Some org \<Rightarrow>
          sbind (on_left (resolve (en_kv env) (en_configs env) DEFAULT_SCOPE_TTL_SECONDS t org
            (rq_vkey rq))) (\<lambda>cfg.
          sbind (if startswith ''claude'' (lower (case rq_model rq of None \<Rightarrow> [] | Some m \<Rightarrow> m)) then
                   on_left (annotate_request (en_tokens env) (en_render env) (en_sha env)
                     (en_counting env) t (eligibility_body rq)
                     (case rq_vkey rq of None \<Rightarrow> 0 | Some k \<Rightarrow> k) cfg)
                 else sret None) (\<lambda>annotated.
          sbind (if json_truthy (jget_null (rq_body rq) ''session_id'') then
                   on_left (affinity_lookup (en_kv env) AFFINITY_TTL_SECONDS t org
                     (py_str (en_render env) (jget_null (rq_body rq) ''session_id'')))
                 else sret None) (\<lambda>preferred.
          sret \<lparr>an_messages = map_option (\<lambda>b. jget_null b ''messages'') annotated,
                an_preferred = Option.bind preferred (\<lambda>b. if blob_truthy b then Some b else None)\<rparr>))))"

section \<open>What decides a key\<close>

lemma canon_payload:
  "canon (canonical_payload p) =
     JDict [(''max_tokens'', canon (kp_max_tokens p)), (''messages'', JList (map canon (kp_messages p))),
       (''model_class'', JStr (kp_model_class p)), (''org_id'', JInt (kp_org p)),
       (''temperature'', JFloat (kp_temperature p)), (''tools'', canon (kp_tools p)),
       (''top_p'', canon (kp_top_p p))]"
  by (simp add: canonical_payload_def sort_keys_def)

text \<open>
  C32. Keys separate: where the hash does not collide, two requests have one exact key only if
  they belong to one organisation, name one model in one wire format, and agree on messages,
  tools, \<open>top_p\<close> and \<open>max_tokens\<close> (up to the order of dictionary keys). Conversely nothing else
  of the body is part of the key: \<open>system\<close>, \<open>stop\<close>, \<open>response_format\<close> and \<open>tool_choice\<close> are not.
\<close>

theorem exact_key_iff:
  assumes "inj_on (en_sha env) {canon (canonical_payload (exact_parts org a)),
             canon (canonical_payload (exact_parts org' b))}"
    and "rq_format a \<in> {''openai'', ''anthropic''}" "rq_format b \<in> {''openai'', ''anthropic''}"
    and "rq_model a = Some m" "rq_model b = Some n"
  shows "exact_key env org a = exact_key env org' b \<longleftrightarrow>
     org = org' \<and> m = n \<and> rq_format a = rq_format b
     \<and> map canon (rq_messages a) = map canon (rq_messages b)
     \<and> canon (jget_null (rq_body a) ''tools'') = canon (jget_null (rq_body b) ''tools'')
     \<and> canon (jget_null (rq_body a) ''top_p'') = canon (jget_null (rq_body b) ''top_p'')
     \<and> canon (jget_null (rq_body a) ''max_tokens'') = canon (jget_null (rq_body b) ''max_tokens'')"
proof -
  have "model_class a = model_class b \<longleftrightarrow> m = n \<and> rq_format a = rq_format b"
  proof
    assume "model_class a = model_class b"
    then have eq: "m @ ''::'' @ rq_format a = n @ ''::'' @ rq_format b"
      using assms(4,5) by (simp add: model_class_def)
    from arg_cong [OF this, of last] assms(2,3) have "rq_format a = rq_format b" by auto
    with eq show "m = n \<and> rq_format a = rq_format b" by simp
  qed (use assms(4,5) in \<open>simp add: model_class_def\<close>)
  moreover have "exact_key env org a = exact_key env org' b \<longleftrightarrow>
      canon (canonical_payload (exact_parts org a)) = canon (canonical_payload (exact_parts org' b))"
    using inj_on_eq_iff [OF assms(1)] by (simp add: exact_key_def derive_exact_key_def)
  ultimately show ?thesis
    by (auto simp: canon_payload exact_parts_def)
qed

section \<open>Resolving the configuration leaves the entries alone\<close>

definition CFG_PREFIX :: string where
  "CFG_PREFIX = ''waddleai:cache:cfg:''"

definition beside_cfg :: "'s valkey \<Rightarrow> int \<Rightarrow> 's \<Rightarrow> int \<Rightarrow> string \<Rightarrow> blob option reply" where
  "beside_cfg c t s =
     (\<lambda>t' k. if t \<le> t' \<and> \<not> startswith CFG_PREFIX k then vk_get c t' s k else Raised)"

lemma scope_key_prefix: "startswith CFG_PREFIX (scope_cache_key sc)"
  unfolding scope_cache_key_def CFG_PREFIX_def by (rule startswith_append)

lemma frame_set_scope:
  assumes "valkey_laws c"
  shows "frame (beside_cfg c t) (command (\<lambda>s. vk_set c t s (scope_cache_key sc) x ex))"
  using valkey_get_set [OF assms] scope_key_prefix [of sc]
  by (intro frame_command) (auto simp: beside_cfg_def fun_eq_iff)

lemma frame_read_scopes: "frame obs (read_scopes c t scs)"
proof (induction scs)
  case (Cons sc scs)
  have "frame obs (case Option.bind (json_loads b) entry_dec of None \<Rightarrow> sraise
    | Some r \<Rightarrow> sbind (read_scopes c t scs) (\<lambda>rest. sret ((sc, Some r) # rest)))" for b
    using Cons by (cases "Option.bind (json_loads b) entry_dec") (auto intro!: frame_intro)
  with Cons show ?case by (auto intro!: frame_intro split: option.split)
qed (simp add: frame_sret)

lemma frame_fill_missing:
  assumes "valkey_laws c"
  shows "frame (beside_cfg c t) (fill_missing c t ttl fetched es)"
proof (induction es)
  case (Cons e es)
  obtain sc r where "e = (sc, r)" by fastforce
  with Cons show ?case
    by (cases r) (auto intro!: frame_sbind frame_sret frame_set_scope [OF assms])
qed (simp add: frame_sret)

lemma frame_resolve:
  "valkey_laws c \<Longrightarrow> frame (beside_cfg c t) (resolve c db ttl t org vkey)"
  unfolding resolve_def
  by (intro frame_intro frame_read_scopes frame_fill_missing)

lemma get_after_resolve:
  assumes "valkey_laws c" "resolve c db ttl t org vkey s = (r, s')" "t \<le> t'"
    and "\<not> startswith CFG_PREFIX k"
  shows "vk_get c t' s' k = vk_get c t' s k"
proof -
  from frameD [OF frame_resolve [OF assms(1)] assms(2)]
  have "beside_cfg c t s' t' k = beside_cfg c t s t' k" by simp
  with assms(3,4) show ?thesis by (simp add: beside_cfg_def)
qed

lemma entry_key_beside_cfg: "\<not> startswith CFG_PREFIX (entry_key org key)"
  by (simp add: startswith_def CFG_PREFIX_def cache_key_defs)

section \<open>Properties\<close>

text \<open>
  What a write-back stores is what later lookups replay: once the put of a response has
  reported success, every request of that organisation with the same key, as long as the entry
  lives and the exact layer is enabled, is answered with that response and no other, and the
  semantic table is not consulted.
\<close>

theorem stored_response_is_replayed:
  assumes "lru_laws (en_lru env)" "lru_up (en_lru env)" "rq_org rq = Some org"
    and "exact_put (en_blen env) (en_lru env) (en_fuel env) t org (exact_key env org rq)
           (cached_of response usage) ttl max_kb (en_quota_kb env) s = (Ok True, s')"
    and "t \<le> t'" "t' < t + seconds ttl"
    and "resolve (en_kv env) (en_configs env) DEFAULT_SCOPE_TTL_SECONDS t' org (rq_vkey rq) s'
           = (Ok cfg, s'')"
    and "cc_exact_enabled cfg" "is_exact_eligible (eligibility_body rq) = Inr True"
  shows "\<exists>s3. lookup env t' rq (s', tbl) = (Ok (hit Exact (cached_of response usage)), (s3, tbl))"
proof -
  let ?k = "entry_key org (exact_key env org rq)"
  have kv: "valkey_laws (en_kv env)"
    using valkey_of_lru [OF assms(1)] by (simp add: en_kv_def)
  have "vk_get (en_kv env) t' s'' ?k = vk_get (en_kv env) t' s' ?k"
    by (rule get_after_resolve [OF kv assms(7) order_refl entry_key_beside_cfg])
  with exact_put_entry [OF assms(1,4-6)]
  have g: "vk_get (lv_kv (en_lru env)) t' s'' ?k = Ok (Some (json_dumps (response_enc (cached_of response usage))))"
    by (simp add: en_kv_def)
  obtain s3 where z: "lv_zadd (en_lru env) t' s'' (idx_key org) (exact_key env org rq) = Ok s3"
    using assms(2) by (cases "lv_zadd (en_lru env) t' s'' (idx_key org) (exact_key env org rq)")
      (auto simp: lru_up_def)
  from g z have "exact_get (en_lru env) t' org (exact_key env org rq) s''
      = (Ok (Some (cached_of response usage)), s3)"
    by (simp add: exact_get_def script_simps response_codec.dec_enc)
  then have "exact_layer env t' org rq cfg (s'', tbl) = (Ok (Some (cached_of response usage), None), (s3, tbl))"
    using assms(8,9)
    by (simp add: exact_layer_def slift_def sbind_def sret_def on_left_def Let_def)
  then show ?thesis
    using assms(3,7) by (simp add: lookup_def sbind_def on_left_def sret_def)
qed

lemma exact_layer_writes:
  assumes "exact_layer env t org rq cfg st = (Ok (c, Some ws), st')"
  shows "is_exact_eligible (eligibility_body rq) = Inr True \<and>
    ws = [ExactWrite org (exact_key env org rq) (cc_ttl_seconds cfg) (cc_max_entry_kb cfg)]"
proof -
  from assms obtain el st1 where "is_exact_eligible (eligibility_body rq) = Inr el"
    and "(if \<not> el then sret (None, None)
          else let key = exact_key env org rq in
             sbind (on_left (exact_get (en_lru env) t org key)) (\<lambda>cached.
               case cached of
                 Some c \<Rightarrow> sret (Some c, None)
               | None \<Rightarrow> sret (None, Some [ExactWrite org key (cc_ttl_seconds cfg)
                   (cc_max_entry_kb cfg)]))) st1 = (Ok (c, Some ws), st')"
    unfolding exact_layer_def
    by (auto simp: sret_def slift_Ok dest!: sbind_OkD split: if_splits)
  then show ?thesis
    by (auto simp: sret_def Let_def dest!: sbind_OkD split: if_splits option.splits)
qed

lemma semantic_prompt_Some:
  assumes "semantic_prompt env rq = Inr (Some msg)"
  shows "length (rq_messages rq) \<le> 1 \<and> \<not> json_truthy (jget_null (rq_body rq) ''tools'')
    \<and> canon (JList (rq_messages rq)) = canon (json_or (jget_null (rq_body rq) ''messages'') (JList []))
    \<and> en_classify env msg = ''informational''"
proof -
  have ms: "json_or (JList ms) (JList []) = JList ms" for ms
    by (simp add: json_or_def)
  have "jget_null (eligibility_body rq) ''messages'' = JList (rq_messages rq)"
    by (simp add: eligibility_body_def jget_null_dict_set)
  with assms show ?thesis
    by (auto simp: semantic_prompt_def is_semantic_eligible_def request_flags_def rbind_Inr ms
        split: if_splits option.splits json.splits)
qed

lemma semantic_layer_writes:
  assumes "semantic_layer env t org rq cfg wb st = (Ok r, st')" "lk_write_back r = Some ws"
    and "w \<in> set ws" "\<forall>v. wb = Some v \<longrightarrow> w \<notin> set v"
  shows "\<exists>msg ttl. w = SemanticWrite org (model_class rq) msg (context_hash env org rq) ttl
    \<and> semantic_prompt env rq = Inr (Some msg)"
proof (cases "en_embedder env")
  case None
  with assms show ?thesis by (auto simp: semantic_layer_def sret_def miss_def)
next
  case (Some embedder)
  show ?thesis
  proof (cases "cc_semantic_enabled cfg")
    case False
    with Some assms show ?thesis by (auto simp: semantic_layer_def sret_def miss_def)
  next
    case True
    from assms(1) obtain prompt st1 where p: "semantic_prompt env rq = Inr prompt"
      and rest: "(case prompt of
          None \<Rightarrow> sret (miss wb)
        | Some msg \<Rightarrow>
            let h = context_hash env org rq in
             sbind (on_table (semantic_lookup embedder t org (model_class rq) msg h
               (cc_semantic_threshold cfg))) (\<lambda>cached.
               case cached of
                 Some c \<Rightarrow> sret (hit Semantic c)
               | None \<Rightarrow> sret (miss (Some (combine_write_backs wb
                   [SemanticWrite org (model_class rq) msg h (cc_ttl_seconds cfg)]))))) st1
        = (Ok r, st')"
      using Some True by (auto simp: semantic_layer_def slift_Ok dest!: sbind_OkD)
    show ?thesis
    proof (cases prompt)
      case None
      with rest assms show ?thesis by (auto simp: sret_def miss_def)
    next
      case (Some msg)
      with rest assms(2-4) p show ?thesis
        by (auto simp: sret_def miss_def hit_def Let_def combine_write_backs_def
            dest!: sbind_OkD split: option.splits)
    qed
  qed
qed

text \<open>
  Restrictions of the layers: a miss plans a write to the exact layer only for a request
  with temperature zero and no tool results, under the key of that request, and to the
  semantic table only for a single message, without tools, from a user, that the classifier
  calls informational and that nothing was injected into.
\<close>

theorem write_back_only_if_eligible:
  assumes "lookup env t rq st = (Ok r, st')" "lk_write_back r = Some ws" "rq_org rq = Some org"
    and "w \<in> set ws"
  shows "(case w of
      ExactWrite o1 key _ _ \<Rightarrow> o1 = org \<and> key = exact_key env org rq
        \<and> is_exact_eligible (eligibility_body rq) = Inr True
    | SemanticWrite o1 mc msg h _ \<Rightarrow> o1 = org \<and> mc = model_class rq \<and> h = context_hash env org rq
        \<and> length (rq_messages rq) \<le> 1 \<and> \<not> json_truthy (jget_null (rq_body rq) ''tools'')
        \<and> en_classify env msg = ''informational''
        \<and> canon (JList (rq_messages rq)) = canon (json_or (jget_null (rq_body rq) ''messages'') (JList [])))"
proof -
  from assms(1,3) obtain cfg c wb st1 st2 where
    ex: "exact_layer env t org rq cfg st1 = (Ok (c, wb), st2)"
    and rest: "(case c of Some c \<Rightarrow> sret (hit Exact c)
      | None \<Rightarrow> semantic_layer env t org rq cfg wb) st2 = (Ok r, st')"
    by (auto simp: lookup_def dest!: sbind_OkD)
  from rest assms(2) have sem: "semantic_layer env t org rq cfg wb st2 = (Ok r, st')"
    by (auto simp: sret_def hit_def split: option.splits)
  show ?thesis
  proof (cases "\<exists>v. wb = Some v \<and> w \<in> set v")
    case True
    with exact_layer_writes [of env t org rq cfg st1 c _ st2] ex show ?thesis by auto
  next
    case False
    from semantic_layer_writes [OF sem assms(2,4)] False obtain msg ttl where
      "w = SemanticWrite org (model_class rq) msg (context_hash env org rq) ttl"
      "semantic_prompt env rq = Inr (Some msg)" by blast
    with semantic_prompt_Some [of env rq msg] show ?thesis by simp
  qed
qed

section \<open>Witnesses\<close>

definition demo_env :: "mem_lru_state cache_env" where
  "demo_env = \<lparr>en_lru = mem_lru, en_incr = \<lambda>t s k. Raised, en_expire = \<lambda>t s k n. Raised,
     en_configs = [], en_sha = \<lambda>j. case j of JDict ((_, n) # _) \<Rightarrow> if n = JNull then ''n'' else ''m''
       | _ \<Rightarrow> [],
     en_render = \<lambda>_. [], en_tokens = \<lambda>_. 0, en_blen = demo_len, en_embedder = None,
     en_classify = default_classify_intent, en_fresh = \<lambda>_. 1, en_quota_kb = 1, en_fuel = 1\<rparr>"

definition demo_request :: "dict \<Rightarrow> cache_request" where
  "demo_request extra = \<lparr>rq_org = Some 1, rq_vkey = None,
     rq_body = (''temperature'', JInt 0) # extra,
     rq_messages = [JDict [(''role'', JStr ''user''), (''content'', JStr ''hi'')]],
     rq_model = Some ''m'', rq_format = ''openai''\<rparr>"

lemma demo_request_org [simp]: "rq_org (demo_request e) = Some 1"
  by (simp add: demo_request_def)

lemma exact_key_iff_witness:
  "exact_key demo_env 1 (demo_request []) = exact_key demo_env 1 (demo_request [(''system'', JStr ''be brief'')])
   \<and> exact_key demo_env 1 (demo_request []) \<noteq> exact_key demo_env 1 (demo_request [(''max_tokens'', JInt 9)])"
proof -
  have "inj_on (en_sha demo_env) {canon (canonical_payload (exact_parts 1 (demo_request []))),
      canon (canonical_payload (exact_parts 1 (demo_request e)))}"
    if "e = [(''system'', JStr ''be brief'')] \<or> e = [(''max_tokens'', JInt 9)]" for e
    using that by (auto simp: canon_payload exact_parts_def demo_request_def demo_env_def
        jget_null_def jget_def model_class_def)
  from exact_key_iff [OF this] show ?thesis
    by (simp add: demo_request_def jget_null_def jget_def)
qed

lemma demo_key [simp]: "exact_key demo_env 1 (demo_request []) = ''n''"
  by (simp add: exact_key_def derive_exact_key_def canon_payload exact_parts_def demo_request_def
      demo_env_def jget_null_def jget_def)

text \<open>The state after the write-back of a first request, and a second one's resolution.\<close>

definition demo_written :: mem_lru_state where
  "demo_written = ([entry_key 1 ''n'' \<mapsto> (json_dumps (response_enc (cached_of [] [])), Some 60000000),
      bytes_key 1 \<mapsto> (RawText (str_int 0), None)], (\<lambda>_. [])(idx_key 1 := [''n'']))"

lemma demo_put:
  "exact_put (en_blen demo_env) (en_lru demo_env) (en_fuel demo_env) 0 1
     (exact_key demo_env 1 (demo_request [])) (cached_of [] []) 60 256 (en_quota_kb demo_env) empty_lru
   = (Ok True, demo_written)"
  by (simp add: demo_put_simps Let_def demo_written_def cached_of_def)
    (simp add: demo_env_def demo_put_simps)

lemmas demo_resolve_simps = resolve_def scopes_def by_scope_def fetch_rows_def script_simps
  en_kv_def demo_env_def mem_lru_simps scope_cache_key_def cache_key_defs merge_def
  List.map_filter_def

lemma demo_resolve:
  "fst (resolve (en_kv demo_env) (en_configs demo_env) DEFAULT_SCOPE_TTL_SECONDS 5 1 None demo_written)
   = Ok HARD_DEFAULTS"
  by (simp add: demo_resolve_simps demo_written_def)

lemma demo_eligible: "is_exact_eligible (eligibility_body (demo_request [])) = Inr True"
  by (simp add: is_exact_eligible_def eligibility_body_def demo_request_def jget_null_def jget_def
      json_or_def message_has_tool_result_def TOOL_RESULT_ROLES_def)

lemma demo_first_lookup:
  "\<exists>st. lookup demo_env 0 (demo_request []) (empty_lru, []) =
     (Ok (miss (Some [ExactWrite 1 ''n'' 86400 256])), st)"
proof -
  obtain s1 where r: "resolve (en_kv demo_env) (en_configs demo_env) DEFAULT_SCOPE_TTL_SECONDS 0 1
      (rq_vkey (demo_request [])) empty_lru = (Ok HARD_DEFAULTS, s1)"
    by (simp add: demo_resolve_simps demo_request_def empty_lru_def)
  have kv: "valkey_laws (en_kv demo_env)"
    using mem_lru_laws by (simp add: en_kv_def demo_env_def lru_laws_def)
  have "vk_get (en_kv demo_env) 0 s1 (entry_key 1 ''n'') = Ok None"
    by (subst get_after_resolve [OF kv r order_refl entry_key_beside_cfg])
      (simp add: demo_resolve_simps empty_lru_def)
  then have "exact_layer demo_env 0 1 (demo_request []) HARD_DEFAULTS (s1, []) =
      (Ok (None, Some [ExactWrite 1 ''n'' 86400 256]), (s1, []))"
    by (simp add: exact_layer_def demo_eligible slift_def script_simps on_left_def Let_def
        exact_get_def en_kv_def HARD_DEFAULTS_def)
  moreover have "semantic_layer demo_env 0 1 (demo_request []) HARD_DEFAULTS wb = sret (miss wb)" for wb
    by (simp add: semantic_layer_def demo_env_def)
  ultimately show ?thesis using r
    by (simp add: lookup_def sbind_def on_left_def sret_def)
qed

lemma stored_response_is_replayed_witness:
  "fst (lookup demo_env 5 (demo_request []) (demo_written, [])) = Ok (hit Exact (cached_of [] []))"
proof -
  obtain s'' where r: "resolve (en_kv demo_env) (en_configs demo_env) DEFAULT_SCOPE_TTL_SECONDS 5 1
      (rq_vkey (demo_request [])) demo_written = (Ok HARD_DEFAULTS, s'')"
    using demo_resolve by (metis demo_request_def cache_request.select_convs(2) prod.collapse)
  from demo_eligible stored_response_is_replayed [OF _ _ _ demo_put _ _ r, of "[]"] mem_lru_laws mem_lru_up
  have "\<exists>s3. lookup demo_env 5 (demo_request []) (demo_written, [])
      = (Ok (hit Exact (cached_of [] [])), (s3, []))"
    by (simp add: demo_env_def demo_request_def HARD_DEFAULTS_def seconds_def)
  then show ?thesis by (metis fst_conv)
qed

lemma write_back_only_if_eligible_witness:
  "is_exact_eligible (eligibility_body (demo_request [])) = Inr True"
proof -
  from demo_first_lookup obtain st where "lookup demo_env 0 (demo_request []) (empty_lru, []) =
      (Ok (miss (Some [ExactWrite 1 ''n'' 86400 256])), st)" by blast
  from write_back_only_if_eligible [OF this, of _ 1 "ExactWrite 1 ''n'' 86400 256"] show ?thesis
    by (simp add: miss_def demo_request_def)
qed

end
