(* ===== verification/CacheReplay.thy ===== *)
theory CacheReplay
  imports ExactCache
begin

text \<open>
  Replay of cached responses as server-sent events (\<open>shared/cache/replay.py\<close>). A generator is
  the list of frames it yields and the exception that ends it, if one does. A frame keeps its
  document; its rendering to bytes is not modelled. \<open>orjson.dumps\<close> of a tool input, which is
  cut into pieces of text, is the parameter \<open>render\<close>; the clock readings are arguments.
\<close>

datatype sse_frame = Data json | Done | Event string json

type_synonym frames = "sse_frame list \<times> py_error option"

definition CHUNK_CHARS :: nat where
  "CHUNK_CHARS = 24"

function chunk_text :: "'a list \<Rightarrow> 'a list list" where
  "chunk_text s = (if s = [] then [] else take CHUNK_CHARS s # chunk_text (drop CHUNK_CHARS s))"
  by pat_completeness auto
termination by (relation "measure length") (auto simp: CHUNK_CHARS_def)

declare chunk_text.simps [simp del]

text \<open>\<open>_chunk_text\<close> on a value of any type: a str or a list can be sliced.\<close>

fun chunk_json :: "json \<Rightarrow> py_error + json list" where
  "chunk_json (JStr s) = Inr (map JStr (chunk_text s))"
| "chunk_json (JList xs) = Inr (map JList (chunk_text xs))"
| "chunk_json v = (if json_truthy v then Inl TypeError else Inr [])"

text \<open>\<open>v[0]\<close> of a truthy value.\<close>

fun py_first :: "json \<Rightarrow> py_error + json" where
  "py_first (JList (x # _)) = Inr x"
| "py_first (JStr (c # _)) = Inr (JStr [c])"
| "py_first (JDict _) = Inl KeyError"
| "py_first _ = Inl TypeError"

definition emit :: "sse_frame list \<Rightarrow> frames \<Rightarrow> frames" where
  "emit fs rest = (fs @ fst rest, snd rest)"

definition or_raise :: "py_error + 'a \<Rightarrow> ('a \<Rightarrow> frames) \<Rightarrow> frames" where
  "or_raise r f = (case r of Inl e \<Rightarrow> ([], Some e) | Inr a \<Rightarrow> f a)"

lemma or_raise_simps [simp]: "or_raise (Inl e) f = ([], Some e)" "or_raise (Inr a) f = f a"
  by (simp_all add: or_raise_def)

section \<open>Chat completions\<close>

definition openai_frame :: "json \<Rightarrow> json \<Rightarrow> json \<Rightarrow> json \<Rightarrow> json \<Rightarrow> json \<Rightarrow> bool \<Rightarrow> sse_frame" where
  "openai_frame rid created model usage delta finish include_usage =
     Data (JDict (
       [(''id'', rid), (''object'', JStr ''chat.completion.chunk''), (''created'', created),
        (''model'', model),
        (''choices'', JList [JDict [(''index'', JInt 0), (''delta'', delta),
           (''finish_reason'', finish)]])] @
       (if include_usage \<and> usage \<noteq> JNull then [(''usage'', usage)] else [])))"

definition replay_openai_sse :: "int \<Rightarrow> cached_response \<Rightarrow> frames" where
  "replay_openai_sse now_s cached =
     (let body = cr_response cached in
      or_raise (py_first (json_or (jget_null body ''choices'') (JList [JDict []]))) (\<lambda>c0.
      or_raise (must_dict c0) (\<lambda>choice.
      or_raise (must_dict (json_or (jget_null choice ''message'') (JDict []))) (\<lambda>message.
      let content = json_or (jget_null message ''content'') (JStr []);
          finish = jget_null choice ''finish_reason'';
          rid = json_or (jget_null body ''id'') (JStr (''chatcmpl-'' @ str_int now_s));
          frame = openai_frame rid (jget_or body ''created'' (JInt now_s))
            (jget_or body ''model'' (JStr [])) (jget_null body ''usage'')
      in emit [frame (JDict [(''role'', JStr ''assistant'')]) JNull False]
          (or_raise (chunk_json content) (\<lambda>pieces.
            (map (\<lambda>p. frame (JDict [(''content'', p)]) JNull False) pieces @
             [frame (JDict []) finish True, Done], None)))))))"

section \<open>Messages\<close>

definition event :: "string \<Rightarrow> (string \<times> json) list \<Rightarrow> sse_frame" where
  "event name flds = Event name (JDict ((''type'', JStr name) # flds))"

definition message_start :: "json \<Rightarrow> json \<Rightarrow> dict \<Rightarrow> sse_frame" where
  "message_start rid model usage =
     event ''message_start''
       [(''message'', JDict [(''id'', rid), (''type'', JStr ''message''),
          (''role'', JStr ''assistant''), (''content'', JList []), (''model'', model),
          (''stop_reason'', JNull), (''stop_sequence'', JNull),
          (''usage'', JDict [(''input_tokens'', jget_or usage ''input_tokens'' (JInt 0)),
             (''output_tokens'', JInt 0)])])]"

definition block_start :: "nat \<Rightarrow> json \<Rightarrow> sse_frame" where
  "block_start i b =
     event ''content_block_start'' [(''index'', JInt (int i)), (''content_block'', b)]"

definition block_delta :: "nat \<Rightarrow> json \<Rightarrow> sse_frame" where
  "block_delta i d =
     event ''content_block_delta'' [(''index'', JInt (int i)), (''delta'', d)]"

definition block_stop :: "nat \<Rightarrow> sse_frame" where
  "block_stop i = event ''content_block_stop'' [(''index'', JInt (int i))]"

definition replay_block :: "(json \<Rightarrow> string) \<Rightarrow> nat \<Rightarrow> dict \<Rightarrow> frames" where
  "replay_block render i block =
     (if jget_null block ''type'' = JStr ''tool_use'' then
        (let partial_json = render (json_or (jget_null block ''input'') (JDict []))
         in (block_start i (JDict [(''type'', JStr ''tool_use''), (''id'', jget_null block ''id''),
                (''name'', jget_null block ''name''), (''input'', JDict [])]) #
             map (\<lambda>p. block_delta i (JDict [(''type'', JStr ''input_json_delta''),
                (''partial_json'', JStr p)])) (chunk_text partial_json) @
             [block_stop i], None))
      else
        emit [block_start i (JDict [(''type'', JStr ''text''), (''text'', JStr [])])]
          (or_raise (chunk_json (jget_or block ''text'' (JStr []))) (\<lambda>pieces.
             (map (\<lambda>p. block_delta i (JDict [(''type'', JStr ''text_delta''), (''text'', p)]))
                pieces @ [block_stop i], None))))"

fun replay_blocks :: "(json \<Rightarrow> string) \<Rightarrow> nat \<Rightarrow> json list \<Rightarrow> frames" where
  "replay_blocks render i [] = ([], None)"
| "replay_blocks render i (b # bs) =
     or_raise (must_dict b) (\<lambda>block.
       case replay_block render i block of
         (fs, Some e) \<Rightarrow> (fs, Some e)
       | (fs, None) \<Rightarrow> emit fs (replay_blocks render (Suc i) bs))"

definition replay_anthropic_sse ::
    "(json \<Rightarrow> string) \<Rightarrow> int \<Rightarrow> cached_response \<Rightarrow> frames" where
  "replay_anthropic_sse render now_ms cached =
     (let body = cr_response cached in
      or_raise (must_dict (json_or (jget_null body ''usage'') (JDict []))) (\<lambda>usage.
      let rid = json_or (jget_null body ''id'') (JStr (''msg_'' @ str_int now_ms))
      in emit [message_start rid (jget_or body ''model'' (JStr [])) usage]
          (or_raise (py_iter (json_or (jget_null body ''content'') (JList []))) (\<lambda>blocks.
             case replay_blocks render 0 blocks of
               (fs, Some e) \<Rightarrow> (fs, Some e)
             | (fs, None) \<Rightarrow>
                 (fs @ [event ''message_delta''
                    [(''delta'', JDict [(''stop_reason'', jget_null body ''stop_reason''),
                        (''stop_sequence'', jget_null body ''stop_sequence'')]),
                     (''usage'', JDict usage)],
                   event ''message_stop'' []], None)))))"

section \<open>What a client reassembles\<close>

text \<open>The text a streaming chat client accumulates from the deltas, and the last frame's facts.\<close>

definition delta_of :: "sse_frame \<Rightarrow> dict" where
  "delta_of f = (case f of
     Data (JDict d) \<Rightarrow>
       (case jget d ''choices'' of
          Some (JList [JDict c]) \<Rightarrow> (case jget c ''delta'' of Some (JDict e) \<Rightarrow> e | _ \<Rightarrow> [])
        | _ \<Rightarrow> [])
   | _ \<Rightarrow> [])"

definition content_of :: "sse_frame \<Rightarrow> string" where
  "content_of f = (case jget (delta_of f) ''content'' of Some (JStr s) \<Rightarrow> s | _ \<Rightarrow> [])"

definition chat_text :: "sse_frame list \<Rightarrow> string" where
  "chat_text fs = concat (map content_of fs)"

text \<open>
  A Messages client: each \<open>content_block_start\<close> opens a block with the index announced, each
  delta extends the block of its index, which must be the one last opened. \<open>None\<close> is a
  violation of the protocol.
\<close>

definition field :: "json \<Rightarrow> string \<Rightarrow> json" where
  "field j k = (case j of JDict d \<Rightarrow> jget_null d k | _ \<Rightarrow> JNull)"

definition delta_text :: "json \<Rightarrow> string" where
  "delta_text d =
     (case field d (if field d ''type'' = JStr ''input_json_delta'' then ''partial_json''
                    else ''text'') of JStr s \<Rightarrow> s | _ \<Rightarrow> [])"

fun assemble :: "sse_frame list \<Rightarrow> nat \<Rightarrow> (json \<times> string) option \<Rightarrow> (json \<times> string) list option" where
  "assemble [] n cur = (if cur = None then Some [] else None)"
| "assemble (Event name j # fs) n cur =
     (if name = ''content_block_start'' then
        (if cur = None \<and> field j ''index'' = JInt (int n)
         then assemble fs n (Some (field j ''content_block'', [])) else None)
      else if name = ''content_block_delta'' then
        (case cur of
           Some (b, s) \<Rightarrow>
             if field j ''index'' = JInt (int n)
             then assemble fs n (Some (b, s @ delta_text (field j ''delta''))) else None
         | None \<Rightarrow> None)
      else if name = ''content_block_stop'' then
        (case cur of
           Some b \<Rightarrow>
             if field j ''index'' = JInt (int n)
             then map_option ((#) b) (assemble fs (Suc n) None) else None
         | None \<Rightarrow> None)
      else if cur = None then assemble fs n None
      else None)"
| "assemble (_ # fs) n cur = None"

text \<open>What the cached response holds, block by block.\<close>

definition block_view :: "(json \<Rightarrow> string) \<Rightarrow> dict \<Rightarrow> json \<times> string" where
  "block_view render b =
     (if jget_null b ''type'' = JStr ''tool_use'' then
        (JDict [(''type'', JStr ''tool_use''), (''id'', jget_null b ''id''),
                (''name'', jget_null b ''name''), (''input'', JDict [])],
         render (json_or (jget_null b ''input'') (JDict [])))
      else (JDict [(''type'', JStr ''text''), (''text'', JStr [])],
            case jget b ''text'' of Some (JStr s) \<Rightarrow> s | _ \<Rightarrow> []))"

definition replayable_block :: "dict \<Rightarrow> bool" where
  "replayable_block b \<longleftrightarrow> jget_null b ''type'' = JStr ''tool_use'' \<or>
     (case jget_or b ''text'' (JStr []) of JStr s \<Rightarrow> True | _ \<Rightarrow> False)"

section \<open>Lemmas\<close>

lemma chunk_text_Nil [simp]: "chunk_text [] = []"
  by (simp add: chunk_text.simps)

lemma chunk_text_nonempty:
  "s \<noteq> [] \<Longrightarrow> chunk_text s = take CHUNK_CHARS s # chunk_text (drop CHUNK_CHARS s)"
  by (subst chunk_text.simps) simp

lemma concat_chunks: "concat (chunk_text s) = s"
proof (induction s rule: chunk_text.induct)
  case (1 s)
  then show ?case by (cases "s = []") (simp_all add: chunk_text_nonempty)
qed

lemma chunk_sizes: "p \<in> set (chunk_text s) \<Longrightarrow> length p \<le> CHUNK_CHARS"
proof (induction s rule: chunk_text.induct)
  case (1 s)
  then show ?case by (cases "s = []") (auto simp: chunk_text_nonempty)
qed

lemmas event_simps = event_def block_start_def block_delta_def block_stop_def message_start_def
  field_def jget_null_def jget_def delta_text_def

lemma assemble_text_deltas:
  "assemble (map (\<lambda>p. block_delta n (JDict [(''type'', JStr ''text_delta''), (''text'', p)]))
       (map JStr ps) @ fs) n (Some (b, s)) = assemble fs n (Some (b, s @ concat ps))"
  by (induction ps arbitrary: s) (simp_all add: event_simps)

lemma assemble_json_deltas:
  "assemble (map (\<lambda>p. block_delta n (JDict [(''type'', JStr ''input_json_delta''),
       (''partial_json'', JStr p)])) ps @ fs) n (Some (b, s)) = assemble fs n (Some (b, s @ concat ps))"
  by (induction ps arbitrary: s) (simp_all add: event_simps)

lemma assemble_start [simp]:
  "assemble (block_start n b # fs) n None = assemble fs n (Some (b, []))"
  by (simp add: event_simps)

lemma assemble_stop [simp]:
  "assemble (block_stop n # fs) n (Some b) = map_option ((#) b) (assemble fs (Suc n) None)"
  by (simp add: event_simps)

lemma assemble_block:
  assumes "replayable_block b"
  shows "snd (replay_block render n b) = None \<and>
    assemble (fst (replay_block render n b) @ fs) n None =
      map_option ((#) (block_view render b)) (assemble fs (Suc n) None)"
proof (cases "jget_null b ''type'' = JStr ''tool_use''")
  case True
  then show ?thesis
    by (simp add: replay_block_def block_view_def assemble_json_deltas concat_chunks)
next
  case False
  with assms obtain s where s: "jget_or b ''text'' (JStr []) = JStr s"
    by (auto simp: replayable_block_def split: json.splits)
  then have "(case jget b ''text'' of Some (JStr s) \<Rightarrow> s | _ \<Rightarrow> []) = s"
    by (auto simp: jget_or_def split: option.splits)
  with False s show ?thesis
    by (simp add: replay_block_def block_view_def emit_def assemble_text_deltas concat_chunks
        del: map_map)
qed

lemma assemble_blocks:
  assumes "list_all replayable_block bs"
  shows "snd (replay_blocks render n (map JDict bs)) = None \<and>
    assemble (fst (replay_blocks render n (map JDict bs)) @ fs) n None =
      map_option ((@) (map (block_view render) bs)) (assemble fs (n + length bs) None)"
  using assms
proof (induction bs arbitrary: n)
  case Nil
  then show ?case by (simp add: option.map_ident)
next
  case (Cons b bs)
  then have b: "replayable_block b" and bs: "list_all replayable_block bs" by simp_all
  obtain gs where gs: "replay_block render n b = (gs, None)"
    using assemble_block [OF b, of render n] by (cases "replay_block render n b") auto
  obtain hs where hs: "replay_blocks render (Suc n) (map JDict bs) = (hs, None)"
    using Cons.IH [OF bs, of "Suc n"] by (cases "replay_blocks render (Suc n) (map JDict bs)") auto
  from assemble_block [OF b, of render n "hs @ fs"] Cons.IH [OF bs, of "Suc n"] gs hs
  show ?case by (simp add: emit_def option.map_comp comp_def)
qed

lemma content_of_frame [simp]:
  "content_of (openai_frame rid created model usage (JDict [(''content'', JStr p)]) fin u) = p"
  "content_of (openai_frame rid created model usage (JDict [(''role'', v)]) fin u) = []"
  "content_of (openai_frame rid created model usage (JDict []) fin u) = []"
  "content_of Done = []"
  by (simp_all add: content_of_def delta_of_def openai_frame_def jget_def)

section \<open>Properties\<close>

text \<open>
  Round trip of the Messages replay: for cached blocks with text or tool input, the event
  sequence raises nothing, obeys the start/delta/stop protocol with consecutive indices, and
  a client reassembles exactly the cached blocks, in order.
\<close>

theorem replay_anthropic_round_trip:
  assumes "jget (cr_response r) ''content'' = Some (JList (map JDict bs))"
    and "list_all replayable_block bs"
    and "jget (cr_response r) ''usage'' = Some (JDict u)"
  shows "snd (replay_anthropic_sse render now r) = None
       \<and> assemble (fst (replay_anthropic_sse render now r)) 0 None = Some (map (block_view render) bs)"
proof -
  have usage: "must_dict (json_or (jget_null (cr_response r) ''usage'') (JDict [])) = Inr u"
    using assms(3) by (simp add: jget_null_def json_or_def)
  have blocks: "py_iter (json_or (jget_null (cr_response r) ''content'') (JList [])) = Inr (map JDict bs)"
    using assms(1) by (simp add: jget_null_def json_or_def)
  obtain fs where fs: "replay_blocks render 0 (map JDict bs) = (fs, None)"
    using assemble_blocks [OF assms(2), of render 0] by (cases "replay_blocks render 0 (map JDict bs)") auto
  have skip: "assemble (event n xs # gs) k None = assemble gs k None"
    if "n \<notin> {''content_block_start'', ''content_block_delta'', ''content_block_stop''}" for n xs gs k
    using that by (simp add: event_def)
  from assemble_blocks [OF assms(2), of render 0] fs show ?thesis
    by (simp add: replay_anthropic_sse_def usage blocks Let_def emit_def skip message_start_def)
qed

text \<open>
  Round trip of the chat replay: the deltas concatenate to the cached text, the stream
  ends with the cached finish reason (and the usage block, if any) and the end marker, and no
  delta is longer than the chunk size.
\<close>

theorem replay_openai_round_trip:
  assumes "jget (cr_response r) ''choices'' = Some (JList (JDict choice # others))"
    and "jget choice ''message'' = Some (JDict message)"
    and "jget message ''content'' = Some (JStr s)"
  shows "\<exists>fs last_frame. replay_openai_sse now r = (fs @ [last_frame, Done], None)
       \<and> chat_text (fst (replay_openai_sse now r)) = s
       \<and> last_frame = openai_frame (json_or (jget_null (cr_response r) ''id'')
             (JStr (''chatcmpl-'' @ str_int now)))
           (jget_or (cr_response r) ''created'' (JInt now))
           (jget_or (cr_response r) ''model'' (JStr [])) (jget_null (cr_response r) ''usage'')
           (JDict []) (jget_null choice ''finish_reason'') True
       \<and> list_all (\<lambda>f. length (content_of f) \<le> CHUNK_CHARS) fs"
proof -
  let ?frame = "openai_frame (json_or (jget_null (cr_response r) ''id'')
       (JStr (''chatcmpl-'' @ str_int now))) (jget_or (cr_response r) ''created'' (JInt now))
     (jget_or (cr_response r) ''model'' (JStr [])) (jget_null (cr_response r) ''usage'')"
  let ?last = "?frame (JDict []) (jget_null choice ''finish_reason'') True"
  let ?first = "?frame (JDict [(''role'', JStr ''assistant'')]) JNull False"
  let ?deltas = "map (\<lambda>p. ?frame (JDict [(''content'', JStr p)]) JNull False) (chunk_text s)"
  have "message \<noteq> []" using assms(3) by (auto simp: jget_def)
  then have m: "must_dict (json_or (jget_null choice ''message'') (JDict [])) = Inr message"
    using assms(2) by (simp add: jget_null_def json_or_def)
  have c: "py_first (json_or (jget_null (cr_response r) ''choices'') (JList [JDict []])) = Inr (JDict choice)"
    using assms(1) by (simp add: jget_null_def json_or_def)
  have t: "chunk_json (json_or (jget_null message ''content'') (JStr [])) = Inr (map JStr (chunk_text s))"
    using assms(3) by (simp add: jget_null_def json_or_def)
  have r: "replay_openai_sse now r = ((?first # ?deltas) @ [?last, Done], None)"
    by (simp add: replay_openai_sse_def c m t Let_def emit_def comp_def)
  have "chat_text ((?first # ?deltas) @ [?last, Done]) = s"
    by (simp add: chat_text_def comp_def concat_chunks)
  moreover have "list_all (\<lambda>f. length (content_of f) \<le> CHUNK_CHARS) (?first # ?deltas)"
    using chunk_sizes by (auto simp: list_all_iff)
  ultimately show ?thesis unfolding r fst_conv by blast
qed

section \<open>Witnesses\<close>

definition demo_message :: cached_response where
  "demo_message = \<lparr>cr_response =
       [(''content'', JList [JDict [(''type'', JStr ''text''), (''text'', JStr ''hello'')],
          JDict [(''type'', JStr ''tool_use''), (''id'', JStr ''t1''), (''name'', JStr ''ls''),
            (''input'', JNull)]]),
        (''usage'', JDict [(''input_tokens'', JInt 3)])],
     cr_usage = JNull, cr_stored_at = 0\<rparr>"

lemma replay_anthropic_round_trip_witness:
  "assemble (fst (replay_anthropic_sse (\<lambda>_. ''{}'') 5 demo_message)) 0 None =
     Some [(JDict [(''type'', JStr ''text''), (''text'', JStr [])], ''hello''),
       (JDict [(''type'', JStr ''tool_use''), (''id'', JStr ''t1''), (''name'', JStr ''ls''),
          (''input'', JDict [])], ''{}'')]"
  using replay_anthropic_round_trip [of demo_message
      "[[(''type'', JStr ''text''), (''text'', JStr ''hello'')],
        [(''type'', JStr ''tool_use''), (''id'', JStr ''t1''), (''name'', JStr ''ls''),
         (''input'', JNull)]]" "[(''input_tokens'', JInt 3)]" "\<lambda>_. ''{}''" 5]
  by (simp add: demo_message_def jget_def replayable_block_def block_view_def jget_or_def
      jget_null_def json_or_def)

definition demo_completion :: cached_response where
  "demo_completion = \<lparr>cr_response =
       [(''choices'', JList [JDict [(''message'', JDict [(''content'',
          JStr ''a response of more than one chunk'')]), (''finish_reason'', JStr ''stop'')]])],
     cr_usage = JNull, cr_stored_at = 0\<rparr>"

lemma replay_openai_round_trip_witness:
  "chat_text (fst (replay_openai_sse 5 demo_completion)) = ''a response of more than one chunk''"
proof -
  let ?m = "[(''content'', JStr ''a response of more than one chunk'')]"
  let ?c = "[(''message'', JDict ?m), (''finish_reason'', JStr ''stop'')]"
  have "jget (cr_response demo_completion) ''choices'' = Some (JList [JDict ?c])"
    "jget ?c ''message'' = Some (JDict ?m)"
    "jget ?m ''content'' = Some (JStr ''a response of more than one chunk'')"
    by (simp_all add: demo_completion_def jget_def)
  from replay_openai_round_trip [OF this, of 5] show ?thesis by blast
qed

end
