(* ===== verification/SecPolicy.thy ===== *)
theory SecPolicy
  imports Layers
begin

text \<open>
  \<open>shared/security/policy_resolver.py\<close>: the chain global, org, model, tool namespace, tool,
  merged field by field over the hardcoded floor, cached in Valkey and cleared wholesale on a
  policy write. The \<open>security_policies\<close> table is the list of its rows.
\<close>

record resolved_policy =
  tier1_enabled :: bool
  tier2_enabled :: bool
  tier3_enabled :: bool
  tier4_enabled :: bool
  tier4_model :: "string option"
  intent_classifier_enabled :: bool
  intent_categories :: "string list"
  block_action :: string
  fail_mode :: string
  on_unclassifiable :: string
  auditor_timeout_ms :: int
  latency_budget_ms :: "int option"
  sample_rate :: int
  upstream_filters :: "dict option"

definition policy_floor :: resolved_policy where
  "policy_floor =
     \<lparr>tier1_enabled = True, tier2_enabled = True, tier3_enabled = True, tier4_enabled = True,
      tier4_model = None, intent_classifier_enabled = False, intent_categories = [],
      block_action = ''redact'', fail_mode = ''degrade'', on_unclassifiable = ''reject'',
      auditor_timeout_ms = 5000, latency_budget_ms = None, sample_rate = 100,
      upstream_filters = None\<rparr>"

text \<open>A row: its scope, its direction, and the nullable columns.\<close>

record policy_row =
  pr_scope_type :: string
  pr_scope_ref :: "string option"
  pr_direction :: string
  pr_tier1_enabled :: "bool option"
  pr_tier2_enabled :: "bool option"
  pr_tier3_enabled :: "bool option"
  pr_tier4_enabled :: "bool option"
  pr_tier4_model :: "string option"
  pr_intent_classifier_enabled :: "bool option"
  pr_intent_categories :: "string list option"
  pr_block_action :: "string option"
  pr_fail_mode :: "string option"
  pr_on_unclassifiable :: "string option"
  pr_auditor_timeout_ms :: "int option"
  pr_latency_budget_ms :: "int option"
  pr_sample_rate :: "int option"
  pr_upstream_filters :: "dict option"

definition set_field :: "'a \<Rightarrow> 'a option \<Rightarrow> 'a" where
  "set_field old v = (case v of None \<Rightarrow> old | Some x \<Rightarrow> x)"

definition set_optional :: "'a option \<Rightarrow> 'a option \<Rightarrow> 'a option" where
  "set_optional old v = (case v of None \<Rightarrow> old | Some x \<Rightarrow> Some x)"

definition merge_policy_row :: "resolved_policy \<Rightarrow> policy_row \<Rightarrow> resolved_policy" where
  "merge_policy_row m r =
     \<lparr>tier1_enabled = set_field (tier1_enabled m) (pr_tier1_enabled r),
      tier2_enabled = set_field (tier2_enabled m) (pr_tier2_enabled r),
      tier3_enabled = set_field (tier3_enabled m) (pr_tier3_enabled r),
      tier4_enabled = set_field (tier4_enabled m) (pr_tier4_enabled r),
      tier4_model = set_optional (tier4_model m) (pr_tier4_model r),
      intent_classifier_enabled =
        set_field (intent_classifier_enabled m) (pr_intent_classifier_enabled r),
      intent_categories = set_field (intent_categories m) (pr_intent_categories r),
      block_action = set_field (block_action m) (pr_block_action r),
      fail_mode = set_field (fail_mode m) (pr_fail_mode r),
      on_unclassifiable = set_field (on_unclassifiable m) (pr_on_unclassifiable r),
      auditor_timeout_ms = set_field (auditor_timeout_ms m) (pr_auditor_timeout_ms r),
      latency_budget_ms = set_optional (latency_budget_ms m) (pr_latency_budget_ms r),
      sample_rate = set_field (sample_rate m) (pr_sample_rate r),
      upstream_filters = set_optional (upstream_filters m) (pr_upstream_filters r)\<rparr>"

definition fetch_policy_rows :: "policy_row list \<Rightarrow> string \<Rightarrow> string option \<Rightarrow> policy_row list" where
  "fetch_policy_rows table ty ref = filter (\<lambda>r. pr_scope_type r = ty \<and> pr_scope_ref r = ref) table"

definition best_row ::
    "policy_row list \<Rightarrow> string \<Rightarrow> string option \<Rightarrow> string \<Rightarrow> policy_row option" where
  "best_row table ty ref direction =
     (let rows = fetch_policy_rows table ty ref in
      case List.find (\<lambda>r. pr_direction r = direction) rows of
        Some r \<Rightarrow> Some r
      | None \<Rightarrow> List.find (\<lambda>r. pr_direction r = ''both'') rows)"

definition mcp_namespace :: "string \<Rightarrow> string option" where
  "mcp_namespace tool =
     (case split_first (CHR ''.'') tool of None \<Rightarrow> None | Some (p, _) \<Rightarrow> Some (p @ ''.*''))"

definition scope_chain ::
    "int option \<Rightarrow> string option \<Rightarrow> string option \<Rightarrow> (string \<times> string option) list" where
  "scope_chain org model tool =
     org_scope_chain org @
     (if truthy model then [(''model'', model)] else []) @
     (if truthy tool then
        (case mcp_namespace (the tool) of None \<Rightarrow> [] | Some ns \<Rightarrow> [(''tool'', Some ns)]) @
        [(''tool'', tool)]
      else [])"

definition chain_rows ::
    "policy_row list \<Rightarrow> int option \<Rightarrow> string option \<Rightarrow> string option \<Rightarrow> string \<Rightarrow> policy_row list" where
  "chain_rows table org model tool direction =
     List.map_filter (\<lambda>(ty, ref). best_row table ty ref direction) (scope_chain org model tool)"

definition merge_chain ::
    "policy_row list \<Rightarrow> int option \<Rightarrow> string option \<Rightarrow> string option \<Rightarrow> string \<Rightarrow> resolved_policy" where
  "merge_chain table org model tool direction =
     foldl merge_policy_row policy_floor (chain_rows table org model tool direction)"

definition opt_text :: "string option \<Rightarrow> string" where
  "opt_text s = (case s of None \<Rightarrow> ''None'' | Some t \<Rightarrow> t)"

definition secpol_cache_key :: "int option \<Rightarrow> string option \<Rightarrow> string option \<Rightarrow> string \<Rightarrow> string" where
  "secpol_cache_key org model tool direction =
     ''waddleai:secpol:'' @ ref_text org @ '':'' @ opt_text model @ '':'' @ opt_text tool @
     '':'' @ direction"

definition resolved_policy_enc :: "resolved_policy \<Rightarrow> json" where
  "resolved_policy_enc p =
     JDict [(''tier1_enabled'', JBool (tier1_enabled p)),
            (''tier2_enabled'', JBool (tier2_enabled p)),
            (''tier3_enabled'', JBool (tier3_enabled p)),
            (''tier4_enabled'', JBool (tier4_enabled p)),
            (''tier4_model'', of_opt JStr (tier4_model p)),
            (''intent_classifier_enabled'', JBool (intent_classifier_enabled p)),
            (''intent_categories'', JList (map JStr (intent_categories p))),
            (''block_action'', JStr (block_action p)),
            (''fail_mode'', JStr (fail_mode p)),
            (''on_unclassifiable'', JStr (on_unclassifiable p)),
            (''auditor_timeout_ms'', JInt (auditor_timeout_ms p)),
            (''latency_budget_ms'', of_opt JInt (latency_budget_ms p)),
            (''sample_rate'', JInt (sample_rate p)),
            (''upstream_filters'', of_opt JDict (upstream_filters p))]"

fun as_dict :: "json \<Rightarrow> dict option" where
  "as_dict (JDict d) = Some d"
| "as_dict _ = None"

definition POLICY_KEYS :: "string list" where
  "POLICY_KEYS =
     [''tier1_enabled'', ''tier2_enabled'', ''tier3_enabled'', ''tier4_enabled'', ''tier4_model'',
      ''intent_classifier_enabled'', ''intent_categories'', ''block_action'', ''fail_mode'',
      ''on_unclassifiable'', ''auditor_timeout_ms'', ''latency_budget_ms'', ''sample_rate'',
      ''upstream_filters'']"

definition resolved_policy_dec :: "json \<Rightarrow> resolved_policy option" where
  "resolved_policy_dec j =
     (case j of
        JDict d \<Rightarrow>
          (let c = policy_floor in
           if only_keys d POLICY_KEYS then
             Option.bind (kwarg d ''tier1_enabled'' as_bool (tier1_enabled c)) (\<lambda>t1.
             Option.bind (kwarg d ''tier2_enabled'' as_bool (tier2_enabled c)) (\<lambda>t2.
             Option.bind (kwarg d ''tier3_enabled'' as_bool (tier3_enabled c)) (\<lambda>t3.
             Option.bind (kwarg d ''tier4_enabled'' as_bool (tier4_enabled c)) (\<lambda>t4.
             Option.bind (kwarg d ''tier4_model'' (as_opt as_str) (tier4_model c)) (\<lambda>tm.
             Option.bind (kwarg d ''intent_classifier_enabled'' as_bool
                (intent_classifier_enabled c)) (\<lambda>ie.
             Option.bind (as_list as_str
                (json_or (jget_null d ''intent_categories'') (JList []))) (\<lambda>ic.
             Option.bind (kwarg d ''block_action'' as_str (block_action c)) (\<lambda>ba.
             Option.bind (kwarg d ''fail_mode'' as_str (fail_mode c)) (\<lambda>fm.
             Option.bind (kwarg d ''on_unclassifiable'' as_str (on_unclassifiable c)) (\<lambda>ou.
             Option.bind (kwarg d ''auditor_timeout_ms'' as_int (auditor_timeout_ms c)) (\<lambda>tmo.
             Option.bind (kwarg d ''latency_budget_ms'' (as_opt as_int) (latency_budget_ms c)) (\<lambda>lb.
             Option.bind (kwarg d ''sample_rate'' as_int (sample_rate c)) (\<lambda>sr.
             Option.bind (kwarg d ''upstream_filters'' (as_opt as_dict) (upstream_filters c)) (\<lambda>uf.
               Some \<lparr>tier1_enabled = t1, tier2_enabled = t2, tier3_enabled = t3,
                     tier4_enabled = t4, tier4_model = tm, intent_classifier_enabled = ie,
                     intent_categories = ic, block_action = ba, fail_mode = fm,
                     on_unclassifiable = ou, auditor_timeout_ms = tmo, latency_budget_ms = lb,
                     sample_rate = sr, upstream_filters = uf\<rparr>))))))))))))))
           else None)
      | _ \<Rightarrow> None)"

definition resolve_policy ::
    "'s valkey option \<Rightarrow> int \<Rightarrow> 's \<Rightarrow> policy_row list \<Rightarrow> int option \<Rightarrow> string option \<Rightarrow>
     string option \<Rightarrow> string \<Rightarrow> resolved_policy \<times> 's" where
  "resolve_policy vk t s table org model tool direction =
     (let key = secpol_cache_key org model tool direction in
      case cache_read vk resolved_policy_dec t s key of
        Some p \<Rightarrow> (p, s)
      | None \<Rightarrow>
          (let p = merge_chain table org model tool direction
           in (p, cache_write vk resolved_policy_enc t s key 300 p)))"

definition invalidate_policies ::
    "'s valkey option \<Rightarrow> (int \<Rightarrow> 's \<Rightarrow> string \<Rightarrow> string list reply) \<Rightarrow> int \<Rightarrow> 's \<Rightarrow> 's" where
  "invalidate_policies vk scan t s = invalidate_prefix vk scan t s ''waddleai:secpol:''"

section \<open>Every field is the most specific row's\<close>

lemmas merge_field_simps = merge_policy_row_def set_field_def set_optional_def

interpretation f_tier1: layered_field merge_policy_row tier1_enabled pr_tier1_enabled
  by unfold_locales (simp add: merge_field_simps)
interpretation f_tier2: layered_field merge_policy_row tier2_enabled pr_tier2_enabled
  by unfold_locales (simp add: merge_field_simps)
interpretation f_tier3: layered_field merge_policy_row tier3_enabled pr_tier3_enabled
  by unfold_locales (simp add: merge_field_simps)
interpretation f_tier4: layered_field merge_policy_row tier4_enabled pr_tier4_enabled
  by unfold_locales (simp add: merge_field_simps)
interpretation f_tier4_model: layered_field merge_policy_row tier4_model
  "\<lambda>r. map_option Some (pr_tier4_model r)"
  by unfold_locales (simp add: merge_field_simps split: option.split)
interpretation f_intent: layered_field merge_policy_row intent_classifier_enabled
  pr_intent_classifier_enabled
  by unfold_locales (simp add: merge_field_simps)
interpretation f_categories: layered_field merge_policy_row intent_categories pr_intent_categories
  by unfold_locales (simp add: merge_field_simps)
interpretation f_action: layered_field merge_policy_row block_action pr_block_action
  by unfold_locales (simp add: merge_field_simps)
interpretation f_fail: layered_field merge_policy_row fail_mode pr_fail_mode
  by unfold_locales (simp add: merge_field_simps)
interpretation f_unclassifiable: layered_field merge_policy_row on_unclassifiable
  pr_on_unclassifiable
  by unfold_locales (simp add: merge_field_simps)
interpretation f_timeout: layered_field merge_policy_row auditor_timeout_ms pr_auditor_timeout_ms
  by unfold_locales (simp add: merge_field_simps)
interpretation f_budget: layered_field merge_policy_row latency_budget_ms
  "\<lambda>r. map_option Some (pr_latency_budget_ms r)"
  by unfold_locales (simp add: merge_field_simps split: option.split)
interpretation f_sample: layered_field merge_policy_row sample_rate pr_sample_rate
  by unfold_locales (simp add: merge_field_simps)
interpretation f_upstream: layered_field merge_policy_row upstream_filters
  "\<lambda>r. map_option Some (pr_upstream_filters r)"
  by unfold_locales (simp add: merge_field_simps split: option.split)

lemmas policy_field_foldl =
  f_tier1.get_foldl f_tier2.get_foldl f_tier3.get_foldl f_tier4.get_foldl
  f_tier4_model.get_foldl f_intent.get_foldl f_categories.get_foldl f_action.get_foldl
  f_fail.get_foldl f_unclassifiable.get_foldl f_timeout.get_foldl f_budget.get_foldl
  f_sample.get_foldl f_upstream.get_foldl

interpretation resolved_policy_cache: json_codec resolved_policy_enc resolved_policy_dec
proof
  have [simp]: "as_opt as_dict (of_opt JDict v) = Some v" for v
    by (simp add: of_opt_def split: option.splits)
  fix c :: resolved_policy
  show "resolved_policy_dec (resolved_policy_enc c) = Some c"
    by (cases c)
      (simp add: resolved_policy_dec_def resolved_policy_enc_def POLICY_KEYS_def kw_simps
        jget_null_def Let_def)
qed

lemma best_row_Some:
  assumes "best_row table ty ref direction = Some r"
  shows "r \<in> set table \<and> pr_scope_type r = ty \<and> pr_scope_ref r = ref \<and>
    pr_direction r \<in> {direction, ''both''}"
  using assms
  by (auto simp: best_row_def fetch_policy_rows_def Let_def dest!: find_Some_in
      split: option.splits)

lemma chain_rows_mem:
  assumes "r \<in> set (chain_rows table org model tool direction)"
  shows "r \<in> set table \<and> pr_direction r \<in> {direction, ''both''} \<and>
    (pr_scope_type r, pr_scope_ref r) \<in> set (scope_chain org model tool)"
proof -
  from assms obtain ty ref where "(ty, ref) \<in> set (scope_chain org model tool)"
    "best_row table ty ref direction = Some r"
    by (auto simp: chain_rows_def List.map_filter_def)
  with best_row_Some [OF this(2)] show ?thesis by auto
qed

lemma scope_chain_org:
  "(''org'', ref) \<in> set (scope_chain org model tool) \<longleftrightarrow> (\<exists>i. org = Some i \<and> ref = Some (str_int i))"
  by (auto simp: scope_chain_def org_scope_chain_org split: option.splits if_splits)

lemma secpol_key_org:
  assumes "secpol_cache_key org m tn dir = secpol_cache_key org' m' tn' dir'"
  shows "org = org'"
proof -
  let ?r = "opt_text m @ '':'' @ opt_text tn @ '':'' @ dir"
  let ?r' = "opt_text m' @ '':'' @ opt_text tn' @ '':'' @ dir'"
  have "ref_text org @ CHR '':'' # ?r = ref_text org' @ CHR '':'' # ?r'"
    using assms by (simp add: secpol_cache_key_def)
  then have "ref_text org = ref_text org'"
    using append_colon_inj ref_text_no_colon by blast
  then show ?thesis by (rule ref_text_inj)
qed

lemma secpol_key_prefix [simp]: "startswith ''waddleai:secpol:'' (secpol_cache_key org m tn dir)"
  by (simp add: secpol_cache_key_def startswith_def)

section \<open>Properties\<close>

text \<open>
  C33. Security policies resolve field by field: each of the fourteen fields has the value of
  the most specific row of the chain global, org, model, tool namespace, tool that sets it,
  else the floor's; every row consulted is a row of the table for one of those scopes and for
  the direction asked or both, so no other organisation's row ever contributes.
\<close>

theorem policy_precedence:
  fixes table org model tool direction
  defines "rows \<equiv> chain_rows table org model tool direction"
    and "p \<equiv> merge_chain table org model tool direction"
  shows "tier1_enabled p = most_specific pr_tier1_enabled rows True \<and>
    tier2_enabled p = most_specific pr_tier2_enabled rows True \<and>
    tier3_enabled p = most_specific pr_tier3_enabled rows True \<and>
    tier4_enabled p = most_specific pr_tier4_enabled rows True \<and>
    tier4_model p = most_specific (\<lambda>r. map_option Some (pr_tier4_model r)) rows None \<and>
    intent_classifier_enabled p = most_specific pr_intent_classifier_enabled rows False \<and>
    intent_categories p = most_specific pr_intent_categories rows [] \<and>
    block_action p = most_specific pr_block_action rows ''redact'' \<and>
    fail_mode p = most_specific pr_fail_mode rows ''degrade'' \<and>
    on_unclassifiable p = most_specific pr_on_unclassifiable rows ''reject'' \<and>
    auditor_timeout_ms p = most_specific pr_auditor_timeout_ms rows 5000 \<and>
    latency_budget_ms p = most_specific (\<lambda>r. map_option Some (pr_latency_budget_ms r)) rows None \<and>
    sample_rate p = most_specific pr_sample_rate rows 100 \<and>
    upstream_filters p = most_specific (\<lambda>r. map_option Some (pr_upstream_filters r)) rows None \<and>
    (\<forall>r\<in>set rows. r \<in> set table \<and> pr_direction r \<in> {direction, ''both''} \<and>
       (pr_scope_type r, pr_scope_ref r) \<in> set (scope_chain org model tool)) \<and>
    (\<forall>r\<in>set rows. pr_scope_type r = ''org'' \<longrightarrow> (\<exists>i. org = Some i \<and> pr_scope_ref r = Some (str_int i)))"
proof -
  have "\<forall>r\<in>set rows. pr_scope_type r = ''org'' \<longrightarrow> (\<exists>i. org = Some i \<and> pr_scope_ref r = Some (str_int i))"
    using chain_rows_mem scope_chain_org unfolding rows_def by (metis (no_types))
  moreover have "\<forall>r\<in>set rows. r \<in> set table \<and> pr_direction r \<in> {direction, ''both''} \<and>
       (pr_scope_type r, pr_scope_ref r) \<in> set (scope_chain org model tool)"
    using chain_rows_mem unfolding rows_def by blast
  ultimately show ?thesis
    by (simp add: p_def rows_def merge_chain_def policy_field_foldl policy_floor_def)
qed

definition blank_row :: "string \<Rightarrow> string option \<Rightarrow> policy_row" where
  "blank_row ty ref =
     \<lparr>pr_scope_type = ty, pr_scope_ref = ref, pr_direction = ''both'', pr_tier1_enabled = None,
      pr_tier2_enabled = None, pr_tier3_enabled = None, pr_tier4_enabled = None,
      pr_tier4_model = None, pr_intent_classifier_enabled = None, pr_intent_categories = None,
      pr_block_action = None, pr_fail_mode = None, pr_on_unclassifiable = None,
      pr_auditor_timeout_ms = None, pr_latency_budget_ms = None, pr_sample_rate = None,
      pr_upstream_filters = None\<rparr>"

definition demo_policies :: "policy_row list" where
  "demo_policies =
     [(blank_row ''global'' None) \<lparr>pr_block_action := Some ''block'', pr_fail_mode := Some ''open''\<rparr>,
      (blank_row ''org'' (Some ''7'')) \<lparr>pr_fail_mode := Some ''closed''\<rparr>,
      (blank_row ''org'' (Some ''8'')) \<lparr>pr_tier1_enabled := Some False\<rparr>,
      (blank_row ''tool'' (Some ''elder.*'')) \<lparr>pr_sample_rate := Some 10\<rparr>,
      (blank_row ''tool'' (Some ''b:c'')) \<lparr>pr_tier4_enabled := Some False\<rparr>]"

theorem policy_precedence_witness:
  "merge_chain demo_policies (Some 7) None (Some ''elder.search'') ''input'' =
     policy_floor \<lparr>block_action := ''block'', fail_mode := ''closed'', sample_rate := 10\<rparr> \<and>
   set (chain_rows demo_policies (Some 7) None (Some ''elder.search'') ''input'') \<subseteq>
     set demo_policies"
proof
  show "merge_chain demo_policies (Some 7) None (Some ''elder.search'') ''input'' =
     policy_floor \<lparr>block_action := ''block'', fail_mode := ''closed'', sample_rate := 10\<rparr>"
    by code_simp
  show "set (chain_rows demo_policies (Some 7) None (Some ''elder.search'') ''input'') \<subseteq>
     set demo_policies"
    using policy_precedence [of demo_policies "Some 7" None "Some ''elder.search''" "''input''"]
    by blast
qed

text \<open>
  A policy write takes effect: once the cached resolutions are cleared, every later
  resolution, of any organisation, model, tool and direction, is the merge of the table as it
  is now; and before that no organisation is served a resolution cached for another one.
\<close>

theorem policy_write_takes_effect:
  assumes "valkey_laws c" "valkey_up c" "scan_laws c scan"
    and "scan t s ''waddleai:secpol:'' = Ok keys" "t \<le> t'"
  shows "fst (resolve_policy (Some c) t' (invalidate_policies (Some c) scan t s) table org model
      tool direction) = merge_chain table org model tool direction \<and>
    (org \<noteq> org' \<longrightarrow>
      fst (resolve_policy (Some c) t' (snd (resolve_policy (Some c) t s table org model tool direction))
        table' org' model' tool' direction') =
      fst (resolve_policy (Some c) t' s table' org' model' tool' direction'))"
proof (intro conjI impI)
  have "vk_get c t' (invalidate_policies (Some c) scan t s)
      (secpol_cache_key org model tool direction) = Ok None"
    unfolding invalidate_policies_def
    by (rule get_after_invalidate_prefix [where scan = scan and t = t and s = s,
          OF assms(1-4) secpol_key_prefix assms(5)])
  then show "fst (resolve_policy (Some c) t' (invalidate_policies (Some c) scan t s) table org model
      tool direction) = merge_chain table org model tool direction"
    by (simp add: resolve_policy_def cache_read_def Let_def)
next
  assume "org \<noteq> org'"
  then have "secpol_cache_key org' model' tool' direction' \<noteq> secpol_cache_key org model tool direction"
    using secpol_key_org by metis
  from resolved_policy_cache.read_other_key [OF assms(1,5) this]
  show "fst (resolve_policy (Some c) t' (snd (resolve_policy (Some c) t s table org model tool direction))
        table' org' model' tool' direction') =
      fst (resolve_policy (Some c) t' s table' org' model' tool' direction')"
    by (cases "cache_read (Some c) resolved_policy_dec t s (secpol_cache_key org model tool direction)")
      (simp_all only: resolve_policy_def Let_def option.case snd_conv fst_conv split: option.split,
       simp_all)
qed

theorem policy_write_takes_effect_witness:
  "fst (resolve_policy (Some list_valkey) 6 (invalidate_policies (Some list_valkey) list_scan 5
      (snd (resolve_policy (Some list_valkey) 0 [] [] (Some 7) None None ''input'')))
      demo_policies (Some 7) None None ''input'') =
   merge_chain demo_policies (Some 7) None None ''input''"
proof -
  let ?s = "snd (resolve_policy (Some list_valkey) 0 [] [] (Some 7) None None ''input'')"
  have "list_scan 5 ?s ''waddleai:secpol:'' =
      Ok (filter (startswith ''waddleai:secpol:'') (map fst ?s))"
    by (simp add: list_scan_def)
  then show ?thesis
    by (rule policy_write_takes_effect [where t = 5 and s = ?s, OF list_valkey_laws list_valkey_up
          list_scan_laws, THEN conjunct1]) simp
qed

text \<open>
  Within one organisation the cache key does not tell resolutions apart: names that
  contain a colon, as Ollama models do, make two different (model, tool) pairs share a key,
  and the second request is then served the policy resolved for the first. Here the auditor
  tier, disabled for the tool \<open>b:c\<close>, is off for the tool \<open>c\<close> too.
\<close>

theorem policy_cache_key_collision:
  "(secpol_cache_key org (Some (a @ '':'' @ b)) (Some c) dir =
      secpol_cache_key org (Some a) (Some (b @ '':'' @ c)) dir) \<and>
   tier4_enabled (merge_chain demo_policies (Some 7) (Some ''a:b'') (Some ''c'') ''input'') \<and>
   \<not> tier4_enabled (fst (resolve_policy (Some list_valkey) 1
        (snd (resolve_policy (Some list_valkey) 0 [] demo_policies (Some 7) (Some ''a'') (Some ''b:c'')
           ''input''))
        demo_policies (Some 7) (Some ''a:b'') (Some ''c'') ''input''))"
proof (intro conjI)
  show "secpol_cache_key org (Some (a @ '':'' @ b)) (Some c) dir =
      secpol_cache_key org (Some a) (Some (b @ '':'' @ c)) dir"
    by (simp add: secpol_cache_key_def opt_text_def)
qed code_simp+

end
