(* ===== verification/PolicyEngine.thy ===== *)
theory PolicyEngine
  imports SecPolicy ContentFilter
begin

text \<open>
  \<open>shared/security/policy_engine.py\<close>: the resolved policy's tiers in order of cost over the
  content filter's, the monotonic \<open>combine\<close> and the fail modes. The clock readings at the two
  budget checks are \<open>t3\<close> and \<open>t4\<close>, milliseconds since the start; the auditor call either
  returns in time with its HTTP outcome, is cut off by the timeout, or raises.
\<close>

definition SEVERITY :: "(string \<times> nat) list" where
  "SEVERITY = [(''allow'', 0), (''flag'', 1), (''redact'', 2), (''block'', 3)]"

definition severity :: "string \<Rightarrow> nat" where
  "severity a = (case map_of SEVERITY a of None \<Rightarrow> 0 | Some n \<Rightarrow> n)"

record security_verdict =
  sv_action :: string
  sv_violations :: "filter_violation list"
  sv_filtered_text :: string
  sv_degraded :: bool
  sv_auditor_used :: bool
  sv_tiers_run :: "string list"
  sv_redactions :: nat

definition combine :: "string \<Rightarrow> string \<Rightarrow> string" where
  "combine deterministic llm_verdict =
     (let llm = (if llm_verdict = ''block'' then ''block'' else ''allow'')
      in if severity deterministic < severity llm then llm else deterministic)"

definition budget_exceeded :: "resolved_policy \<Rightarrow> rat \<Rightarrow> bool" where
  "budget_exceeded p elapsed =
     (case latency_budget_ms p of None \<Rightarrow> False | Some ms \<Rightarrow> of_int ms \<le> elapsed)"

definition apply_fail_mode :: "string \<Rightarrow> string \<Rightarrow> string \<times> bool" where
  "apply_fail_mode md deterministic =
     (if md = ''closed'' then (''block'', False)
      else if md = ''open'' then (''allow'', False)
      else (deterministic, True))"

datatype auditor_run = AuditorReturns http_outcome | AuditorTimeout | AuditorRaises

definition run_tiers ::
    "filter_env \<Rightarrow> resolved_policy \<Rightarrow> int option \<Rightarrow> string \<Rightarrow> string \<Rightarrow> rat \<Rightarrow>
     py_error + filter_violation list \<times> string list" where
  "run_tiers env p org text direction t3 =
     (let v1 = (if tier1_enabled p
                then run_builtin_patterns (fe_finditer env) (fe_patterns env) (fe_disabled env) text
                else []);
          v2 = (if tier2_enabled p
                then run_custom_rules (fe_finditer env) (load_custom_rules (fe_rules env) org)
                       text direction
                else []);
          names = (if tier1_enabled p then [''tier1''] else []) @
                (if tier2_enabled p then [''tier2''] else [])
      in if tier3_enabled p \<and> \<not> budget_exceeded p t3 then
           (case run_ner_patterns (fe_ner env) (fe_disabled_ner env) text of
              Inl e \<Rightarrow> Inl e
            | Inr v3 \<Rightarrow> Inr (v1 @ v2 @ v3, names @ [''tier3'']))
         else Inr (v1 @ v2, names))"

definition evaluate ::
    "filter_env \<Rightarrow> resolved_policy \<Rightarrow> int option \<Rightarrow> string \<Rightarrow> string \<Rightarrow> rat \<Rightarrow> rat \<Rightarrow> auditor_run \<Rightarrow>
     py_error + security_verdict" where
  "evaluate env p org text direction t3 t4 auditor =
     (case run_tiers env p org text direction t3 of
        Inl e \<Rightarrow> Inl e
      | Inr (vs, names) \<Rightarrow>
          (let (deterministic, filtered) = determine_action text vs;
               (final, degraded, used) =
                 (if \<not> tier4_enabled p then (deterministic, False, False)
                  else if budget_exceeded p t4 then
                    (case apply_fail_mode (fail_mode p) deterministic of (a, d) \<Rightarrow> (a, d, False))
                  else
                    (case auditor of
                       AuditorReturns outcome \<Rightarrow>
                         (combine deterministic
                            (if fst (invoke_llm_auditor (fe_model env) outcome)
                             then ''block'' else ''allow''), False, True)
                     | _ \<Rightarrow>
                         (case apply_fail_mode (fail_mode p) deterministic of
                            (a, d) \<Rightarrow> (a, d, False))))
           in Inr \<lparr>sv_action = final, sv_violations = vs, sv_filtered_text = filtered,
                   sv_degraded = degraded, sv_auditor_used = used,
                   sv_tiers_run = names @ (if used then [''tier4''] else []),
                   sv_redactions = length (filter (\<lambda>v. v_action v = ''redact'') vs)\<rparr>))"

section \<open>Lemmas\<close>

lemma severity_simps [simp]:
  "severity ''allow'' = 0" "severity ''flag'' = 1" "severity ''redact'' = 2" "severity ''block'' = 3"
  "severity ''log'' = 0"
  by (simp_all add: severity_def SEVERITY_def)

lemma severity_le: "severity a \<le> 3"
  by (simp add: severity_def SEVERITY_def)

lemma combine_cases: "combine d l = (if l = ''block'' \<and> severity d < 3 then ''block'' else d)"
  by (simp add: combine_def Let_def)

section \<open>Properties\<close>

text \<open>
  C29. A verdict of the auditor only tightens: when the auditor was used the final action is at
  least as severe as what tiers one to three decided, it is block if they blocked, and it
  differs from their action only by becoming block. Without a verdict (budget, timeout, error)
  the fail mode decides: degrade keeps their action and says so, closed blocks, open allows.
\<close>

theorem engine_monotone:
  assumes "evaluate env p org text direction t3 t4 auditor = Inr v"
    and "run_tiers env p org text direction t3 = Inr (vs, names)"
  shows "sv_violations v = vs \<and>
    (sv_auditor_used v \<longrightarrow>
       severity (fst (determine_action text vs)) \<le> severity (sv_action v) \<and>
       sv_action v \<in> {fst (determine_action text vs), ''block''} \<and>
       ((\<exists>x\<in>set vs. v_action x = ''block'') \<longrightarrow> sv_action v = ''block'')) \<and>
    (\<not> sv_auditor_used v \<and> tier4_enabled p \<longrightarrow>
       (sv_action v, sv_degraded v) =
         (if fail_mode p = ''closed'' then (''block'', False)
          else if fail_mode p = ''open'' then (''allow'', False)
          else (fst (determine_action text vs), True))) \<and>
    (\<not> tier4_enabled p \<longrightarrow> sv_action v = fst (determine_action text vs) \<and> \<not> sv_degraded v)"
proof -
  obtain d f where d: "determine_action text vs = (d, f)" by fastforce
  have b: "(d = ''block'') = (\<exists>x\<in>set vs. v_action x = ''block'')"
    using determine_action_block [of "text" vs] d by simp
  note ev = assms(1) [unfolded evaluate_def assms(2) sum.case prod.case d Let_def]
  consider (off) "\<not> tier4_enabled p"
    | (verdict) o' where "tier4_enabled p" "\<not> budget_exceeded p t4" "auditor = AuditorReturns o'"
    | (none) "tier4_enabled p" "budget_exceeded p t4 \<or> auditor \<in> {AuditorTimeout, AuditorRaises}"
    by (cases auditor) auto
  then show ?thesis
  proof cases
    case off
    with ev d show ?thesis by auto
  next
    case verdict
    with ev d b severity_le [of d] show ?thesis by (auto simp: combine_cases split: if_splits)
  next
    case none
    obtain a dg where f: "apply_fail_mode (fail_mode p) d = (a, dg)" by fastforce
    with none ev have "sv_violations v = vs \<and> sv_action v = a \<and> sv_degraded v = dg \<and> \<not> sv_auditor_used v"
      by (cases "budget_exceeded p t4") auto
    with none f d show ?thesis by (auto simp: apply_fail_mode_def split: if_splits)
  qed
qed

theorem engine_monotone_witness:
  "map_sum id sv_action (evaluate demo_filter policy_floor (Some 7) ''pay 4111'' ''input'' 0 0
     AuditorTimeout) = Inr ''redact''"
proof -
  have r: "run_tiers demo_filter policy_floor (Some 7) ''pay 4111'' ''input'' 0 =
      Inr ([\<lparr>v_rule_name = ''card'', v_rule_type = ''custom_string'', v_matched_text = ''4111'',
        v_action = ''redact'', v_confidence = 95/100, v_full_matched_text = ''4111''\<rparr>],
        [''tier1'', ''tier2'', ''tier3''])" (is "_ = Inr (?vs, ?names)")
    by code_simp
  have "map_sum id sv_auditor_used
      (evaluate demo_filter policy_floor (Some 7) ''pay 4111'' ''input'' 0 0 AuditorTimeout) = Inr False"
    by code_simp
  then obtain v where v: "evaluate demo_filter policy_floor (Some 7) ''pay 4111'' ''input'' 0 0
      AuditorTimeout = Inr v" and u: "\<not> sv_auditor_used v"
    by (cases "evaluate demo_filter policy_floor (Some 7) ''pay 4111'' ''input'' 0 0 AuditorTimeout")
      auto
  have "fst (determine_action ''pay 4111'' ?vs) = ''redact''" by code_simp
  with engine_monotone [OF v r] u v show ?thesis by (simp add: policy_floor_def)
qed

text \<open>
  Fail closed does not hold for an auditor that cannot be reached: the auditor call itself
  answers not to block on a connection failure, an error status or its own timeout, so under
  \<open>closed\<close> clean-looking content is allowed, not degraded and reported as audited.
\<close>

theorem engine_closed_unreachable:
  assumes "run_tiers env p org text direction t3 = Inr (vs, names)"
    and "outcome \<in> {HttpFailure, HttpTimeout, HttpStatus n}"
    and "tier4_enabled p" "\<not> budget_exceeded p t4" "fail_mode p = ''closed''"
  shows "\<exists>v. evaluate env p org text direction t3 t4 (AuditorReturns outcome) = Inr v \<and>
    sv_action v = fst (determine_action text vs) \<and> \<not> sv_degraded v \<and> sv_auditor_used v"
proof -
  have "\<not> fst (invoke_llm_auditor (fe_model env) outcome)"
    using assms(2) by (auto simp: invoke_llm_auditor_def)
  with assms show ?thesis
    by (simp add: evaluate_def combine_cases Let_def split: prod.split)
qed

theorem engine_closed_unreachable_witness:
  "\<exists>v. evaluate demo_filter (policy_floor\<lparr>fail_mode := ''closed''\<rparr>) None ''hello'' ''input'' 0 0
     (AuditorReturns HttpFailure) = Inr v \<and> sv_action v = ''allow''"
proof -
  let ?p = "policy_floor\<lparr>fail_mode := ''closed''\<rparr>"
  have r: "run_tiers demo_filter ?p None ''hello'' ''input'' 0 = Inr ([], [''tier1'', ''tier2'', ''tier3''])"
    by code_simp
  from engine_closed_unreachable [OF r, of HttpFailure 0 0]
  show ?thesis by (auto simp: policy_floor_def budget_exceeded_def determine_action_def)
qed

end
