(* ===== verification/UpstreamFilter.thy ===== *)
theory UpstreamFilter
  imports PolicyEngine Script
begin

text \<open>
  Filters in front of upstream providers (\<open>shared/security/upstream_filters.py\<close>): detection by
  the content filter's tiers, irreversible redaction or reversible placeholders whose map lives
  in Valkey for the request. The UUID of a map is an argument.
\<close>

section \<open>Replacement\<close>

text \<open>\<open>s.replace(p, r)\<close> for a non-empty \<open>p\<close>: the leftmost, non-overlapping occurrences.\<close>

function py_replace :: "string \<Rightarrow> string \<Rightarrow> string \<Rightarrow> string" where
  "py_replace p r s =
     (case s of
        [] \<Rightarrow> []
      | c # cs \<Rightarrow>
          if p \<noteq> [] \<and> startswith p s then r @ py_replace p r (drop (length p) s)
          else c # py_replace p r cs)"
  by pat_completeness auto
termination by (relation "measure (\<lambda>(p, r, s). length s)") auto

declare py_replace.simps [simp del]

section \<open>Presets and configuration\<close>

definition PRESETS :: "(string \<times> string list) list" where
  "PRESETS =
     [(''hipaa'', [''ssn'', ''ssn_unformatted'', ''medicare_id_us'', ''date_of_birth'', ''email'',
        ''phone_us'', ''phone_international'', ''national_id_uk'', ''drivers_license_us'',
        ''passport_us'', ''passport_generic'']),
      (''pci-dss'', [''credit_card'', ''credit_card_amex'', ''routing_number'', ''iban'']),
      (''pii-basic'', [''email'', ''phone_us'', ''ssn'', ''ip_address_public''])]"

definition expand_preset :: "string \<Rightarrow> string list" where
  "expand_preset name = (case map_of PRESETS name of None \<Rightarrow> [] | Some cs \<Rightarrow> cs)"

definition PSEUDO_KEY_PREFIX :: string where
  "PSEUDO_KEY_PREFIX = ''waddleai:pseudo:''"

definition PSEUDO_TTL_SECONDS :: nat where
  "PSEUDO_TTL_SECONDS = 600"

definition pseudo_key :: "string \<Rightarrow> string" where
  "pseudo_key mapping_id = PSEUDO_KEY_PREFIX @ mapping_id"

record upstream_result =
  ur_text :: string
  ur_mapping_id :: "string option"
  ur_counts :: "(string \<times> nat) list"

definition passthrough :: "string \<Rightarrow> (string \<times> nat) list \<Rightarrow> upstream_result" where
  "passthrough t counts = \<lparr>ur_text = t, ur_mapping_id = None, ur_counts = counts\<rparr>"

fun count_up :: "string \<Rightarrow> (string \<times> nat) list \<Rightarrow> (string \<times> nat) list" where
  "count_up k [] = [(k, 1)]"
| "count_up k ((k', n) # cs) = (if k' = k then (k, n + 1) # cs else (k', n) # count_up k cs)"

definition counts_of :: "filter_violation list \<Rightarrow> (string \<times> nat) list" where
  "counts_of vs = foldl (\<lambda>cs v. count_up (v_rule_name v) cs) [] vs"

text \<open>\<open>set(config.get("categories") or [])\<close>: an element that is a list or dict is unhashable.\<close>

definition categories_of :: "dict \<Rightarrow> py_error + json list" where
  "categories_of config =
     rbind (py_iter (json_or (jget_null config ''categories'') (JList []))) (\<lambda>cs.
       if list_ex (\<lambda>j. case j of JList _ \<Rightarrow> True | JDict _ \<Rightarrow> True | _ \<Rightarrow> False) cs
       then Inl TypeError else Inr cs)"

definition detect :: "filter_env \<Rightarrow> int option \<Rightarrow> string \<Rightarrow> py_error + filter_violation list" where
  "detect env org t =
     rbind (run_ner_patterns (fe_ner env) (fe_disabled_ner env) t) (\<lambda>v3.
       Inr (run_builtin_patterns (fe_finditer env) (fe_patterns env) (fe_disabled env) t @
            run_custom_rules (fe_finditer env) (load_custom_rules (fe_rules env) org) t ''input'' @
            v3))"

section \<open>Placeholders\<close>

definition placeholder :: "string \<Rightarrow> nat \<Rightarrow> string" where
  "placeholder rule i = ''[PSEUDO_'' @ upper rule @ ''_'' @ str_nat i @ '']''"

type_synonym pseudo_map = "(string \<times> string) list"

fun pseudonymize_from ::
    "nat \<Rightarrow> filter_violation list \<Rightarrow> string \<Rightarrow> pseudo_map \<Rightarrow> string \<times> pseudo_map" where
  "pseudonymize_from i [] result m = (result, m)"
| "pseudonymize_from i (v # vs) result m =
     (let original = redact_text v; p = placeholder (v_rule_name v) i in
      if original = [] \<or> \<not> contains original result then pseudonymize_from (Suc i) vs result m
      else pseudonymize_from (Suc i) vs (py_replace original p result) (m @ [(p, original)]))"

definition pseudonymize :: "string \<Rightarrow> filter_violation list \<Rightarrow> string \<times> pseudo_map" where
  "pseudonymize t vs = pseudonymize_from 0 vs t []"

definition restore :: "pseudo_map \<Rightarrow> string \<Rightarrow> string" where
  "restore m t = foldl (\<lambda>acc (p, original). py_replace p original acc) t m"

definition map_enc :: "pseudo_map \<Rightarrow> json" where
  "map_enc m = JDict (map (\<lambda>(p, original). (p, JStr original)) m)"

definition map_dec :: "json \<Rightarrow> pseudo_map option" where
  "map_dec j = (case j of
     JDict d \<Rightarrow> those (map (\<lambda>(k, v). map_option (Pair k) (as_str v)) d) | _ \<Rightarrow> None)"

interpretation pseudo_codec: json_codec map_enc map_dec
proof
  have "those (map (\<lambda>(k, v). map_option (Pair k) (as_str v)) (map (\<lambda>(p, x). (p, JStr x)) m)) = Some m"
    for m by (induction m) auto
  then show "map_dec (map_enc m) = Some m" for m
    by (simp add: map_dec_def map_enc_def)
qed

section \<open>Operations\<close>

definition lift_err :: "py_error + 'a \<Rightarrow> ('s, 'a) script" where
  "lift_err r = (case r of Inl _ \<Rightarrow> sraise | Inr a \<Rightarrow> sret a)"

definition transform ::
    "'s valkey \<Rightarrow> int \<Rightarrow> string \<Rightarrow> dict \<Rightarrow> string \<Rightarrow> filter_violation list \<Rightarrow> ('s, upstream_result) script" where
  "transform c t uuid config msg vs =
     (let counts = counts_of vs in
      if vs = [] then sret (passthrough msg counts)
      else if jget_or config ''mode'' (JStr ''redact'') = JStr ''pseudonymize'' then
        (let (transformed, m) = pseudonymize msg vs in
         sbind (command (\<lambda>s. vk_set c t s (pseudo_key uuid) (json_dumps (map_enc m))
             (Some PSEUDO_TTL_SECONDS))) (\<lambda>_.
         sret \<lparr>ur_text = transformed, ur_mapping_id = Some uuid, ur_counts = counts\<rparr>))
      else sret (passthrough (snd (determine_action msg vs)) counts))"

definition apply_upstream ::
    "'s valkey \<Rightarrow> filter_env \<Rightarrow> int \<Rightarrow> string \<Rightarrow> resolved_policy \<Rightarrow> string \<Rightarrow> int option \<Rightarrow> string \<Rightarrow>
     ('s, upstream_result) script" where
  "apply_upstream c env t uuid p destination org msg =
     (case upstream_filters p of
        None \<Rightarrow> sret (passthrough msg [])
      | Some config \<Rightarrow>
          if config = [] then sret (passthrough msg [])
          else if jget_or config ''applies_to'' (JStr ''commercial'') = JStr ''commercial''
            \<and> destination \<noteq> ''commercial'' then sret (passthrough msg [])
          else
            sbind (lift_err (detect env org msg)) (\<lambda>vs.
            sbind (lift_err (categories_of config)) (\<lambda>cats.
            transform c t uuid config msg
              (if cats = [] then vs else filter (\<lambda>v. JStr (v_rule_name v) \<in> set cats) vs))))"

definition depseudonymize ::
    "'s valkey \<Rightarrow> int \<Rightarrow> string \<Rightarrow> string option \<Rightarrow> ('s, string) script" where
  "depseudonymize c t response mapping_id =
     (case mapping_id of
        None \<Rightarrow> sret response
      | Some i \<Rightarrow>
          sbind (query (\<lambda>s. vk_get c t s (pseudo_key i))) (\<lambda>raw.
            case raw of
              None \<Rightarrow> sret response
            | Some b \<Rightarrow>
                if b = RawText [] then sret response
                else (case Option.bind (json_loads b) map_dec of
                        None \<Rightarrow> sraise
                      | Some m \<Rightarrow> sret (restore m response))))"

definition cleanup :: "'s valkey \<Rightarrow> int \<Rightarrow> string option \<Rightarrow> ('s, unit) script" where
  "cleanup c t mapping_id = (case mapping_id of
     None \<Rightarrow> sret () | Some i \<Rightarrow> command (\<lambda>s. vk_del c t s [pseudo_key i]))"

section \<open>Texts with placeholders\<close>

text \<open>A text in which some places are placeholders: a character, or the index of one.\<close>

type_synonym tokens = "(char + nat) list"

definition spell :: "(nat \<Rightarrow> string) \<Rightarrow> tokens \<Rightarrow> string" where
  "spell f ts = concat (map (\<lambda>x. case x of Inl c \<Rightarrow> [c] | Inr i \<Rightarrow> f i) ts)"

lemma spell_simps [simp]:
  "spell f [] = []" "spell f (Inl c # ts) = c # spell f ts" "spell f (Inr i # ts) = f i @ spell f ts"
  "spell f (ts @ us) = spell f ts @ spell f us" "spell f (map Inl s) = s"
  by (simp_all add: spell_def comp_def)

text \<open>The shape of a placeholder: brackets at its ends and nowhere else.\<close>

definition bracketed :: "string \<Rightarrow> bool" where
  "bracketed p \<longleftrightarrow> (\<exists>b. p = CHR ''['' # b @ [CHR '']''] \<and> CHR ''['' \<notin> set b \<and> CHR '']'' \<notin> set b)"

definition bracket_free :: "string \<Rightarrow> bool" where
  "bracket_free s \<longleftrightarrow> CHR ''['' \<notin> set s \<and> CHR '']'' \<notin> set s"

lemma startswith_iff: "startswith p s \<longleftrightarrow> (\<exists>r. s = p @ r)"
  unfolding startswith_def by (metis append_eq_conv_conj append_take_drop_id)

lemma py_replace_Nil [simp]: "py_replace p r [] = []"
  by (simp add: py_replace.simps)

lemma py_replace_hit: "p \<noteq> [] \<Longrightarrow> py_replace p r (p @ s) = r @ py_replace p r s"
  by (cases p; subst py_replace.simps) (simp_all add: startswith_def)

lemma py_replace_miss: "\<not> startswith p (c # s) \<Longrightarrow> py_replace p r (c # s) = c # py_replace p r s"
  by (simp add: py_replace.simps [of p r "c # s"])

lemma py_replace_skip:
  "\<forall>k<length a. \<not> startswith p (drop k a @ s) \<Longrightarrow> py_replace p r (a @ s) = a @ py_replace p r s"
proof (induction a)
  case (Cons c a)
  from Cons.prems have "\<not> startswith p (c # a @ s)" by force
  moreover from Cons.prems have "\<forall>k<length a. \<not> startswith p (drop k a @ s)" by force
  ultimately show ?case using Cons.IH by (simp add: py_replace_miss)
qed simp

lemma startswith_spell:
  assumes "\<And>i. bracketed (f i)" "CHR ''['' \<notin> set q" "startswith q (spell f ts)"
  shows "\<exists>us. ts = map Inl q @ us"
  using assms(2,3)
proof (induction q arbitrary: ts)
  case (Cons c q)
  show ?case
  proof (cases ts)
    case Nil
    with Cons show ?thesis by (simp add: startswith_def)
  next
    case (Cons x us)
    show ?thesis
    proof (cases x)
      case (Inl d)
      with Cons Cons.prems Cons.IH [of us] show ?thesis by (auto simp: startswith_def)
    next
      case (Inr i)
      with assms(1) [of i] Cons Cons.prems show ?thesis
        by (auto simp: bracketed_def startswith_def)
    qed
  qed
qed simp

text \<open>No text without brackets starts inside a placeholder and leaves it.\<close>

lemma no_start_inside:
  assumes "bracketed p" "bracket_free q" "q \<noteq> []" "\<not> contains q p" "k < length p"
  shows "\<not> startswith q (drop k p @ s)"
proof
  assume "startswith q (drop k p @ s)"
  then obtain r where r: "drop k p @ s = q @ r" by (auto simp: startswith_iff)
  from assms(1) obtain b where b: "p = CHR ''['' # b @ [CHR '']'']" by (auto simp: bracketed_def)
  have last: "last (drop k p) = CHR '']''" "drop k p \<noteq> []"
    using assms(5) by (simp_all add: b del: drop_Cons')
  show False
  proof (cases "length q < length (drop k p)")
    case True
    with r have "take (length q) (drop k p) = q"
      by (metis append_eq_append_conv_if append_eq_conv_conj less_imp_le)
    then have "contains q p"
      unfolding contains_iff by (metis append_take_drop_id)
    with assms(4) show False by simp
  next
    case False
    with r have "take (length (drop k p)) q = drop k p"
      by (metis append_eq_append_conv_if append_eq_conv_conj not_le_imp_less)
    then have "CHR '']'' \<in> set q"
      using last by (metis in_set_takeD last_in_set)
    with assms(2) show False by (simp add: bracket_free_def)
  qed
qed

section \<open>Putting placeholders in\<close>

function put_token :: "string \<Rightarrow> nat \<Rightarrow> tokens \<Rightarrow> tokens" where
  "put_token q i ts =
     (case ts of
        [] \<Rightarrow> []
      | x # us \<Rightarrow>
          if q \<noteq> [] \<and> take (length q) ts = map Inl q then Inr i # put_token q i (drop (length q) ts)
          else x # put_token q i us)"
  by pat_completeness auto
termination by (relation "measure (\<lambda>(q, i, ts). length ts)") auto

declare put_token.simps [simp del]

lemma put_token_Nil [simp]: "put_token q i [] = []"
  by (simp add: put_token.simps)

lemma put_token_hit:
  "q \<noteq> [] \<Longrightarrow> put_token q i (map Inl q @ us) = Inr i # put_token q i us"
  by (cases q; subst put_token.simps) simp_all

lemma put_token_miss:
  assumes "\<nexists>us'. x # us = map Inl q @ us'"
  shows "put_token q i (x # us) = x # put_token q i us"
proof -
  have "take (length q) (x # us) \<noteq> map Inl q"
    using assms by (metis append_take_drop_id)
  then show ?thesis by (simp add: put_token.simps [of q i "x # us"])
qed

lemma put_token_induct [consumes 1, case_names Nil hit miss]:
  assumes "q \<noteq> []" "P []" "\<And>us. P us \<Longrightarrow> P (map Inl q @ us)"
    and "\<And>x us. \<nexists>us'. x # us = map Inl q @ us' \<Longrightarrow> P us \<Longrightarrow> P (x # us)"
  shows "P ts"
proof (induction ts rule: measure_induct_rule [of length])
  case (less ts)
  show ?case
  proof (cases "\<exists>us. ts = map Inl q @ us")
    case True
    then obtain us where "ts = map Inl q @ us" by blast
    with less assms(1,3) show ?thesis by simp
  next
    case False
    with less assms(2,4) show ?thesis by (cases ts) auto
  qed
qed

lemma put_token_spell:
  assumes "bracket_free q" "q \<noteq> []" "\<And>j. bracketed (f j)" "\<And>j. \<not> contains q (f j)"
  shows "py_replace q (f i) (spell f ts) = spell f (put_token q i ts)"
  using assms(2)
proof (induction ts rule: put_token_induct)
  case Nil
  then show ?case by simp
next
  case (hit us)
  then show ?case by (simp add: py_replace_hit put_token_hit assms(2))
next
  case (miss x us)
  then have ns: "\<not> startswith q (spell f (x # us))"
    using startswith_spell [where f = f and ts = "x # us" and q = q] assms(1,3)
    by (auto simp: bracket_free_def)
  show ?case
  proof (cases x)
    case (Inl c)
    with ns miss show ?thesis by (simp add: py_replace_miss put_token_miss)
  next
    case (Inr j)
    have "\<forall>k<length (f j). \<not> startswith q (drop k (f j) @ spell f us)"
      using no_start_inside [OF assms(3) assms(1,2,4)] by blast
    with Inr miss show ?thesis by (simp add: py_replace_skip put_token_miss)
  qed
qed

lemma put_token_expand:
  assumes "g i = q" "q \<noteq> []"
  shows "spell g (put_token q i ts) = spell g ts"
  using assms(2)
proof (induction ts rule: put_token_induct)
  case (miss x us)
  then show ?case by (cases x) (simp_all add: put_token_miss)
qed (simp_all add: put_token_hit assms)

lemma put_token_indices:
  assumes "q \<noteq> []"
  shows "Inr j \<in> set (put_token q i ts) \<Longrightarrow> j = i \<or> Inr j \<in> set ts"
  using assms
proof (induction ts rule: put_token_induct)
  case (miss x us)
  then show ?case by (auto simp: put_token_miss)
qed (auto simp: put_token_hit assms)

section \<open>Taking placeholders out\<close>

definition take_out :: "(nat \<Rightarrow> string) \<Rightarrow> nat \<Rightarrow> tokens \<Rightarrow> tokens" where
  "take_out g i ts = concat (map (\<lambda>x. if x = Inr i then map Inl (g i) else [x]) ts)"

lemma take_out_simps [simp]:
  "take_out g i [] = []" "take_out g i (Inl c # ts) = Inl c # take_out g i ts"
  "take_out g i (Inr j # ts) = (if j = i then map Inl (g i) else [Inr j]) @ take_out g i ts"
  by (simp_all add: take_out_def)

lemma take_out_expand: "spell g (take_out g i ts) = spell g ts"
proof (induction ts)
  case (Cons x ts)
  then show ?case by (cases x) simp_all
qed simp

lemma take_out_indices: "Inr j \<in> set (take_out g i ts) \<longleftrightarrow> j \<noteq> i \<and> Inr j \<in> set ts"
  by (auto simp: take_out_def)

lemma contains_spell: "ts = us @ map Inl q @ vs \<Longrightarrow> contains q (spell g ts)"
  unfolding contains_iff by auto

lemma contains_drop_suffix: "contains q s \<Longrightarrow> contains q (a @ s)"
  unfolding contains_iff by (metis append.assoc)

lemma take_out_spell:
  assumes "\<And>j. bracketed (f j)" "\<And>j. f j = f i \<Longrightarrow> j = i" "\<not> contains (f i) (spell g ts)"
  shows "py_replace (f i) (g i) (spell f ts) = spell f (take_out g i ts)"
  using assms(3)
proof (induction ts)
  case (Cons x ts)
  obtain b where b: "f i = CHR ''['' # b @ [CHR '']'']" "CHR ''['' \<notin> set b" "CHR '']'' \<notin> set b"
    using assms(1) [of i] by (auto simp: bracketed_def)
  have tail: "\<not> contains (f i) (spell g ts)"
    using Cons.prems contains_drop_suffix [of "f i" "spell g ts" "spell g [x]"]
    by (cases x) (auto simp del: contains.simps)
  note IH = Cons.IH [OF tail]
  show ?case
  proof (cases x)
    case (Inl c)
    have "\<not> startswith (f i) (c # spell f ts)"
    proof
      assume "startswith (f i) (c # spell f ts)"
      then have c: "c = CHR ''[''" and "startswith (b @ [CHR '']'']) (spell f ts)"
        by (auto simp: b(1) startswith_def)
      moreover have "CHR ''['' \<notin> set (b @ [CHR '']''])" using b(2) by simp
      ultimately obtain us where "ts = map Inl (b @ [CHR '']'']) @ us"
        using startswith_spell [of f "b @ [CHR '']'']" ts] assms(1) by blast
      then have "x # ts = [] @ map Inl (f i) @ us" using Inl c b(1) by simp
      from contains_spell [OF this] Cons.prems show False by blast
    qed
    with Inl IH show ?thesis by (simp add: py_replace_miss)
  next
    case (Inr j)
    show ?thesis
    proof (cases "j = i")
      case True
      have "f i \<noteq> []" by (simp add: b(1))
      with True Inr IH show ?thesis by (simp add: py_replace_hit)
    next
      case False
      obtain d where d: "f j = CHR ''['' # d @ [CHR '']'']" "CHR ''['' \<notin> set d" "CHR '']'' \<notin> set d"
        using assms(1) [of j] by (auto simp: bracketed_def)
      have "\<not> startswith (f i) (drop k (f j) @ spell f ts)" if k: "k < length (f j)" for k
      proof (cases k)
        case 0
        have "b = d" if "b @ CHR '']'' # r = d @ CHR '']'' # r'" for r r'
          using append_colon_inj [OF b(3) d(3) that] by simp
        then have "\<not> startswith (f i) (f j @ spell f ts)"
          using False assms(2) [of j] by (auto simp: b(1) d(1) startswith_iff) metis
        with 0 show ?thesis by simp
      next
        case (Suc k')
        define w where "w = drop k (f j)"
        have w: "w = drop k' (d @ [CHR '']''])" "w \<noteq> []"
          using Suc d(1) k by (simp_all add: w_def)
        then have "hd w \<in> set (d @ [CHR '']''])" by (metis hd_in_set in_set_dropD)
        with d(2) have "hd w \<noteq> CHR ''[''" by auto
        with w(2) show ?thesis
          unfolding w_def [symmetric] by (cases w) (simp_all add: b(1) startswith_def)
      qed
      with Inr False IH show ?thesis by (simp add: py_replace_skip)
    qed
  qed
qed simp

section \<open>Round trip\<close>

lemma placeholder_bracketed:
  assumes "bracket_free (upper rule)"
  shows "bracketed (placeholder rule i)"
proof -
  have "CHR ''['' \<notin> set (str_nat i)" "CHR '']'' \<notin> set (str_nat i)"
    using str_nat_digits [of "CHR ''[''" i] str_nat_digits [of "CHR '']''" i]
    by (auto simp: is_digit_def)
  with assms show ?thesis
    unfolding bracketed_def placeholder_def bracket_free_def
    by (intro exI [of _ "''PSEUDO_'' @ upper rule @ ''_'' @ str_nat i"]) auto
qed

lemma placeholder_index:
  assumes "placeholder a i = placeholder b j"
  shows "i = j"
proof -
  have n: "CHR ''_'' \<notin> set (rev (str_nat k))" for k
    using str_nat_digits [of "CHR ''_''" k] by (auto simp: is_digit_def)
  from arg_cong [OF assms, of rev]
  have "rev (str_nat i) @ CHR ''_'' # rev (''[PSEUDO_'' @ upper a) =
      rev (str_nat j) @ CHR ''_'' # rev (''[PSEUDO_'' @ upper b)"
    by (simp add: placeholder_def)
  from append_colon_inj [OF n n this] have "str_int (int i) = str_int (int j)"
    by (simp add: str_int_def)
  from str_int_inj [OF this] show ?thesis by simp
qed

text \<open>
  What the round trip needs of the violations of a text: rule names and matched texts without
  brackets, no matched text inside a placeholder, and no placeholder in the text already.
\<close>

definition separable :: "string \<Rightarrow> filter_violation list \<Rightarrow> bool" where
  "separable t vs \<longleftrightarrow>
     (\<forall>v\<in>set vs. bracket_free (upper (v_rule_name v)) \<and> bracket_free (redact_text v)) \<and>
     (\<forall>i<length vs. \<forall>v\<in>set vs. redact_text v \<noteq> [] \<longrightarrow>
        \<not> contains (redact_text v) (placeholder (v_rule_name (vs ! i)) i)) \<and>
     (\<forall>i<length vs. \<not> contains (placeholder (v_rule_name (vs ! i)) i) t)"

text \<open>Placeholders of indices out of range, which no text holds.\<close>

definition ph :: "filter_violation list \<Rightarrow> nat \<Rightarrow> string" where
  "ph vs i = (if i < length vs then placeholder (v_rule_name (vs ! i)) i else ''[]'')"

definition og :: "filter_violation list \<Rightarrow> nat \<Rightarrow> string" where
  "og vs i = (if i < length vs then redact_text (vs ! i) else [])"

lemma ph_bracketed: "separable t vs \<Longrightarrow> bracketed (ph vs i)"
  unfolding ph_def separable_def
  by (auto intro!: placeholder_bracketed) (simp add: bracketed_def)

lemma ph_apart:
  assumes "separable t vs" "v \<in> set vs" "redact_text v \<noteq> []"
  shows "\<not> contains (redact_text v) (ph vs i)"
proof (cases "i < length vs")
  case False
  have "bracket_free (redact_text v)" using assms(1,2) by (simp add: separable_def)
  with False assms(3) show ?thesis
    by (cases "redact_text v") (auto simp: ph_def bracket_free_def startswith_def)
qed (use assms in \<open>auto simp: ph_def separable_def\<close>)

lemma pseudonymize_tokens:
  assumes sep: "separable t all" and "all = before @ vs" "i = length before"
    and "result = spell (ph all) ts" "spell (og all) ts = t"
    and "\<And>j. Inr j \<in> set ts \<Longrightarrow> j \<in> J" and "m = map (\<lambda>j. (ph all j, og all j)) js" "set js = J"
    and "\<forall>j\<in>J. j < length all"
  shows "\<exists>ts' js'. pseudonymize_from i vs result m =
      (spell (ph all) ts', map (\<lambda>j. (ph all j, og all j)) js')
    \<and> spell (og all) ts' = t \<and> (\<forall>j. Inr j \<in> set ts' \<longrightarrow> j \<in> set js') \<and> (\<forall>j\<in>set js'. j < length all)"
  using assms(2-)
proof (induction vs arbitrary: before i result m ts js J)
  case Nil
  then show ?case by (intro exI [of _ ts] exI [of _ js]) auto
next
  case (Cons v vs)
  have i: "i < length all" "all ! i = v" using Cons.prems(1,2) by simp_all
  then have v: "v \<in> set all" by auto
  show ?case
  proof (cases "redact_text v = [] \<or> \<not> contains (redact_text v) result")
    case True
    have "pseudonymize_from i (v # vs) result m = pseudonymize_from (Suc i) vs result m"
      using True by (simp add: Let_def)
    moreover have "\<exists>ts' js'. pseudonymize_from (Suc i) vs result m =
        (spell (ph all) ts', map (\<lambda>j. (ph all j, og all j)) js')
      \<and> spell (og all) ts' = t \<and> (\<forall>j. Inr j \<in> set ts' \<longrightarrow> j \<in> set js') \<and> (\<forall>j\<in>set js'. j < length all)"
      by (rule Cons.IH [of "before @ [v]" "Suc i" result ts J m js]) (use Cons.prems in auto)
    ultimately show ?thesis by simp
  next
    case False
    let ?q = "redact_text v"
    let ?ts = "put_token ?q i ts"
    have free: "bracket_free ?q" using sep v by (simp add: separable_def)
    have f: "placeholder (v_rule_name v) i = ph all i" "og all i = ?q"
      using i by (simp_all add: ph_def og_def)
    have spell: "py_replace ?q (ph all i) result = spell (ph all) ?ts"
      unfolding Cons.prems(3)
      by (rule put_token_spell [OF free]) (use False ph_bracketed [OF sep] ph_apart [OF sep v] in auto)
    have step: "pseudonymize_from i (v # vs) result m =
        pseudonymize_from (Suc i) vs (spell (ph all) ?ts) (m @ [(ph all i, og all i)])"
      using False f spell by (simp add: Let_def)
    show ?thesis
      unfolding step
    proof (rule Cons.IH [of "before @ [v]" "Suc i" _ ?ts "insert i J" _ "js @ [i]"])
      show "spell (og all) ?ts = t"
        using Cons.prems(4) put_token_expand [of "og all" i ?q ts] f(2) False by simp
      show "Inr j \<in> set ?ts \<Longrightarrow> j \<in> insert i J" for j
        using put_token_indices [of ?q j i ts] False Cons.prems(5) by blast
    qed (use Cons.prems i in auto)
  qed
qed

lemma restore_tokens:
  assumes "separable t vs" "spell (og vs) ts = t" "\<forall>j\<in>set js. j < length vs"
    and "\<And>j. Inr j \<in> set ts \<Longrightarrow> j \<in> set js"
  shows "restore (map (\<lambda>j. (ph vs j, og vs j)) js) (spell (ph vs) ts) = t"
  using assms(2-)
proof (induction js arbitrary: ts)
  case Nil
  then have "\<forall>x\<in>set ts. \<exists>c. x = Inl c" by (metis empty_iff empty_set sum.exhaust)
  then obtain s where "ts = map Inl s" by (metis ex_map_conv)
  with Nil show ?case by (simp add: restore_def)
next
  case (Cons j js)
  have j: "j < length vs" using Cons.prems(2) by simp
  have inj: "k = j" if "ph vs k = ph vs j" for k
    using that j placeholder_index [of _ k _ j]
    by (auto simp: ph_def placeholder_def split: if_splits)
  have absent: "\<not> contains (ph vs j) (spell (og vs) ts)"
    using assms(1) j Cons.prems(1) by (simp add: separable_def ph_def)
  have "py_replace (ph vs j) (og vs j) (spell (ph vs) ts) = spell (ph vs) (take_out (og vs) j ts)"
    by (rule take_out_spell [of "ph vs" j "og vs" ts]) (use ph_bracketed [OF assms(1)] inj absent in auto)
  moreover have "restore (map (\<lambda>j. (ph vs j, og vs j)) js) (spell (ph vs) (take_out (og vs) j ts)) = t"
    by (rule Cons.IH) (use Cons.prems in \<open>auto simp: take_out_expand take_out_indices\<close>)
  ultimately show ?case by (simp add: restore_def)
qed

lemma pseudonymize_restores:
  assumes "separable t vs" "pseudonymize t vs = (t', m)"
  shows "restore m t' = t"
proof -
  have "\<exists>ts js. pseudonymize_from 0 vs t [] = (spell (ph vs) ts, map (\<lambda>j. (ph vs j, og vs j)) js)
    \<and> spell (og vs) ts = t \<and> (\<forall>j. Inr j \<in> set ts \<longrightarrow> j \<in> set js) \<and> (\<forall>j\<in>set js. j < length vs)"
    by (rule pseudonymize_tokens [OF assms(1), of "[]" _ _ _ "map Inl t" "{}" _ "[]"]) auto
  then obtain ts js where "t' = spell (ph vs) ts" "m = map (\<lambda>j. (ph vs j, og vs j)) js"
    "spell (og vs) ts = t" "\<forall>j. Inr j \<in> set ts \<longrightarrow> j \<in> set js" "\<forall>j\<in>set js. j < length vs"
    using assms(2) by (auto simp: pseudonymize_def)
  with restore_tokens [OF assms(1)] show ?thesis by simp
qed

section \<open>Properties\<close>

text \<open>
  C35. Round trip: what the placeholders replaced is restored exactly, for any number of
  violations, overlapping or repeated, as long as they are separable from the placeholders and
  the map lives; once cleaned up, the map is gone and the text stays as it is.
\<close>

theorem pseudonymize_round_trip:
  assumes "valkey_laws c" "transform c t uuid config msg vs s = (Ok r, s')"
    and "ur_mapping_id r = Some i" "separable msg vs"
    and "t \<le> t'" "t' < t + seconds PSEUDO_TTL_SECONDS"
  shows "fst (depseudonymize c t' (ur_text r) (Some i) s') = Ok msg
       \<and> (cleanup c t' (Some i) s' = (Ok (), s'') \<longrightarrow>
            fst (depseudonymize c t' (ur_text r) (Some i) s'') = Ok (ur_text r))"
proof -
  obtain msg' m where ps: "pseudonymize msg vs = (msg', m)" by fastforce
  with assms(2,3) have r: "ur_text r = msg'" "i = uuid"
    and set: "vk_set c t s (pseudo_key i) (json_dumps (map_enc m)) (Some PSEUDO_TTL_SECONDS) = Ok s'"
    by (auto simp: transform_def Let_def script_simps passthrough_def
        split: if_splits prod.splits reply.splits)
  have "vk_get c t' s' (pseudo_key i) = Ok (Some (json_dumps (map_enc m)))"
    using valkey_get_set [OF assms(1) set assms(5)] assms(6) by (simp add: expired_def)
  then have "fst (depseudonymize c t' (ur_text r) (Some i) s') = Ok msg"
    using pseudonymize_restores [OF assms(4) ps] r(1)
    by (simp add: depseudonymize_def script_simps pseudo_codec.dec_enc json_dumps_def)
  moreover have "fst (depseudonymize c t' (ur_text r) (Some i) s'') = Ok (ur_text r)"
    if "cleanup c t' (Some i) s' = (Ok (), s'')"
  proof -
    from that have "vk_del c t' s' [pseudo_key i] = Ok s''"
      by (simp add: cleanup_def command_def split: reply.splits)
    from valkey_get_del [OF assms(1) this order_refl, of "pseudo_key i"] show ?thesis
      by (simp add: depseudonymize_def script_simps)
  qed
  ultimately show ?thesis by blast
qed

text \<open>
  Without separability restoring fails: a second rule whose match occurs inside the first
  placeholder rewrites it, the placeholders are undone first-in first-out, and the client is
  left with a placeholder where the address was.
\<close>

definition address_rule :: filter_violation where
  "address_rule = \<lparr>v_rule_name = ''email'', v_rule_type = ''builtin_pii'', v_matched_text = ''a@b.c'',
     v_action = ''redact'', v_confidence = 95 / 100, v_full_matched_text = ''a@b.c''\<rparr>"

definition word_rule :: filter_violation where
  "word_rule = \<lparr>v_rule_name = ''w'', v_rule_type = ''custom_string'', v_matched_text = ''EMAIL'',
     v_action = ''redact'', v_confidence = 95 / 100, v_full_matched_text = ''EMAIL''\<rparr>"

theorem nested_placeholder_not_restored:
  "restore (snd (pseudonymize ''EMAIL a@b.c'' [address_rule, word_rule]))
     (fst (pseudonymize ''EMAIL a@b.c'' [address_rule, word_rule])) = ''EMAIL [PSEUDO_EMAIL_0]''"
  by code_simp

text \<open>
  A rule that says block switches the redaction off: in redact mode, if any of the
  violations has action block, the text goes upstream exactly as the client wrote it.
\<close>

theorem block_violation_sent_unredacted:
  assumes "v \<in> set vs" "v_action v = ''block''"
    and "jget_or config ''mode'' (JStr ''redact'') = JStr ''redact''"
  shows "transform c t uuid config msg vs s = (Ok (passthrough msg (counts_of vs)), s)"
  using assms
  by (auto simp: transform_def Let_def sret_def determine_action_def list_ex_iff)

section \<open>Witnesses\<close>

lemma pseudonymize_round_trip_witness:
  "\<exists>s'. fst (depseudonymize mem_valkey 5 ''to [PSEUDO_EMAIL_0]'' (Some ''u1'') s') = Ok ''to a@b.c''"
proof -
  have ps: "pseudonymize ''to a@b.c'' [address_rule] = (''to [PSEUDO_EMAIL_0]'', [(''[PSEUDO_EMAIL_0]'', ''a@b.c'')])"
    by code_simp
  have p: "placeholder ''email'' 0 = ''[PSEUDO_EMAIL_0]''" and u: "upper ''email'' = ''EMAIL''"
    by code_simp+
  have sep: "separable ''to a@b.c'' [address_rule]"
    by (simp add: separable_def address_rule_def redact_text_def bracket_free_def p u startswith_def)
  have "\<exists>s'. transform mem_valkey 0 ''u1'' [(''mode'', JStr ''pseudonymize'')] ''to a@b.c'' [address_rule] (\<lambda>_. None)
     = (Ok \<lparr>ur_text = ''to [PSEUDO_EMAIL_0]'', ur_mapping_id = Some ''u1'',
            ur_counts = counts_of [address_rule]\<rparr>, s')"
    by (simp add: transform_def ps jget_or_def jget_def script_simps mem_valkey_simps)
  then obtain s' where "transform mem_valkey 0 ''u1'' [(''mode'', JStr ''pseudonymize'')] ''to a@b.c'' [address_rule] (\<lambda>_. None)
     = (Ok \<lparr>ur_text = ''to [PSEUDO_EMAIL_0]'', ur_mapping_id = Some ''u1'',
            ur_counts = counts_of [address_rule]\<rparr>, s')" by blast
  from pseudonymize_round_trip [OF mem_valkey_laws this _ sep, of "''u1''" 5 s'] show ?thesis
    by (auto simp: PSEUDO_TTL_SECONDS_def seconds_def)
qed

lemma block_violation_sent_unredacted_witness:
  "fst (transform mem_valkey 0 ''u1'' [(''mode'', JStr ''redact'')] ''to a@b.c''
     [address_rule, address_rule\<lparr>v_action := ''block''\<rparr>] (\<lambda>_. None))
   = Ok (passthrough ''to a@b.c'' (counts_of [address_rule, address_rule\<lparr>v_action := ''block''\<rparr>]))"
  using block_violation_sent_unredacted [of "address_rule\<lparr>v_action := ''block''\<rparr>"
      "[address_rule, address_rule\<lparr>v_action := ''block''\<rparr>]" "[(''mode'', JStr ''redact'')]" mem_valkey 0
      "''u1''" "''to a@b.c''" "\<lambda>_. None"]
  by (simp add: jget_or_def jget_def)

end
