(* ===== verification/Guardrails.thy ===== *)
theory Guardrails
  imports PolicyEngine
begin

text \<open>
  Output guardrails (\<open>shared/security/output_guardrails.py\<close>): complete responses go through the
  policy engine, streamed ones are redacted window by window. A streamed chunk comes with the
  two clock readings the loop makes for it, in milliseconds: at the budget test, and after a
  window was emitted.
\<close>

definition WINDOW_OVERLAP_CHARS :: nat where
  "WINDOW_OVERLAP_CHARS = 120"

definition scan_output ::
    "filter_env \<Rightarrow> resolved_policy \<Rightarrow> int option \<Rightarrow> string \<Rightarrow> rat \<Rightarrow> rat \<Rightarrow> auditor_run \<Rightarrow>
     py_error + security_verdict" where
  "scan_output env p org response t3 t4 auditor = evaluate env p org response ''output'' t3 t4 auditor"

definition window_violations ::
    "filter_env \<Rightarrow> resolved_policy \<Rightarrow> int option \<Rightarrow> string \<Rightarrow> filter_violation list" where
  "window_violations env p org window =
     (if tier1_enabled p
      then run_builtin_patterns (fe_finditer env) (fe_patterns env) (fe_disabled env) window else []) @
     (if tier2_enabled p
      then run_custom_rules (fe_finditer env) (load_custom_rules (fe_rules env) org) window ''output''
      else [])"

definition redact_window :: "filter_env \<Rightarrow> resolved_policy \<Rightarrow> int option \<Rightarrow> string \<Rightarrow> string" where
  "redact_window env p org window = snd (determine_action window (window_violations env p org window))"

type_synonym timed_chunk = "string \<times> rat \<times> rat"

fun scan_stream ::
    "filter_env \<Rightarrow> resolved_policy \<Rightarrow> int option \<Rightarrow> string \<Rightarrow> rat \<Rightarrow> timed_chunk list \<Rightarrow> string list" where
  "scan_stream env p org buffer start [] =
     (if buffer = [] then [] else [redact_window env p org buffer])"
| "scan_stream env p org buffer start ((chunk, now, after) # rest) =
     (let b = buffer @ chunk;
          safe = length b - WINDOW_OVERLAP_CHARS
      in if budget_exceeded p (now - start) \<and> fail_mode p = ''closed'' then []
         else if budget_exceeded p (now - start) \<and> fail_mode p = ''open'' then
           b # scan_stream env p org [] after rest
         else if 0 < safe then
           redact_window env p org (take safe b) # scan_stream env p org (drop safe b) after rest
         else scan_stream env p org b start rest)"

section \<open>Properties\<close>

text \<open>
  Outside the open mode nothing leaves a stream unscanned: every piece emitted is the
  redaction of a window, whatever the clock reads.
\<close>

theorem stream_emits_redacted_windows:
  assumes "fail_mode p \<noteq> ''open''" "piece \<in> set (scan_stream env p org buffer start chunks)"
  shows "\<exists>window. piece = redact_window env p org window"
  using assms
  by (induction env p org buffer start chunks rule: scan_stream.induct)
    (auto simp: Let_def split: if_splits)

text \<open>
  The overlap does not protect a match that straddles a window: when neither window of a
  response contains a match of its own, the response is emitted verbatim, even if the response
  as a whole contains one, because each window is cut off before it is scanned.
\<close>

theorem straddling_match_emitted:
  assumes "WINDOW_OVERLAP_CHARS < length response" "latency_budget_ms p = None"
    and "window_violations env p org (take (length response - WINDOW_OVERLAP_CHARS) response) = []"
    and "window_violations env p org (drop (length response - WINDOW_OVERLAP_CHARS) response) = []"
  shows "concat (scan_stream env p org [] start [(response, now, after)]) = response"
  using assms by (simp add: Let_def budget_exceeded_def redact_window_def determine_action_def)

text \<open>
  A rule that says block does not: a window with a violation of action block is emitted
  exactly as it is, the redactions other rules ask for included.
\<close>

theorem blocked_window_emitted:
  assumes "v \<in> set (window_violations env p org window)" "v_action v = ''block''"
  shows "redact_window env p org window = window"
  using assms by (auto simp: redact_window_def determine_action_def list_ex_iff)

section \<open>Witnesses\<close>

text \<open>The matches of a literal: a regular expression engine restricted to plain characters.\<close>

definition literal_matches :: finditer where
  "literal_matches pat s = Some (if contains pat s then [pat] else [])"

definition demo_filter :: "string \<Rightarrow> filter_rule list \<Rightarrow> filter_env" where
  "demo_filter secret rules = \<lparr>fe_finditer = literal_matches,
     fe_patterns = [(''api_key'', secret, 9/10)], fe_disabled = [], fe_rules = rules,
     fe_ner_enabled = False, fe_ner = None, fe_disabled_ner = [], fe_model = [],
     fe_http = HttpFailure\<rparr>"

lemmas demo_filter_simps = window_violations_def demo_filter_def run_builtin_patterns_def
  builtin_violations_def literal_matches_def run_custom_rules_def load_custom_rules_def

lemma stream_emits_redacted_windows_witness:
  "\<exists>w. ''ok'' = redact_window (demo_filter ''secret'' []) policy_floor None w"
  by (rule stream_emits_redacted_windows [of policy_floor _ "demo_filter ''secret'' []" None "[]" 0
        "[(''ok'', 0, 0)]"])
    (simp_all add: policy_floor_def budget_exceeded_def WINDOW_OVERLAP_CHARS_def
      redact_window_def demo_filter_simps determine_action_def startswith_def)

text \<open>A secret of six characters whose first three fall into the first window.\<close>

definition demo_response :: string where
  "demo_response = ''secret'' @ replicate 117 CHR ''x''"

lemma contains_replicate: "contains p (replicate n c) \<Longrightarrow> set p \<subseteq> {c}"
  unfolding contains_iff by (metis Un_upper1 Un_upper2 in_set_replicate set_append subsetI subset_trans singletonI)

lemma straddling_match_emitted_witness:
  "window_violations (demo_filter ''secret'' []) policy_floor None demo_response \<noteq> []
   \<and> concat (scan_stream (demo_filter ''secret'' []) policy_floor None [] 0 [(demo_response, 0, 0)])
     = demo_response"
proof -
  have len: "length demo_response = 123" by (simp add: demo_response_def)
  have "\<not> contains ''secret'' (''ret'' @ replicate 117 CHR ''x'')"
    using contains_replicate [of "''secret''" 117 "CHR ''x''"] by (auto simp: startswith_def)
  then have d: "window_violations (demo_filter ''secret'' []) policy_floor None (drop 3 demo_response) = []"
    by (simp add: demo_filter_simps demo_response_def policy_floor_def)
  have t: "window_violations (demo_filter ''secret'' []) policy_floor None (take 3 demo_response) = []"
    by (simp add: demo_filter_simps demo_response_def policy_floor_def startswith_def)
  have "contains ''secret'' demo_response"
    unfolding demo_response_def contains_iff by (metis append_Nil)
  then have "window_violations (demo_filter ''secret'' []) policy_floor None demo_response \<noteq> []"
    by (simp add: demo_filter_simps policy_floor_def)
  with straddling_match_emitted [of demo_response policy_floor "demo_filter ''secret'' []" None 0 0 0]
    t d len show ?thesis
    by (simp add: WINDOW_OVERLAP_CHARS_def policy_floor_def del: scan_stream.simps)
qed

definition block_rule :: filter_rule where
  "block_rule = \<lparr>fr_id = 1, fr_name = ''no leaks'', fr_rule_type = ''custom_string'',
     fr_target = ''both'', fr_pattern = ''codename'', fr_action = ''block'', fr_enabled = True,
     fr_organization_id = None\<rparr>"

lemma blocked_window_emitted_witness:
  "redact_window (demo_filter ''secret'' [block_rule]) policy_floor None ''codename''  = ''codename''"
proof -
  have "window_violations (demo_filter ''secret'' [block_rule]) policy_floor None ''codename''
    = [\<lparr>v_rule_name = ''no leaks'', v_rule_type = ''custom_string'', v_matched_text = ''codename'',
        v_action = ''block'', v_confidence = 95 / 100, v_full_matched_text = ''codename''\<rparr>]"
    by (simp add: demo_filter_simps policy_floor_def block_rule_def rule_violations_def startswith_def
        lower_def lower_char_def)
  with blocked_window_emitted [of _ "demo_filter ''secret'' [block_rule]" policy_floor None "''codename''"]
  show ?thesis by simp
qed

end
