(* ===== verification/Access.thy ===== *)
theory Access
  imports PyText Layers
begin

text \<open>
  \<open>shared/security/bypass.py\<close> and \<open>shared/security/model_access.py\<close>: who may bypass
  enforcement, and which model a request's scope chain blocks. Times are microseconds; the
  grants table is ordered by \<open>created_at\<close>, newest first, as the query asks.
\<close>

section \<open>Bypass grants\<close>

definition BYPASS_SCOPE :: string where
  "BYPASS_SCOPE = ''security:bypass''"

record bypass_grant =
  bg_id :: int
  bg_subject_type :: string
  bg_subject_ref :: string
  bg_mode :: string
  bg_scope_narrow :: "string list"
  bg_include_upstream :: bool
  bg_expires_at :: "int option"
  bg_created_at :: int

record bypass_decision =
  bd_active :: bool
  bd_mode :: string
  bd_scope_narrow :: "string list"
  bd_include_upstream :: bool
  bd_grant_id :: "int option"

definition INACTIVE :: bypass_decision where
  "INACTIVE = \<lparr>bd_active = False, bd_mode = ''shadow'', bd_scope_narrow = [],
     bd_include_upstream = False, bd_grant_id = None\<rparr>"

definition bypasses :: "bypass_decision \<Rightarrow> string \<Rightarrow> bool" where
  "bypasses d scope =
     (if \<not> bd_active d then False
      else if bd_scope_narrow d = [] then True
      else scope \<in> set (bd_scope_narrow d))"

definition expired_at :: "int option \<Rightarrow> int \<Rightarrow> bool" where
  "expired_at ex now = (case ex of None \<Rightarrow> False | Some e \<Rightarrow> e \<le> now)"

definition find_active_grant ::
    "bypass_grant list \<Rightarrow> string \<Rightarrow> string \<Rightarrow> int \<Rightarrow> bypass_grant option" where
  "find_active_grant table ty ref now =
     List.find (\<lambda>g. \<not> expired_at (bg_expires_at g) now)
       (py_sorted (\<lambda>g. - bg_created_at g)
         (filter (\<lambda>g. bg_subject_type g = ty \<and> bg_subject_ref g = ref) table))"

record request_ctx =
  rc_token_scopes :: "string list"
  rc_vkey_id :: "int option"
  rc_user_id :: "int option"
  rc_now :: int

definition resolve_bypass :: "bypass_grant list \<Rightarrow> request_ctx \<Rightarrow> bypass_decision" where
  "resolve_bypass table ctx =
     (if BYPASS_SCOPE \<notin> set (rc_token_scopes ctx) then INACTIVE
      else
        let by_key = (case rc_vkey_id ctx of None \<Rightarrow> None
              | Some i \<Rightarrow> find_active_grant table ''vkey'' (str_int i) (rc_now ctx));
            grant = (case by_key of Some g \<Rightarrow> Some g
              | None \<Rightarrow> (case rc_user_id ctx of None \<Rightarrow> None
                        | Some i \<Rightarrow> find_active_grant table ''user'' (str_int i) (rc_now ctx)))
        in case grant of
             None \<Rightarrow> INACTIVE
           | Some g \<Rightarrow>
               if expired_at (bg_expires_at g) (rc_now ctx) then INACTIVE
               else \<lparr>bd_active = True, bd_mode = bg_mode g, bd_scope_narrow = bg_scope_narrow g,
                     bd_include_upstream = bg_include_upstream g, bd_grant_id = Some (bg_id g)\<rparr>)"

section \<open>Model access\<close>

definition SCOPE_ORDER :: "string list" where
  "SCOPE_ORDER = [''key'', ''user'', ''org'', ''global'']"

record access_policy =
  ap_id :: int
  ap_scope_type :: string
  ap_scope_ref :: "string option"
  ap_model_pattern :: string
  ap_action :: string
  ap_fallback_model :: "string option"
  ap_reason :: "string option"
  ap_enabled :: bool

record access_decision =
  ad_allowed :: bool
  ad_action :: "string option"
  ad_matched_policy :: "int option"
  ad_fallback_model :: "string option"
  ad_reason :: "string option"

definition is_glob :: "string \<Rightarrow> bool" where
  "is_glob pattern = list_ex (\<lambda>c. c \<in> {CHR ''*'', CHR ''?'', CHR ''[''}) pattern"

definition match_rank :: "access_policy \<Rightarrow> int \<times> int" where
  "match_rank r = (if is_glob (ap_model_pattern r) then 0 else 1, ap_id r)"

definition best_match :: "access_policy list \<Rightarrow> string \<Rightarrow> access_policy option" where
  "best_match rows model =
     py_max match_rank (filter (\<lambda>r. fnmatchcase (ap_model_pattern r) model) rows)"

definition scope_refs ::
    "int option \<Rightarrow> int option \<Rightarrow> int option \<Rightarrow> string \<Rightarrow> string option" where
  "scope_refs org user key ty =
     (if ty = ''key'' then map_option str_int key
      else if ty = ''user'' then map_option str_int user
      else if ty = ''org'' then map_option str_int org
      else None)"

definition scope_rows ::
    "access_policy list \<Rightarrow> int option \<Rightarrow> int option \<Rightarrow> int option \<Rightarrow> string \<Rightarrow> access_policy list" where
  "scope_rows policies org user key ty =
     filter (\<lambda>r. ap_enabled r \<and> ap_scope_type r = ty \<and> ap_scope_ref r = scope_refs org user key ty)
       policies"

fun first_match ::
    "(string \<Rightarrow> access_policy list) \<Rightarrow> string list \<Rightarrow> string \<Rightarrow> access_policy option" where
  "first_match rows [] model = None"
| "first_match rows (ty # tys) model =
     (case best_match (rows ty) model of
        Some r \<Rightarrow> Some r | None \<Rightarrow> first_match rows tys model)"

definition resolve_access ::
    "access_policy list \<Rightarrow> int option \<Rightarrow> int option \<Rightarrow> int option \<Rightarrow> string \<Rightarrow> access_decision" where
  "resolve_access policies org user key model =
     (case first_match (scope_rows policies org user key) SCOPE_ORDER model of
        Some m \<Rightarrow> \<lparr>ad_allowed = False, ad_action = Some (ap_action m),
                   ad_matched_policy = Some (ap_id m), ad_fallback_model = ap_fallback_model m,
                   ad_reason = ap_reason m\<rparr>
      | None \<Rightarrow> \<lparr>ad_allowed = True, ad_action = None, ad_matched_policy = None,
                 ad_fallback_model = None, ad_reason = None\<rparr>)"

section \<open>Lemmas\<close>

lemma find_active_grant_Some:
  assumes "find_active_grant table ty ref now = Some g"
  shows "g \<in> set table \<and> bg_subject_type g = ty \<and> bg_subject_ref g = ref \<and>
    \<not> expired_at (bg_expires_at g) now"
  using find_Some_in [OF assms [unfolded find_active_grant_def]] by auto

lemma find_active_grant_None:
  assumes "find_active_grant table ty ref now = None"
    and "g \<in> set table" "bg_subject_type g = ty" "bg_subject_ref g = ref"
  shows "expired_at (bg_expires_at g) now"
  using assms by (auto simp: find_active_grant_def find_None_iff)

lemma first_match_Some:
  assumes "first_match rows tys model = Some r"
  shows "\<exists>ty pre post. tys = pre @ ty # post \<and> best_match (rows ty) model = Some r \<and>
    (\<forall>u\<in>set pre. best_match (rows u) model = None)"
  using assms
proof (induction tys)
  case Nil
  then show ?case by simp
next
  case (Cons ty tys)
  show ?case
  proof (cases "best_match (rows ty) model")
    case (Some x)
    with Cons.prems have "best_match (rows ty) model = Some r" by simp
    then show ?thesis by (intro exI [of _ ty] exI [of _ "[]"] exI [of _ tys]) simp
  next
    case None
    with Cons obtain u pre post where "tys = pre @ u # post" "best_match (rows u) model = Some r"
      "\<forall>u\<in>set pre. best_match (rows u) model = None"
      by auto
    with None show ?thesis by (intro exI [of _ u] exI [of _ "ty # pre"] exI [of _ post]) simp
  qed
qed

lemma best_match_None:
  "best_match rows model = None \<longleftrightarrow> (\<forall>r\<in>set rows. \<not> fnmatchcase (ap_model_pattern r) model)"
  by (simp add: best_match_def filter_empty_conv)

lemma best_match_Some:
  assumes "best_match rows model = Some r"
  shows "r \<in> set rows \<and> fnmatchcase (ap_model_pattern r) model \<and>
    (\<forall>q\<in>set rows. fnmatchcase (ap_model_pattern q) model \<longrightarrow> match_rank q \<le> match_rank r)"
  using py_max_in [OF assms [unfolded best_match_def]] py_max_ge [OF assms [unfolded best_match_def]]
  by auto

lemma first_match_None:
  "first_match rows tys model = None \<longleftrightarrow> (\<forall>ty\<in>set tys. best_match (rows ty) model = None)"
  by (induction tys) (auto split: option.splits)

definition in_scope :: "int option \<Rightarrow> int option \<Rightarrow> int option \<Rightarrow> access_policy \<Rightarrow> bool" where
  "in_scope org user key r \<longleftrightarrow> ap_enabled r \<and> ap_scope_type r \<in> set SCOPE_ORDER \<and>
     ap_scope_ref r = scope_refs org user key (ap_scope_type r)"

lemma scope_rows_mem:
  "r \<in> set (scope_rows policies org user key ty) \<longleftrightarrow>
     r \<in> set policies \<and> ap_enabled r \<and> ap_scope_type r = ty \<and>
     ap_scope_ref r = scope_refs org user key ty"
  by (auto simp: scope_rows_def)

text \<open>How narrow a scope type is: its place in \<open>SCOPE_ORDER\<close>.\<close>

definition narrowness :: "string \<Rightarrow> nat" where
  "narrowness ty = length (takeWhile (\<lambda>u. u \<noteq> ty) SCOPE_ORDER)"

lemma narrowness_before:
  assumes "SCOPE_ORDER = pre @ ty # post" "u \<in> set SCOPE_ORDER" "narrowness u < narrowness ty"
  shows "u \<in> set pre"
proof -
  have "distinct SCOPE_ORDER" by (simp add: SCOPE_ORDER_def)
  then have "ty \<notin> set pre" unfolding assms(1) by simp
  then have "\<And>x. x \<in> set pre \<Longrightarrow> x \<noteq> ty" by auto
  then have n: "narrowness ty = length pre"
    unfolding narrowness_def assms(1) by (subst takeWhile_append2) simp_all
  show ?thesis
  proof (rule ccontr)
    assume "u \<notin> set pre"
    then have "\<And>x. x \<in> set pre \<Longrightarrow> x \<noteq> u" by auto
    then have "length pre \<le> narrowness u"
      unfolding narrowness_def assms(1) by (subst takeWhile_append2) simp_all
    with n assms(3) show False by simp
  qed
qed

section \<open>Properties\<close>

text \<open>
  C36. Bypass needs the scope and a live grant: a decision is active only if the token carries
  \<open>security:bypass\<close> and a grant of the table for that very virtual key, or else that very
  user, has not expired at the time of the request; the key's own live grant takes precedence;
  and a narrowed grant bypasses only the scopes it names.
\<close>

theorem bypass_requires_scope_and_grant:
  "(bd_active (resolve_bypass table ctx) \<longrightarrow>
      BYPASS_SCOPE \<in> set (rc_token_scopes ctx) \<and>
      (\<exists>g\<in>set table. \<not> expired_at (bg_expires_at g) (rc_now ctx) \<and>
         (bg_subject_type g = ''vkey'' \<and> map_option str_int (rc_vkey_id ctx) = Some (bg_subject_ref g) \<or>
          bg_subject_type g = ''user'' \<and> map_option str_int (rc_user_id ctx) = Some (bg_subject_ref g) \<and>
            (\<forall>k\<in>set table. bg_subject_type k = ''vkey'' \<and>
               map_option str_int (rc_vkey_id ctx) = Some (bg_subject_ref k) \<longrightarrow>
               expired_at (bg_expires_at k) (rc_now ctx))) \<and>
         bd_grant_id (resolve_bypass table ctx) = Some (bg_id g) \<and>
         bd_mode (resolve_bypass table ctx) = bg_mode g \<and>
         (\<forall>sc. bypasses (resolve_bypass table ctx) sc \<longleftrightarrow>
            bg_scope_narrow g = [] \<or> sc \<in> set (bg_scope_narrow g)))) \<and>
   (\<not> bd_active (resolve_bypass table ctx) \<longrightarrow> (\<forall>sc. \<not> bypasses (resolve_bypass table ctx) sc))"
proof (intro conjI impI)
  assume "\<not> bd_active (resolve_bypass table ctx)"
  then show "\<forall>sc. \<not> bypasses (resolve_bypass table ctx) sc" by (simp add: bypasses_def)
next
  assume a: "bd_active (resolve_bypass table ctx)"
  then show s: "BYPASS_SCOPE \<in> set (rc_token_scopes ctx)"
    by (auto simp: resolve_bypass_def INACTIVE_def split: if_splits)
  define k where "k = (case rc_vkey_id ctx of None \<Rightarrow> None
      | Some i \<Rightarrow> find_active_grant table ''vkey'' (str_int i) (rc_now ctx))"
  define u where "u = (case rc_user_id ctx of None \<Rightarrow> None
      | Some i \<Rightarrow> find_active_grant table ''user'' (str_int i) (rc_now ctx))"
  from a s obtain g where g: "(case k of Some g \<Rightarrow> Some g | None \<Rightarrow> u) = Some g"
    and live: "\<not> expired_at (bg_expires_at g) (rc_now ctx)"
    and r: "resolve_bypass table ctx = \<lparr>bd_active = True, bd_mode = bg_mode g,
      bd_scope_narrow = bg_scope_narrow g, bd_include_upstream = bg_include_upstream g,
      bd_grant_id = Some (bg_id g)\<rparr>"
    by (auto simp: resolve_bypass_def Let_def INACTIVE_def k_def [symmetric] u_def [symmetric]
        split: option.splits if_splits)
  have who: "g \<in> set table \<and>
      (bg_subject_type g = ''vkey'' \<and> map_option str_int (rc_vkey_id ctx) = Some (bg_subject_ref g) \<or>
       bg_subject_type g = ''user'' \<and> map_option str_int (rc_user_id ctx) = Some (bg_subject_ref g) \<and>
         (\<forall>k\<in>set table. bg_subject_type k = ''vkey'' \<and>
            map_option str_int (rc_vkey_id ctx) = Some (bg_subject_ref k) \<longrightarrow>
            expired_at (bg_expires_at k) (rc_now ctx)))"
  proof (cases k)
    case (Some x)
    with g have "k = Some g" by simp
    then obtain i where "rc_vkey_id ctx = Some i"
      "find_active_grant table ''vkey'' (str_int i) (rc_now ctx) = Some g"
      by (auto simp: k_def split: option.splits)
    with find_active_grant_Some [OF this(2)] show ?thesis by auto
  next
    case None
    then have ex: "\<forall>q\<in>set table. bg_subject_type q = ''vkey'' \<and>
        map_option str_int (rc_vkey_id ctx) = Some (bg_subject_ref q) \<longrightarrow>
        expired_at (bg_expires_at q) (rc_now ctx)"
      using find_active_grant_None by (auto simp: k_def split: option.splits)
    from None g obtain i where "rc_user_id ctx = Some i"
      "find_active_grant table ''user'' (str_int i) (rc_now ctx) = Some g"
      by (auto simp: u_def split: option.splits)
    with find_active_grant_Some [OF this(2)] ex show ?thesis by auto
  qed
  show "\<exists>g\<in>set table. \<not> expired_at (bg_expires_at g) (rc_now ctx) \<and>
         (bg_subject_type g = ''vkey'' \<and> map_option str_int (rc_vkey_id ctx) = Some (bg_subject_ref g) \<or>
          bg_subject_type g = ''user'' \<and> map_option str_int (rc_user_id ctx) = Some (bg_subject_ref g) \<and>
            (\<forall>k\<in>set table. bg_subject_type k = ''vkey'' \<and>
               map_option str_int (rc_vkey_id ctx) = Some (bg_subject_ref k) \<longrightarrow>
               expired_at (bg_expires_at k) (rc_now ctx))) \<and>
         bd_grant_id (resolve_bypass table ctx) = Some (bg_id g) \<and>
         bd_mode (resolve_bypass table ctx) = bg_mode g \<and>
         (\<forall>sc. bypasses (resolve_bypass table ctx) sc \<longleftrightarrow>
            bg_scope_narrow g = [] \<or> sc \<in> set (bg_scope_narrow g))"
    by (rule bexI [of _ g]) (use who live in \<open>simp_all add: r bypasses_def\<close>)
qed

definition demo_grant :: "string \<Rightarrow> int option \<Rightarrow> bypass_grant" where
  "demo_grant ty ex = \<lparr>bg_id = 4, bg_subject_type = ty, bg_subject_ref = ''9'', bg_mode = ''shadow'',
     bg_scope_narrow = [''intent_classifier''], bg_include_upstream = False, bg_expires_at = ex,
     bg_created_at = 0\<rparr>"

definition demo_ctx :: "string list \<Rightarrow> request_ctx" where
  "demo_ctx scopes =
     \<lparr>rc_token_scopes = scopes, rc_vkey_id = Some 9, rc_user_id = Some 9, rc_now = 100\<rparr>"

theorem bypass_requires_scope_and_grant_witness:
  "bd_active (resolve_bypass [demo_grant ''vkey'' (Some 50), demo_grant ''user'' None]
      (demo_ctx [''security:bypass''])) \<and>
   (\<exists>g\<in>set [demo_grant ''vkey'' (Some 50), demo_grant ''user'' None]. bg_subject_type g = ''user'')"
proof -
  let ?t = "[demo_grant ''vkey'' (Some 50), demo_grant ''user'' None]"
  have a: "bd_active (resolve_bypass ?t (demo_ctx [''security:bypass'']))" by code_simp
  with bypass_requires_scope_and_grant [of ?t "demo_ctx [''security:bypass'']"]
  obtain g where "g \<in> set ?t" "\<not> expired_at (bg_expires_at g) 100"
    "bg_subject_type g = ''vkey'' \<or> bg_subject_type g = ''user''"
    unfolding demo_ctx_def by auto
  then have "bg_subject_type g = ''user''" by (auto simp: demo_grant_def expired_at_def)
  with a \<open>g \<in> set ?t\<close> show ?thesis by blast
qed

text \<open>
  Model access: a request is blocked exactly when some enabled row of its own scope chain
  matches the model, absence of rows allowing it; the row that decides is of the narrowest
  scope that has a match, and within that scope an exact pattern beats a glob and then the
  highest id wins.
\<close>

theorem model_access_narrowest:
  "case ad_matched_policy (resolve_access policies org user key model) of
     None \<Rightarrow> ad_allowed (resolve_access policies org user key model) \<and>
       (\<forall>r\<in>set policies. in_scope org user key r \<longrightarrow> \<not> fnmatchcase (ap_model_pattern r) model)
   | Some i \<Rightarrow> \<not> ad_allowed (resolve_access policies org user key model) \<and>
       (\<exists>r\<in>set policies. ap_id r = i \<and> in_scope org user key r \<and>
          fnmatchcase (ap_model_pattern r) model \<and>
          ad_action (resolve_access policies org user key model) = Some (ap_action r) \<and>
          ad_fallback_model (resolve_access policies org user key model) = ap_fallback_model r \<and>
          (\<forall>q\<in>set policies. in_scope org user key q \<and> fnmatchcase (ap_model_pattern q) model \<longrightarrow>
             narrowness (ap_scope_type r) \<le> narrowness (ap_scope_type q) \<and>
             (ap_scope_type q = ap_scope_type r \<longrightarrow> match_rank q \<le> match_rank r)))"
proof (cases "first_match (scope_rows policies org user key) SCOPE_ORDER model")
  case None
  then have "\<forall>ty\<in>set SCOPE_ORDER. \<forall>r\<in>set (scope_rows policies org user key ty).
      \<not> fnmatchcase (ap_model_pattern r) model"
    by (simp add: first_match_None best_match_None)
  then have "\<forall>r\<in>set policies. in_scope org user key r \<longrightarrow> \<not> fnmatchcase (ap_model_pattern r) model"
    by (auto simp: in_scope_def scope_rows_mem)
  with None show ?thesis by (simp add: resolve_access_def)
next
  case (Some r)
  from first_match_Some [OF this] obtain ty pre post where
    order: "SCOPE_ORDER = pre @ ty # post"
    and best: "best_match (scope_rows policies org user key ty) model = Some r"
    and none: "\<forall>u\<in>set pre. best_match (scope_rows policies org user key u) model = None"
    by blast
  have "ty \<in> set SCOPE_ORDER" unfolding order by simp
  then have r: "r \<in> set policies" "in_scope org user key r" "ap_scope_type r = ty"
    "fnmatchcase (ap_model_pattern r) model"
    using best_match_Some [OF best] by (auto simp: in_scope_def scope_rows_mem)
  have "narrowness ty \<le> narrowness (ap_scope_type q) \<and>
      (ap_scope_type q = ty \<longrightarrow> match_rank q \<le> match_rank r)"
    if q: "q \<in> set policies" "in_scope org user key q" "fnmatchcase (ap_model_pattern q) model" for q
  proof
    show "narrowness ty \<le> narrowness (ap_scope_type q)"
    proof (rule ccontr)
      assume "\<not> narrowness ty \<le> narrowness (ap_scope_type q)"
      then have "ap_scope_type q \<in> set pre"
        using narrowness_before [OF order] q(2) by (simp add: in_scope_def)
      with none have "best_match (scope_rows policies org user key (ap_scope_type q)) model = None"
        by blast
      with q show False by (auto simp: best_match_None scope_rows_mem in_scope_def)
    qed
    show "ap_scope_type q = ty \<longrightarrow> match_rank q \<le> match_rank r"
      using best_match_Some [OF best] q by (auto simp: scope_rows_mem in_scope_def)
  qed
  with Some r show ?thesis by (auto simp: resolve_access_def)
qed

definition demo_access :: "access_policy list" where
  "demo_access =
     [\<lparr>ap_id = 1, ap_scope_type = ''global'', ap_scope_ref = None, ap_model_pattern = ''gpt-*'',
       ap_action = ''reject'', ap_fallback_model = None, ap_reason = None, ap_enabled = True\<rparr>,
      \<lparr>ap_id = 2, ap_scope_type = ''org'', ap_scope_ref = Some ''7'', ap_model_pattern = ''gpt-[34]*'',
       ap_action = ''reroute'', ap_fallback_model = Some ''gemma'', ap_reason = None,
       ap_enabled = True\<rparr>]"

theorem model_access_narrowest_witness:
  "ad_matched_policy (resolve_access demo_access (Some 7) None None ''gpt-4o'') = Some 2 \<and>
   \<not> ad_allowed (resolve_access demo_access (Some 7) None None ''gpt-4o'')"
proof -
  have a: "ad_matched_policy (resolve_access demo_access (Some 7) None None ''gpt-4o'') = Some 2"
    by code_simp
  with model_access_narrowest [of demo_access "Some 7" None None "''gpt-4o''"] show ?thesis by simp
qed

end
