(* ===== verification/FleetBase.thy ===== *)
theory FleetBase
  imports Valkey
begin

text \<open>
  \<open>shared/fleet/base.py\<close>, \<open>shared/fleet/registry.py\<close> and
  \<open>shared/utils/feature_flags.py\<close>: the backend interface, the factory that builds the
  backends of an organisation from its rows, and the flag that gates the fleet. A backend is
  a record of its six methods over a fleet state \<open>'w\<close>: each may raise and may change the
  state, raising or not. The backend classes' constructors, the credential decryption and
  PostHog are parameters.
\<close>

datatype backend_type = OLLAMA | LLAMACPP | EXO | VERTEX_AI | BEDROCK

datatype management_scope = REGISTER_AND_ROUTE | FULL_LIFECYCLE

definition BACKEND_TYPES :: "(string \<times> backend_type) list" where
  "BACKEND_TYPES =
     [(''ollama'', OLLAMA), (''llamacpp'', LLAMACPP), (''exo'', EXO),
      (''vertex_ai'', VERTEX_AI), (''bedrock'', BEDROCK)]"

definition MANAGEMENT_SCOPES :: "(string \<times> management_scope) list" where
  "MANAGEMENT_SCOPES =
     [(''register_and_route'', REGISTER_AND_ROUTE), (''full_lifecycle'', FULL_LIFECYCLE)]"

record endpoint_info =
  ep_url :: string
  ep_node_id :: string
  ep_loaded_models :: "string list"
  ep_healthy :: bool

record node_info =
  node_id :: string
  node_uid :: "string option"
  node_kind :: string
  node_models :: "string list"
  vram_total_mb :: int
  vram_free_mb :: int
  node_healthy :: bool

record model_placement =
  mp_model :: string
  mp_node_id :: string
  mp_status :: string

record provision_spec =
  ps_name :: string
  ps_models :: "string list"
  ps_mode :: string
  ps_constraints :: dict

record fleet_health =
  fh_backend_id :: int
  fh_healthy :: bool
  fh_node_count :: nat
  fh_detail :: dict

record 'w backend =
  be_type :: backend_type
  be_id :: int
  be_scope :: management_scope
  be_provision :: "provision_spec \<Rightarrow> 'w \<Rightarrow> node_info list reply \<times> 'w"
  be_deprovision :: "string \<Rightarrow> 'w \<Rightarrow> unit reply \<times> 'w"
  be_health :: "'w \<Rightarrow> fleet_health reply \<times> 'w"
  be_list_nodes :: "'w \<Rightarrow> node_info list reply \<times> 'w"
  be_place_model :: "string \<Rightarrow> dict \<Rightarrow> 'w \<Rightarrow> model_placement reply \<times> 'w"
  be_endpoints_for :: "string \<Rightarrow> 'w \<Rightarrow> endpoint_info list reply \<times> 'w"

section \<open>Feature flags\<close>

text \<open>The environment value, if set, decides; else PostHog, when there is a client.\<close>

definition FLAG_TRUTHY :: "string list" where
  "FLAG_TRUTHY = [''1'', ''true'', ''yes'', ''on'']"

definition is_feature_enabled ::
    "string option \<Rightarrow> bool option reply option \<Rightarrow> bool \<Rightarrow> bool" where
  "is_feature_enabled env_val posthog default_val =
     (case env_val of
        Some v \<Rightarrow> lower (py_strip v) \<in> set FLAG_TRUTHY
      | None \<Rightarrow>
          (case posthog of
             None \<Rightarrow> default_val
           | Some Raised \<Rightarrow> default_val
           | Some (Ok None) \<Rightarrow> default_val
           | Some (Ok (Some b)) \<Rightarrow> b))"

section \<open>The factory\<close>

record fleet_backend_row =
  fb_id :: int
  fb_org :: int
  fb_type :: string
  fb_status :: string
  fb_management_scope :: string
  fb_config :: "dict option"
  fb_credentials_ref :: "string option"

text \<open>
  \<open>registry t\<close> is the class registered for \<open>t\<close> after its module was imported, if any: it
  takes the configuration and the decrypted credentials.
\<close>

type_synonym 'w backend_class = "dict \<Rightarrow> string option \<Rightarrow> 'w backend reply"

definition mask_secret :: "string \<Rightarrow> string" where
  "mask_secret secret =
     (if length secret \<le> 4 then replicate (length secret) CHR ''*''
      else replicate (length secret - 4) CHR ''*'' @ drop (length secret - 4) secret)"

definition build_backend ::
    "(backend_type \<Rightarrow> 'w backend_class option) \<Rightarrow> (string \<Rightarrow> string reply) \<Rightarrow>
     fleet_backend_row \<Rightarrow> py_error + 'w backend" where
  "build_backend registry decrypt row =
     (case map_of BACKEND_TYPES (fb_type row) of
        None \<Rightarrow> Inl ValueError
      | Some bt \<Rightarrow>
          (case registry bt of
             None \<Rightarrow> Inl ValueError
           | Some cls \<Rightarrow>
               (case (if truthy (fb_credentials_ref row)
                      then (case decrypt (the (fb_credentials_ref row)) of
                              Raised \<Rightarrow> None | Ok c \<Rightarrow> Some (Some c))
                      else Some None) of
                  None \<Rightarrow> Inl (RuntimeError ''decrypt_credential'')
                | Some credentials \<Rightarrow>
                    (case cls (case fb_config row of None \<Rightarrow> [] | Some c \<Rightarrow> c) credentials of
                       Raised \<Rightarrow> Inl (RuntimeError ''constructor'')
                     | Ok b \<Rightarrow>
                         (case map_of MANAGEMENT_SCOPES (fb_management_scope row) of
                            None \<Rightarrow> Inl ValueError
                          | Some sc \<Rightarrow> Inr (b\<lparr>be_scope := sc, be_id := fb_id row\<rparr>))))))"

definition build_backends_for_org ::
    "(backend_type \<Rightarrow> 'w backend_class option) \<Rightarrow> (string \<Rightarrow> string reply) \<Rightarrow>
     fleet_backend_row list \<Rightarrow> int \<Rightarrow> 'w backend list" where
  "build_backends_for_org registry decrypt table org =
     List.map_filter
       (\<lambda>row. case build_backend registry decrypt row of Inl _ \<Rightarrow> None | Inr b \<Rightarrow> Some b)
       (filter (\<lambda>row. fb_org row = org \<and> fb_status row \<noteq> ''disabled'') table)"

section \<open>An organisation gets its own backends\<close>

lemma build_backend_Inr:
  assumes "build_backend registry decrypt row = Inr b"
  shows "be_id b = fb_id row \<and>
    map_of MANAGEMENT_SCOPES (fb_management_scope row) = Some (be_scope b)"
  using assms
  by (auto simp: build_backend_def split: option.splits reply.splits if_splits)

lemma set_map_filter: "set (List.map_filter f xs) = {y. \<exists>x\<in>set xs. f x = Some y}"
  by (induction xs) (auto simp: List.map_filter_simps split: option.splits)

lemma build_backends_for_org_mem:
  "b \<in> set (build_backends_for_org registry decrypt table org) \<longleftrightarrow>
     (\<exists>row\<in>set table. fb_org row = org \<and> fb_status row \<noteq> ''disabled'' \<and>
        build_backend registry decrypt row = Inr b)"
proof -
  have "(case build_backend registry decrypt row of Inl _ \<Rightarrow> None | Inr b \<Rightarrow> Some b) = Some b \<longleftrightarrow>
      build_backend registry decrypt row = Inr b" for row
    by (cases "build_backend registry decrypt row") simp_all
  then show ?thesis by (simp add: build_backends_for_org_def set_map_filter Bex_def conj_assoc)
qed

lemma length_mask_secret [simp]: "length (mask_secret s) = length s"
  by (auto simp: mask_secret_def)

lemma mask_secret_hides:
  assumes "i < length s - 4 \<or> length s \<le> 4 \<and> i < length s"
  shows "mask_secret s ! i = CHR ''*''"
  using assms by (auto simp: mask_secret_def nth_append)

section \<open>Properties\<close>

text \<open>
  The fleet of an organisation is built from its own rows only, disabled ones left out,
  and one row that cannot be built (unknown type, missing class, bad credentials, a failing
  constructor) removes that backend alone: the others are the same as without the row.
\<close>

theorem build_backends_isolated:
  "(b \<in> set (build_backends_for_org registry decrypt table org) \<longrightarrow>
      (\<exists>row\<in>set table. fb_org row = org \<and> fb_status row \<noteq> ''disabled'' \<and> be_id b = fb_id row \<and>
         map_of MANAGEMENT_SCOPES (fb_management_scope row) = Some (be_scope b))) \<and>
   (isl (build_backend registry decrypt bad) \<longrightarrow>
      build_backends_for_org registry decrypt (pre @ bad # post) org =
      build_backends_for_org registry decrypt (pre @ post) org)"
proof (intro conjI impI)
  assume "b \<in> set (build_backends_for_org registry decrypt table org)"
  then obtain row where "row \<in> set table" "fb_org row = org" "fb_status row \<noteq> ''disabled''"
    "build_backend registry decrypt row = Inr b"
    unfolding build_backends_for_org_mem by blast
  with build_backend_Inr show "\<exists>row\<in>set table. fb_org row = org \<and> fb_status row \<noteq> ''disabled'' \<and>
      be_id b = fb_id row \<and> map_of MANAGEMENT_SCOPES (fb_management_scope row) = Some (be_scope b)"
    by blast
next
  assume "isl (build_backend registry decrypt bad)"
  then show "build_backends_for_org registry decrypt (pre @ bad # post) org =
      build_backends_for_org registry decrypt (pre @ post) org"
    by (cases "build_backend registry decrypt bad")
      (simp_all add: build_backends_for_org_def List.map_filter_def)
qed

definition null_backend :: "backend_type \<Rightarrow> unit backend_class option" where
  "null_backend bt = Some (\<lambda>_ _. Ok
     \<lparr>be_type = bt, be_id = 0, be_scope = REGISTER_AND_ROUTE,
      be_provision = (\<lambda>_ w. (Ok [], w)), be_deprovision = (\<lambda>_ w. (Ok (), w)),
      be_health = (\<lambda>w. (Raised, w)), be_list_nodes = (\<lambda>w. (Ok [], w)),
      be_place_model = (\<lambda>_ _ w. (Raised, w)), be_endpoints_for = (\<lambda>_ w. (Ok [], w))\<rparr>)"

definition demo_row_of :: "int \<Rightarrow> string \<Rightarrow> fleet_backend_row" where
  "demo_row_of i ty = \<lparr>fb_id = i, fb_org = 7, fb_type = ty, fb_status = ''ready'',
     fb_management_scope = ''full_lifecycle'', fb_config = None, fb_credentials_ref = None\<rparr>"

theorem build_backends_isolated_witness:
  "map be_id (build_backends_for_org null_backend (\<lambda>_. Raised)
     ([demo_row_of 1 ''exo''] @ demo_row_of 2 ''tpu'' # [demo_row_of 3 ''ollama'']) 7) = [1, 3]"
proof -
  have bad: "isl (build_backend null_backend (\<lambda>_. Raised) (demo_row_of 2 ''tpu''))" by code_simp
  have "map be_id (build_backends_for_org null_backend (\<lambda>_. Raised)
     ([demo_row_of 1 ''exo''] @ [demo_row_of 3 ''ollama'']) 7) = [1, 3]"
    by code_simp
  then show ?thesis
    using build_backends_isolated [of _ null_backend "\<lambda>_. Raised" _ 7 "demo_row_of 2 ''tpu''"
        "[demo_row_of 1 ''exo'']" "[demo_row_of 3 ''ollama'']"] bad
    by simp
qed

end
