(* ===== verification/FleetCaps.thy ===== *)
theory FleetCaps
  imports FleetBase
begin

text \<open>
  \<open>shared/fleet/caps.py\<close>: the free-tier node and model caps, the VRAM admission check and
  the count of managed nodes. The tables are lists of rows; the license server and the flag
  are what they answer. A Python set of names is a list without duplicates.
\<close>

definition COMMUNITY_TIER :: string where
  "COMMUNITY_TIER = ''community''"

definition FREE_NODE_LIMIT :: nat where
  "FREE_NODE_LIMIT = 5"

definition FREE_MODEL_LIMIT :: nat where
  "FREE_MODEL_LIMIT = 3"

datatype cap_error = CapExceededError | InsufficientCapacityError | BackendError

record tier_limits =
  tier :: string
  node_limit :: "nat option"
  model_limit :: "nat option"

definition limits_for_tier :: "string \<Rightarrow> tier_limits" where
  "limits_for_tier tr =
     (if tr = COMMUNITY_TIER
      then \<lparr>tier = tr, node_limit = Some FREE_NODE_LIMIT, model_limit = Some FREE_MODEL_LIMIT\<rparr>
      else \<lparr>tier = tr, node_limit = None, model_limit = None\<rparr>)"

definition fits_capacity :: "node_info \<Rightarrow> int option \<Rightarrow> bool" where
  "fits_capacity node min_vram_gb =
     (case min_vram_gb of None \<Rightarrow> True | Some gb \<Rightarrow> gb * 1024 \<le> vram_free_mb node)"

fun select_capable_node :: "node_info list \<Rightarrow> int option \<Rightarrow> node_info option" where
  "select_capable_node [] gb = None"
| "select_capable_node (n # ns) gb =
     (if node_healthy n \<and> fits_capacity n gb then Some n else select_capable_node ns gb)"

definition managed_node_key :: "node_info \<Rightarrow> string" where
  "managed_node_key n =
     (if truthy (node_uid n) then the (node_uid n) else node_kind n @ '':'' @ node_id n)"

definition count_managed_nodes :: "node_info list list \<Rightarrow> nat" where
  "count_managed_nodes nodes_by_backend =
     length (remdups (map managed_node_key (concat nodes_by_backend)))"

text \<open>The license client's answer: it raises, or has a tier (or none).\<close>

definition resolve_tier :: "string option reply \<Rightarrow> string" where
  "resolve_tier license =
     (case license of
        Raised \<Rightarrow> COMMUNITY_TIER
      | Ok tr \<Rightarrow> if truthy tr then the tr else COMMUNITY_TIER)"

definition enforce_node_cap :: "bool \<Rightarrow> string option reply \<Rightarrow> nat \<Rightarrow> cap_error + unit" where
  "enforce_node_cap flag license nodes =
     (if \<not> flag then Inr ()
      else case node_limit (limits_for_tier (resolve_tier license)) of
             None \<Rightarrow> Inr ()
           | Some n \<Rightarrow> if n < nodes then Inl CapExceededError else Inr ())"

record ollama_deployment_row =
  od_id :: int
  od_fleet_backend :: "int option"

record ollama_model_row =
  om_deployment :: int
  om_model_name :: string
  om_status :: "string option"

record llamacpp_row =
  lc_fleet_backend :: "int option"
  lc_model_name :: string
  lc_status :: "string option"

record registry_row =
  mr_name :: string
  mr_origin :: string
  mr_is_utility :: bool
  mr_min_vram :: "int option"

record fleet_db =
  db_backends :: "fleet_backend_row list"
  db_ollama_deployments :: "ollama_deployment_row list"
  db_ollama_models :: "ollama_model_row list"
  db_llamacpp :: "llamacpp_row list"
  db_registry :: "registry_row list"

definition registry_first :: "fleet_db \<Rightarrow> string \<Rightarrow> registry_row option" where
  "registry_first db model = List.find (\<lambda>r. mr_name r = model) (db_registry db)"

definition min_vram_for :: "fleet_db \<Rightarrow> string \<Rightarrow> int option" where
  "min_vram_for db model =
     (case registry_first db model of None \<Rightarrow> None | Some r \<Rightarrow> mr_min_vram r)"

definition is_utility_model :: "fleet_db \<Rightarrow> string \<Rightarrow> bool" where
  "is_utility_model db model =
     (case registry_first db model of None \<Rightarrow> False | Some r \<Rightarrow> mr_is_utility r)"

definition placed_model_names :: "fleet_db \<Rightarrow> int \<Rightarrow> string list" where
  "placed_model_names db org =
     (let backend_ids = map fb_id (filter (\<lambda>b. fb_org b = org) (db_backends db))
      in if backend_ids = [] then []
         else
           let deployment_ids =
                 map od_id (filter (\<lambda>d. od_fleet_backend d \<in> Some ` set backend_ids)
                              (db_ollama_deployments db));
               ollama = map om_model_name
                 (filter (\<lambda>m. om_deployment m \<in> set deployment_ids \<and>
                              om_status m \<in> {None, Some ''available''}) (db_ollama_models db));
               llamacpp = map lc_model_name
                 (filter (\<lambda>m. lc_fleet_backend m \<in> Some ` set backend_ids \<and>
                              lc_status m \<in> {None, Some ''running''}) (db_llamacpp db))
           in remdups (ollama @ llamacpp))"

definition exclude_utility :: "fleet_db \<Rightarrow> string list \<Rightarrow> string list" where
  "exclude_utility db names =
     (let utility = map mr_name (filter mr_is_utility (db_registry db))
      in filter (\<lambda>n. n \<notin> set utility) names)"

definition enforce_model_cap ::
    "bool \<Rightarrow> string option reply \<Rightarrow> fleet_db \<Rightarrow> int \<Rightarrow> string \<Rightarrow> cap_error + unit" where
  "enforce_model_cap flag license db org model =
     (if \<not> flag then Inr ()
      else case model_limit (limits_for_tier (resolve_tier license)) of
             None \<Rightarrow> Inr ()
           | Some k \<Rightarrow>
               if is_utility_model db model then Inr ()
               else
                 let registered = exclude_utility db (placed_model_names db org)
                 in if model \<in> set registered then Inr ()
                    else if k \<le> length registered then Inl CapExceededError
                    else Inr ())"

section \<open>Lemmas\<close>

lemma select_capable_node_Some:
  assumes "select_capable_node ns gb = Some n"
  shows "n \<in> set ns \<and> node_healthy n \<and> fits_capacity n gb"
  using assms by (induction ns) (auto split: if_splits)

lemma select_capable_node_None:
  "select_capable_node ns gb = None \<longleftrightarrow> (\<forall>n\<in>set ns. \<not> (node_healthy n \<and> fits_capacity n gb))"
  by (induction ns) auto

lemma count_managed_nodes_card:
  "count_managed_nodes nss = card (managed_node_key ` (\<Union>ns\<in>set nss. set ns))"
proof -
  have "set (map managed_node_key (concat nss)) = managed_node_key ` (\<Union>ns\<in>set nss. set ns)"
    by auto
  then show ?thesis
    by (metis count_managed_nodes_def length_remdups_card_conv)
qed

lemma distinct_placed: "distinct (placed_model_names db org)"
  by (simp add: placed_model_names_def Let_def)

lemma distinct_registered: "distinct (exclude_utility db (placed_model_names db org))"
  by (simp add: exclude_utility_def Let_def distinct_placed)

text \<open>The models that count toward an organisation's cap.\<close>

definition counted_models :: "fleet_db \<Rightarrow> int \<Rightarrow> string set" where
  "counted_models db org = set (exclude_utility db (placed_model_names db org))"

lemma counted_models_card:
  "card (counted_models db org) = length (exclude_utility db (placed_model_names db org))"
  by (simp add: counted_models_def distinct_card distinct_registered)

lemma enforce_model_cap_iff:
  "enforce_model_cap flag license db org model = Inl e \<longleftrightarrow>
     e = CapExceededError \<and> flag \<and> resolve_tier license = COMMUNITY_TIER \<and>
     \<not> is_utility_model db model \<and> model \<notin> counted_models db org \<and>
     FREE_MODEL_LIMIT \<le> card (counted_models db org)"
  by (auto simp: enforce_model_cap_def limits_for_tier_def counted_models_def Let_def
      distinct_card distinct_registered)

lemma placed_ollama_insert:
  assumes "b \<in> set (db_backends db)" "fb_org b = org" "d \<in> set (db_ollama_deployments db)"
    "od_fleet_backend d = Some (fb_id b)"
  shows "set (placed_model_names
      (db\<lparr>db_ollama_models := \<lparr>om_deployment = od_id d, om_model_name = m,
             om_status = Some ''available''\<rparr> # db_ollama_models db\<rparr>) org) =
    insert m (set (placed_model_names db org))"
  using assms by (auto simp: placed_model_names_def Let_def filter_empty_conv)

lemma counted_ollama_insert:
  assumes "b \<in> set (db_backends db)" "fb_org b = org" "d \<in> set (db_ollama_deployments db)"
    "od_fleet_backend d = Some (fb_id b)"
  shows "counted_models
      (db\<lparr>db_ollama_models := \<lparr>om_deployment = od_id d, om_model_name = m,
             om_status = Some ''available''\<rparr> # db_ollama_models db\<rparr>) org
    \<subseteq> insert m (counted_models db org)"
proof -
  let ?db = "db\<lparr>db_ollama_models := \<lparr>om_deployment = od_id d, om_model_name = m,
             om_status = Some ''available''\<rparr> # db_ollama_models db\<rparr>"
  have "x \<in> insert m (counted_models db org)" if "x \<in> counted_models ?db org" for x
    using that placed_ollama_insert [OF assms, of m]
    by (auto simp: counted_models_def exclude_utility_def Let_def)
  then show ?thesis by blast
qed

section \<open>Properties\<close>


definition demo_fleet_db :: fleet_db where
  "demo_fleet_db = \<lparr>db_backends =
       [\<lparr>fb_id = 1, fb_org = 7, fb_type = ''ollama'', fb_status = ''ready'',
         fb_management_scope = ''full_lifecycle'', fb_config = None, fb_credentials_ref = None\<rparr>],
     db_ollama_deployments = [\<lparr>od_id = 3, od_fleet_backend = Some 1\<rparr>],
     db_ollama_models =
       [\<lparr>om_deployment = 3, om_model_name = ''a'', om_status = Some ''available''\<rparr>,
        \<lparr>om_deployment = 3, om_model_name = ''b'', om_status = None\<rparr>],
     db_llamacpp = [], db_registry = []\<rparr>"


end
