(* ===== verification/Placement.thy ===== *)
theory Placement
  imports FleetCaps Aliases Capability
begin

text \<open>
  \<open>shared/fleet/placement.py\<close> and \<open>shared/routing/offers.py\<close>: endpoint aggregation and
  selection, lazy pull, placement with its checks, and the local offers' availability. The
  fleet state \<open>'w\<close> is threaded through the backend calls in the order the code makes them.
\<close>

definition DENIED_ORIGINS :: "string list" where
  "DENIED_ORIGINS = map lower
     [''Alibaba'', ''Qwen'', ''DeepSeek'', ''Zhipu AI'', ''Z.ai'', ''GLM'', ''ChatGLM'',
      ''CogVideoX'', ''01.AI'', ''01AI'', ''Moonshot AI'', ''Kimi'', ''MiniMax'', ''Kuaishou'',
      ''Kolors'', ''HPC-AI Tech'', ''Beijing Luchen Technology'', ''Baidu'', ''ERNIE'',
      ''Tencent'', ''ByteDance'', ''iFlytek'', ''SenseTime'', ''Baichuan'', ''StepFun'']"

definition is_denied_origin :: "string option \<Rightarrow> bool" where
  "is_denied_origin origin =
     (case origin of
        None \<Rightarrow> False
      | Some orig \<Rightarrow>
          if orig = [] then False
          else list_ex (\<lambda>denied. contains denied (lower orig)) DENIED_ORIGINS)"

record registry_entry =
  re_name :: string
  re_origin :: string
  re_is_utility :: bool
  re_min_vram :: "int option"

definition bare_model_name :: "string \<Rightarrow> string" where
  "bare_model_name model = snd (split_provider_prefix model)"

record 's placement_engine =
  pe_valkey :: "'s valkey option"
  pe_license :: "string option reply"
  pe_flag :: bool
  pe_pins :: "(string \<times> string) list"
  pe_ttl :: nat

section \<open>Endpoints\<close>

fun endpoints_for :: "string \<Rightarrow> 'w backend list \<Rightarrow> 'w \<Rightarrow> endpoint_info list \<times> 'w" where
  "endpoints_for model [] w = ([], w)"
| "endpoints_for model (b # bs) w =
     (let (r, w1) = be_endpoints_for b model w;
          (eps, w2) = endpoints_for model bs w1
      in ((case r of Raised \<Rightarrow> [] | Ok es \<Rightarrow> es) @ eps, w2))"

definition choose_endpoint :: "(string \<times> string) list \<Rightarrow> string \<Rightarrow> endpoint_info list \<Rightarrow> endpoint_info option"
where
  "choose_endpoint pins model endpoints =
     (let healthy = filter ep_healthy endpoints;
          pool = (if healthy \<noteq> [] then healthy else endpoints)
      in if pool = [] then None
         else
           let pinned =
             (case map_of pins model of
                None \<Rightarrow> None
              | Some nid \<Rightarrow> List.find (\<lambda>e. ep_node_id e = nid) pool)
           in case pinned of
                Some e \<Rightarrow> Some e
              | None \<Rightarrow> py_min (\<lambda>e. length (ep_loaded_models e)) pool)"

definition affinity_key :: "string \<Rightarrow> string" where
  "affinity_key session = ''waddleai:fleet:affinity:'' @ session"

definition affinity_lookup :: "'s valkey option \<Rightarrow> int \<Rightarrow> 's \<Rightarrow> string \<Rightarrow> blob option" where
  "affinity_lookup vk t s session =
     (case vk of None \<Rightarrow> None
      | Some c \<Rightarrow>
         (case vk_get c t s (affinity_key session) of Raised \<Rightarrow> None | Ok raw \<Rightarrow> raw))"

definition affinity_record :: "'s valkey option \<Rightarrow> nat \<Rightarrow> int \<Rightarrow> 's \<Rightarrow> string \<Rightarrow> string \<Rightarrow> 's" where
  "affinity_record vk ttl t s session nid =
     (case vk of None \<Rightarrow> s
      | Some c \<Rightarrow>
         (case vk_set c t s (affinity_key session) (RawText nid) (Some ttl) of
            Raised \<Rightarrow> s | Ok s' \<Rightarrow> s'))"

definition select_endpoint ::
    "'s placement_engine \<Rightarrow> int \<Rightarrow> 's \<Rightarrow> string \<Rightarrow> string option \<Rightarrow> endpoint_info list \<Rightarrow>
     endpoint_info option \<times> 's" where
  "select_endpoint pe t s model session endpoints =
     (if endpoints = [] then (None, s)
      else
        let pinned =
          (if truthy session then
             (case affinity_lookup (pe_valkey pe) t s (the session) of
                None \<Rightarrow> None
              | Some raw \<Rightarrow>
                  List.find (\<lambda>e. RawText (ep_node_id e) = raw \<and> ep_healthy e) endpoints)
           else None);
          chosen = (case pinned of Some e \<Rightarrow> Some e | None \<Rightarrow> choose_endpoint (pe_pins pe) model endpoints)
        in (chosen,
            case chosen of
              None \<Rightarrow> s
            | Some e \<Rightarrow>
                if truthy session
                then affinity_record (pe_valkey pe) (pe_ttl pe) t s (the session) (ep_node_id e)
                else s))"

section \<open>Placement\<close>

fun lazy_pull :: "string \<Rightarrow> 'w backend list \<Rightarrow> 'w \<Rightarrow> bool \<times> 'w" where
  "lazy_pull model [] w = (False, w)"
| "lazy_pull model (b # bs) w =
     (if be_scope b \<noteq> FULL_LIFECYCLE then lazy_pull model bs w
      else case be_place_model b model [(''lazy'', JBool True)] w of
             (Raised, w') \<Rightarrow> lazy_pull model bs w'
           | (Ok _, w') \<Rightarrow> (True, w'))"

definition ensure_placed :: "string \<Rightarrow> 'w backend list \<Rightarrow> 'w \<Rightarrow> endpoint_info list \<times> 'w" where
  "ensure_placed model backends w =
     (let (existing, w1) = endpoints_for model backends w in
      if existing \<noteq> [] then (existing, w1)
      else case lazy_pull model backends w1 of
             (True, w2) \<Rightarrow> endpoints_for model backends w2
           | (False, w2) \<Rightarrow> ([], w2))"

definition place_model ::
    "'s placement_engine \<Rightarrow> fleet_db \<Rightarrow> int \<Rightarrow> string \<Rightarrow> dict \<Rightarrow> 'w backend \<Rightarrow>
     registry_entry option \<Rightarrow> 'w \<Rightarrow> (cap_error + model_placement) \<times> 'w" where
  "place_model pe db org model constraints b entry w =
     (if (case entry of None \<Rightarrow> False | Some e \<Rightarrow> is_denied_origin (Some (re_origin e))) then
        (Inr \<lparr>mp_model = model, mp_node_id = [], mp_status = ''denied''\<rparr>, w)
      else
        case (if (case entry of None \<Rightarrow> True | Some e \<Rightarrow> \<not> re_is_utility e)
              then enforce_model_cap (pe_flag pe) (pe_license pe) db org (bare_model_name model)
              else Inr ()) of
          Inl e \<Rightarrow> (Inl e, w)
        | Inr () \<Rightarrow>
            (case Option.bind entry re_min_vram of
               Some gb \<Rightarrow>
                 if jget constraints ''node_id'' = None then
                   (case be_list_nodes b w of
                      (Raised, w1) \<Rightarrow> (Inl BackendError, w1)
                    | (Ok nodes, w1) \<Rightarrow>
                        (case select_capable_node nodes (Some gb) of
                           None \<Rightarrow> (Inl InsufficientCapacityError, w1)
                         | Some n \<Rightarrow>
                             (case be_place_model b model
                                     (constraints @ [(''node_id'', JStr (node_id n))]) w1 of
                                (Raised, w2) \<Rightarrow> (Inl BackendError, w2)
                              | (Ok p, w2) \<Rightarrow> (Inr p, w2))))
                 else (case be_place_model b model constraints w of
                         (Raised, w2) \<Rightarrow> (Inl BackendError, w2) | (Ok p, w2) \<Rightarrow> (Inr p, w2))
             | None \<Rightarrow>
                 (case be_place_model b model constraints w of
                    (Raised, w2) \<Rightarrow> (Inl BackendError, w2) | (Ok p, w2) \<Rightarrow> (Inr p, w2))))"

section \<open>Offers\<close>

fun annotate_offers ::
    "model_offer list \<Rightarrow> 'w backend list \<Rightarrow> 'w \<Rightarrow> model_offer list \<times> 'w" where
  "annotate_offers [] bs w = ([], w)"
| "annotate_offers (ofr # ofs) bs w =
     (if location ofr \<noteq> ''local'' then
        (let (rest, w1) = annotate_offers ofs bs w in (ofr # rest, w1))
      else
        (let (eps, w1) = endpoints_for (model_name ofr) bs w;
             has_healthy = list_ex ep_healthy eps;
             ofr' = (if has_healthy = available ofr then ofr
                     else ofr\<lparr>available := has_healthy\<rparr>);
             (rest, w2) = annotate_offers ofs bs w1
         in (ofr' # rest, w2)))"

record model_config_row =
  mc_model_name :: string
  mc_preferred_providers :: "string list option"
  mc_cost_per_token :: "(string \<times> rat) list option"
  mc_context_length :: "int option"
  mc_capabilities :: "string list option"
  mc_enabled :: bool

definition LOCAL_PROVIDERS :: "string list" where
  "LOCAL_PROVIDERS = [''ollama'', ''llamacpp'']"

definition offer_of_row :: "model_config_row \<Rightarrow> model_offer" where
  "offer_of_row row =
     (let providers = (case mc_preferred_providers row of None \<Rightarrow> [] | Some ps \<Rightarrow> ps);
          costs = map snd (case mc_cost_per_token row of None \<Rightarrow> [] | Some cs \<Rightarrow> cs);
          capabilities = (case mc_capabilities row of None \<Rightarrow> [] | Some cs \<Rightarrow> cs)
      in \<lparr>model_name = mc_model_name row, capability_score = 3, supports_tools = True,
          supports_vision = (''vision'' \<in> set capabilities),
          context_window =
            (case mc_context_length row of None \<Rightarrow> 4096 | Some n \<Rightarrow> if n = 0 then 4096 else n),
          cost_per_token =
            (if costs = [] then 0 else sum_list costs / of_nat (length costs)),
          location =
            (if list_ex (\<lambda>p. p \<in> set LOCAL_PROVIDERS) providers then ''local'' else ''commercial''),
          available = True\<rparr>)"

definition load_offers_from_model_configs ::
    "model_config_row list \<Rightarrow> bool \<Rightarrow> 'w backend list option \<Rightarrow> 'w \<Rightarrow> model_offer list \<times> 'w" where
  "load_offers_from_model_configs table placement backends w =
     (let offers = map offer_of_row (filter mc_enabled table)
      in if placement then annotate_offers offers (case backends of None \<Rightarrow> [] | Some bs \<Rightarrow> bs) w
         else (offers, w))"

section \<open>Lemmas\<close>

lemma choose_endpoint_pool:
  assumes "eps \<noteq> []"
  defines "pool \<equiv> (if list_ex ep_healthy eps then filter ep_healthy eps else eps)"
  shows "\<exists>e\<in>set pool. choose_endpoint pins model eps = Some e"
proof -
  have p: "(if filter ep_healthy eps \<noteq> [] then filter ep_healthy eps else eps) = pool"
    by (auto simp: pool_def list_ex_iff filter_empty_conv)
  have ne: "pool \<noteq> []" using assms(1) by (auto simp: pool_def list_ex_iff filter_empty_conv)
  obtain m where m: "py_min (\<lambda>e. length (ep_loaded_models e)) pool = Some m"
    using py_min_exists [OF ne] by blast
  define pin where "pin = Option.bind (map_of pins model)
    (\<lambda>nid. List.find (\<lambda>e. ep_node_id e = nid) pool)"
  have "choose_endpoint pins model eps = (case pin of Some e \<Rightarrow> Some e | None \<Rightarrow> Some m)"
    unfolding choose_endpoint_def Let_def p pin_def m
    using ne by (cases "map_of pins model") simp_all
  moreover have "e \<in> set pool" if "pin = Some e" for e
    using that find_Some_in by (fastforce simp: pin_def split: Option.bind_splits)
  ultimately show ?thesis using py_min_in [OF m] by (cases pin) auto
qed

lemma choose_endpoint_in:
  assumes "choose_endpoint pins model eps = Some e"
  shows "e \<in> set eps \<and> (list_ex ep_healthy eps \<longrightarrow> ep_healthy e)"
proof -
  have "eps \<noteq> []" using assms by (auto simp: choose_endpoint_def)
  from choose_endpoint_pool [OF this, of pins model] assms show ?thesis
    by (auto split: if_splits)
qed

lemma choose_endpoint_exists: "eps \<noteq> [] \<Longrightarrow> choose_endpoint pins model eps \<noteq> None"
  using choose_endpoint_pool by fastforce

lemma endpoints_for_skip:
  assumes "be_endpoints_for b model = (\<lambda>w. (Raised, w))"
  shows "endpoints_for model (bs @ b # bs') w = endpoints_for model (bs @ bs') w"
  by (induction bs arbitrary: w) (simp_all add: assms)

text \<open>Backends whose endpoint listing does not change the fleet.\<close>

definition read_only :: "'w backend list \<Rightarrow> bool" where
  "read_only bs \<longleftrightarrow> (\<forall>b\<in>set bs. \<forall>m w. snd (be_endpoints_for b m w) = w)"

lemma endpoints_for_read_only: "read_only bs \<Longrightarrow> snd (endpoints_for m bs w) = w"
proof (induction bs arbitrary: w)
  case Nil
  then show ?case by simp
next
  case (Cons b bs)
  then have "read_only bs" "snd (be_endpoints_for b m w) = w" by (simp_all add: read_only_def)
  with Cons.IH [of w] show ?case
    by (cases "be_endpoints_for b m w"; cases "endpoints_for m bs w") simp
qed

definition live_offer :: "'w backend list \<Rightarrow> 'w \<Rightarrow> model_offer \<Rightarrow> model_offer" where
  "live_offer bs w ofr =
     (if location ofr = ''local''
      then ofr\<lparr>available := list_ex ep_healthy (fst (endpoints_for (model_name ofr) bs w))\<rparr>
      else ofr)"

lemma update_available_same: "b = available ofr \<Longrightarrow> ofr = ofr\<lparr>available := b\<rparr>"
  by simp

lemma annotate_offers_map:
  assumes "read_only bs"
  shows "annotate_offers ofs bs w = (map (live_offer bs w) ofs, w)"
proof (induction ofs)
  case Nil
  then show ?case by simp
next
  case (Cons ofr ofs)
  obtain eps where eps: "endpoints_for (model_name ofr) bs w = (eps, w)"
    using endpoints_for_read_only [OF assms] by (metis prod.collapse)
  with Cons show ?case
    by (cases "location ofr = ''local''") (auto simp: live_offer_def Let_def)
qed

section \<open>Properties\<close>

text \<open>
  C30. Placement is gated before any backend is touched: a model of a denied origin and a model
  over the free-tier cap leave the fleet as it was; whatever else is placed was placed by the
  backend, and when the registry asks for memory and the caller pinned no node, on a node the
  backend listed that is healthy and has that much free.
\<close>

theorem place_model_guarded:
  assumes "place_model pe db org model cs b entry w = (r, w')"
  shows "(\<forall>e. entry = Some e \<and> is_denied_origin (Some (re_origin e)) \<longrightarrow>
       r = Inr \<lparr>mp_model = model, mp_node_id = [], mp_status = ''denied''\<rparr> \<and> w' = w) \<and>
    (r = Inl CapExceededError \<longrightarrow> w' = w) \<and>
    (\<forall>p gb e. r = Inr p \<and> entry = Some e \<and> \<not> is_denied_origin (Some (re_origin e)) \<and>
        re_min_vram e = Some gb \<and> jget cs ''node_id'' = None \<longrightarrow>
       (\<exists>nodes n w1. be_list_nodes b w = (Ok nodes, w1) \<and> n \<in> set nodes \<and> node_healthy n \<and>
          gb * 1024 \<le> vram_free_mb n \<and>
          be_place_model b model (cs @ [(''node_id'', JStr (node_id n))]) w1 = (Ok p, w')))"
proof (intro conjI allI impI)
  fix e
  assume "entry = Some e \<and> is_denied_origin (Some (re_origin e))"
  with assms show "r = Inr \<lparr>mp_model = model, mp_node_id = [], mp_status = ''denied''\<rparr>" "w' = w"
    by (simp_all add: place_model_def)
next
  assume "r = Inl CapExceededError"
  with assms show "w' = w"
    by (auto simp: place_model_def split: option.splits if_splits sum.splits unit.splits
        reply.splits prod.splits)
next
  fix p gb e
  assume h: "r = Inr p \<and> entry = Some e \<and> \<not> is_denied_origin (Some (re_origin e)) \<and>
        re_min_vram e = Some gb \<and> jget cs ''node_id'' = None"
  then obtain nodes w1 n where "be_list_nodes b w = (Ok nodes, w1)"
    "select_capable_node nodes (Some gb) = Some n"
    "be_place_model b model (cs @ [(''node_id'', JStr (node_id n))]) w1 = (Ok p, w')"
    using assms
    by (auto simp: place_model_def split: option.splits if_splits sum.splits unit.splits
        reply.splits prod.splits)
  moreover from select_capable_node_Some [OF this(2)]
  have "n \<in> set nodes \<and> node_healthy n \<and> gb * 1024 \<le> vram_free_mb n"
    by (simp add: fits_capacity_def)
  ultimately show "\<exists>nodes n w1. be_list_nodes b w = (Ok nodes, w1) \<and> n \<in> set nodes \<and>
      node_healthy n \<and> gb * 1024 \<le> vram_free_mb n \<and>
      be_place_model b model (cs @ [(''node_id'', JStr (node_id n))]) w1 = (Ok p, w')"
    by blast
qed

text \<open>A backend that records the placements asked of it.\<close>

definition log_backend :: "(string \<times> dict) list backend" where
  "log_backend =
     \<lparr>be_type = OLLAMA, be_id = 1, be_scope = FULL_LIFECYCLE,
      be_provision = (\<lambda>_ w. (Ok [], w)), be_deprovision = (\<lambda>_ w. (Ok (), w)),
      be_health = (\<lambda>w. (Raised, w)),
      be_list_nodes = (\<lambda>w. (Ok
        [\<lparr>node_id = ''n1'', node_uid = None, node_kind = ''k8s'', node_models = [],
          vram_total_mb = 24000, vram_free_mb = 9000, node_healthy = True\<rparr>], w)),
      be_place_model = (\<lambda>m cs w.
        (Ok \<lparr>mp_model = m, mp_node_id = ''n1'', mp_status = ''placed''\<rparr>, (m, cs) # w)),
      be_endpoints_for = (\<lambda>_ w. (Ok [], w))\<rparr>"

definition demo_engine :: "mem placement_engine" where
  "demo_engine = \<lparr>pe_valkey = Some mem_valkey, pe_license = Raised, pe_flag = True, pe_pins = [],
     pe_ttl = 1800\<rparr>"

definition demo_entry :: "string \<Rightarrow> registry_entry" where
  "demo_entry orig =
     \<lparr>re_name = ''m'', re_origin = orig, re_is_utility = False, re_min_vram = Some 8\<rparr>"

theorem place_model_guarded_witness:
  "snd (place_model demo_engine demo_fleet_db 7 ''ollama:m'' [] log_backend
      (Some (demo_entry ''Alibaba Cloud'')) []) = [] \<and>
   (\<exists>n::node_info. vram_free_mb n \<ge> 8 * 1024 \<and>
     be_place_model log_backend ''ollama:m'' ([] @ [(''node_id'', JStr (node_id n))]) [] =
      (Ok \<lparr>mp_model = ''ollama:m'', mp_node_id = ''n1'', mp_status = ''placed''\<rparr>,
       snd (place_model demo_engine demo_fleet_db 7 ''ollama:m'' [] log_backend
         (Some (demo_entry ''Google'')) [])))"
proof -
  let ?e = "demo_entry ''Google''"
  have d: "is_denied_origin (Some (re_origin (demo_entry ''Alibaba Cloud'')))" by code_simp
  have nd: "\<not> is_denied_origin (Some (re_origin ?e))" by code_simp
  have r: "fst (place_model demo_engine demo_fleet_db 7 ''ollama:m'' [] log_backend (Some ?e) []) =
      Inr \<lparr>mp_model = ''ollama:m'', mp_node_id = ''n1'', mp_status = ''placed''\<rparr>"
    by code_simp
  note a = place_model_guarded [where pe = demo_engine and db = demo_fleet_db and org = 7
      and model = "''ollama:m''" and cs = "[]" and b = log_backend and w = "[]"
      and entry = "Some (demo_entry ''Alibaba Cloud'')", OF surjective_pairing]
  note b = place_model_guarded [where pe = demo_engine and db = demo_fleet_db and org = 7
      and model = "''ollama:m''" and cs = "[]" and b = log_backend and w = "[]"
      and entry = "Some ?e", OF surjective_pairing]
  from b nd r have "\<exists>nodes n w1. be_list_nodes log_backend [] = (Ok nodes, w1) \<and> n \<in> set nodes \<and>
      node_healthy n \<and> 8 * 1024 \<le> vram_free_mb n \<and>
      be_place_model log_backend ''ollama:m'' ([] @ [(''node_id'', JStr (node_id n))]) w1 =
      (Ok \<lparr>mp_model = ''ollama:m'', mp_node_id = ''n1'', mp_status = ''placed''\<rparr>,
       snd (place_model demo_engine demo_fleet_db 7 ''ollama:m'' [] log_backend (Some ?e) []))"
    by (simp add: demo_entry_def jget_def)
  then obtain nodes and n :: node_info and w1 where n: "be_list_nodes log_backend [] = (Ok nodes, w1)"
      "8 * 1024 \<le> vram_free_mb n"
      "be_place_model log_backend ''ollama:m'' ([] @ [(''node_id'', JStr (node_id n))]) w1 =
      (Ok \<lparr>mp_model = ''ollama:m'', mp_node_id = ''n1'', mp_status = ''placed''\<rparr>,
       snd (place_model demo_engine demo_fleet_db 7 ''ollama:m'' [] log_backend (Some ?e) []))"
    by blast
  have "w1 = []" using n(1) by (simp add: log_backend_def)
  with n have c2: "8 * 1024 \<le> vram_free_mb n \<and>
      be_place_model log_backend ''ollama:m'' ([] @ [(''node_id'', JStr (node_id n))]) [] =
      (Ok \<lparr>mp_model = ''ollama:m'', mp_node_id = ''n1'', mp_status = ''placed''\<rparr>,
       snd (place_model demo_engine demo_fleet_db 7 ''ollama:m'' [] log_backend (Some ?e) []))"
    by simp
  have "snd (place_model demo_engine demo_fleet_db 7 ''ollama:m'' [] log_backend
      (Some (demo_entry ''Alibaba Cloud'')) []) = []"
    using a d by blast
  with c2 show ?thesis by blast
qed

text \<open>
  The lazy pull is not gated. When the router finds no endpoint for a model, \<open>ensure_placed\<close>
  places it on the first lifecycle-managed backend that accepts it, with no origin, cap or memory
  check: also a model whose origin placement denies, for which \<open>place_model\<close> leaves the same
  backend untouched.
\<close>

theorem ensure_placed_unguarded:
  assumes "endpoints_for model (b # bs) w = ([], w1)" and "be_scope b = FULL_LIFECYCLE"
    and "be_place_model b model [(''lazy'', JBool True)] w1 = (Ok p, w2)"
    and "is_denied_origin (Some (re_origin e))"
  shows "ensure_placed model (b # bs) w = endpoints_for model (b # bs) w2 \<and>
    place_model pe db org model cs b (Some e) w =
      (Inr \<lparr>mp_model = model, mp_node_id = [], mp_status = ''denied''\<rparr>, w)"
  using assms by (simp add: ensure_placed_def place_model_def del: endpoints_for.simps)

theorem ensure_placed_unguarded_witness:
  "ensure_placed ''qwen3'' [log_backend] [] = ([], [(''qwen3'', [(''lazy'', JBool True)])]) \<and>
   place_model demo_engine demo_fleet_db 7 ''qwen3'' [] log_backend
      (Some (demo_entry ''Alibaba'')) [] =
     (Inr \<lparr>mp_model = ''qwen3'', mp_node_id = [], mp_status = ''denied''\<rparr>, [])"
proof -
  have a: "endpoints_for ''qwen3'' [log_backend] [] = ([], [])" by code_simp
  have b: "be_place_model log_backend ''qwen3'' [(''lazy'', JBool True)] [] =
      (Ok \<lparr>mp_model = ''qwen3'', mp_node_id = ''n1'', mp_status = ''placed''\<rparr>,
       [(''qwen3'', [(''lazy'', JBool True)])])"
    by (simp add: log_backend_def)
  have c: "is_denied_origin (Some (re_origin (demo_entry ''Alibaba'')))" by code_simp
  have d: "be_scope log_backend = FULL_LIFECYCLE" by (simp add: log_backend_def)
  have e: "endpoints_for ''qwen3'' [log_backend] [(''qwen3'', [(''lazy'', JBool True)])] =
      ([], [(''qwen3'', [(''lazy'', JBool True)])])" by (simp add: log_backend_def)
  from ensure_placed_unguarded [OF a d b c] e show ?thesis by simp
qed

text \<open>
  Session affinity: a selection is one of the endpoints given, healthy whenever one of
  them is, and the next selection of the same session within the affinity window goes to the
  same node as long as that node still has a healthy endpoint, whatever the load has become.
\<close>

theorem session_affinity:
  assumes "select_endpoint pe t s model (Some sid) eps = (r, s')" and "sid \<noteq> []" "eps \<noteq> []"
    and "pe_valkey pe = Some c" "valkey_laws c" "valkey_up c"
    and "t \<le> t'" "t' < t + seconds (pe_ttl pe)"
  shows "\<exists>e. r = Some e \<and> e \<in> set eps \<and> (list_ex ep_healthy eps \<longrightarrow> ep_healthy e) \<and>
    (\<forall>eps' model'. (\<exists>e'\<in>set eps'. ep_node_id e' = ep_node_id e \<and> ep_healthy e') \<longrightarrow>
      (\<exists>e'. fst (select_endpoint pe t' s' model' (Some sid) eps') = Some e' \<and> ep_healthy e' \<and>
         ep_node_id e' = ep_node_id e))"
proof -
  obtain e where e: "r = Some e" "e \<in> set eps" "list_ex ep_healthy eps \<longrightarrow> ep_healthy e"
  proof (cases "Option.bind (affinity_lookup (Some c) t s sid)
      (\<lambda>raw. List.find (\<lambda>e. RawText (ep_node_id e) = raw \<and> ep_healthy e) eps)")
    case None
    obtain e where "choose_endpoint (pe_pins pe) model eps = Some e"
      using choose_endpoint_exists [OF assms(3)] by fastforce
    with None assms(1-4) choose_endpoint_in [OF this] show ?thesis
      by (intro that [of e])
        (auto simp: select_endpoint_def Let_def split: option.splits Option.bind_splits)
  next
    case (Some e)
    then have "e \<in> set eps \<and> ep_healthy e"
      by (auto dest: find_Some_in split: Option.bind_splits)
    with Some assms(1-4) show ?thesis
      by (intro that [of e])
        (auto simp: select_endpoint_def Let_def split: option.splits Option.bind_splits)
  qed
  obtain s1 where s1: "vk_set c t s (affinity_key sid) (RawText (ep_node_id e)) (Some (pe_ttl pe)) = Ok s1"
    using valkey_up_set [OF assms(6)] by blast
  have "s' = s1"
    using assms(1-4) e(1) s1 by (auto simp: select_endpoint_def Let_def affinity_record_def)
  with valkey_get_set [OF assms(5) s1 assms(7), of "affinity_key sid"] assms(8)
  have look: "affinity_lookup (Some c) t' s' sid = Some (RawText (ep_node_id e))"
    by (simp add: affinity_lookup_def expired_def)
  have "\<exists>e'. fst (select_endpoint pe t' s' model' (Some sid) eps') = Some e' \<and> ep_healthy e' \<and>
         ep_node_id e' = ep_node_id e"
    if "\<exists>e'\<in>set eps'. ep_node_id e' = ep_node_id e \<and> ep_healthy e'" for eps' model'
  proof -
    have "List.find (\<lambda>e'. ep_node_id e' = ep_node_id e \<and> ep_healthy e') eps' \<noteq> None"
      using that by (auto simp: find_None_iff)
    then obtain e' where e': "List.find (\<lambda>e'. ep_node_id e' = ep_node_id e \<and> ep_healthy e') eps' = Some e'"
      by blast
    then have "ep_healthy e' \<and> ep_node_id e' = ep_node_id e" by (auto dest: find_Some_in)
    moreover have "eps' \<noteq> []" using that by auto
    ultimately show ?thesis
      using e' look assms(2,4) by (simp add: select_endpoint_def)
  qed
  with e show ?thesis by blast
qed

definition demo_ep :: "string \<Rightarrow> string list \<Rightarrow> endpoint_info" where
  "demo_ep n ms = \<lparr>ep_url = [], ep_node_id = n, ep_loaded_models = ms, ep_healthy = True\<rparr>"

theorem session_affinity_witness:
  "\<exists>e'. fst (select_endpoint demo_engine (seconds 60)
      (snd (select_endpoint demo_engine 0 Map.empty ''m'' (Some ''s'') [demo_ep ''a'' [], demo_ep ''b'' [''x'']]))
      ''m'' (Some ''s'') [demo_ep ''a'' [''x'', ''y''], demo_ep ''b'' []]) = Some e' \<and>
    ep_node_id e' = ''a''"
proof -
  let ?r = "select_endpoint demo_engine 0 Map.empty ''m'' (Some ''s'') [demo_ep ''a'' [], demo_ep ''b'' [''x'']]"
  have f: "map_option ep_node_id (fst ?r) = Some ''a''" by code_simp
  have v: "pe_valkey demo_engine = Some mem_valkey" by (simp add: demo_engine_def)
  have w: "(0::int) \<le> seconds 60" "seconds 60 < 0 + seconds (pe_ttl demo_engine)"
    by (simp_all add: seconds_def demo_engine_def)
  from session_affinity [where s = Map.empty and model = "''m''" and sid = "''s''"
      and eps = "[demo_ep ''a'' [], demo_ep ''b'' [''x'']]",
      OF surjective_pairing _ _ v mem_valkey_laws mem_valkey_up w]
  obtain e where e: "fst ?r = Some e"
    and st: "\<forall>eps' model'. (\<exists>e'\<in>set eps'. ep_node_id e' = ep_node_id e \<and> ep_healthy e') \<longrightarrow>
      (\<exists>e'. fst (select_endpoint demo_engine (seconds 60) (snd ?r) model' (Some ''s'') eps') = Some e' \<and>
         ep_healthy e' \<and> ep_node_id e' = ep_node_id e)"
    by auto
  from e f have "ep_node_id e = ''a''" by simp
  with st [rule_format, of "[demo_ep ''a'' [''x'', ''y''], demo_ep ''b'' []]" "''m''"]
  show ?thesis by (auto simp: demo_ep_def)
qed

text \<open>
  The offers handed to the router: annotation keeps every offer, in order, and changes
  nothing but the availability of local ones, which becomes whether some backend reports a
  healthy endpoint for the model; so a local model with no live endpoint is never what the
  capability veto picks, and a backend that fails only withdraws its own endpoints.
\<close>

theorem annotate_offers_live:
  assumes "read_only bs"
  shows "annotate_offers ofs bs w = (map (live_offer bs w) ofs, w) \<and>
    (\<forall>ofr r. location ofr = ''local'' \<and>
        \<not> list_ex ep_healthy (fst (endpoints_for (model_name ofr) bs w)) \<longrightarrow>
       \<not> qualifies (live_offer bs w ofr) r) \<and>
    (\<forall>b bs1 bs2 m. bs = bs1 @ bs2 \<and> be_endpoints_for b m = (\<lambda>w. (Raised, w)) \<longrightarrow>
       endpoints_for m (bs1 @ b # bs2) w = endpoints_for m bs w)"
  using annotate_offers_map [OF assms] endpoints_for_skip
  by (auto simp: live_offer_def qualifies_def)

theorem annotate_offers_live_witness:
  "annotate_offers [offer_of_row \<lparr>mc_model_name = ''g'', mc_preferred_providers = Some [''ollama''],
      mc_cost_per_token = None, mc_context_length = None, mc_capabilities = None,
      mc_enabled = True\<rparr>] [log_backend] [] =
   (map (live_offer [log_backend] []) [offer_of_row \<lparr>mc_model_name = ''g'',
      mc_preferred_providers = Some [''ollama''], mc_cost_per_token = None,
      mc_context_length = None, mc_capabilities = None, mc_enabled = True\<rparr>], [])"
proof -
  have "read_only [log_backend]" by (simp add: read_only_def log_backend_def)
  from annotate_offers_live [OF this] show ?thesis by blast
qed

end
