(* ===== verification/Pipeline.thy ===== *)
theory Pipeline
  imports RoutingEngine PromptSecurity ContentFilter TokenLimiter Metering ResponseCache CacheReplay
    UpstreamFilter Guardrails Intent Access Placement
begin

text \<open>
  The request pipeline of the proxy (\<open>proxy/apps/proxy_server/pipeline/stages.py\<close>): the context
  record, each stage of that file and the orchestrator. What a stage calls is a field of
  \<open>services\<close>, over the state of the world; the calls that reach a provider are logged in the
  world in the order they are made. An exception a stage does not catch ends the run.
\<close>

section \<open>Context and world\<close>

text \<open>
  The user object: the attributes the stages look for with \<open>getattr\<close>. \<open>None\<close> is an absent
  attribute; the absent, the empty and the null \<open>limits\<close> are treated alike by the code.
\<close>

record pipeline_user =
  pu_id :: "int option"
  pu_user_id :: "int option"
  pu_tenant_id :: "int option"
  pu_organization_id :: "int option"
  pu_vkey_id :: "int option"
  pu_api_key_id :: "int option"
  pu_request_id :: "string option"
  pu_limits :: "key_limits option"

record pctx =
  cx_user :: "pipeline_user option"
  cx_body :: dict
  cx_model :: "string option"
  cx_messages :: "json list"
  cx_response_text :: string
  cx_usage :: "dict option"
  cx_blocked :: bool
  cx_block_reason :: "string option"
  cx_status_code :: int
  cx_stream :: bool
  cx_stage_log :: "string list"
  cx_provider :: "string option"
  cx_requested_model :: "string option"
  cx_finish_reason :: json
  cx_reservation_id :: "string option"
  cx_response_format :: string
  cx_cache_hit :: bool
  cx_cache_status :: string
  cx_tokens_saved :: int
  cx_write_back :: "cache_write list option"
  cx_preferred_backend :: "blob option"
  cx_stream_iter :: "frames option"
  cx_session_id :: json
  cx_usage_meta :: dict
  cx_pii_detected :: bool
  cx_fallback_chain :: "string list"
  cx_routed_from :: "routed_from option"
  cx_tool_type_hint :: "string option"
  cx_escalate_hint :: "string option"
  cx_security_degraded :: bool
  cx_mapping_id :: "string option"

text \<open>A call to a provider: its name, the messages, the model.\<close>

type_synonym provider_call = "string \<times> json list \<times> string"

record 'w world =
  wd_state :: 'w
  wd_calls :: "provider_call list"

type_synonym ('w, 'a) eff = "'w world \<Rightarrow> (py_error + 'a) \<times> 'w world"

definition eret :: "'a \<Rightarrow> ('w, 'a) eff" where
  "eret a w = (Inr a, w)"

definition eraise :: "py_error \<Rightarrow> ('w, 'a) eff" where
  "eraise e w = (Inl e, w)"

definition ebind :: "('w, 'a) eff \<Rightarrow> ('a \<Rightarrow> ('w, 'b) eff) \<Rightarrow> ('w, 'b) eff" where
  "ebind f g w = (case f w of (Inl e, w') \<Rightarrow> (Inl e, w') | (Inr a, w') \<Rightarrow> g a w')"

text \<open>\<open>try: f except: h\<close>, and a computation of a service, which does not log calls.\<close>

definition ecatch :: "('w, 'a) eff \<Rightarrow> (py_error \<Rightarrow> ('w, 'a) eff) \<Rightarrow> ('w, 'a) eff" where
  "ecatch f h w = (case f w of (Inl e, w') \<Rightarrow> h e w' | (Inr a, w') \<Rightarrow> (Inr a, w'))"

definition service :: "('w \<Rightarrow> (py_error + 'a) \<times> 'w) \<Rightarrow> ('w, 'a) eff" where
  "service f w = (let (r, s) = f (wd_state w) in (r, w\<lparr>wd_state := s\<rparr>))"

definition total :: "('w \<Rightarrow> 'a \<times> 'w) \<Rightarrow> ('w, 'a) eff" where
  "total f w = (let (a, s) = f (wd_state w) in (Inr a, w\<lparr>wd_state := s\<rparr>))"

lemmas eff_simps = eret_def eraise_def ebind_def ecatch_def service_def total_def

section \<open>Services\<close>

text \<open>The failures of a provider connector that dispatch tells apart, with \<open>e.status_code\<close>.\<close>

datatype provider_failure =
    ClientError "int option"
  | TimeoutError "int option"
  | RateLimitError "int option"
  | ServerError "int option"
  | OtherProviderError "int option"
  | Unexpected

record stream_chunk =
  ck_delta :: string
  ck_done :: bool
  ck_usage :: "dict option"

type_synonym ('w, 'a) srv = "'w \<Rightarrow> (py_error + 'a) \<times> 'w"

record 'w security_v2 =
  v2_resolve :: "int option \<Rightarrow> string option \<Rightarrow> string \<Rightarrow> ('w, resolved_policy) srv"
  v2_evaluate :: "string \<Rightarrow> string \<Rightarrow> resolved_policy \<Rightarrow> ('w, security_verdict) srv"
  v2_intent :: "(json list \<Rightarrow> resolved_policy \<Rightarrow> ('w, intent_result) srv) option"
  v2_bypass :: "('w, bypass_decision) srv option"

record 'w upstream_services =
  us_resolve :: "int option \<Rightarrow> string option \<Rightarrow> string \<Rightarrow> ('w, resolved_policy) srv"
  us_apply :: "string \<Rightarrow> resolved_policy \<Rightarrow> string \<Rightarrow> ('w, upstream_result) srv"
  us_depseudonymize :: "string \<Rightarrow> string \<Rightarrow> ('w, string) srv"
  us_cleanup :: "string \<Rightarrow> ('w, unit) srv"

record 'w services =
  sv_enabled :: "string \<Rightarrow> string option \<Rightarrow> 'w \<Rightarrow> bool"
  sv_reserve :: "int \<Rightarrow> int \<Rightarrow> rat \<Rightarrow> key_limits \<Rightarrow> 'w \<Rightarrow> gate_decision \<times> 'w"
  sv_reconcile :: "string \<Rightarrow> int \<Rightarrow> rat \<Rightarrow> 'w \<Rightarrow> unit \<times> 'w"
  sv_scan :: "json list \<Rightarrow> py_error + threat_detection list \<times> json list"
  sv_filter_input :: "int option \<Rightarrow> string \<Rightarrow> filter_result"
  sv_filter_output :: "int option \<Rightarrow> string \<Rightarrow> ('w, filter_result) srv"
  sv_security_v2 :: "'w security_v2 option"
  sv_lookup :: "cache_request \<Rightarrow> ('w, lookup_result) srv"
  sv_annotate :: "cache_request \<Rightarrow> ('w, annotation) srv"
  sv_render :: "json \<Rightarrow> string"
  sv_offers :: "int \<Rightarrow> ('w, model_offer list) srv"
  sv_decide :: "routing_input \<Rightarrow> ('w, route_decision) srv"
  sv_rules :: "heuristic_rule list"
  sv_select :: "string \<Rightarrow> blob option \<Rightarrow> ('w, (string \<times> string) option) srv"
  sv_connectors :: "string list"
  sv_chat :: "provider_call \<Rightarrow> 'w \<Rightarrow> (provider_failure + string \<times> dict) \<times> 'w"
  sv_stream :: "provider_call \<Rightarrow> 'w \<Rightarrow> (stream_chunk list \<times> provider_failure option) \<times> 'w"
  sv_upstream :: "'w upstream_services option"
  sv_guardrails :: "'w security_v2 option"
  sv_record :: "metering_event \<Rightarrow> 'w \<Rightarrow> unit \<times> 'w"
  sv_now :: int
  sv_ctx_id :: string

section \<open>Auth and token budget\<close>

definition truthy_int :: "int option \<Rightarrow> int option" where
  "truthy_int i = (if i = Some 0 then None else i)"

text \<open>\<open>getattr(user, "tenant_id", None) or getattr(user, "organization_id", None)\<close>\<close>

definition org_of :: "pipeline_user \<Rightarrow> int option" where
  "org_of u = (case truthy_int (pu_tenant_id u) of Some t \<Rightarrow> Some t | None \<Rightarrow> pu_organization_id u)"

definition user_org :: "pctx \<Rightarrow> int option" where
  "user_org ctx = Option.bind (cx_user ctx) org_of"

definition block :: "int \<Rightarrow> string \<Rightarrow> pctx \<Rightarrow> pctx" where
  "block code why ctx =
     ctx\<lparr>cx_blocked := True, cx_status_code := code, cx_block_reason := Some why\<rparr>"

type_synonym 'w stage = "'w services \<Rightarrow> pctx \<Rightarrow> ('w, pctx) eff"

definition auth_stage :: "'w stage" where
  "auth_stage sv ctx =
     (case cx_user ctx of
        None \<Rightarrow> eret (block 401 ''unauthenticated'' ctx)
      | Some u \<Rightarrow>
          if truthy_int (org_of u) = None then eret (block 403 ''missing_organization'' ctx)
          else eret ctx)"

text \<open>\<open>len(m.get("content", "")) // 4\<close>: a content without a length raises TypeError.\<close>

fun py_len :: "json \<Rightarrow> py_error + nat" where
  "py_len (JStr s) = Inr (length s)"
| "py_len (JList xs) = Inr (length xs)"
| "py_len (JDict d) = Inr (length d)"
| "py_len _ = Inl TypeError"

definition content_of :: "dict \<Rightarrow> json" where
  "content_of m = jget_or m ''content'' (JStr [])"

definition estimate_input :: "json list \<Rightarrow> py_error + int" where
  "estimate_input ms =
     rbind (rmap (\<lambda>m. rbind (must_dict m) (\<lambda>d. rbind (py_len (content_of d)) (\<lambda>n. Inr (int (n div 4))))) ms)
       (\<lambda>ns. Inr (if sum_list ns = 0 then 1 else sum_list ns))"

definition ereturn :: "py_error + 'a \<Rightarrow> ('w, 'a) eff" where
  "ereturn r w = (r, w)"

definition token_budget_stage :: "'w stage" where
  "token_budget_stage sv ctx =
     (case cx_user ctx of
        None \<Rightarrow> eret ctx
      | Some u \<Rightarrow>
          (case pu_vkey_id u of
             None \<Rightarrow> eret ctx
           | Some vkey \<Rightarrow>
               ebind (ereturn (estimate_input (cx_messages ctx))) (\<lambda>est.
                 case pu_limits u of
                   None \<Rightarrow> eret ctx
                 | Some limits \<Rightarrow>
                     ebind (total (sv_reserve sv vkey (est + est * 2) 0 limits)) (\<lambda>d.
                       if \<not> gd_allowed d
                       then eret (ctx\<lparr>cx_blocked := True, cx_status_code := 429,
                              cx_block_reason := gd_reason d\<rparr>)
                       else eret (ctx\<lparr>cx_reservation_id := gd_reservation d\<rparr>)))))"

section \<open>Input security\<close>

definition user_key :: "pipeline_user \<Rightarrow> int option" where
  "user_key u = (case truthy_int (pu_id u) of Some i \<Rightarrow> Some i | None \<Rightarrow> pu_user_id u)"

text \<open>The filter of one message; \<open>filter_input\<close> on a content that is no text fails closed.\<close>

fun filter_messages ::
    "(string \<Rightarrow> filter_result) \<Rightarrow> json list \<Rightarrow> py_error + (json list \<times> bool) option" where
  "filter_messages filt [] = Inr (Some ([], False))"
| "filter_messages filt (m # ms) =
     rbind (must_dict m) (\<lambda>d.
       case content_of d of
         JStr s \<Rightarrow>
           (let res = filt s in
            if \<not> fres_allowed res then Inr None
            else rbind (filter_messages filt ms) (\<lambda>r.
              Inr (map_option (\<lambda>(rest, pii).
                (JDict (dict_set d ''content'' (JStr (fres_filtered_text res))) # rest,
                 fres_violations res \<noteq> [] \<or> pii)) r)))
       | _ \<Rightarrow> Inr None)"

definition security_in_v1 :: "'w stage" where
  "security_in_v1 sv ctx =
     ebind (ereturn (sv_scan sv (cx_messages ctx))) (\<lambda>(threats, _).
       if should_block threats then eret (block 400 ''prompt_injection_detected'' ctx)
       else
         ebind (ereturn (filter_messages (sv_filter_input sv (user_org ctx)) (cx_messages ctx))) (\<lambda>r.
           case r of
             None \<Rightarrow> eret (block 400 ''pii_detected'' ctx)
           | Some (ms, pii) \<Rightarrow> eret (ctx\<lparr>cx_messages := ms, cx_pii_detected := pii\<rparr>)))"

text \<open>One message of the v2 path: the message kept, or the block that ends the loop.\<close>

definition as_text :: "json \<Rightarrow> py_error + string" where
  "as_text j = (case j of JStr s \<Rightarrow> Inr s | _ \<Rightarrow> Inl TypeError)"

definition final_action :: "string \<Rightarrow> string \<Rightarrow> string" where
  "final_action verdict intent =
     (if intent = ''block'' then ''block''
      else if intent = ''flag'' \<and> verdict = ''allow'' then ''flag''
      else verdict)"

definition v2_message ::
    "'w security_v2 \<Rightarrow> pctx \<Rightarrow> bypass_decision option \<Rightarrow> json \<Rightarrow> bool \<Rightarrow>
     ('w, json option \<times> bool) eff" where
  "v2_message v2 ctx bypass m degraded =
     ebind (ereturn (must_dict m)) (\<lambda>d.
     ebind (service (v2_resolve v2 (user_org ctx) (cx_model ctx) ''input'')) (\<lambda>p.
       let active = (case bypass of None \<Rightarrow> False | Some b \<Rightarrow> bd_active b);
           mode = (case bypass of None \<Rightarrow> [] | Some b \<Rightarrow> bd_mode b)
       in if active \<and> mode = ''skip'' then eret (Some m, False)
          else
            ebind (ereturn (as_text (content_of d))) (\<lambda>s.
            ebind (service (v2_evaluate v2 s ''input'' p)) (\<lambda>verdict.
            ebind (case v2_intent v2 of
                     None \<Rightarrow> eret (''allow'', False)
                   | Some ask \<Rightarrow>
                       if intent_classifier_enabled p
                       then ebind (service (ask (cx_messages ctx) p))
                              (\<lambda>r. eret (ir_action r, ir_degraded r))
                       else eret (''allow'', False)) (\<lambda>(intent, intent_degraded).
              let action = final_action (sv_action verdict) intent;
                  shadowed = active \<and> mode = ''shadow'';
                  degraded' = (degraded \<or> sv_degraded verdict \<or> intent_degraded)
              in if action = ''block'' \<and> \<not> shadowed then eret (None, degraded')
                 else eret (Some (JDict (dict_set d ''content''
                        (JStr (if shadowed then s else sv_filtered_text verdict)))), degraded'))))))"

fun v2_messages ::
    "'w security_v2 \<Rightarrow> pctx \<Rightarrow> bypass_decision option \<Rightarrow> json list \<Rightarrow> bool \<Rightarrow>
     ('w, json list option \<times> bool) eff" where
  "v2_messages v2 ctx bypass [] degraded = eret (Some [], degraded)"
| "v2_messages v2 ctx bypass (m # ms) degraded =
     ebind (v2_message v2 ctx bypass m degraded) (\<lambda>(kept, degraded').
       case kept of
         None \<Rightarrow> eret (None, degraded')
       | Some m' \<Rightarrow>
           ebind (v2_messages v2 ctx bypass ms degraded') (\<lambda>(rest, degraded'').
             eret (map_option ((#) m') rest, degraded'')))"

definition security_in_v2 :: "'w security_v2 \<Rightarrow> 'w stage" where
  "security_in_v2 v2 sv ctx =
     ebind (case v2_bypass v2 of
              None \<Rightarrow> eret None
            | Some r \<Rightarrow> ebind (service r) (\<lambda>b. eret (Some b))) (\<lambda>bypass.
     ebind (v2_messages v2 ctx bypass (cx_messages ctx) (cx_security_degraded ctx)) (\<lambda>(ms, degraded).
       let ctx' = ctx\<lparr>cx_security_degraded := degraded\<rparr> in
       case ms of
         None \<Rightarrow> eret (block 400 ''security_v2_blocked'' ctx')
       | Some kept \<Rightarrow> eret (ctx'\<lparr>cx_messages := kept\<rparr>)))"

definition py_str_int_opt :: "int option \<Rightarrow> string" where
  "py_str_int_opt i = (case i of None \<Rightarrow> ''None'' | Some n \<Rightarrow> str_int n)"

definition v2_flag :: "'w services \<Rightarrow> pctx \<Rightarrow> ('w, bool) eff" where
  "v2_flag sv ctx w =
     (Inr (sv_enabled sv ''waddleai.security_v2'' (Some (py_str_int_opt (user_org ctx))) (wd_state w)), w)"

definition security_in_stage :: "'w stage" where
  "security_in_stage sv ctx =
     (if cx_messages ctx = [] then eret ctx
      else case sv_security_v2 sv of
             None \<Rightarrow> security_in_v1 sv ctx
           | Some v2 \<Rightarrow>
               ebind (v2_flag sv ctx) (\<lambda>on.
                 if on then security_in_v2 v2 sv ctx else security_in_v1 sv ctx))"

section \<open>Cache\<close>

definition request_of :: "pctx \<Rightarrow> cache_request" where
  "request_of ctx = \<lparr>rq_org = user_org ctx, rq_vkey = Option.bind (cx_user ctx) pu_vkey_id,
     rq_body = cx_body ctx, rq_messages = cx_messages ctx, rq_model = cx_model ctx,
     rq_format = cx_response_format ctx\<rparr>"

text \<open>A text that is null is falsy like the empty one; other values are not texts.\<close>

definition nullable_text :: "json \<Rightarrow> py_error + string" where
  "nullable_text j = (case j of JNull \<Rightarrow> Inr [] | _ \<Rightarrow> as_text j)"

definition extract_cached_text :: "dict \<Rightarrow> string \<Rightarrow> py_error + string \<times> json" where
  "extract_cached_text response fmt =
     (if fmt = ''anthropic'' then
        rbind (py_first (json_or (jget_null response ''content'') (JList [JDict []]))) (\<lambda>b.
        rbind (must_dict b) (\<lambda>d.
        rbind (nullable_text (jget_or d ''text'' (JStr []))) (\<lambda>s.
          Inr (s, jget_null response ''stop_reason''))))
      else
        rbind (py_first (json_or (jget_null response ''choices'') (JList [JDict []]))) (\<lambda>c.
        rbind (must_dict c) (\<lambda>choice.
        rbind (must_dict (json_or (jget_null choice ''message'') (JDict []))) (\<lambda>message.
        rbind (nullable_text (jget_or message ''content'' (JStr []))) (\<lambda>s.
          Inr (s, jget_null choice ''finish_reason''))))))"

definition cached_total_tokens :: "dict \<Rightarrow> py_error + int" where
  "cached_total_tokens usage =
     (if jget usage ''total_tokens'' \<noteq> None then usage_int (jget_null usage ''total_tokens'')
      else
        rbind (usage_int (jget_null usage ''input_tokens'')) (\<lambda>i.
        rbind (usage_int (jget_null usage ''output_tokens'')) (\<lambda>j. Inr (i + j))))"

definition status_name :: "cache_status \<Rightarrow> string" where
  "status_name st = (case st of Exact \<Rightarrow> ''exact'' | Semantic \<Rightarrow> ''semantic'' | Miss \<Rightarrow> ''miss'')"

definition use_cached :: "'w services \<Rightarrow> string \<Rightarrow> cached_response \<Rightarrow> pctx \<Rightarrow> py_error + pctx" where
  "use_cached sv status cached ctx =
     rbind (extract_cached_text (cr_response cached) (cx_response_format ctx)) (\<lambda>(s, finish).
     rbind (must_dict (json_or (jget_null (cr_response cached) ''usage'') (JDict []))) (\<lambda>usage.
     rbind (cached_total_tokens usage) (\<lambda>saved.
       Inr (ctx\<lparr>cx_response_text := s, cx_finish_reason := finish, cx_usage := Some usage,
         cx_provider := Some ''cache'', cx_cache_hit := True, cx_cache_status := status,
         cx_tokens_saved := saved,
         cx_stream_iter :=
           (if cx_stream ctx then
              Some (if cx_response_format ctx = ''anthropic''
                    then replay_anthropic_sse (sv_render sv) (sv_now sv div 1000) cached
                    else replay_openai_sse (sv_now sv div 1000000) cached)
            else cx_stream_iter ctx)\<rparr>))))"

definition cache_miss :: "'w services \<Rightarrow> lookup_result \<Rightarrow> pctx \<Rightarrow> ('w, pctx) eff" where
  "cache_miss sv r ctx =
     (let ctx' = ctx\<lparr>cx_cache_status := ''miss'', cx_write_back := lk_write_back r\<rparr> in
      ebind (service (sv_annotate sv (request_of ctx'))) (\<lambda>an.
        eret (ctx'\<lparr>
          cx_messages := (case an_messages an of Some (JList ms) \<Rightarrow> ms | _ \<Rightarrow> cx_messages ctx'),
          cx_preferred_backend := (case an_preferred an of
             Some b \<Rightarrow> Some b | None \<Rightarrow> cx_preferred_backend ctx')\<rparr>)))"

definition cache_stage :: "'w stage" where
  "cache_stage sv ctx =
     ebind (service (sv_lookup sv (request_of ctx))) (\<lambda>r.
       case (lk_status r, lk_cached r) of
         (Miss, _) \<Rightarrow> cache_miss sv r ctx
       | (_, None) \<Rightarrow> cache_miss sv r ctx
       | (st, Some c) \<Rightarrow> ereturn (use_cached sv (status_name st) c ctx))"

section \<open>Routing\<close>

definition routing_input_of :: "'w services \<Rightarrow> pctx \<Rightarrow> model_offer list \<Rightarrow> routing_input" where
  "routing_input_of sv ctx ofs = \<lparr>
     org_id = (case user_org ctx of None \<Rightarrow> 0 | Some i \<Rightarrow> i),
     request_id = (case Option.bind (cx_user ctx) pu_request_id of
        Some r \<Rightarrow> if r = [] then sv_ctx_id sv else r | None \<Rightarrow> sv_ctx_id sv),
     body = cx_body ctx,
     explicit_type = explicit_tool_type (cx_tool_type_hint ctx) None (cx_model ctx),
     requested_model = cx_model ctx,
     signals = \<lparr>tool_names = [], endpoint = [], has_image = False,
       sig_model = (case cx_model ctx of None \<Rightarrow> [] | Some m \<Rightarrow> m)\<rparr>,
     rules = sv_rules sv, offers = ofs, session_id = None, pii_detected = cx_pii_detected ctx,
     local_unhealthy = False, failure_signal = False,
     explicit_escalate_hint = cx_escalate_hint ctx, new_conversation = False,
     allowed_models = None, tier_cap = None, latency_by_model = None,
     token_consumed_fraction = None, dollar_consumed_fraction = None,
     plan_consumed_fraction = None\<rparr>"

definition routing_stage :: "'w stage" where
  "routing_stage sv ctx =
     ebind (ecatch (ebind (service (sv_offers sv (case user_org ctx of None \<Rightarrow> 0 | Some i \<Rightarrow> i)))
         (\<lambda>ofs. eret (Some ofs))) (\<lambda>_. eret None)) (\<lambda>loaded.
       case loaded of
         None \<Rightarrow> eret ctx
       | Some ofs \<Rightarrow>
           ecatch (ebind (service (sv_decide sv (routing_input_of sv ctx ofs))) (\<lambda>d.
               eret (ctx\<lparr>cx_model := Some (rd_model d), cx_fallback_chain := rd_fallback_chain d,
                 cx_routed_from := rd_routed_from d\<rparr>))) (\<lambda>_. eret ctx))"

section \<open>Dispatch\<close>

definition COMMERCIAL_PROVIDERS :: "string list" where
  "COMMERCIAL_PROVIDERS = [''openai'', ''anthropic'', ''google'', ''azure'', ''bedrock'', ''gemini'']"

fun try_fallbacks :: "'w services \<Rightarrow> string list \<Rightarrow> ('w, (string \<times> string) option) eff" where
  "try_fallbacks sv [] = eret None"
| "try_fallbacks sv (m # ms) =
     ebind (service (sv_select sv m None)) (\<lambda>sel.
       case sel of Some x \<Rightarrow> eret (Some x) | None \<Rightarrow> try_fallbacks sv ms)"

definition select :: "'w services \<Rightarrow> pctx \<Rightarrow> ('w, (string \<times> string) option) eff" where
  "select sv ctx =
     (let model = (if truthy (cx_model ctx) then the (cx_model ctx) else ''gpt-4'') in
      ebind (ecatch (service (sv_select sv model (cx_preferred_backend ctx))) (\<lambda>_. eret None))
        (\<lambda>sel. case sel of Some x \<Rightarrow> eret (Some x) | None \<Rightarrow> try_fallbacks sv (cx_fallback_chain ctx)))"

text \<open>The upstream filter over the messages: each result's map replaces the one before.\<close>

fun upstream_messages ::
    "'w upstream_services \<Rightarrow> resolved_policy \<Rightarrow> string \<Rightarrow> json list \<Rightarrow> string option \<Rightarrow>
     ('w, json list \<times> string option) eff" where
  "upstream_messages us p dest [] mapping = eret ([], mapping)"
| "upstream_messages us p dest (m # ms) mapping =
     ebind (ereturn (must_dict m)) (\<lambda>d.
     ebind (ereturn (as_text (content_of d))) (\<lambda>s.
     ebind (service (us_apply us s p dest)) (\<lambda>r.
     ebind (upstream_messages us p dest ms
         (if truthy (ur_mapping_id r) then ur_mapping_id r else mapping)) (\<lambda>(rest, mapping').
       eret (JDict (dict_set d ''content'' (JStr (ur_text r))) # rest, mapping')))))"

definition apply_upstream_filter ::
    "'w upstream_services \<Rightarrow> string \<Rightarrow> string \<Rightarrow> pctx \<Rightarrow> ('w, pctx) eff" where
  "apply_upstream_filter us provider target ctx =
     ebind (service (us_resolve us (user_org ctx) (Some target) ''input'')) (\<lambda>p.
     ebind (upstream_messages us p
         (if provider \<in> set COMMERCIAL_PROVIDERS then ''commercial'' else ''local'')
         (cx_messages ctx) (cx_mapping_id ctx)) (\<lambda>(ms, mapping).
       eret (ctx\<lparr>cx_messages := ms, cx_mapping_id := mapping\<rparr>)))"

definition status_or :: "int option \<Rightarrow> int \<Rightarrow> int" where
  "status_or sc d = (case truthy_int sc of Some c \<Rightarrow> c | None \<Rightarrow> d)"

definition provider_reason :: "int option \<Rightarrow> string" where
  "provider_reason sc = ''provider_error_'' @ py_str_int_opt sc"

definition fail_dispatch :: "provider_failure \<Rightarrow> pctx \<Rightarrow> pctx" where
  "fail_dispatch f ctx = (case f of
     ClientError sc \<Rightarrow> block (status_or sc 400) (provider_reason sc) ctx
   | RateLimitError sc \<Rightarrow> block 429 (provider_reason sc) ctx
   | TimeoutError sc \<Rightarrow> block 504 (provider_reason sc) ctx
   | ServerError sc \<Rightarrow> block 502 (provider_reason sc) ctx
   | OtherProviderError sc \<Rightarrow> block (status_or sc 500) ''provider_error'' ctx
   | Unexpected \<Rightarrow> block 500 ''dispatch_error'' ctx)"

text \<open>Calls are logged before they are made.\<close>

definition log_call :: "provider_call \<Rightarrow> ('w, unit) eff" where
  "log_call c w = (Inr (), w\<lparr>wd_calls := wd_calls w @ [c]\<rparr>)"

definition usage_of_chunks :: "stream_chunk list \<Rightarrow> dict option" where
  "usage_of_chunks cs = foldl (\<lambda>u c. case ck_usage c of
     Some d \<Rightarrow> if ck_done c \<and> d \<noteq> [] then Some d else u | None \<Rightarrow> u) None cs"

definition answered :: "dict \<Rightarrow> pctx \<Rightarrow> pctx" where
  "answered usage ctx = ctx\<lparr>cx_usage := Some usage,
     cx_finish_reason := jget_or usage ''finish_reason'' (JStr ''stop'')\<rparr>"

definition call_provider ::
    "'w services \<Rightarrow> provider_call \<Rightarrow> pctx \<Rightarrow> ('w, pctx \<times> provider_failure option) eff" where
  "call_provider sv call ctx =
     ebind (log_call call) (\<lambda>_.
       if cx_stream ctx then
         ebind (total (sv_stream sv call)) (\<lambda>(chunks, failure).
           let ctx' = ctx\<lparr>cx_response_text := concat (map ck_delta chunks)\<rparr> in
           eret (if failure \<noteq> None then ctx'
                 else (case usage_of_chunks chunks of
                         Some u \<Rightarrow> answered u ctx' | None \<Rightarrow> ctx'), failure))
       else
         ebind (total (sv_chat sv call)) (\<lambda>r.
           case r of
             Inl failure \<Rightarrow> eret (ctx, Some failure)
           | Inr (s, usage) \<Rightarrow> eret (answered usage (ctx\<lparr>cx_response_text := s\<rparr>), None)))"

text \<open>\<open>except Exception\<close> catches what restoring the placeholders raises.\<close>

definition restore_placeholders :: "'w services \<Rightarrow> pctx \<Rightarrow> ('w, pctx) eff" where
  "restore_placeholders sv ctx =
     (case (cx_mapping_id ctx, sv_upstream sv) of
        (Some i, Some us) \<Rightarrow>
          if i = [] then eret ctx
          else
            ecatch (ebind (service (us_depseudonymize us (cx_response_text ctx) i)) (\<lambda>s.
              ecatch (ebind (service (us_cleanup us i)) (\<lambda>_.
                eret (ctx\<lparr>cx_response_text := s, cx_mapping_id := None\<rparr>)))
              (\<lambda>_. eret (block 500 ''dispatch_error'' (ctx\<lparr>cx_response_text := s\<rparr>)))))
            (\<lambda>_. eret (block 500 ''dispatch_error'' ctx))
      | _ \<Rightarrow> eret ctx)"

definition dispatch_to :: "'w services \<Rightarrow> string \<Rightarrow> string \<Rightarrow> pctx \<Rightarrow> ('w, pctx) eff" where
  "dispatch_to sv provider target ctx =
     (let ctx1 = ctx\<lparr>cx_provider := Some provider, cx_requested_model := cx_model ctx,
            cx_model := Some target\<rparr> in
      ebind (case sv_upstream sv of
               None \<Rightarrow> eret ctx1
             | Some us \<Rightarrow>
                 ebind (v2_flag sv ctx1) (\<lambda>on.
                   if on then apply_upstream_filter us provider target ctx1 else eret ctx1)) (\<lambda>ctx2.
      ebind (call_provider sv (provider, cx_messages ctx2, target) ctx2) (\<lambda>(ctx3, failure).
        case failure of
          Some f \<Rightarrow> eret (fail_dispatch f ctx3)
        | None \<Rightarrow> restore_placeholders sv ctx3)))"

definition dispatch_stage :: "'w stage" where
  "dispatch_stage sv ctx =
     (if cx_cache_hit ctx then eret ctx
      else if cx_messages ctx = [] then eret (block 400 ''no_messages'' ctx)
      else
        ebind (ecatch (ebind (select sv ctx) (\<lambda>sel. eret (Inr sel))) (\<lambda>_. eret (Inl ()))) (\<lambda>r.
          case r of
            Inl _ \<Rightarrow> eret (block 500 ''routing_error'' ctx)
          | Inr None \<Rightarrow> eret (block 503 ''no_available_providers'' ctx)
          | Inr (Some (provider, target)) \<Rightarrow>
              if provider \<notin> set (sv_connectors sv) then eret (block 500 ''no_connector'' ctx)
              else dispatch_to sv provider target ctx))"

section \<open>Output security\<close>

definition security_out_v1 :: "'w stage" where
  "security_out_v1 sv ctx =
     ecatch (ebind (service (sv_filter_output sv (user_org ctx) (cx_response_text ctx))) (\<lambda>res.
         if \<not> fres_allowed res then eret (block 400 ''response_blocked_pii'' ctx)
         else eret (ctx\<lparr>cx_response_text := fres_filtered_text res\<rparr>)))
       (\<lambda>e. if e \<in> {TypeError, AttributeError}
            then eret (block 500 ''output_filter_defect'' ctx) else eret ctx)"

definition security_out_v2 :: "'w security_v2 \<Rightarrow> 'w stage" where
  "security_out_v2 v2 sv ctx =
     ebind (service (v2_resolve v2 (user_org ctx) (cx_model ctx) ''output'')) (\<lambda>p.
     ebind (ecatch (ebind (service (v2_evaluate v2 (cx_response_text ctx) ''output'' p))
         (\<lambda>v. eret (Some v)))
         (\<lambda>e. if e \<in> {TypeError, AttributeError} then eret None else eraise e)) (\<lambda>r.
       case r of
         None \<Rightarrow> eret (block 500 ''output_filter_defect'' ctx)
       | Some v \<Rightarrow>
           (let ctx' = (if sv_degraded v then ctx\<lparr>cx_security_degraded := True\<rparr> else ctx) in
            if sv_action v = ''block'' then eret (block 400 ''security_v2_output_blocked'' ctx')
            else eret (ctx'\<lparr>cx_response_text := sv_filtered_text v\<rparr>))))"

definition security_out_stage :: "'w stage" where
  "security_out_stage sv ctx =
     (if cx_response_text ctx = [] then eret ctx
      else case sv_guardrails sv of
             None \<Rightarrow> security_out_v1 sv ctx
           | Some v2 \<Rightarrow>
               ebind (v2_flag sv ctx) (\<lambda>on.
                 if on then security_out_v2 v2 sv ctx else security_out_v1 sv ctx))"

section \<open>Metering\<close>

definition usage_ints :: "dict \<Rightarrow> (string \<times> int) list" where
  "usage_ints u = List.map_filter (\<lambda>(k, v). map_option (Pair k) (as_int v)) u"

definition token_count :: "dict \<Rightarrow> string \<Rightarrow> py_error + int" where
  "token_count u k = (case jget_or u k (JInt 0) of JInt i \<Rightarrow> Inr i | _ \<Rightarrow> Inl TypeError)"

definition meter_stage :: "'w stage" where
  "meter_stage sv ctx =
     (case truthy_int (Option.bind (cx_user ctx) pu_vkey_id) of
        None \<Rightarrow> eret ctx
      | Some vkey \<Rightarrow>
          (case cx_usage ctx of
             None \<Rightarrow> eret ctx
           | Some usage \<Rightarrow>
               if usage = [] then eret ctx
               else
                 ebind (if truthy (cx_provider ctx) \<and> truthy (cx_model ctx) then
                          total (sv_record sv \<lparr>me_vkey = vkey, me_model = the (cx_model ctx),
                            me_provider = the (cx_provider ctx), me_usage = Some (usage_ints usage),
                            me_timestamp = sv_now sv, me_estimated = False,
                            me_cache_status = Some (cx_cache_status ctx),
                            me_tokens_saved = cx_tokens_saved ctx\<rparr>)
                        else eret ()) (\<lambda>_.
                   if truthy (cx_reservation_id ctx) then
                     ebind (ereturn (token_count usage ''input_tokens'')) (\<lambda>i.
                     ebind (ereturn (token_count usage ''output_tokens'')) (\<lambda>j.
                     ebind (total (sv_reconcile sv (the (cx_reservation_id ctx)) (i + j) 0)) (\<lambda>_.
                       eret ctx)))
                   else eret ctx)))"

section \<open>The orchestrator\<close>

record 'w stage_entry =
  se_name :: string
  se_flag :: "string option"
  se_call :: "'w stage"

definition log_stage :: "string \<Rightarrow> string \<Rightarrow> pctx \<Rightarrow> pctx" where
  "log_stage what name ctx = ctx\<lparr>cx_stage_log := cx_stage_log ctx @ [what @ '':'' @ name]\<rparr>"

definition distinct_id :: "pctx \<Rightarrow> string option" where
  "distinct_id ctx = map_option str_int (Option.bind (cx_user ctx) pu_id)"

definition stage_enabled :: "'w services \<Rightarrow> 'w stage_entry \<Rightarrow> pctx \<Rightarrow> 'w world \<Rightarrow> bool" where
  "stage_enabled sv st ctx w =
     (case se_flag st of None \<Rightarrow> True | Some f \<Rightarrow> sv_enabled sv f (distinct_id ctx) (wd_state w))"

definition run_stage :: "'w services \<Rightarrow> 'w stage_entry \<Rightarrow> pctx \<Rightarrow> ('w, pctx) eff" where
  "run_stage sv st ctx w =
     (if \<not> stage_enabled sv st ctx w then (Inr (log_stage ''skipped'' (se_name st) ctx), w)
      else if cx_blocked ctx then (Inr (log_stage ''short-circuit'' (se_name st) ctx), w)
      else ebind (se_call st sv ctx) (\<lambda>ctx'. eret (log_stage ''ran'' (se_name st) ctx')) w)"

fun run_pipeline :: "'w services \<Rightarrow> 'w stage_entry list \<Rightarrow> pctx \<Rightarrow> ('w, pctx) eff" where
  "run_pipeline sv [] ctx = eret ctx"
| "run_pipeline sv (st # sts) ctx = ebind (run_stage sv st ctx) (run_pipeline sv sts)"

end
