(* ===== verification/PipelineLaws.thy ===== *)
theory PipelineLaws
  imports Pipeline
begin

text \<open>
  What the stages of the pipeline guarantee: which of them reach a provider, what a blocked
  request still does, the well-formedness of the context, and the stage list the proxy builds
  (\<open>proxy_server/main.py\<close>).
\<close>

section \<open>The production pipeline\<close>

definition PROXY_MEMORY_FLAG :: string where
  "PROXY_MEMORY_FLAG = ''waddleai.proxy_memory''"

definition KNOWLEDGE_INJECT_FLAG :: string where
  "KNOWLEDGE_INJECT_FLAG = ''waddleai.knowledge_inject''"

definition entry :: "string \<Rightarrow> string option \<Rightarrow> 'w stage \<Rightarrow> 'w stage_entry" where
  "entry name flag call = \<lparr>se_name = name, se_flag = flag, se_call = call\<rparr>"

text \<open>
  The four memory and knowledge stages in the order they run. They have stores of their own and
  use none of the services; \<open>MemoryStages\<close> has those of the proxy.
\<close>

record 'w memory_stages =
  ms_scratchpad :: "pctx \<Rightarrow> ('w, pctx) eff"
  ms_summarize :: "pctx \<Rightarrow> ('w, pctx) eff"
  ms_knowledge :: "pctx \<Rightarrow> ('w, pctx) eff"
  ms_dedup :: "pctx \<Rightarrow> ('w, pctx) eff"

definition memory_entries :: "'w memory_stages \<Rightarrow> 'w stage_entry list" where
  "memory_entries mem =
     [entry ''scratchpad'' (Some PROXY_MEMORY_FLAG) (\<lambda>_. ms_scratchpad mem),
      entry ''summarize'' (Some PROXY_MEMORY_FLAG) (\<lambda>_. ms_summarize mem),
      entry ''knowledge'' (Some KNOWLEDGE_INJECT_FLAG) (\<lambda>_. ms_knowledge mem),
      entry ''dedup'' (Some PROXY_MEMORY_FLAG) (\<lambda>_. ms_dedup mem)]"

definition intake_entries :: "'w stage_entry list" where
  "intake_entries =
     [entry ''auth'' None auth_stage, entry ''token_budget'' None token_budget_stage,
      entry ''security_in'' None security_in_stage]"

definition planning_entries :: "'w stage_entry list" where
  "planning_entries =
     [entry ''cache'' (Some RESPONSE_CACHE_FLAG) cache_stage,
      entry ''routing'' (Some ''waddleai.smart_routing'') routing_stage]"

definition delivery_entries :: "'w stage_entry list" where
  "delivery_entries =
     [entry ''dispatch'' None dispatch_stage, entry ''security_out'' None security_out_stage,
      entry ''meter'' None meter_stage]"

definition proxy_stages :: "'w memory_stages \<Rightarrow> 'w stage_entry list" where
  "proxy_stages mem = intake_entries @ memory_entries mem @ planning_entries @ delivery_entries"

section \<open>Runs\<close>

lemma run_pipeline_append:
  "run_pipeline sv (sts @ sts') ctx = ebind (run_pipeline sv sts ctx) (run_pipeline sv sts')"
proof (induction sts arbitrary: ctx)
  case (Cons st sts)
  show ?case
  proof
    fix w
    obtain r w1 where "run_stage sv st ctx w = (r, w1)" by fastforce
    then show "run_pipeline sv ((st # sts) @ sts') ctx w =
        ebind (run_pipeline sv (st # sts) ctx) (run_pipeline sv sts') w"
      using Cons by (cases r) (simp_all add: ebind_def)
  qed
qed (simp add: ebind_def eret_def fun_eq_iff)

lemma blocked_stage:
  "cx_blocked ctx \<Longrightarrow>
     \<exists>log. run_stage sv st ctx w = (Inr (ctx\<lparr>cx_stage_log := log\<rparr>), w)"
  by (cases "stage_enabled sv st ctx w") (auto simp: run_stage_def log_stage_def)

lemma blocked_run:
  "cx_blocked ctx \<Longrightarrow>
     \<exists>log. run_pipeline sv sts ctx w = (Inr (ctx\<lparr>cx_stage_log := log\<rparr>), w)"
proof (induction sts arbitrary: ctx)
  case Nil
  have "ctx = ctx\<lparr>cx_stage_log := cx_stage_log ctx\<rparr>" by simp
  then show ?case by (metis run_pipeline.simps(1) eret_def)
next
  case (Cons st sts)
  obtain log where log: "run_stage sv st ctx w = (Inr (ctx\<lparr>cx_stage_log := log\<rparr>), w)"
    using blocked_stage [OF Cons.prems] by blast
  obtain log' where "run_pipeline sv sts (ctx\<lparr>cx_stage_log := log\<rparr>) w =
      (Inr (ctx\<lparr>cx_stage_log := log'\<rparr>), w)"
    using Cons.IH [of "ctx\<lparr>cx_stage_log := log\<rparr>"] Cons.prems by auto
  with log show ?case by (auto simp: ebind_def)
qed

text \<open>
  C15. A blocked request is finished: whatever stages are left, they change neither the world
  nor the context, but for the log. In particular the metering stage, whose comment says it
  runs even then, neither records usage nor settles the reservation.
\<close>

theorem blocked_request_frozen:
  assumes "se_call st sv ctx w = (Inr ctx', w')" "cx_blocked ctx'" "\<not> cx_blocked ctx"
    and "stage_enabled sv st ctx w"
  shows "\<exists>log. run_pipeline sv (st # sts) ctx w = (Inr (ctx'\<lparr>cx_stage_log := log\<rparr>), w')"
proof -
  have s: "run_stage sv st ctx w = (Inr (log_stage ''ran'' (se_name st) ctx'), w')"
    using assms by (simp add: run_stage_def eff_simps)
  have "cx_blocked (log_stage ''ran'' (se_name st) ctx')" using assms(2) by (simp add: log_stage_def)
  from blocked_run [OF this, of sv sts w'] s show ?thesis
    by (auto simp: ebind_def log_stage_def)
qed

section \<open>Results and calls\<close>

text \<open>
  Three properties of an effect: whatever it returns satisfies a predicate, it calls no provider,
  it makes at most one call and that one is allowed. An exception satisfies the first.
\<close>

definition returns :: "('a \<Rightarrow> bool) \<Rightarrow> ('w, 'a) eff \<Rightarrow> bool" where
  "returns Q f \<longleftrightarrow> (\<forall>w a w'. f w = (Inr a, w') \<longrightarrow> Q a)"

definition calls :: "provider_call set \<Rightarrow> ('w, 'a) eff \<Rightarrow> bool" where
  "calls K f \<longleftrightarrow> (\<forall>w. wd_calls (snd (f w)) = wd_calls w \<or>
     (\<exists>c\<in>K. wd_calls (snd (f w)) = wd_calls w @ [c]))"

definition quiet :: "('w, 'a) eff \<Rightarrow> bool" where
  "quiet f \<longleftrightarrow> (\<forall>w. wd_calls (snd (f w)) = wd_calls w)"

named_theorems returns_intro "introduction rules for the results of effects"
named_theorems quiet_intro "introduction rules for effects that call no provider"

lemma returnsD: "returns Q f \<Longrightarrow> f w = (Inr a, w') \<Longrightarrow> Q a"
  by (auto simp: returns_def)

lemma returns_mono: "returns P f \<Longrightarrow> (\<And>a. P a \<Longrightarrow> Q a) \<Longrightarrow> returns Q f"
  by (auto simp: returns_def)

lemma returns_conj: "returns P f \<Longrightarrow> returns Q f \<Longrightarrow> returns (\<lambda>a. P a \<and> Q a) f"
  unfolding returns_def by blast

lemma returns_eret [returns_intro]: "Q a \<Longrightarrow> returns Q (eret a)"
  by (simp add: returns_def eret_def)

lemma returns_eraise [returns_intro]: "returns Q (eraise e)"
  by (simp add: returns_def eraise_def)

lemma returns_ereturn [returns_intro]: "(\<And>a. r = Inr a \<Longrightarrow> Q a) \<Longrightarrow> returns Q (ereturn r)"
  by (auto simp: returns_def ereturn_def)

lemma returns_seq:
  assumes "returns P f" "\<And>a. P a \<Longrightarrow> returns Q (g a)"
  shows "returns Q (ebind f g)"
  unfolding returns_def
proof (intro allI impI)
  fix w b w'
  assume *: "ebind f g w = (Inr b, w')"
  obtain r w1 where f: "f w = (r, w1)" by fastforce
  with * obtain a where "r = Inr a" "g a w1 = (Inr b, w')"
    by (cases r) (auto simp: ebind_def)
  with f assms show "Q b" by (blast dest: returnsD)
qed

lemma returns_ebind [returns_intro]: "(\<And>a. returns Q (g a)) \<Longrightarrow> returns Q (ebind f g)"
  by (rule returns_seq [where P = "\<lambda>_. True"]) (simp_all add: returns_def)

lemma returns_ecatch [returns_intro]:
  "returns Q f \<Longrightarrow> (\<And>e. returns Q (h e)) \<Longrightarrow> returns Q (ecatch f h)"
  unfolding returns_def ecatch_def by (auto split: prod.splits sum.splits)

lemma returns_True [returns_intro]: "returns (\<lambda>_. True) f"
  by (simp add: returns_def)

lemma quietD: "quiet f \<Longrightarrow> f w = (r, w') \<Longrightarrow> wd_calls w' = wd_calls w"
  unfolding quiet_def by (metis snd_conv)

lemma quiet_eret [quiet_intro]: "quiet (eret a)"
  by (simp add: quiet_def eret_def)

lemma quiet_ereturn [quiet_intro]: "quiet (ereturn r)"
  by (simp add: quiet_def ereturn_def)

lemma quiet_eraise [quiet_intro]: "quiet (eraise e)"
  by (simp add: quiet_def eraise_def)

lemma quiet_service [quiet_intro]: "quiet (service f)"
  by (simp add: quiet_def service_def split: prod.split)

lemma quiet_total [quiet_intro]: "quiet (total f)"
  by (simp add: quiet_def total_def split: prod.split)

lemma quiet_v2_flag [quiet_intro]: "quiet (v2_flag sv ctx)"
  by (simp add: quiet_def v2_flag_def)

lemma calls_seq:
  assumes "quiet f" "returns P f" "\<And>a. P a \<Longrightarrow> calls K (g a)"
  shows "calls K (ebind f g)"
  unfolding calls_def
proof
  fix w
  obtain r w1 where f: "f w = (r, w1)" by fastforce
  have q: "wd_calls w1 = wd_calls w" by (rule quietD [OF assms(1) f])
  show "wd_calls (snd (ebind f g w)) = wd_calls w \<or>
      (\<exists>c\<in>K. wd_calls (snd (ebind f g w)) = wd_calls w @ [c])"
  proof (cases r)
    case (Inl e)
    with f q show ?thesis by (simp add: ebind_def)
  next
    case (Inr a)
    with f have "calls K (g a)" using assms(2,3) by (auto simp: returns_def)
    then have "wd_calls (snd (g a w1)) = wd_calls w1 \<or>
        (\<exists>c\<in>K. wd_calls (snd (g a w1)) = wd_calls w1 @ [c])"
      by (simp add: calls_def)
    with f q Inr show ?thesis by (simp add: ebind_def)
  qed
qed

lemma calls_then_quiet:
  assumes "calls K f" "\<And>a. quiet (g a)"
  shows "calls K (ebind f g)"
  unfolding calls_def
proof
  fix w
  obtain r w1 where f: "f w = (r, w1)" by fastforce
  have "wd_calls (snd (g a w1)) = wd_calls w1" for a
    using assms(2) by (simp add: quiet_def)
  moreover have "wd_calls (snd (f w)) = wd_calls w \<or> (\<exists>c\<in>K. wd_calls (snd (f w)) = wd_calls w @ [c])"
    using assms(1) by (auto simp: calls_def)
  ultimately show "wd_calls (snd (ebind f g w)) = wd_calls w \<or>
      (\<exists>c\<in>K. wd_calls (snd (ebind f g w)) = wd_calls w @ [c])"
    using f by (cases r) (simp_all add: ebind_def)
qed

lemma calls_quiet: "quiet f \<Longrightarrow> calls K f"
  by (simp add: calls_def quiet_def)

lemma quiet_iff_calls: "quiet f \<longleftrightarrow> calls {} f"
  by (simp add: calls_def quiet_def)

lemma quiet_ebind [quiet_intro]: "quiet f \<Longrightarrow> (\<And>a. quiet (g a)) \<Longrightarrow> quiet (ebind f g)"
  unfolding quiet_iff_calls
  by (rule calls_then_quiet) (simp_all add: quiet_iff_calls)

lemma quiet_ecatch [quiet_intro]:
  assumes "quiet f" "\<And>e. quiet (h e)"
  shows "quiet (ecatch f h)"
  unfolding quiet_def
proof
  fix w
  obtain r w1 where f: "f w = (r, w1)" by fastforce
  have "wd_calls w1 = wd_calls w" by (rule quietD [OF assms(1) f])
  moreover have "wd_calls (snd (h e w1)) = wd_calls w1" for e
    using assms(2) by (simp add: quiet_def)
  ultimately show "wd_calls (snd (ecatch f h w)) = wd_calls w"
    using f by (cases r) (simp_all add: ecatch_def)
qed

section \<open>The stages\<close>

lemma quiet_auth [quiet_intro]: "quiet (auth_stage sv ctx)"
  by (auto simp: auth_stage_def intro!: quiet_intro split: option.split)

lemma quiet_token_budget [quiet_intro]: "quiet (token_budget_stage sv ctx)"
  by (auto simp: token_budget_stage_def intro!: quiet_intro split: option.split)

lemma quiet_security_in_v1 [quiet_intro]: "quiet (security_in_v1 sv ctx)"
  by (auto simp: security_in_v1_def intro!: quiet_intro split: option.split prod.split)

lemma quiet_v2_message [quiet_intro]: "quiet (v2_message v2 ctx bypass m degraded)"
  by (auto simp: v2_message_def Let_def intro!: quiet_intro split: option.split prod.split)

lemma quiet_v2_messages [quiet_intro]: "quiet (v2_messages v2 ctx bypass ms degraded)"
  by (induction v2 ctx bypass ms degraded rule: v2_messages.induct)
    (auto intro!: quiet_intro split: option.split prod.split)

lemma quiet_security_in_v2 [quiet_intro]: "quiet (security_in_v2 v2 sv ctx)"
  by (auto simp: security_in_v2_def Let_def intro!: quiet_intro split: option.split prod.split)

lemma quiet_security_in [quiet_intro]: "quiet (security_in_stage sv ctx)"
  by (auto simp: security_in_stage_def intro!: quiet_intro split: option.split)

lemma quiet_cache [quiet_intro]: "quiet (cache_stage sv ctx)"
  by (auto simp: cache_stage_def cache_miss_def Let_def intro!: quiet_intro
      split: option.split prod.split cache_status.split)

lemma quiet_routing [quiet_intro]: "quiet (routing_stage sv ctx)"
  by (auto simp: routing_stage_def intro!: quiet_intro split: option.split)

lemma quiet_try_fallbacks [quiet_intro]: "quiet (try_fallbacks sv ms)"
  by (induction sv ms rule: try_fallbacks.induct) (auto intro!: quiet_intro split: option.split)

lemma quiet_select [quiet_intro]: "quiet (select sv ctx)"
  by (auto simp: select_def Let_def intro!: quiet_intro split: option.split)

lemma quiet_upstream_messages [quiet_intro]: "quiet (upstream_messages us p dest ms mapping)"
  by (induction us p dest ms mapping rule: upstream_messages.induct)
    (auto intro!: quiet_intro split: prod.split)

lemma quiet_apply_upstream [quiet_intro]: "quiet (apply_upstream_filter us provider target ctx)"
  by (auto simp: apply_upstream_filter_def intro!: quiet_intro split: prod.split)

lemma quiet_restore [quiet_intro]: "quiet (restore_placeholders sv ctx)"
  by (auto simp: restore_placeholders_def intro!: quiet_intro split: option.split)

lemma quiet_security_out [quiet_intro]: "quiet (security_out_stage sv ctx)"
  by (auto simp: security_out_stage_def security_out_v1_def security_out_v2_def Let_def
      intro!: quiet_intro split: option.split)

lemma quiet_meter [quiet_intro]: "quiet (meter_stage sv ctx)"
  by (auto simp: meter_stage_def intro!: quiet_intro split: option.split)

lemma calls_call_provider: "calls {call} (call_provider sv call ctx)"
proof -
  have "calls {call} (log_call call)"
    by (simp add: calls_def log_call_def)
  then show ?thesis
    unfolding call_provider_def
    by (rule calls_then_quiet)
      (auto intro!: quiet_intro simp: Let_def split: prod.split sum.split)
qed

definition dispatch_calls :: "'w services \<Rightarrow> pctx \<Rightarrow> provider_call set" where
  "dispatch_calls sv ctx = {c. \<not> cx_cache_hit ctx \<and> cx_messages ctx \<noteq> [] \<and>
     fst c \<in> set (sv_connectors sv) \<and> (sv_upstream sv = None \<longrightarrow> fst (snd c) = cx_messages ctx)}"

lemma calls_dispatch_to:
  assumes "\<not> cx_cache_hit ctx" "cx_messages ctx \<noteq> []" "provider \<in> set (sv_connectors sv)"
  shows "calls (dispatch_calls sv ctx) (dispatch_to sv provider target ctx)"
  unfolding dispatch_to_def Let_def
proof (rule calls_seq [where P = "\<lambda>c. sv_upstream sv = None \<longrightarrow> cx_messages c = cx_messages ctx"])
  fix ctx2 :: pctx
  let ?call = "(provider, cx_messages ctx2, target)"
  assume "sv_upstream sv = None \<longrightarrow> cx_messages ctx2 = cx_messages ctx"
  with assms have "{?call} \<subseteq> dispatch_calls sv ctx" by (auto simp: dispatch_calls_def)
  with calls_call_provider have "calls (dispatch_calls sv ctx) (call_provider sv ?call ctx2)"
    unfolding calls_def by blast
  then show "calls (dispatch_calls sv ctx) (ebind (call_provider sv ?call ctx2) (\<lambda>(ctx3, failure).
      case failure of Some f \<Rightarrow> eret (fail_dispatch f ctx3) | None \<Rightarrow> restore_placeholders sv ctx3))"
    by (rule calls_then_quiet) (auto intro!: quiet_intro split: prod.split option.split)
qed (auto intro!: quiet_intro returns_intro split: option.split)

lemma calls_dispatch: "calls (dispatch_calls sv ctx) (dispatch_stage sv ctx)"
  unfolding dispatch_stage_def
  by (auto intro!: calls_quiet [OF quiet_eret] calls_dispatch_to
      calls_seq [where P = "\<lambda>_. True"] quiet_intro returns_intro split: sum.split option.split)

section \<open>Runs as a whole\<close>

lemma returns_run_stage:
  assumes "returns Q (se_call st sv ctx)" "\<And>log. Q ctx \<Longrightarrow> Q (ctx\<lparr>cx_stage_log := log\<rparr>)"
    and "\<And>c log. Q c \<Longrightarrow> Q (c\<lparr>cx_stage_log := log\<rparr>)"
    and "cx_blocked ctx \<or> se_flag st \<noteq> None \<Longrightarrow> Q ctx"
  shows "returns Q (run_stage sv st ctx)"
  unfolding returns_def
proof (intro allI impI)
  fix w c w'
  assume r: "run_stage sv st ctx w = (Inr c, w')"
  show "Q c"
  proof (cases "stage_enabled sv st ctx w \<and> \<not> cx_blocked ctx")
    case True
    with r have "ebind (se_call st sv ctx) (\<lambda>c. eret (log_stage ''ran'' (se_name st) c)) w = (Inr c, w')"
      by (simp add: run_stage_def)
    moreover have "returns Q (ebind (se_call st sv ctx) (\<lambda>c. eret (log_stage ''ran'' (se_name st) c)))"
      by (rule returns_seq [OF assms(1)]) (simp add: returns_eret log_stage_def assms(3))
    ultimately show ?thesis by (blast dest: returnsD)
  next
    case False
    then have "Q ctx" using assms(4) by (auto simp: stage_enabled_def split: option.splits)
    with False r assms(2) show ?thesis
      by (auto simp: run_stage_def log_stage_def split: if_splits)
  qed
qed

lemma quiet_run_stage:
  assumes "\<And>c. quiet (se_call st sv c)"
  shows "quiet (run_stage sv st ctx)"
proof -
  have "quiet (ebind (se_call st sv ctx) (\<lambda>c. eret (log_stage ''ran'' (se_name st) c)))"
    using assms by (auto intro!: quiet_intro)
  then show ?thesis by (simp add: quiet_def run_stage_def)
qed

lemma calls_run_stage:
  assumes "calls K (se_call st sv ctx)"
  shows "calls K (run_stage sv st ctx)"
proof -
  have "calls K (ebind (se_call st sv ctx) (\<lambda>c. eret (log_stage ''ran'' (se_name st) c)))"
    using assms by (rule calls_then_quiet) (rule quiet_eret)
  then show ?thesis by (simp add: calls_def run_stage_def)
qed

lemma quiet_run:
  "(\<And>st c. st \<in> set sts \<Longrightarrow> quiet (se_call st sv c)) \<Longrightarrow> quiet (run_pipeline sv sts ctx)"
proof (induction sts arbitrary: ctx)
  case (Cons st sts)
  then show ?case by (auto intro!: quiet_intro quiet_run_stage)
qed (simp add: quiet_eret)

text \<open>
  The contract of a list of stages: a relation between a context and its successors that every
  stage respects holds between the context a run starts from and the one it returns.
\<close>

locale stage_contract =
  fixes R :: "pctx \<Rightarrow> pctx \<Rightarrow> bool" and sv :: "'w services" and sts :: "'w stage_entry list"
  assumes refl: "R c c"
    and trans: "R a b \<Longrightarrow> R b c \<Longrightarrow> R a c"
    and log: "R c (c\<lparr>cx_stage_log := l\<rparr>)"
    and step: "st \<in> set sts \<Longrightarrow> returns (R c) (se_call st sv c)"
begin

lemma stage: "st \<in> set sts \<Longrightarrow> returns (R c) (run_stage sv st c)"
  by (rule returns_run_stage) (auto intro: step refl trans log)

lemma run_from: "set sts' \<subseteq> set sts \<Longrightarrow> returns (R c) (run_pipeline sv sts' c)"
proof (induction sts' arbitrary: c)
  case (Cons st sts')
  show ?case
    unfolding run_pipeline.simps
  proof (rule returns_seq [OF stage])
    fix b assume "R c b"
    then show "returns (R c) (run_pipeline sv sts' b)"
      using Cons by (auto intro: returns_mono trans)
  qed (use Cons in simp)
qed (simp add: returns_eret refl)

lemmas run = run_from [OF subset_refl]

end

definition same_request :: "pctx \<Rightarrow> pctx \<Rightarrow> bool" where
  "same_request a b \<longleftrightarrow> cx_user b = cx_user a \<and> cx_body b = cx_body a \<and> cx_stream b = cx_stream a \<and>
     cx_response_format b = cx_response_format a \<and> cx_session_id b = cx_session_id a \<and>
     cx_tool_type_hint b = cx_tool_type_hint a \<and> cx_escalate_hint b = cx_escalate_hint a"

lemma same_request_refl [simp]: "same_request c c"
  by (simp add: same_request_def)

lemma same_request_trans: "same_request a b \<Longrightarrow> same_request b c \<Longrightarrow> same_request a c"
  by (simp add: same_request_def)

lemma same_request_block [simp]: "same_request a (block code why b) = same_request a b"
  by (simp add: same_request_def block_def)

lemma keeps_call_provider: "returns (\<lambda>(c, f). same_request ctx c) (call_provider sv call ctx)"
  by (auto simp: call_provider_def Let_def answered_def same_request_def intro!: returns_intro
      split: prod.split sum.split option.split)

lemma keeps_restore: "returns (same_request ctx) (restore_placeholders sv ctx)"
  by (auto simp: restore_placeholders_def block_def same_request_def intro!: returns_intro
      split: option.split)

lemma keeps_apply_upstream: "returns (same_request ctx) (apply_upstream_filter us provider target ctx)"
  by (auto simp: apply_upstream_filter_def same_request_def intro!: returns_intro split: prod.split)

lemma keeps_dispatch_to: "returns (same_request ctx) (dispatch_to sv provider target ctx)"
  unfolding dispatch_to_def Let_def
proof (rule returns_seq [where P = "same_request ctx"])
  let ?ctx1 = "ctx\<lparr>cx_provider := Some provider, cx_requested_model := cx_model ctx,
    cx_model := Some target\<rparr>"
  have one: "same_request ctx ?ctx1" by (simp add: same_request_def)
  have "returns (same_request ctx) (apply_upstream_filter us provider target ?ctx1)" for us
    by (rule returns_mono [OF keeps_apply_upstream]) (rule same_request_trans [OF one])
  with one show "returns (same_request ctx) (case sv_upstream sv of
      None \<Rightarrow> eret ?ctx1
    | Some us \<Rightarrow> ebind (v2_flag sv ?ctx1) (\<lambda>on.
        if on then apply_upstream_filter us provider target ?ctx1 else eret ?ctx1))"
    by (auto intro!: returns_intro split: option.split)
next
  fix ctx2 assume two: "same_request ctx ctx2"
  show "returns (same_request ctx) (ebind (call_provider sv (provider, cx_messages ctx2, target) ctx2)
      (\<lambda>(ctx3, failure). case failure of
         Some f \<Rightarrow> eret (fail_dispatch f ctx3) | None \<Rightarrow> restore_placeholders sv ctx3))"
  proof (rule returns_seq [OF keeps_call_provider])
    fix a :: "pctx \<times> provider_failure option"
    assume "case a of (c, f) \<Rightarrow> same_request ctx2 c"
    then obtain c f where a: "a = (c, f)" and "same_request ctx2 c" by (cases a) auto
    with two have c: "same_request ctx c" by (blast intro: same_request_trans)
    moreover have "same_request c (fail_dispatch g c)" for g
      by (cases g) (simp_all add: fail_dispatch_def block_def same_request_def)
    ultimately show "returns (same_request ctx) (case a of (ctx3, failure) \<Rightarrow> case failure of
         Some f \<Rightarrow> eret (fail_dispatch f ctx3) | None \<Rightarrow> restore_placeholders sv ctx3)"
      by (auto simp: a intro!: returns_eret intro: returns_mono [OF keeps_restore] same_request_trans
          split: option.split)
  qed
qed

lemma keeps_dispatch: "returns (same_request ctx) (dispatch_stage sv ctx)"
  by (auto simp: dispatch_stage_def intro!: returns_intro keeps_dispatch_to
      split: sum.split option.split)

lemma keeps_intake:
  "returns (same_request ctx) (auth_stage sv ctx)"
  "returns (same_request ctx) (token_budget_stage sv ctx)"
  "returns (same_request ctx) (security_in_stage sv ctx)"
  by (auto simp: auth_stage_def token_budget_stage_def security_in_stage_def security_in_v1_def
      security_in_v2_def Let_def same_request_def block_def intro!: returns_intro
      split: option.split prod.split)

lemma use_cached_same: "use_cached sv st c ctx = Inr ctx' \<Longrightarrow> same_request ctx ctx'"
  by (auto simp: use_cached_def rbind_Inr same_request_def)

lemma keeps_planning:
  "returns (same_request ctx) (cache_stage sv ctx)"
  "returns (same_request ctx) (routing_stage sv ctx)"
  by (auto simp: cache_stage_def cache_miss_def routing_stage_def Let_def same_request_def
      dest: use_cached_same intro!: returns_intro split: option.split prod.split cache_status.split)

lemma keeps_delivery:
  "returns (same_request ctx) (security_out_stage sv ctx)"
  "returns (same_request ctx) (meter_stage sv ctx)"
  by (auto simp: security_out_stage_def security_out_v1_def security_out_v2_def meter_stage_def
      Let_def same_request_def block_def intro!: returns_intro split: option.split)

lemmas keeps_request = keeps_intake keeps_planning keeps_dispatch keeps_delivery

lemma stage_contract_same_request:
  "(\<And>st c. st \<in> set sts \<Longrightarrow> returns (same_request c) (se_call st sv c)) \<Longrightarrow>
     stage_contract same_request sv sts"
  by unfold_locales (auto intro: same_request_trans simp: same_request_def)

interpretation intake: stage_contract same_request sv intake_entries for sv
  by (rule stage_contract_same_request)
    (auto simp: intake_entries_def entry_def intro: keeps_request)

interpretation planning: stage_contract same_request sv planning_entries for sv
  by (rule stage_contract_same_request)
    (auto simp: planning_entries_def entry_def intro: keeps_request)

interpretation delivery: stage_contract same_request sv delivery_entries for sv
  by (rule stage_contract_same_request)
    (auto simp: delivery_entries_def entry_def intro: keeps_request)

definition memory_keeps :: "(pctx \<Rightarrow> pctx \<Rightarrow> bool) \<Rightarrow> 'w memory_stages \<Rightarrow> bool" where
  "memory_keeps R mem \<longleftrightarrow> (\<forall>c. returns (R c) (ms_scratchpad mem c) \<and>
     returns (R c) (ms_summarize mem c) \<and> returns (R c) (ms_knowledge mem c) \<and>
     returns (R c) (ms_dedup mem c))"

lemma run_same_request:
  assumes "memory_keeps same_request mem"
  shows "returns (same_request ctx) (run_pipeline sv (proxy_stages mem) ctx)"
proof -
  have "stage_contract same_request sv (memory_entries mem)"
    using assms by (intro stage_contract_same_request)
      (auto simp: memory_keeps_def memory_entries_def entry_def)
  then have "stage_contract same_request sv (proxy_stages mem)"
    using intake.step planning.step delivery.step
    by (intro stage_contract_same_request) (auto simp: proxy_stages_def dest: stage_contract.step)
  then show ?thesis by (rule stage_contract.run)
qed

section \<open>What reaches a provider\<close>

text \<open>The collaborators of the second security generation, which the proxy does not wire in.\<close>

definition production :: "'w services \<Rightarrow> bool" where
  "production sv \<longleftrightarrow> sv_security_v2 sv = None \<and> sv_upstream sv = None \<and> sv_guardrails sv = None"

definition memory_off :: "'w services \<Rightarrow> bool" where
  "memory_off sv \<longleftrightarrow> (\<forall>d s. \<not> sv_enabled sv PROXY_MEMORY_FLAG d s \<and>
     \<not> sv_enabled sv KNOWLEDGE_INJECT_FLAG d s)"

text \<open>Messages that were scanned without a blocking threat, as the content filter left them.\<close>

definition cleared :: "'w services \<Rightarrow> pctx \<Rightarrow> json list \<Rightarrow> bool" where
  "cleared sv ctx ms \<longleftrightarrow> (cx_messages ctx = [] \<and> ms = []) \<or>
     (\<exists>threats clean pii. sv_scan sv (cx_messages ctx) = Inr (threats, clean) \<and>
        \<not> should_block threats \<and>
        filter_messages (sv_filter_input sv (user_org ctx)) (cx_messages ctx) = Inr (Some (ms, pii)))"

definition annotated :: "'w services \<Rightarrow> json list \<Rightarrow> json list \<Rightarrow> bool" where
  "annotated sv ms ms' \<longleftrightarrow> (\<exists>rq an s s'. rq_messages rq = ms \<and>
     sv_annotate sv rq s = (Inr an, s') \<and> an_messages an = Some (JList ms'))"

definition relayed :: "'w services \<Rightarrow> (json list \<Rightarrow> bool) \<Rightarrow> json list \<Rightarrow> bool" where
  "relayed sv P ms' \<longleftrightarrow> (\<exists>ms. P ms \<and> (ms' = ms \<or> annotated sv ms ms'))"

abbreviation offered :: "'w services \<Rightarrow> pctx \<Rightarrow> json list \<Rightarrow> bool" where
  "offered sv ctx \<equiv> relayed sv (cleared sv ctx)"

lemma returns_service [returns_intro]: "returns (\<lambda>a. \<exists>s s'. f s = (Inr a, s')) (service f)"
  by (auto simp: returns_def service_def split: prod.splits)

lemma security_in_clears:
  assumes "sv_security_v2 sv = None"
  shows "returns (\<lambda>c. cx_blocked c \<or> cleared sv ctx (cx_messages c)) (security_in_stage sv ctx)"
proof -
  have "returns (\<lambda>c. cx_blocked c \<or> cleared sv ctx (cx_messages c)) (security_in_v1 sv ctx)"
    by (auto simp: returns_def security_in_v1_def eff_simps ereturn_def block_def cleared_def
        split: sum.splits option.splits prod.splits if_splits)
  with assms show ?thesis
    by (auto simp: security_in_stage_def cleared_def intro!: returns_eret intro: returns_mono)
qed

definition untouched :: "pctx \<Rightarrow> pctx \<Rightarrow> bool" where
  "untouched a b \<longleftrightarrow> cx_blocked b \<or> cx_messages b = cx_messages a \<and> cx_user b = cx_user a"

lemma early_untouched:
  "returns (untouched ctx) (auth_stage sv ctx)"
  "returns (untouched ctx) (token_budget_stage sv ctx)"
  by (auto simp: auth_stage_def token_budget_stage_def block_def untouched_def
      intro!: returns_intro split: option.split)

definition scanned :: "'w services \<Rightarrow> pctx \<Rightarrow> pctx \<Rightarrow> bool" where
  "scanned sv ctx c \<longleftrightarrow> cx_blocked c \<or> cleared sv ctx (cx_messages c)"

lemma scanned_log [simp]: "scanned sv ctx (c\<lparr>cx_stage_log := l\<rparr>) = scanned sv ctx c"
  by (simp add: scanned_def)

lemma intake_scans:
  assumes "sv_security_v2 sv = None"
  shows "returns (scanned sv ctx) (run_pipeline sv intake_entries ctx)"
proof -
  have auth: "returns (untouched ctx) (run_stage sv (entry ''auth'' None auth_stage) ctx)"
  proof (rule returns_run_stage)
    show "returns (untouched ctx) (se_call (entry ''auth'' None auth_stage) sv ctx)"
      by (simp add: entry_def early_untouched)
  qed (auto simp: entry_def untouched_def)
  have budget: "returns (untouched ctx) (run_stage sv (entry ''token_budget'' None token_budget_stage) c)"
    if "untouched ctx c" for c
  proof (rule returns_run_stage)
    show "returns (untouched ctx)
        (se_call (entry ''token_budget'' None token_budget_stage) sv c)"
    proof (cases "cx_blocked c")
      case True
      then show ?thesis
        by (auto simp: entry_def token_budget_stage_def untouched_def intro!: returns_intro
            split: option.split)
    next
      case False
      with that have "untouched c d \<Longrightarrow> untouched ctx d" for d
        by (auto simp: untouched_def)
      then show ?thesis
        by (simp add: entry_def returns_mono [OF early_untouched(2)])
    qed
  qed (use that in \<open>auto simp: entry_def untouched_def\<close>)
  have security: "returns (scanned sv ctx)
      (run_stage sv (entry ''security_in'' None security_in_stage) c)"
    if "untouched ctx c" for c
  proof (cases "cx_blocked c")
    case True
    then show ?thesis
      by (auto simp: returns_def run_stage_def entry_def scanned_def log_stage_def stage_enabled_def)
  next
    case False
    with that have same: "cx_messages c = cx_messages ctx" "user_org c = user_org ctx"
      by (simp_all add: untouched_def user_org_def)
    then have "returns (scanned sv ctx) (security_in_stage sv c)"
      by (auto intro: returns_mono [OF security_in_clears [OF assms]] simp: scanned_def cleared_def)
    with False show ?thesis
      by (intro returns_run_stage) (auto simp: entry_def)
  qed
  show ?thesis
    by (auto simp: intake_entries_def intro!: returns_seq [OF auth] returns_seq [OF budget]
        returns_seq [OF security] returns_eret)
qed

lemma skipped_run:
  assumes "\<forall>st\<in>set sts. \<exists>f. se_flag st = Some f \<and> (\<forall>d s. \<not> sv_enabled sv f d s)"
  shows "\<exists>log. run_pipeline sv sts c w = (Inr (c\<lparr>cx_stage_log := log\<rparr>), w)"
  using assms
proof (induction sts arbitrary: c)
  case Nil
  have "c = c\<lparr>cx_stage_log := cx_stage_log c\<rparr>" by simp
  then show ?case by (metis run_pipeline.simps(1) eret_def)
next
  case (Cons st sts)
  then have "run_stage sv st c w = (Inr (log_stage ''skipped'' (se_name st) c), w)"
    by (auto simp: run_stage_def stage_enabled_def)
  moreover have "\<exists>log. run_pipeline sv sts (log_stage ''skipped'' (se_name st) c) w =
      (Inr (log_stage ''skipped'' (se_name st) c\<lparr>cx_stage_log := log\<rparr>), w)"
    using Cons.prems by (intro Cons.IH) simp
  ultimately show ?case by (auto simp: ebind_def log_stage_def)
qed

lemma memory_skipped:
  "memory_off sv \<Longrightarrow>
     \<exists>log. run_pipeline sv (memory_entries mem) c w = (Inr (c\<lparr>cx_stage_log := log\<rparr>), w)"
  by (rule skipped_run) (simp add: memory_entries_def entry_def memory_off_def)

lemma use_cached_messages:
  "use_cached sv st cached c = Inr d \<Longrightarrow> cx_messages d = cx_messages c"
  by (auto simp: use_cached_def rbind_Inr)

lemma cache_miss_offers:
  assumes "P (cx_messages c)"
  shows "returns (\<lambda>d. cx_blocked d \<or> relayed sv P (cx_messages d)) (cache_miss sv r c)"
  unfolding cache_miss_def Let_def
proof (rule returns_seq [OF returns_service], rule returns_eret)
  let ?c = "c\<lparr>cx_cache_status := ''miss'', cx_write_back := lk_write_back r\<rparr>"
  fix an
  assume "\<exists>s s'. sv_annotate sv (request_of ?c) s = (Inr an, s')"
  moreover have "rq_messages (request_of ?c) = cx_messages c" by (simp add: request_of_def)
  ultimately have "an_messages an = Some (JList ms) \<Longrightarrow> annotated sv (cx_messages c) ms" for ms
    unfolding annotated_def by blast
  with assms have "relayed sv P (case an_messages an of Some (JList ms) \<Rightarrow> ms | _ \<Rightarrow> cx_messages ?c)"
    by (auto simp: relayed_def split: option.split json.split)
  then show "cx_blocked (?c\<lparr>
      cx_messages := (case an_messages an of Some (JList ms) \<Rightarrow> ms | _ \<Rightarrow> cx_messages ?c),
      cx_preferred_backend := (case an_preferred an of
        Some b \<Rightarrow> Some b | None \<Rightarrow> cx_preferred_backend ?c)\<rparr>) \<or>
    relayed sv P (cx_messages (?c\<lparr>
      cx_messages := (case an_messages an of Some (JList ms) \<Rightarrow> ms | _ \<Rightarrow> cx_messages ?c),
      cx_preferred_backend := (case an_preferred an of
        Some b \<Rightarrow> Some b | None \<Rightarrow> cx_preferred_backend ?c)\<rparr>))"
    by simp
qed

lemma planning_offers:
  assumes "cx_blocked c \<or> P (cx_messages c)"
  shows "returns (\<lambda>d. cx_blocked d \<or> relayed sv P (cx_messages d))
    (run_pipeline sv planning_entries c)"
proof (cases "cx_blocked c")
  case True
  show ?thesis
    unfolding returns_def
  proof (intro allI impI)
    fix w d w' assume "run_pipeline sv planning_entries c w = (Inr d, w')"
    with blocked_run [OF True, of sv planning_entries w] True
    show "cx_blocked d \<or> relayed sv P (cx_messages d)" by auto
  qed
next
  case False
  let ?Q = "\<lambda>d. cx_blocked d \<or> relayed sv P (cx_messages d)"
  from assms False have c: "P (cx_messages c)" by simp
  then have o: "relayed sv P (cx_messages c)" by (auto simp: relayed_def)
  have "returns ?Q (cache_stage sv c)"
    by (auto simp: cache_stage_def use_cached_messages o intro!: returns_intro
        cache_miss_offers [where P = P, OF c] split: cache_status.split option.split)
  then have cache: "returns ?Q (run_stage sv (entry ''cache'' (Some RESPONSE_CACHE_FLAG) cache_stage) c)"
    by (rule_tac returns_run_stage) (auto simp: entry_def o)
  have routing: "returns ?Q (run_stage sv (entry ''routing'' (Some ''waddleai.smart_routing'') routing_stage) d)"
    if "?Q d" for d
    using that
    by (intro returns_run_stage)
      (auto simp: entry_def routing_stage_def intro!: returns_intro split: option.split)
  show ?thesis
    by (auto simp: planning_entries_def intro!: returns_seq [OF cache] returns_seq [OF routing] returns_eret)
qed

definition front_entries :: "'w memory_stages \<Rightarrow> 'w stage_entry list" where
  "front_entries mem = intake_entries @ memory_entries mem @ planning_entries"

lemma quiet_blocked: "cx_blocked c \<Longrightarrow> quiet (run_pipeline sv sts c)"
  unfolding quiet_def using blocked_run by (metis snd_conv)

lemma front_run:
  assumes "production sv"
    and memory: "\<And>c. scanned sv ctx c \<Longrightarrow> same_request ctx c \<Longrightarrow>
      returns (\<lambda>d. cx_blocked d \<or> P (cx_messages d)) (run_pipeline sv (memory_entries mem) c)"
    and quiet: "\<And>c. quiet (run_pipeline sv (memory_entries mem) c)"
  shows "returns (\<lambda>d. cx_blocked d \<or> relayed sv P (cx_messages d)) (run_pipeline sv (front_entries mem) ctx)"
    and "quiet (run_pipeline sv (front_entries mem) ctx)"
proof -
  have "sv_security_v2 sv = None" using assms(1) by (simp add: production_def)
  from returns_conj [OF intake_scans [OF this, of ctx] intake.run]
  have intake: "returns (\<lambda>c. scanned sv ctx c \<and> same_request ctx c) (run_pipeline sv intake_entries ctx)" .
  show "returns (\<lambda>d. cx_blocked d \<or> relayed sv P (cx_messages d)) (run_pipeline sv (front_entries mem) ctx)"
    unfolding front_entries_def run_pipeline_append
    by (rule returns_seq [OF intake], rule returns_seq [OF memory]) (simp_all add: planning_offers)
  have "quiet (run_pipeline sv intake_entries c)" "quiet (run_pipeline sv planning_entries c)" for c
    by (rule quiet_run; auto simp: intake_entries_def planning_entries_def entry_def intro: quiet_intro)+
  with quiet show "quiet (run_pipeline sv (front_entries mem) ctx)"
    by (auto simp: front_entries_def run_pipeline_append intro!: quiet_intro)
qed

lemma calls_delivery:
  "calls (if cx_blocked c then {} else dispatch_calls sv c) (run_pipeline sv delivery_entries c)"
proof (cases "cx_blocked c")
  case True
  then show ?thesis by (simp add: quiet_blocked calls_quiet)
next
  case False
  have "quiet (run_pipeline sv [entry ''security_out'' None security_out_stage,
      entry ''meter'' None meter_stage] d)" for d
    by (rule quiet_run) (auto simp: entry_def intro: quiet_intro)
  then show ?thesis
    using False calls_run_stage [of "dispatch_calls sv c" "entry ''dispatch'' None dispatch_stage" sv c]
    by (auto simp: delivery_entries_def entry_def intro!: calls_then_quiet calls_dispatch)
qed

text \<open>Nothing after the cache stage changes whether the answer came from the cache.\<close>

lemma hit_kept: "returns (\<lambda>d. cx_cache_hit d = cx_cache_hit c) (run_pipeline sv delivery_entries c)"
proof -
  let ?R = "\<lambda>(c :: pctx) (d :: pctx). cx_cache_hit d = cx_cache_hit c"
  have provider: "returns (\<lambda>(d, f). ?R c d) (call_provider sv call c)" for call c
    by (auto simp: call_provider_def Let_def answered_def intro!: returns_intro
        split: prod.split sum.split option.splits if_splits)
  have restore: "returns (?R c) (restore_placeholders sv c)" for c
    by (auto simp: restore_placeholders_def block_def intro!: returns_intro split: option.split)
  have upstream: "returns (?R c) (apply_upstream_filter us p t
      (c\<lparr>cx_provider := a, cx_requested_model := b, cx_model := m\<rparr>))" for us p t c a b m
    by (auto simp: apply_upstream_filter_def intro!: returns_intro split: prod.split)
  have failed: "?R c (fail_dispatch f c)" for f c
    by (cases f) (simp_all add: fail_dispatch_def block_def)
  have after: "returns (?R c) (case x of (d, f) \<Rightarrow>
      case f of Some g \<Rightarrow> eret (fail_dispatch g d) | None \<Rightarrow> restore_placeholders sv d)"
    if "case x of (d, f) \<Rightarrow> ?R c d" for c x
  proof -
    obtain d f where x: "x = (d, f)" by fastforce
    with that have d: "cx_cache_hit d = cx_cache_hit c" by simp
    show ?thesis
      using restore [of d] failed [of _ d] unfolding x d
      by (cases f) (simp_all add: returns_eret)
  qed
  have "returns (?R c) (dispatch_to sv provider target c)" for provider target c
    unfolding dispatch_to_def Let_def
  proof (rule returns_seq [where P = "?R c"])
    fix d :: pctx assume d: "?R c d"
    show "returns (?R c) (ebind (call_provider sv (provider, cx_messages d, target) d)
        (\<lambda>(ctx3, failure). case failure of
           Some f \<Rightarrow> eret (fail_dispatch f ctx3) | None \<Rightarrow> restore_placeholders sv ctx3))"
    proof (rule returns_seq [OF provider])
      fix x :: "pctx \<times> provider_failure option"
      assume "case x of (e, f) \<Rightarrow> ?R d e"
      with d have "case x of (e, f) \<Rightarrow> ?R c e" by (cases x) simp
      then show "returns (?R c) (case x of (ctx3, failure) \<Rightarrow> case failure of
          Some f \<Rightarrow> eret (fail_dispatch f ctx3) | None \<Rightarrow> restore_placeholders sv ctx3)"
        by (rule after)
    qed
  qed (auto intro!: returns_intro upstream split: option.split)
  note to = this
  have "returns (?R c) (dispatch_stage sv c)" for c
  proof (cases "cx_cache_hit c")
    case False
    then have "returns (\<lambda>d. \<not> cx_cache_hit d) (dispatch_to sv p t c)" for p t
      using to [of c p t] by simp
    with False show ?thesis
      by (auto simp: dispatch_stage_def block_def intro!: returns_intro split: sum.split option.split)
  qed (simp add: dispatch_stage_def returns_eret)
  moreover have "returns (?R c) (security_out_stage sv c)" "returns (?R c) (meter_stage sv c)" for c
    by (auto simp: security_out_stage_def security_out_v1_def security_out_v2_def meter_stage_def
        Let_def block_def intro!: returns_intro split: option.split)
  ultimately have "stage_contract ?R sv delivery_entries"
    by unfold_locales (auto simp: delivery_entries_def entry_def)
  then show ?thesis by (rule stage_contract.run)
qed

text \<open>
  With memory stages that leave the messages in \<open>P\<close> and call no provider, whatever the proxy sends
  is in \<open>P\<close>, but for the marks of the prompt-cache layer.
\<close>

lemma provider_sees:
  assumes "production sv"
    and "\<And>c. scanned sv ctx c \<Longrightarrow> same_request ctx c \<Longrightarrow>
      returns (\<lambda>d. cx_blocked d \<or> P (cx_messages d)) (run_pipeline sv (memory_entries mem) c)"
    and "\<And>c. quiet (run_pipeline sv (memory_entries mem) c)"
    and "run_pipeline sv (proxy_stages mem) ctx w = (r, w')"
  shows "wd_calls w' = wd_calls w \<or>
    (\<exists>provider ms model. wd_calls w' = wd_calls w @ [(provider, ms, model)] \<and>
       provider \<in> set (sv_connectors sv) \<and> relayed sv P ms \<and> (\<forall>d. r = Inr d \<longrightarrow> \<not> cx_cache_hit d))"
proof -
  obtain r1 w1 where f: "run_pipeline sv (front_entries mem) ctx w = (r1, w1)" by fastforce
  have q: "wd_calls w1 = wd_calls w" by (rule quietD [OF front_run(2) [OF assms(1,2,3)] f])
  have run: "run_pipeline sv (proxy_stages mem) ctx w =
      ebind (run_pipeline sv (front_entries mem) ctx) (run_pipeline sv delivery_entries) w"
    unfolding proxy_stages_def front_entries_def by (metis append.assoc run_pipeline_append)
  show ?thesis
  proof (cases r1)
    case (Inl e)
    with f q run assms(4) show ?thesis by (simp add: ebind_def)
  next
    case (Inr c)
    with f run assms(4) have d: "run_pipeline sv delivery_entries c w1 = (r, w')"
      by (simp add: ebind_def)
    have o: "cx_blocked c \<or> relayed sv P (cx_messages c)"
      using returnsD [OF front_run(1) [OF assms(1,2,3)]] f Inr by blast
    have "r = Inr a \<Longrightarrow> cx_cache_hit a = cx_cache_hit c" for a
      using returnsD [OF hit_kept] d by blast
    moreover have "wd_calls w' = wd_calls w1 \<or>
        (\<exists>x\<in>if cx_blocked c then {} else dispatch_calls sv c. wd_calls w' = wd_calls w1 @ [x])"
      using calls_delivery [of c sv] d unfolding calls_def by (metis snd_conv)
    ultimately show ?thesis
      using o q assms(1) by (auto simp: dispatch_calls_def production_def split: if_splits)
  qed
qed


end
