(* ===== verification/PipelineSafety.thy ===== *)
theory PipelineSafety
  imports PipelineLaws
begin

text \<open>
  What a run of the pipeline gives back: the response a client may see has passed the output
  filter. With the instances that show the properties of the pipeline can apply.
\<close>

section \<open>The response\<close>

text \<open>
  An empty response, the text the filter returned when it allowed one, or, the filter itself
  having failed with an error other than the two that mean a defect, the unfiltered text.
\<close>

definition vetted :: "'w services \<Rightarrow> int option \<Rightarrow> string \<Rightarrow> bool" where
  "vetted sv org s \<longleftrightarrow> s = [] \<or>
     (\<exists>raw st res st'. sv_filter_output sv org raw st = (Inr res, st') \<and> fres_allowed res \<and>
        s = fres_filtered_text res) \<or>
     (\<exists>st e st'. sv_filter_output sv org s st = (Inl e, st') \<and> e \<notin> {TypeError, AttributeError})"

lemma vetted_allowed:
  "sv_filter_output sv org raw st = (Inr res, st') \<Longrightarrow> fres_allowed res \<Longrightarrow>
     vetted sv org (fres_filtered_text res)"
  unfolding vetted_def by blast

lemma vetted_failed:
  "sv_filter_output sv org s st = (Inl e, st') \<Longrightarrow> e \<noteq> TypeError \<Longrightarrow> e \<noteq> AttributeError \<Longrightarrow>
     vetted sv org s"
  unfolding vetted_def by blast

lemma security_out_vets:
  assumes "sv_guardrails sv = None"
  shows "returns (\<lambda>d. cx_blocked d \<or> vetted sv (user_org c) (cx_response_text d))
    (security_out_stage sv c)"
proof -
  have "returns (\<lambda>d. cx_blocked d \<or> vetted sv (user_org c) (cx_response_text d)) (security_out_v1 sv c)"
    by (auto simp: returns_def security_out_v1_def eff_simps block_def Let_def
        intro: vetted_allowed vetted_failed split: sum.splits prod.splits if_splits)
  with assms show ?thesis
    by (auto simp: security_out_stage_def vetted_def intro!: returns_eret)
qed

lemma meter_keeps: "returns ((=) c) (meter_stage sv c)"
  by (auto simp: meter_stage_def intro!: returns_intro split: option.split)

lemma delivery_vets:
  assumes "sv_guardrails sv = None"
  shows "returns (\<lambda>d. cx_blocked d \<or> vetted sv (user_org c) (cx_response_text d))
    (run_pipeline sv delivery_entries c)"
proof -
  let ?Q = "\<lambda>d. cx_blocked d \<or> vetted sv (user_org c) (cx_response_text d)"
  have sends: "returns (\<lambda>d. cx_blocked d \<or> user_org d = user_org c)
      (run_stage sv (entry ''dispatch'' None dispatch_stage) c)"
  proof (rule returns_run_stage)
    show "returns (\<lambda>d. cx_blocked d \<or> user_org d = user_org c)
        (se_call (entry ''dispatch'' None dispatch_stage) sv c)"
      unfolding entry_def stage_entry.simps
      by (rule returns_mono [OF keeps_dispatch]) (simp add: user_org_def same_request_def)
  qed (auto simp: entry_def user_org_def)
  have out: "returns ?Q (run_stage sv (entry ''security_out'' None security_out_stage) d)"
    if "cx_blocked d \<or> user_org d = user_org c" for d
  proof (cases "cx_blocked d")
    case True
    then show ?thesis
      by (auto simp: returns_def run_stage_def entry_def log_stage_def stage_enabled_def)
  next
    case False
    with that security_out_vets [OF assms, of d] show ?thesis
      by (intro returns_run_stage) (auto simp: entry_def)
  qed
  have meter: "returns ?Q (run_stage sv (entry ''meter'' None meter_stage) d)" if "?Q d" for d
    using that by (intro returns_run_stage)
      (auto simp: entry_def intro: returns_mono [OF meter_keeps])
  show ?thesis
    by (auto simp: delivery_entries_def intro!: returns_seq [OF sends] returns_seq [OF out]
        returns_seq [OF meter] returns_eret)
qed

lemma run_vets:
  assumes "production sv" "memory_keeps same_request mem"
    and "run_pipeline sv (proxy_stages mem) ctx w = (Inr ctx', w')" "\<not> cx_blocked ctx'"
  shows "vetted sv (user_org ctx) (cx_response_text ctx')"
proof -
  have "stage_contract same_request sv (front_entries mem)"
    using assms(2) intake.step planning.step
    by (intro stage_contract_same_request)
      (auto simp: front_entries_def memory_entries_def entry_def memory_keeps_def)
  then have front: "returns (same_request ctx) (run_pipeline sv (front_entries mem) ctx)"
    by (rule stage_contract.run)
  have "returns (\<lambda>d. cx_blocked d \<or> vetted sv (user_org ctx) (cx_response_text d))
      (run_pipeline sv (front_entries mem @ delivery_entries) ctx)"
    unfolding run_pipeline_append
  proof (rule returns_seq [OF front])
    fix c assume "same_request ctx c"
    then have "user_org c = user_org ctx" by (simp add: same_request_def user_org_def)
    with delivery_vets [of sv c] assms(1)
    show "returns (\<lambda>d. cx_blocked d \<or> vetted sv (user_org ctx) (cx_response_text d))
        (run_pipeline sv delivery_entries c)"
      by (simp add: production_def)
  qed
  with assms(3,4) show ?thesis
    by (auto simp: proxy_stages_def front_entries_def dest: returnsD)
qed

text \<open>
  C3. The text of a request that comes out of the pipeline unblocked has passed the output filter
  of the organisation of its user, whether a provider or the cache supplied it, except that a
  filter that fails at run time lets it through; a filter that is called wrongly blocks.
\<close>

theorem response_is_vetted:
  assumes "production sv" "memory_keeps same_request mem"
    and "run_pipeline sv (proxy_stages mem) ctx w = (Inr ctx', w')" "\<not> cx_blocked ctx'"
  shows "vetted sv (user_org ctx) (cx_response_text ctx')"
  using assms by (rule run_vets)

section \<open>Structured contents\<close>

fun text_content :: "json \<Rightarrow> bool" where
  "text_content (JDict d) = (\<exists>s. content_of d = JStr s)"
| "text_content _ = False"

lemma filter_messages_text:
  "filter_messages filt ms = Inr (Some r) \<Longrightarrow> m \<in> set ms \<Longrightarrow> text_content m"
proof (induction ms arbitrary: r)
  case (Cons a ms)
  then show ?case
    by (cases a) (auto simp: rbind_Inr Let_def split: json.splits if_splits)
qed simp

lemma quiet_intake: "quiet (run_pipeline sv intake_entries ctx)"
  by (rule quiet_run; auto simp: intake_entries_def entry_def intro: quiet_intro)


section \<open>Instances\<close>

definition demo_services :: "'w services" where
  "demo_services = \<lparr>sv_enabled = \<lambda>f d s. False,
     sv_reserve = \<lambda>vkey n usd limits s. (open_gate, s), sv_reconcile = \<lambda>r n usd s. ((), s),
     sv_scan = \<lambda>ms. Inr ([], ms),
     sv_filter_input = \<lambda>org t. \<lparr>fres_allowed = True, fres_action = ''allow'', fres_violations = [],
       fres_filtered_text = t, fres_auditor_used = False\<rparr>,
     sv_filter_output = \<lambda>org t s. (Inr \<lparr>fres_allowed = True, fres_action = ''allow'',
       fres_violations = [], fres_filtered_text = t, fres_auditor_used = False\<rparr>, s),
     sv_security_v2 = None, sv_lookup = \<lambda>rq s. (Inr (miss None), s),
     sv_annotate = \<lambda>rq s. (Inr \<lparr>an_messages = None, an_preferred = None\<rparr>, s),
     sv_render = \<lambda>j. [], sv_offers = \<lambda>org s. (Inr [], s), sv_decide = \<lambda>i s. (Inl KeyError, s),
     sv_rules = [], sv_select = \<lambda>m b s. (Inr (Some (''openai'', m)), s), sv_connectors = [''openai''],
     sv_chat = \<lambda>c s. (Inr (''hello'', [(''input_tokens'', JInt 1), (''output_tokens'', JInt 2)]), s),
     sv_stream = \<lambda>c s. (([], None), s), sv_upstream = None, sv_guardrails = None,
     sv_record = \<lambda>e s. ((), s), sv_now = 0, sv_ctx_id = ''0''\<rparr>"

definition no_memory :: "'w memory_stages" where
  "no_memory = \<lparr>ms_scratchpad = eret, ms_summarize = eret, ms_knowledge = eret, ms_dedup = eret\<rparr>"

definition demo_pipeline_user :: pipeline_user where
  "demo_pipeline_user = \<lparr>pu_id = None, pu_user_id = Some 1, pu_tenant_id = None,
     pu_organization_id = Some 3, pu_vkey_id = None, pu_api_key_id = None, pu_request_id = None,
     pu_limits = None\<rparr>"

definition new_context :: "pipeline_user option \<Rightarrow> dict \<Rightarrow> string option \<Rightarrow> json list \<Rightarrow> bool \<Rightarrow> string \<Rightarrow>
    json \<Rightarrow> string option \<Rightarrow> string option \<Rightarrow> pctx" where
  "new_context user doc model messages stream fmt session tool_type hint = \<lparr>cx_user = user,
     cx_body = doc, cx_model = model, cx_messages = messages, cx_response_text = [],
     cx_usage = None, cx_blocked = False, cx_block_reason = None, cx_status_code = 200,
     cx_stream = stream, cx_stage_log = [], cx_provider = None, cx_requested_model = None,
     cx_finish_reason = JNull, cx_reservation_id = None, cx_response_format = fmt,
     cx_cache_hit = False, cx_cache_status = ''miss'', cx_tokens_saved = 0, cx_write_back = None,
     cx_preferred_backend = None, cx_stream_iter = None, cx_session_id = session,
     cx_usage_meta = [], cx_pii_detected = False, cx_fallback_chain = [], cx_routed_from = None,
     cx_tool_type_hint = tool_type, cx_escalate_hint = hint, cx_security_degraded = False,
     cx_mapping_id = None\<rparr>"

definition demo_chat :: pctx where
  "demo_chat = new_context (Some demo_pipeline_user) [] (Some ''gpt-4o'')
     [JDict [(''role'', JStr ''user''), (''content'', JStr ''hi'')]] False ''openai'' JNull None None"

definition demo_world :: "unit world" where
  "demo_world = \<lparr>wd_state = (), wd_calls = []\<rparr>"

lemma demo_services_ok: "production demo_services" "memory_off demo_services"
  by (simp_all add: production_def memory_off_def demo_services_def)

lemma no_memory_keeps: "memory_keeps same_request no_memory"
  by (simp add: memory_keeps_def no_memory_def returns_eret)

lemma demo_run:
  "\<exists>ctx' w'. run_pipeline demo_services (proxy_stages no_memory) demo_chat demo_world = (Inr ctx', w') \<and>
    \<not> cx_blocked ctx' \<and> cx_response_text ctx' = ''hello'' \<and>
    wd_calls w' = [(''openai'', cx_messages demo_chat, ''gpt-4o'')]"
proof -
  have "(case run_pipeline demo_services (proxy_stages no_memory) demo_chat demo_world of
      (r, w') \<Rightarrow> (case r of Inl e \<Rightarrow> False | Inr ctx' \<Rightarrow>
        \<not> cx_blocked ctx' \<and> cx_response_text ctx' = ''hello'' \<and>
        wd_calls w' = [(''openai'', cx_messages demo_chat, ''gpt-4o'')]))"
    by code_simp
  then show ?thesis by (auto split: prod.splits sum.splits)
qed

text \<open>Witnesses of the properties of this theory and of \<open>PipelineLaws\<close>.\<close>

theorem response_is_vetted_witness:
  "\<exists>ctx' w'. run_pipeline demo_services (proxy_stages no_memory) demo_chat demo_world = (Inr ctx', w') \<and>
    vetted (demo_services :: unit services) (user_org demo_chat) (cx_response_text ctx')"
  using demo_run response_is_vetted [OF demo_services_ok(1) no_memory_keeps] by blast


definition anonymous :: pctx where
  "anonymous = demo_chat\<lparr>cx_user := None\<rparr>"

theorem blocked_request_frozen_witness:
  "\<exists>log. run_pipeline demo_services [entry ''auth'' None auth_stage, entry ''meter'' None meter_stage]
      anonymous demo_world =
    (Inr ((block 401 ''unauthenticated'' anonymous)\<lparr>cx_stage_log := log\<rparr>), demo_world)"
proof (rule blocked_request_frozen)
  show "se_call (entry ''auth'' None auth_stage) demo_services anonymous demo_world =
      (Inr (block 401 ''unauthenticated'' anonymous), demo_world)"
    by (simp add: entry_def auth_stage_def anonymous_def eret_def)
qed (simp_all add: anonymous_def demo_chat_def new_context_def block_def stage_enabled_def entry_def)


definition image_chat :: pctx where
  "image_chat = demo_chat\<lparr>cx_messages := [JDict [(''role'', JStr ''user''),
     (''content'', JList [JDict [(''type'', JStr ''image_url'')]])]]\<rparr>"


end
