(* ===== verification/Rbac.thy ===== *)
theory Rbac
  imports PyJson
begin

text \<open>
  Role-based access control (\<open>shared/auth/rbac.py\<close>): roles and their permissions, the
  authentication by password and by API key, the permission check, the creation of keys.
  \<open>bcrypt\<close> is a parameter; a time is a number of microseconds.
\<close>

section \<open>Roles and permissions\<close>

datatype role = ADMIN | RESOURCE_MANAGER | REPORTER | USER

datatype (plugins only: code) permission =
    SYSTEM_CONFIG | SYSTEM_MONITOR | SYSTEM_HEALTH | USER_CREATE | USER_READ | USER_UPDATE
    | USER_DELETE | ORG_CREATE | ORG_READ | ORG_UPDATE | ORG_DELETE | APIKEY_CREATE
    | APIKEY_READ | APIKEY_UPDATE | APIKEY_DELETE | QUOTA_READ | QUOTA_UPDATE | QUOTA_RESET
    | ANALYTICS_READ | ANALYTICS_SYSTEM | ANALYTICS_SECURITY | LLM_CONFIG | LLM_MODELS
    | PROXY_USE | PROXY_ROUTE | MEMORY_MODERATE | CACHE_CONFIG_WRITE | HOOK_RULE_ADMIN
    | HOOK_METRICS_READ | KNOWLEDGE_WRITE | MODEL_ALIAS_WRITE | QUOTA_LIST
    | ROUTING_ASSIGNMENT_WRITE | ROUTING_POLICY_WRITE | ROUTING_RULE_WRITE
    | SECURITY_BYPASS_GRANT_WRITE | USAGE_READ_BY_USER | USER_MANAGE | CILIUM_ADMIN
    | FLEET_ADMIN | INTEGRATION_ADMIN | LLAMACPP_ADMIN | MEMORY_CONFIG_ADMIN
    | MEMORY_SCOPING_ADMIN | OLLAMA_ADMIN | OLLAMA_MODEL_ADMIN | ORG_ADMIN_UPDATE
    | PROVIDER_ADMIN | QUOTA_ORG_UPDATE | ROUTING_ASSIGNMENT_ADMIN | ROUTING_DRY_RUN_ADMIN
    | ROUTING_POLICY_DELETE | SECURITY_POLICY_ADMIN | MODEL_ACCESS_POLICY_WRITE
    | MODEL_ACCESS_POLICY_DELETE

definition perm_value :: "permission \<Rightarrow> string" where
  "perm_value p = (case p of
     SYSTEM_CONFIG \<Rightarrow> ''system:config''
   | SYSTEM_MONITOR \<Rightarrow> ''system:monitor''
   | SYSTEM_HEALTH \<Rightarrow> ''system:health''
   | USER_CREATE \<Rightarrow> ''user:create''
   | USER_READ \<Rightarrow> ''user:read''
   | USER_UPDATE \<Rightarrow> ''user:update''
   | USER_DELETE \<Rightarrow> ''user:delete''
   | ORG_CREATE \<Rightarrow> ''org:create''
   | ORG_READ \<Rightarrow> ''org:read''
   | ORG_UPDATE \<Rightarrow> ''org:update''
   | ORG_DELETE \<Rightarrow> ''org:delete''
   | APIKEY_CREATE \<Rightarrow> ''apikey:create''
   | APIKEY_READ \<Rightarrow> ''apikey:read''
   | APIKEY_UPDATE \<Rightarrow> ''apikey:update''
   | APIKEY_DELETE \<Rightarrow> ''apikey:delete''
   | QUOTA_READ \<Rightarrow> ''quota:read''
   | QUOTA_UPDATE \<Rightarrow> ''quota:update''
   | QUOTA_RESET \<Rightarrow> ''quota:reset''
   | ANALYTICS_READ \<Rightarrow> ''analytics:read''
   | ANALYTICS_SYSTEM \<Rightarrow> ''analytics:system''
   | ANALYTICS_SECURITY \<Rightarrow> ''analytics:security''
   | LLM_CONFIG \<Rightarrow> ''llm:config''
   | LLM_MODELS \<Rightarrow> ''llm:models''
   | PROXY_USE \<Rightarrow> ''proxy:use''
   | PROXY_ROUTE \<Rightarrow> ''proxy:route''
   | MEMORY_MODERATE \<Rightarrow> ''memory:moderate''
   | CACHE_CONFIG_WRITE \<Rightarrow> ''cache_config:write''
   | HOOK_RULE_ADMIN \<Rightarrow> ''hook_rule:admin''
   | HOOK_METRICS_READ \<Rightarrow> ''hook_metrics:read''
   | KNOWLEDGE_WRITE \<Rightarrow> ''knowledge:write''
   | MODEL_ALIAS_WRITE \<Rightarrow> ''model_alias:write''
   | QUOTA_LIST \<Rightarrow> ''quota:list''
   | ROUTING_ASSIGNMENT_WRITE \<Rightarrow> ''routing_assignment:write''
   | ROUTING_POLICY_WRITE \<Rightarrow> ''routing_policy:write''
   | ROUTING_RULE_WRITE \<Rightarrow> ''routing_rule:write''
   | SECURITY_BYPASS_GRANT_WRITE \<Rightarrow> ''security_bypass_grant:write''
   | USAGE_READ_BY_USER \<Rightarrow> ''usage:read_by_user''
   | USER_MANAGE \<Rightarrow> ''user:manage''
   | CILIUM_ADMIN \<Rightarrow> ''cilium:admin''
   | FLEET_ADMIN \<Rightarrow> ''fleet:admin''
   | INTEGRATION_ADMIN \<Rightarrow> ''integration:admin''
   | LLAMACPP_ADMIN \<Rightarrow> ''llamacpp:admin''
   | MEMORY_CONFIG_ADMIN \<Rightarrow> ''memory_config:admin''
   | MEMORY_SCOPING_ADMIN \<Rightarrow> ''memory_scoping:admin''
   | OLLAMA_ADMIN \<Rightarrow> ''ollama:admin''
   | OLLAMA_MODEL_ADMIN \<Rightarrow> ''ollama_model:admin''
   | ORG_ADMIN_UPDATE \<Rightarrow> ''org:admin_update''
   | PROVIDER_ADMIN \<Rightarrow> ''provider:admin''
   | QUOTA_ORG_UPDATE \<Rightarrow> ''quota:org_update''
   | ROUTING_ASSIGNMENT_ADMIN \<Rightarrow> ''routing_assignment:admin''
   | ROUTING_DRY_RUN_ADMIN \<Rightarrow> ''routing_dry_run:admin''
   | ROUTING_POLICY_DELETE \<Rightarrow> ''routing_policy:delete''
   | SECURITY_POLICY_ADMIN \<Rightarrow> ''security_policy:admin''
   | MODEL_ACCESS_POLICY_WRITE \<Rightarrow> ''model_access_policy:write''
   | MODEL_ACCESS_POLICY_DELETE \<Rightarrow> ''model_access_policy:delete'')"

definition ADMIN_PERMISSIONS :: "permission list" where
  "ADMIN_PERMISSIONS = [
     SYSTEM_CONFIG, SYSTEM_MONITOR, SYSTEM_HEALTH, USER_CREATE, USER_READ, USER_UPDATE,
     USER_DELETE, ORG_CREATE, ORG_READ, ORG_UPDATE, ORG_DELETE, APIKEY_CREATE, APIKEY_READ,
     APIKEY_UPDATE, APIKEY_DELETE, QUOTA_READ, QUOTA_UPDATE, QUOTA_RESET, ANALYTICS_READ,
     ANALYTICS_SYSTEM, ANALYTICS_SECURITY, LLM_CONFIG, LLM_MODELS, PROXY_USE, PROXY_ROUTE,
     MEMORY_MODERATE, CACHE_CONFIG_WRITE, HOOK_RULE_ADMIN, HOOK_METRICS_READ, KNOWLEDGE_WRITE,
     MODEL_ALIAS_WRITE, QUOTA_LIST, ROUTING_ASSIGNMENT_WRITE, ROUTING_POLICY_WRITE,
     ROUTING_RULE_WRITE, SECURITY_BYPASS_GRANT_WRITE, USAGE_READ_BY_USER, USER_MANAGE,
     CILIUM_ADMIN, FLEET_ADMIN, INTEGRATION_ADMIN, LLAMACPP_ADMIN, MEMORY_CONFIG_ADMIN,
     MEMORY_SCOPING_ADMIN, OLLAMA_ADMIN, OLLAMA_MODEL_ADMIN, ORG_ADMIN_UPDATE, PROVIDER_ADMIN,
     QUOTA_ORG_UPDATE, ROUTING_ASSIGNMENT_ADMIN, ROUTING_DRY_RUN_ADMIN, ROUTING_POLICY_DELETE,
     SECURITY_POLICY_ADMIN, MODEL_ACCESS_POLICY_WRITE, MODEL_ACCESS_POLICY_DELETE]"

definition RESOURCE_MANAGER_PERMISSIONS :: "permission list" where
  "RESOURCE_MANAGER_PERMISSIONS = [
     SYSTEM_HEALTH, USER_READ, USER_UPDATE, ORG_READ, ORG_UPDATE, APIKEY_CREATE, APIKEY_READ,
     APIKEY_UPDATE, QUOTA_READ, QUOTA_UPDATE, QUOTA_RESET, ANALYTICS_READ, PROXY_USE,
     MEMORY_MODERATE, CACHE_CONFIG_WRITE, HOOK_RULE_ADMIN, HOOK_METRICS_READ, KNOWLEDGE_WRITE,
     MODEL_ALIAS_WRITE, QUOTA_LIST, ROUTING_ASSIGNMENT_WRITE, ROUTING_POLICY_WRITE,
     ROUTING_RULE_WRITE, SECURITY_BYPASS_GRANT_WRITE, USAGE_READ_BY_USER, USER_MANAGE,
     MODEL_ACCESS_POLICY_WRITE]"

definition REPORTER_PERMISSIONS :: "permission list" where
  "REPORTER_PERMISSIONS = [
     SYSTEM_HEALTH, USER_READ, ORG_READ, ANALYTICS_READ, ANALYTICS_SECURITY, PROXY_USE]"

definition USER_PERMISSIONS :: "permission list" where
  "USER_PERMISSIONS = [
     SYSTEM_HEALTH, APIKEY_CREATE, APIKEY_READ, APIKEY_UPDATE, QUOTA_READ, ANALYTICS_READ,
     PROXY_USE]"

definition ROLE_PERMISSIONS :: "role \<Rightarrow> permission list" where
  "ROLE_PERMISSIONS r = (case r of
     ADMIN \<Rightarrow> ADMIN_PERMISSIONS | RESOURCE_MANAGER \<Rightarrow> RESOURCE_MANAGER_PERMISSIONS
   | REPORTER \<Rightarrow> REPORTER_PERMISSIONS | USER \<Rightarrow> USER_PERMISSIONS)"

definition role_value :: "role \<Rightarrow> string" where
  "role_value r = (case r of ADMIN \<Rightarrow> ''admin'' | RESOURCE_MANAGER \<Rightarrow> ''resource_manager''
     | REPORTER \<Rightarrow> ''reporter'' | USER \<Rightarrow> ''user'')"

text \<open>\<open>Role(value)\<close>\<close>

definition role_of_value :: "string \<Rightarrow> role option" where
  "role_of_value s = List.find (\<lambda>r. role_value r = s) [ADMIN, RESOURCE_MANAGER, REPORTER, USER]"

text \<open>
  A user context. Its permissions are a set of members of the enumeration, or of their values
  when they come from claims; the list is that set in some order. A user name read from claims
  is the value found there.
\<close>

record user_context =
  uc_user_id :: int
  uc_username :: json
  uc_role :: role
  uc_organization_id :: int
  uc_managed_orgs :: "int list"
  uc_permissions :: "(permission + string) list"
  uc_api_key_id :: "int option"

section \<open>The check\<close>

definition has_permission :: "user_context \<Rightarrow> permission \<Rightarrow> bool" where
  "has_permission uc p \<longleftrightarrow>
     Inr (perm_value p) \<in> set (uc_permissions uc) \<or> Inl p \<in> set (uc_permissions uc)"

definition check_permission ::
    "user_context \<Rightarrow> permission \<Rightarrow> int option \<Rightarrow> int option \<Rightarrow> bool" where
  "check_permission uc p resource_org resource_user =
     (if \<not> has_permission uc p then False
      else if uc_role uc = ADMIN then True
      else if (case resource_org of
                 None \<Rightarrow> False
               | Some org \<Rightarrow>
                   (case uc_role uc of
                      RESOURCE_MANAGER \<Rightarrow> org \<notin> set (uc_managed_orgs uc)
                    | REPORTER \<Rightarrow> org \<notin> set (uc_managed_orgs uc)
                    | USER \<Rightarrow> org \<noteq> uc_organization_id uc
                    | ADMIN \<Rightarrow> False)) then False
      else (case resource_user of
              None \<Rightarrow> True
            | Some u \<Rightarrow> \<not> (uc_role uc = USER \<and> u \<noteq> uc_user_id uc)))"

section \<open>Authentication\<close>

record user_row =
  us_id :: int
  us_username :: string
  us_password_hash :: string
  us_role :: string
  us_organization_id :: int
  us_managed_orgs :: json
  us_enabled :: bool

record key_row =
  ak_id :: int
  ak_key_id :: string
  ak_key_hash :: string
  ak_user_id :: int
  ak_organization_id :: int
  ak_name :: string
  ak_permissions :: dict
  ak_access_level :: string
  ak_enabled :: bool
  ak_expires_at :: "int option"
  ak_last_used :: "int option"

record auth_db =
  db_users :: "user_row list"
  db_keys :: "key_row list"

datatype auth_error = AuthenticationError string | Failure py_error

text \<open>\<open>s.split(c)\<close>\<close>

fun split_on :: "char \<Rightarrow> string \<Rightarrow> string list" where
  "split_on c [] = [[]]"
| "split_on c (x # xs) =
     (if x = c then [] # split_on c xs
      else (case split_on c xs of p # ps \<Rightarrow> (x # p) # ps | [] \<Rightarrow> [[x]]))"

definition managed_orgs_of :: "json \<Rightarrow> py_error + int list" where
  "managed_orgs_of j =
     (if \<not> json_truthy j then Inr []
      else (case j of
              JStr s \<Rightarrow> rmap int_of_str
                (filter (\<lambda>x. x \<noteq> []) (map py_strip (split_on (CHR '','') s)))
            | _ \<Rightarrow> rbind (py_iter j) (rmap py_int)))"

definition build_user_context :: "user_row \<Rightarrow> py_error + user_context" where
  "build_user_context u =
     (case role_of_value (us_role u) of
        None \<Rightarrow> Inl ValueError
      | Some r \<Rightarrow>
          rbind (managed_orgs_of (us_managed_orgs u)) (\<lambda>orgs.
            Inr \<lparr>uc_user_id = us_id u, uc_username = JStr (us_username u), uc_role = r,
              uc_organization_id = us_organization_id u, uc_managed_orgs = orgs,
              uc_permissions = map Inl (ROLE_PERMISSIONS r), uc_api_key_id = None\<rparr>))"

definition failing :: "py_error + 'a \<Rightarrow> auth_error + 'a" where
  "failing r = (case r of Inl e \<Rightarrow> Inl (Failure e) | Inr a \<Rightarrow> Inr a)"

definition authenticate_user ::
    "(string \<Rightarrow> string \<Rightarrow> bool) \<Rightarrow> auth_db \<Rightarrow> string \<Rightarrow> string \<Rightarrow> auth_error + user_context" where
  "authenticate_user verify db username password =
     (case List.find (\<lambda>u. us_username u = username \<and> us_enabled u) (db_users db) of
        None \<Rightarrow> Inl (AuthenticationError ''Invalid username or password'')
      | Some u \<Rightarrow>
          if \<not> verify password (us_password_hash u)
          then Inl (AuthenticationError ''Invalid username or password'')
          else failing (build_user_context u))"

definition well_formed_key :: "string \<Rightarrow> bool" where
  "well_formed_key k = (let parts = split_on (CHR ''-'') k in
     3 \<le> length parts \<and> hd parts = ''wa'')"

definition touch_key :: "int \<Rightarrow> int \<Rightarrow> auth_db \<Rightarrow> auth_db" where
  "touch_key now i db = db\<lparr>db_keys :=
     map (\<lambda>k. if ak_id k = i then k\<lparr>ak_last_used := Some now\<rparr> else k) (db_keys db)\<rparr>"

definition authenticate_api_key ::
    "(string \<Rightarrow> string \<Rightarrow> bool) \<Rightarrow> int \<Rightarrow> auth_db \<Rightarrow> string \<Rightarrow> (auth_error + user_context) \<times> auth_db" where
  "authenticate_api_key verify now db api_key =
     (if \<not> well_formed_key api_key
      then (Inl (AuthenticationError ''Invalid API key format''), db)
      else
        (case List.find (\<lambda>k. ak_enabled k \<and> verify api_key (ak_key_hash k)) (db_keys db) of
           None \<Rightarrow> (Inl (AuthenticationError ''Invalid API key''), db)
         | Some k \<Rightarrow>
             (case List.find (\<lambda>u. us_id u = ak_user_id k) (db_users db) of
                None \<Rightarrow> Inl (AuthenticationError ''API key user is disabled'')
              | Some u \<Rightarrow>
                  if \<not> us_enabled u
                  then Inl (AuthenticationError ''API key user is disabled'')
                  else failing (rbind (build_user_context u) (\<lambda>uc.
                    Inr (uc\<lparr>uc_api_key_id := Some (ak_id k)\<rparr>))),
              touch_key now (ak_id k) db)))"

section \<open>Creating a key\<close>

definition access_level :: "role \<Rightarrow> string" where
  "access_level r = (if r = ADMIN then ''admin_api''
     else if r = RESOURCE_MANAGER then ''management_api'' else ''proxy_api'')"

definition MICROS_PER_DAY :: int where
  "MICROS_PER_DAY = 86400000000"

text \<open>The two random parts, the hash and the row id of the database are parameters.\<close>

definition create_api_key ::
    "string \<Rightarrow> string \<Rightarrow> (string \<Rightarrow> string) \<Rightarrow> int \<Rightarrow> int \<Rightarrow> user_context \<Rightarrow> string \<Rightarrow>
     dict option \<Rightarrow> int option \<Rightarrow> auth_db \<Rightarrow> (string \<times> int) \<times> auth_db" where
  "create_api_key key_id secret hash fresh now uc name permissions expires_days db =
     (let api_key = ''wa-'' @ key_id @ ''-'' @ secret in
      ((api_key, fresh),
       db\<lparr>db_keys := db_keys db @ [\<lparr>ak_id = fresh, ak_key_id = key_id, ak_key_hash = hash api_key,
         ak_user_id = uc_user_id uc, ak_organization_id = uc_organization_id uc, ak_name = name,
         ak_permissions = (case permissions of None \<Rightarrow> [] | Some d \<Rightarrow> d),
         ak_access_level = access_level (uc_role uc), ak_enabled = True,
         ak_expires_at = (case expires_days of
            None \<Rightarrow> None
          | Some d \<Rightarrow> if d = 0 then None else Some (now + d * MICROS_PER_DAY)),
         ak_last_used = None\<rparr>]\<rparr>))"

end
