(* ===== verification/Claims.thy ===== *)
theory Claims
  imports Rbac
begin

text \<open>
  The claims a user context travels in (\<open>shared/auth/penguin_auth.py\<close>), as the plain dict the
  middleware stores, and what the access check promises.
\<close>

section \<open>Conversion\<close>

definition user_context_to_claims_dict :: "user_context \<Rightarrow> dict" where
  "user_context_to_claims_dict uc =
     [(''sub'', JStr (str_int (uc_user_id uc))), (''username'', uc_username uc),
      (''roles'', JList [JStr (role_value (uc_role uc))]),
      (''scope'', JList (map (\<lambda>p. JStr (case p of Inl q \<Rightarrow> perm_value q | Inr s \<Rightarrow> s))
         (uc_permissions uc))),
      (''tenant'', JStr (str_int (uc_organization_id uc))),
      (''teams'', JList (map (\<lambda>i. JStr (str_int i)) (uc_managed_orgs uc))),
      (''api_key_id'', of_opt (\<lambda>i. JStr (str_int i)) (uc_api_key_id uc))]"

text \<open>\<open>int(v) if str(v).isdigit()\<close>; only a text or a number prints as digits.\<close>

definition isdigit :: "string \<Rightarrow> bool" where
  "isdigit s \<longleftrightarrow> s \<noteq> [] \<and> list_all is_digit s"

definition digits_int :: "json \<Rightarrow> int option" where
  "digits_int j = (let s = py_str (\<lambda>_. []) j in
     if isdigit s then (case int_of_str s of Inr i \<Rightarrow> Some i | Inl _ \<Rightarrow> None) else None)"

definition first_role :: "json \<Rightarrow> py_error + json" where
  "first_role j = (case j of
     JList (x # _) \<Rightarrow> Inr x | JStr (c # _) \<Rightarrow> Inr (JStr [c]) | JDict _ \<Rightarrow> Inl KeyError
   | _ \<Rightarrow> Inl TypeError)"

text \<open>Members of the scope that are no texts are never asked for; unhashable ones raise.\<close>

fun scope_entries :: "json list \<Rightarrow> py_error + (permission + string) list" where
  "scope_entries [] = Inr []"
| "scope_entries (JStr s # js) = rbind (scope_entries js) (\<lambda>ps. Inr (Inr s # ps))"
| "scope_entries (JList _ # js) = Inl TypeError"
| "scope_entries (JDict _ # js) = Inl TypeError"
| "scope_entries (_ # js) = scope_entries js"

definition claims_dict_to_user_context :: "dict \<Rightarrow> py_error + user_context" where
  "claims_dict_to_user_context d =
     rbind (first_role (json_or (jget_null d ''roles'') (JList [JStr ''user'']))) (\<lambda>role_str.
     rbind (rbind (py_iter (jget_or d ''scope'' (JList []))) scope_entries) (\<lambda>perms.
     rbind (py_iter (jget_or d ''teams'' (JList []))) (\<lambda>teams.
       Inr \<lparr>uc_user_id = (case digits_int (jget_or d ''sub'' (JStr ''0'')) of
              Some i \<Rightarrow> i | None \<Rightarrow> 0),
         uc_username = jget_or d ''username'' (jget_or d ''sub'' (JStr ''unknown'')),
         uc_role = (case role_str of
            JStr s \<Rightarrow> (case role_of_value s of Some r \<Rightarrow> r | None \<Rightarrow> USER) | _ \<Rightarrow> USER),
         uc_organization_id = (case digits_int (jget_or d ''tenant'' (JStr ''0'')) of
            Some i \<Rightarrow> i | None \<Rightarrow> 0),
         uc_managed_orgs = List.map_filter digits_int teams,
         uc_permissions = perms,
         uc_api_key_id = digits_int (jget_null d ''api_key_id'')\<rparr>)))"

section \<open>Lemmas\<close>

lemma permission_in_admin: "p \<in> set ADMIN_PERMISSIONS"
  unfolding ADMIN_PERMISSIONS_def list.set insert_iff empty_iff
  using permission.nchotomy by (metis (no_types))

lemma perm_value_admin_distinct: "distinct (map perm_value ADMIN_PERMISSIONS)"
  by code_simp

lemma perm_value_inj: "perm_value p = perm_value q \<longleftrightarrow> p = q"
  using perm_value_admin_distinct permission_in_admin by (auto simp: distinct_map dest: inj_onD)

lemma role_of_value_role [simp]: "role_of_value (role_value r) = Some r"
  by (cases r) (simp_all add: role_of_value_def role_value_def)

lemma isdigit_str_int: "0 \<le> i \<Longrightarrow> isdigit (str_int i)"
  using str_nat_digits by (auto simp: isdigit_def str_int_def list_all_iff)

lemma digits_int_str_int [simp]: "0 \<le> i \<Longrightarrow> digits_int (JStr (str_int i)) = Some i"
  by (simp add: digits_int_def isdigit_str_int int_of_str_str_int)

lemma digits_int_null [simp]: "digits_int JNull = None"
  by (simp add: digits_int_def isdigit_def is_digit_def)

lemma scope_entries_texts:
  "scope_entries (map (\<lambda>x. JStr (f x)) xs) = Inr (map (\<lambda>x. Inr (f x)) xs)"
  by (induction xs) simp_all

lemma map_filter_digits:
  "\<forall>i\<in>set xs. 0 \<le> i \<Longrightarrow> List.map_filter digits_int (map (\<lambda>i. JStr (str_int i)) xs) = xs"
  by (induction xs) (simp_all add: List.map_filter_simps)

definition same_identity :: "user_context \<Rightarrow> user_context \<Rightarrow> bool" where
  "same_identity a b \<longleftrightarrow> uc_user_id a = uc_user_id b \<and> uc_username a = uc_username b \<and>
     uc_role a = uc_role b \<and> uc_organization_id a = uc_organization_id b \<and>
     uc_managed_orgs a = uc_managed_orgs b \<and> uc_api_key_id a = uc_api_key_id b"

lemma has_permission_values:
  assumes "uc_permissions uc' =
     map (\<lambda>p. Inr (case p of Inl q \<Rightarrow> perm_value q | Inr s \<Rightarrow> s)) (uc_permissions uc)"
  shows "has_permission uc' p = has_permission uc p"
proof -
  let ?f = "\<lambda>p. case p of Inl q \<Rightarrow> perm_value q | Inr s \<Rightarrow> s"
  have "has_permission uc' p \<longleftrightarrow> perm_value p \<in> ?f ` set (uc_permissions uc)"
    by (auto simp: has_permission_def assms)
  also have "\<dots> \<longleftrightarrow> has_permission uc p"
  proof
    assume "perm_value p \<in> ?f ` set (uc_permissions uc)"
    then obtain x where x: "x \<in> set (uc_permissions uc)" "perm_value p = ?f x" by blast
    show "has_permission uc p"
    proof (cases x)
      case (Inl q)
      with x show ?thesis by (simp add: has_permission_def perm_value_inj)
    next
      case (Inr v)
      with x show ?thesis by (simp add: has_permission_def)
    qed
  next
    assume "has_permission uc p"
    then show "perm_value p \<in> ?f ` set (uc_permissions uc)"
      unfolding has_permission_def by (auto intro: rev_image_eqI)
  qed
  finally show ?thesis .
qed

lemma check_permission_cong:
  assumes "same_identity a b" "\<And>q. has_permission a q = has_permission b q"
  shows "check_permission a p org user = check_permission b p org user"
proof -
  have e: "uc_role a = uc_role b" "uc_user_id a = uc_user_id b"
    "uc_organization_id a = uc_organization_id b" "uc_managed_orgs a = uc_managed_orgs b"
    using assms(1) by (simp_all add: same_identity_def)
  show ?thesis by (simp only: check_permission_def e assms(2))
qed

section \<open>Properties\<close>

text \<open>
  C11. The claims of a request carry the whole authority of a user context: the context rebuilt
  from them is the same person in the same role, organisation and managed organisations, and
  every access check on it has the same answer.
\<close>

theorem claims_round_trip:
  assumes "0 \<le> uc_user_id uc" "0 \<le> uc_organization_id uc"
    and "\<forall>i\<in>set (uc_managed_orgs uc). 0 \<le> i" "\<forall>i. uc_api_key_id uc = Some i \<longrightarrow> 0 \<le> i"
  shows "\<exists>uc'. claims_dict_to_user_context (user_context_to_claims_dict uc) = Inr uc' \<and>
    same_identity uc' uc \<and>
    (\<forall>p org user. check_permission uc' p org user = check_permission uc p org user)"
proof -
  let ?perms = "map (\<lambda>p. Inr (case p of Inl q \<Rightarrow> perm_value q | Inr s \<Rightarrow> s)) (uc_permissions uc)"
  let ?uc = "uc\<lparr>uc_permissions := ?perms\<rparr>"
  have key: "digits_int (of_opt (\<lambda>i. JStr (str_int i)) (uc_api_key_id uc)) = uc_api_key_id uc"
    using assms(4) by (cases "uc_api_key_id uc") (simp_all add: of_opt_def)
  have "claims_dict_to_user_context (user_context_to_claims_dict uc) = Inr ?uc"
    using assms(1-3)
    by (simp add: claims_dict_to_user_context_def user_context_to_claims_dict_def jget_def
      jget_null_def jget_or_def json_or_def first_role_def scope_entries_texts map_filter_digits key)
  moreover have "check_permission ?uc p org user = check_permission uc p org user" for p org user
    by (rule check_permission_cong) (simp_all add: same_identity_def has_permission_values)
  ultimately show ?thesis by (auto simp: same_identity_def)
qed

definition demo_user :: user_row where
  "demo_user = \<lparr>us_id = 5, us_username = ''ann'', us_password_hash = ''h'', us_role = ''reporter'',
     us_organization_id = 2, us_managed_orgs = JStr ''3, 4'', us_enabled = True\<rparr>"

definition demo_context :: user_context where
  "demo_context = \<lparr>uc_user_id = 5, uc_username = JStr ''ann'', uc_role = REPORTER,
     uc_organization_id = 2, uc_managed_orgs = [3, 4],
     uc_permissions = map Inl REPORTER_PERMISSIONS, uc_api_key_id = Some 9\<rparr>"

theorem claims_round_trip_witness:
  "\<exists>uc'. claims_dict_to_user_context (user_context_to_claims_dict demo_context) = Inr uc' \<and>
    same_identity uc' demo_context \<and>
    (\<forall>p org user. check_permission uc' p org user = check_permission demo_context p org user)"
  by (rule claims_round_trip) (simp_all add: demo_context_def)



lemma split_on_nonempty: "split_on c s \<noteq> []"
  by (induction c s rule: split_on.induct) (auto split: list.splits)

lemma split_on_length: "length (split_on c (a @ c # b)) = length (split_on c a) + length (split_on c b)"
proof (induction c a rule: split_on.induct)
  case (2 c x xs)
  then show ?case
    using split_on_nonempty [of c xs] split_on_nonempty [of c "xs @ c # b"]
    by (auto split: list.splits)
qed simp

lemma created_key_well_formed: "well_formed_key (''wa-'' @ a @ ''-'' @ b)"
proof -
  have "Suc 0 \<le> length (split_on (CHR ''-'') s)" for s
    using split_on_nonempty [of "CHR ''-''" s] by (cases "split_on (CHR ''-'') s") simp_all
  from add_mono [OF this [of a] this [of b]] show ?thesis by (simp add: well_formed_key_def split_on_length Let_def)
qed

lemma find_after_none:
  "List.find P xs = None \<Longrightarrow> List.find P (xs @ [x]) = (if P x then Some x else None)"
  by (induction xs) (auto split: if_splits)

text \<open>
  C12. A key that is created authenticates its owner, and stays valid: neither the lifetime it
  was created with nor the time of the request has an influence.
\<close>

theorem created_key_authenticates:
  assumes "create_api_key key_id secret hash fresh now uc name permissions expires_days db =
      ((api_key, key_record_id), db')"
    and "\<And>k. verify k (hash k)"
    and "\<forall>k\<in>set (db_keys db). \<not> (ak_enabled k \<and> verify api_key (ak_key_hash k))"
    and "List.find (\<lambda>u. us_id u = uc_user_id uc) (db_users db) = Some u" "us_enabled u"
    and "build_user_context u = Inr owner"
  shows "\<forall>later. fst (authenticate_api_key verify later db' api_key) =
    Inr (owner\<lparr>uc_api_key_id := Some key_record_id\<rparr>)"
proof
  fix later
  have "List.find (\<lambda>k. ak_enabled k \<and> verify api_key (ak_key_hash k)) (db_keys db) = None"
    using assms(3) by (simp add: find_None_iff)
  then show "fst (authenticate_api_key verify later db' api_key) =
      Inr (owner\<lparr>uc_api_key_id := Some key_record_id\<rparr>)"
    using assms created_key_well_formed
    by (auto simp: create_api_key_def authenticate_api_key_def Let_def failing_def find_after_none)
qed

definition demo_auth_db :: auth_db where
  "demo_auth_db = \<lparr>db_users = [demo_user], db_keys = []\<rparr>"

theorem created_key_authenticates_witness:
  "\<exists>db' key. create_api_key ''0a'' ''s'' id 9 0 demo_context ''n'' None (Some 1) demo_auth_db =
      ((key, 9), db') \<and>
    (\<forall>later. fst (authenticate_api_key (=) later db' key) =
      Inr (demo_context\<lparr>uc_api_key_id := Some 9\<rparr>))"
proof -
  obtain r db' where r: "create_api_key ''0a'' ''s'' id 9 0 demo_context ''n'' None (Some 1)
      demo_auth_db = (r, db')" by fastforce
  have "fst r = ''wa-0a-s''" "snd r = 9"
    using r by (auto simp: create_api_key_def Let_def)
  then have e: "create_api_key ''0a'' ''s'' id 9 0 demo_context ''n'' None (Some 1) demo_auth_db =
      ((''wa-0a-s'', 9), db')"
    using r by (cases r) simp
  have "\<forall>later. fst (authenticate_api_key (=) later db' ''wa-0a-s'') =
      Inr (demo_context\<lparr>uc_api_key_id := None\<rparr>\<lparr>uc_api_key_id := Some 9\<rparr>)"
  proof (rule created_key_authenticates [OF e])
    show "List.find (\<lambda>u. us_id u = uc_user_id demo_context) (db_users demo_auth_db) = Some demo_user"
      by (simp add: demo_context_def demo_auth_db_def demo_user_def)
    show "build_user_context demo_user = Inr (demo_context\<lparr>uc_api_key_id := None\<rparr>)"
      by code_simp
  qed (simp_all add: demo_auth_db_def demo_user_def)
  with e show ?thesis by auto
qed

end
