(* ===== verification/Gateway.thy ===== *)
theory Gateway
  imports PipelineSafety Claims
begin

text \<open>
  The request handlers of the proxy (\<open>proxy_server/main.py\<close>): the model chosen for a request,
  the chat-completions and Messages endpoints around a run of the pipeline, the usage block they
  report, the write-back they trigger. The memory manager, the token manager and the default
  models of the database are services; the tasks the handlers schedule run in the order they
  are scheduled. A model name that is no text and a message list that is no list, which Python
  would carry further before failing, are refused when they are read.
\<close>

section \<open>Requests and services\<close>

record gateway_request =
  gr_user :: user_context
  gr_body :: dict
  gr_preferred_model :: "string option"
  gr_waddle_session :: "string option"
  gr_session_header :: "string option"
  gr_tool_type :: "string option"
  gr_escalate :: "string option"

datatype model_source = KeyDefault | UserDefault | OrganizationDefault

record usage_call =
  uc_input :: string
  uc_output :: string
  uc_provider :: string
  uc_model :: "string option"
  uc_api_key :: int
  uc_user :: int
  uc_org :: int
  uc_input_tokens :: json
  uc_output_tokens :: json

record 'w gateway =
  gw_services :: "'w services"
  gw_memory :: "'w memory_stages"
  gw_default_model :: "model_source \<Rightarrow> int \<Rightarrow> ('w, string option) srv"
  gw_enhance :: "int \<Rightarrow> int \<Rightarrow> json list \<Rightarrow> json \<Rightarrow> ('w, json list) srv"
  gw_process_usage :: "usage_call \<Rightarrow> ('w, int) srv"
  gw_add_turn :: "json list \<Rightarrow> string \<Rightarrow> json \<Rightarrow> 'w \<Rightarrow> unit \<times> 'w"
  gw_write_back :: "cache_write list \<Rightarrow> dict \<Rightarrow> dict \<Rightarrow> 'w \<Rightarrow> unit \<times> 'w"

datatype reply = Reply int json

text \<open>
  The user object the handlers hand to the pipeline is a \<open>UserContext\<close>: of the attributes the
  stages look for it has \<open>user_id\<close>, \<open>organization_id\<close> and \<open>api_key_id\<close>.
\<close>

definition user_of_context :: "user_context \<Rightarrow> pipeline_user" where
  "user_of_context uc = \<lparr>pu_id = None, pu_user_id = Some (uc_user_id uc), pu_tenant_id = None,
     pu_organization_id = Some (uc_organization_id uc), pu_vkey_id = None,
     pu_api_key_id = uc_api_key_id uc, pu_request_id = None, pu_limits = None\<rparr>"

section \<open>The model\<close>

fun first_default ::
    "'w gateway \<Rightarrow> (model_source \<times> int) list \<Rightarrow> ('w, string option) eff" where
  "first_default gw [] = eret None"
| "first_default gw ((src, i) # rest) =
     ebind (ecatch (service (gw_default_model gw src i)) (\<lambda>_. eret None)) (\<lambda>m.
       if truthy m then eret m else first_default gw rest)"

definition default_sources :: "user_context \<Rightarrow> (model_source \<times> int) list" where
  "default_sources uc =
     (case truthy_int (uc_api_key_id uc) of Some k \<Rightarrow> [(KeyDefault, k)] | None \<Rightarrow> []) @
     [(UserDefault, uc_user_id uc), (OrganizationDefault, uc_organization_id uc)]"

definition determine_target_model ::
    "'w gateway \<Rightarrow> string option \<Rightarrow> user_context \<Rightarrow> string option \<Rightarrow> ('w, string option) eff" where
  "determine_target_model gw request_model uc preferred =
     (if truthy request_model then eret request_model
      else if truthy preferred then eret preferred
      else first_default gw (default_sources uc))"

definition text_or_null :: "json \<Rightarrow> py_error + string option" where
  "text_or_null j = (case j of JNull \<Rightarrow> Inr None | JStr s \<Rightarrow> Inr (Some s) | _ \<Rightarrow> Inl TypeError)"

definition body_messages :: "dict \<Rightarrow> py_error + json list" where
  "body_messages d = (case jget_or d ''messages'' (JList []) of
     JList ms \<Rightarrow> Inr ms | _ \<Rightarrow> Inl TypeError)"

definition session_of :: "gateway_request \<Rightarrow> json" where
  "session_of rq =
     (if truthy (gr_waddle_session rq) then JStr (the (gr_waddle_session rq))
      else json_or (jget_null (gr_body rq) ''session_id'') (of_opt JStr (gr_session_header rq)))"

section \<open>The usage block\<close>

definition build_waddleai_cache_usage :: "pctx \<Rightarrow> py_error + dict" where
  "build_waddleai_cache_usage ctx =
     (let block = (\<lambda>status n. [(''cache'', JStr status), (''cached_tokens'', JInt n),
            (''tokens_saved'', JInt n)]);
          usage = (case cx_usage ctx of None \<Rightarrow> [] | Some u \<Rightarrow> u)
      in if cx_cache_status ctx \<in> {''exact'', ''semantic''}
         then Inr (block (cx_cache_status ctx) (cx_tokens_saved ctx))
         else
           rbind (if cx_provider ctx = Some ''anthropic''
                  then rbind (extract_cache_usage usage) (\<lambda>(_, n). Inr n)
                  else if cx_provider ctx \<in> {Some ''openai'', Some ''xai''}
                  then extract_openai_cached_tokens usage
                  else if cx_provider ctx = Some ''gemini''
                  then extract_gemini_cached_tokens usage
                  else Inr 0) (\<lambda>n.
             Inr (if 0 < n then block ''upstream'' n else block ''miss'' 0)))"

definition waddleai_usage_meta :: "pctx \<Rightarrow> dict option" where
  "waddleai_usage_meta ctx =
     (let meta = cx_usage_meta ctx;
          result = (case jget meta ''summarized'' of Some v \<Rightarrow> [(''summarized'', v)] | None \<Rightarrow> []) @
            concat (map (\<lambda>k. if json_truthy (jget_null meta k) then [(k, jget_null meta k)] else [])
              [''tokens_elided'', ''tokens_saved'', ''scratchpad_substitutions''])
      in if result = [] then None else Some result)"

text \<open>\<open>a + b\<close>\<close>

fun json_add :: "json \<Rightarrow> json \<Rightarrow> py_error + json" where
  "json_add (JInt a) (JInt b) = Inr (JInt (a + b))"
| "json_add (JInt a) (JFloat b) = Inr (JFloat (of_int a + b))"
| "json_add (JFloat a) (JInt b) = Inr (JFloat (a + of_int b))"
| "json_add (JFloat a) (JFloat b) = Inr (JFloat (a + b))"
| "json_add (JStr a) (JStr b) = Inr (JStr (a @ b))"
| "json_add (JList a) (JList b) = Inr (JList (a @ b))"
| "json_add _ _ = Inl TypeError"

fun merge_meta :: "dict \<Rightarrow> dict \<Rightarrow> py_error + dict" where
  "merge_meta merged [] = Inr merged"
| "merge_meta merged ((k, v) # rest) =
     (case (if k = ''tokens_saved'' then jget merged k else None) of
        Some old \<Rightarrow> rbind (json_add old v) (\<lambda>s. merge_meta (dict_set merged k s) rest)
      | None \<Rightarrow> merge_meta (dict_set merged k v) rest)"

definition merge_waddleai_usage :: "dict option \<Rightarrow> dict option \<Rightarrow> py_error + dict option" where
  "merge_waddleai_usage cache_meta memory_meta =
     (if cache_meta = None \<and> memory_meta = None then Inr None
      else
        rbind (merge_meta (case cache_meta of None \<Rightarrow> [] | Some d \<Rightarrow> d)
            (case memory_meta of None \<Rightarrow> [] | Some d \<Rightarrow> d)) (\<lambda>d. Inr (Some d)))"

definition routed_dict :: "routed_from \<Rightarrow> dict" where
  "routed_dict r = (case r of
     CauseAlias a b \<Rightarrow> [(''cause'', JStr ''alias''), (''from'', JStr a), (''to'', JStr b)]
   | CauseEscalation t \<Rightarrow> [(''cause'', JStr ''escalation''), (''trigger'', of_opt JStr t)]
   | CauseVeto s \<Rightarrow> [(''cause'', JStr ''capability_veto''), (''reason'', JStr s)])"

definition waddleai_usage :: "bool \<Rightarrow> pctx \<Rightarrow> py_error + dict option" where
  "waddleai_usage cache_on ctx =
     rbind (if cache_on then rbind (build_waddleai_cache_usage ctx) (\<lambda>d. Inr (Some d)) else Inr None)
       (\<lambda>cache_meta.
     rbind (merge_waddleai_usage cache_meta (waddleai_usage_meta ctx)) (\<lambda>m.
     merge_waddleai_usage m
       (map_option (\<lambda>r. [(''routed_from'', JDict (routed_dict r))]) (cx_routed_from ctx))))"

section \<open>Handlers\<close>

text \<open>What the handlers differ in: the wire format, the fallbacks, the shapes of the replies.\<close>

record wire =
  wr_format :: string
  wr_stop :: string
  wr_error :: "string \<Rightarrow> json"
  wr_input_text :: "json list \<Rightarrow> py_error + string"
  wr_body :: "int \<Rightarrow> string \<Rightarrow> string option \<Rightarrow> json \<Rightarrow> dict \<Rightarrow> json \<Rightarrow> json \<Rightarrow> int \<Rightarrow> py_error + dict \<times> dict"

definition usage_tokens :: "dict \<Rightarrow> string \<Rightarrow> json" where
  "usage_tokens usage k = jget_or usage k (JInt 0)"

text \<open>\<open>"\n".join([m.get("content", "") for m in messages if m.get("content")])\<close>\<close>

definition chat_input_text :: "json list \<Rightarrow> py_error + string" where
  "chat_input_text ms =
     rbind (rmap must_dict ms) (\<lambda>ds.
     rbind (rmap as_text (filter json_truthy (map (\<lambda>d. jget_null d ''content'') ds)))
       (\<lambda>ts. Inr (join [CHR 0x0A] ts)))"

text \<open>\<open>_extract_text_from_claude_messages\<close>\<close>

definition block_text_parts :: "json \<Rightarrow> json list" where
  "block_text_parts content = (case content of
     JStr s \<Rightarrow> [JStr s]
   | JList bs \<Rightarrow> List.map_filter (\<lambda>b. case b of
        JDict d \<Rightarrow> if jget_null d ''type'' = JStr ''text''
                   then Some (jget_or d ''text'' (JStr [])) else None
      | _ \<Rightarrow> None) bs
   | _ \<Rightarrow> [])"

definition claude_input_text :: "json list \<Rightarrow> py_error + string" where
  "claude_input_text ms =
     rbind (rmap must_dict ms) (\<lambda>ds.
     rbind (rmap as_text (concat (map (\<lambda>d. block_text_parts (content_of d)) ds)))
       (\<lambda>ts. Inr (join [CHR 0x0A] ts)))"

definition chat_error :: "string \<Rightarrow> json" where
  "chat_error msg = JDict [(''error'', JDict [(''message'', JStr msg), (''type'', JStr ''error'')])]"

definition claude_error :: "string \<Rightarrow> json" where
  "claude_error msg =
     JDict [(''error'', JDict [(''type'', JStr ''invalid_request_error''), (''message'', JStr msg)])]"

definition server_error :: reply where
  "server_error = Reply 500 (JDict [(''error'', JDict [(''message'', JStr ''Internal server error''),
     (''type'', JStr ''server_error'')])])"

text \<open>The reply without its usage, and the usage.\<close>

definition chat_body ::
    "int \<Rightarrow> string \<Rightarrow> string option \<Rightarrow> json \<Rightarrow> dict \<Rightarrow> json \<Rightarrow> json \<Rightarrow> int \<Rightarrow>
     py_error + dict \<times> dict" where
  "chat_body now response_text model finish usage tin tout waddle =
     rbind (json_add tin tout) (\<lambda>total_tokens. Inr
      ([(''id'', JStr (''chatcmpl-'' @ str_int (now div 1000000))),
        (''object'', JStr ''chat.completion''), (''created'', JInt (now div 1000000)),
        (''model'', of_opt JStr model),
        (''choices'', JList [JDict [(''index'', JInt 0),
           (''message'', JDict [(''role'', JStr ''assistant''), (''content'', JStr response_text)]),
           (''finish_reason'', finish)]])],
       [(''prompt_tokens'', tin), (''completion_tokens'', tout), (''total_tokens'', total_tokens),
        (''waddleai_tokens'', JInt waddle)]))"

definition claude_body ::
    "int \<Rightarrow> string \<Rightarrow> string option \<Rightarrow> json \<Rightarrow> dict \<Rightarrow> json \<Rightarrow> json \<Rightarrow> int \<Rightarrow>
     py_error + dict \<times> dict" where
  "claude_body now response_text model finish usage tin tout waddle =
     Inr ([(''id'', JStr (''msg_'' @ str_int (now div 1000))), (''type'', JStr ''message''),
        (''role'', JStr ''assistant''),
        (''content'', JList [JDict [(''type'', JStr ''text''), (''text'', JStr response_text)]]),
        (''model'', of_opt JStr model), (''stop_reason'', finish), (''stop_sequence'', JNull)],
       [(''input_tokens'', tin), (''output_tokens'', tout)])"

definition chat_wire :: wire where
  "chat_wire = \<lparr>wr_format = ''openai'', wr_stop = ''stop'', wr_error = chat_error,
     wr_input_text = chat_input_text, wr_body = chat_body\<rparr>"

definition claude_wire :: wire where
  "claude_wire = \<lparr>wr_format = ''anthropic'', wr_stop = ''end_turn'', wr_error = claude_error,
     wr_input_text = claude_input_text, wr_body = claude_body\<rparr>"

definition maybe_write_back :: "'w gateway \<Rightarrow> pctx \<Rightarrow> dict \<Rightarrow> dict \<Rightarrow> ('w, unit) eff" where
  "maybe_write_back gw ctx response_dict usage =
     (case cx_write_back ctx of
        None \<Rightarrow> eret ()
      | Some ws \<Rightarrow> if cx_cache_hit ctx then eret ()
          else total (gw_write_back gw ws response_dict usage))"

definition blocked_reply :: "wire \<Rightarrow> pctx \<Rightarrow> reply" where
  "blocked_reply wr ctx = Reply (if cx_status_code ctx = 0 then 500 else cx_status_code ctx)
     (wr_error wr (if truthy (cx_block_reason ctx) then the (cx_block_reason ctx)
        else ''Request blocked''))"

definition response_dict :: "dict \<Rightarrow> dict \<Rightarrow> dict option \<Rightarrow> dict" where
  "response_dict parts usage_block extra =
     parts @ [(''usage'', JDict (usage_block @
       (case extra of None \<Rightarrow> [] | Some d \<Rightarrow> [(''waddleai'', JDict d)])))]"

definition answer ::
    "wire \<Rightarrow> 'w gateway \<Rightarrow> gateway_request \<Rightarrow> string option \<Rightarrow> json list \<Rightarrow> pctx \<Rightarrow> ('w, reply) eff" where
  "answer wr gw rq model0 messages ctx =
     (let uc = gr_user rq;
          usage = (case cx_usage ctx of None \<Rightarrow> [] | Some u \<Rightarrow> u);
          model = or_else (cx_model ctx) model0;
          provider = (if truthy (cx_provider ctx) then the (cx_provider ctx) else ''unknown'');
          finish = json_or (cx_finish_reason ctx) (JStr (wr_stop wr));
          tin = usage_tokens usage ''input_tokens'';
          tout = usage_tokens usage ''output_tokens''
      in
        ebind (ereturn (wr_input_text wr messages)) (\<lambda>input_text.
        ebind (service (gw_process_usage gw \<lparr>uc_input = input_text,
          uc_output = cx_response_text ctx, uc_provider = provider, uc_model = model,
          uc_api_key = (case uc_api_key_id uc of None \<Rightarrow> 0 | Some k \<Rightarrow> k), uc_user = uc_user_id uc,
          uc_org = uc_organization_id uc, uc_input_tokens = tin, uc_output_tokens = tout\<rparr>)) (\<lambda>waddle.
        ebind (total (gw_add_turn gw messages (cx_response_text ctx) (session_of rq))) (\<lambda>_.
        ebind (ereturn (wr_body wr (sv_now (gw_services gw)) (cx_response_text ctx) model finish
          usage tin tout waddle)) (\<lambda>(parts, usage_block).
        ebind (\<lambda>w. (Inr (sv_enabled (gw_services gw) RESPONSE_CACHE_FLAG
          (Some (str_int (uc_user_id uc))) (wd_state w)), w)) (\<lambda>cache_on.
        ebind (ereturn (waddleai_usage cache_on ctx)) (\<lambda>extra.
          (let doc = response_dict parts usage_block extra
           in ebind (maybe_write_back gw ctx doc usage) (\<lambda>_.
             eret (Reply 200 (JDict doc)))))))))))"

definition request_context :: "wire \<Rightarrow> gateway_request \<Rightarrow> string option \<Rightarrow> json list \<Rightarrow> pctx" where
  "request_context wr rq model messages =
     new_context (Some (user_of_context (gr_user rq))) (gr_body rq) model messages
       (json_truthy (jget_or (gr_body rq) ''stream'' (JBool False))) (wr_format wr)
       (session_of rq) (gr_tool_type rq) (gr_escalate rq)"

text \<open>The body of the handler; an exception in it is logged and answered with a server error.\<close>

definition serve ::
    "wire \<Rightarrow> 'w gateway \<Rightarrow> gateway_request \<Rightarrow> string option \<Rightarrow> string option \<Rightarrow> ('w, reply) eff" where
  "serve wr gw rq request_model fallback =
     ecatch
       (ebind (ereturn (body_messages (gr_body rq))) (\<lambda>messages.
        ebind (determine_target_model gw request_model (gr_user rq) (gr_preferred_model rq)) (\<lambda>m.
        (let model = or_else m fallback in
        ebind (service (gw_enhance gw (uc_user_id (gr_user rq)) (uc_organization_id (gr_user rq))
          messages (session_of rq))) (\<lambda>enhanced.
        ebind (run_pipeline (gw_services gw) (proxy_stages (gw_memory gw))
          (request_context wr rq model enhanced)) (\<lambda>ctx.
        if cx_blocked ctx then eret (blocked_reply wr ctx)
        else answer wr gw rq model messages ctx))))))
       (\<lambda>_. eret server_error)"

definition chat_completions :: "'w gateway \<Rightarrow> gateway_request \<Rightarrow> ('w, reply) eff" where
  "chat_completions gw rq =
     (case text_or_null (jget_null (gr_body rq) ''model'') of
        Inl _ \<Rightarrow> eret server_error
      | Inr m \<Rightarrow> serve chat_wire gw rq m (Some ''gpt-3.5-turbo''))"

definition CLAUDE_DEFAULT :: string where
  "CLAUDE_DEFAULT = ''claude-3-sonnet-20240229''"

text \<open>\<open>or model\<close>: the fallback is the value read from the body, which may be empty or null.\<close>

definition claude_messages :: "'w gateway \<Rightarrow> gateway_request \<Rightarrow> ('w, reply) eff" where
  "claude_messages gw rq =
     (case text_or_null (jget_or (gr_body rq) ''model'' (JStr CLAUDE_DEFAULT)) of
        Inl _ \<Rightarrow> eret server_error
      | Inr m \<Rightarrow> serve claude_wire gw rq m m)"

end
