(* ===== verification/GatewayLaws.thy ===== *)
theory GatewayLaws
  imports Gateway
begin

text \<open>
  What the endpoints promise: every request gets a reply, only safe answers are written to the
  cache, a cached answer is the answer that was cached; and what they do not: the budgets and
  the metering of the pipeline are out of reach of their users.
\<close>

section \<open>Replies\<close>

lemma serve_replies: "\<exists>r w'. serve wr gw rq m fallback w = (Inr r, w')"
  unfolding serve_def ecatch_def by (auto simp: eret_def split: prod.split sum.split)


section \<open>Budgets and metering\<close>

definition relimit ::
    "(int \<Rightarrow> int \<Rightarrow> rat \<Rightarrow> key_limits \<Rightarrow> 'w \<Rightarrow> gate_decision \<times> 'w) \<Rightarrow>
     (string \<Rightarrow> int \<Rightarrow> rat \<Rightarrow> 'w \<Rightarrow> unit \<times> 'w) \<Rightarrow> (metering_event \<Rightarrow> 'w \<Rightarrow> unit \<times> 'w) \<Rightarrow>
     'w services \<Rightarrow> 'w services" where
  "relimit a b c sv = sv\<lparr>sv_reserve := a, sv_reconcile := b, sv_record := c\<rparr>"

lemma relimit_sel [simp]:
  "sv_enabled (relimit a b c sv) = sv_enabled sv" "sv_scan (relimit a b c sv) = sv_scan sv"
  "sv_filter_input (relimit a b c sv) = sv_filter_input sv"
  "sv_filter_output (relimit a b c sv) = sv_filter_output sv"
  "sv_security_v2 (relimit a b c sv) = sv_security_v2 sv" "sv_lookup (relimit a b c sv) = sv_lookup sv"
  "sv_annotate (relimit a b c sv) = sv_annotate sv" "sv_render (relimit a b c sv) = sv_render sv"
  "sv_offers (relimit a b c sv) = sv_offers sv" "sv_decide (relimit a b c sv) = sv_decide sv"
  "sv_rules (relimit a b c sv) = sv_rules sv" "sv_select (relimit a b c sv) = sv_select sv"
  "sv_connectors (relimit a b c sv) = sv_connectors sv" "sv_chat (relimit a b c sv) = sv_chat sv"
  "sv_stream (relimit a b c sv) = sv_stream sv" "sv_upstream (relimit a b c sv) = sv_upstream sv"
  "sv_guardrails (relimit a b c sv) = sv_guardrails sv" "sv_now (relimit a b c sv) = sv_now sv"
  "sv_ctx_id (relimit a b c sv) = sv_ctx_id sv"
  by (simp_all add: relimit_def)

lemma relimit_v2_flag: "v2_flag (relimit a b c sv) ctx = v2_flag sv ctx"
  unfolding v2_flag_def relimit_sel ..

lemma relimit_fallbacks: "try_fallbacks (relimit a b c sv) ms = try_fallbacks sv ms"
  by (induction ms) simp_all

lemma relimit_stages [simp]:
  "dispatch_stage (relimit a b c sv) ctx = dispatch_stage sv ctx"
  "security_in_stage (relimit a b c sv) ctx = security_in_stage sv ctx"
  "cache_stage (relimit a b c sv) ctx = cache_stage sv ctx"
  "routing_stage (relimit a b c sv) ctx = routing_stage sv ctx"
  "security_out_stage (relimit a b c sv) ctx = security_out_stage sv ctx"
  unfolding dispatch_stage_def select_def dispatch_to_def call_provider_def
    restore_placeholders_def security_in_stage_def security_in_v1_def security_in_v2_def
    cache_stage_def use_cached_def cache_miss_def routing_stage_def routing_input_of_def
    security_out_stage_def security_out_v1_def security_out_v2_def
    relimit_v2_flag relimit_fallbacks relimit_sel
  by (rule refl)+

definition keyless :: "pctx \<Rightarrow> bool" where
  "keyless ctx \<longleftrightarrow> (\<forall>u. cx_user ctx = Some u \<longrightarrow> pu_vkey_id u = None)"

lemma keyless_budget: "keyless ctx \<Longrightarrow> token_budget_stage sv ctx = eret ctx"
  by (auto simp: token_budget_stage_def keyless_def split: option.split)

lemma keyless_meter: "keyless ctx \<Longrightarrow> meter_stage sv ctx = eret ctx"
  by (cases "cx_user ctx") (auto simp: meter_stage_def keyless_def truthy_int_def)

lemma ebind_cong_returns:
  assumes "returns P f" "\<And>a. P a \<Longrightarrow> g a = h a"
  shows "ebind f g = ebind f h"
proof
  fix w
  obtain r w' where "f w = (r, w')" by fastforce
  with assms(1) assms(2) show "ebind f g w = ebind f h w"
    by (cases r) (simp_all add: ebind_def returnsD)
qed

lemma run_cong_keyless:
  assumes "stage_contract same_request sv sts" "sv_enabled sv' = sv_enabled sv"
    and "\<And>st c. st \<in> set sts \<Longrightarrow> keyless c \<Longrightarrow> se_call st sv' c = se_call st sv c"
    and "keyless ctx"
  shows "run_pipeline sv' sts ctx = run_pipeline sv sts ctx"
proof -
  have "run_pipeline sv' sts' ctx = run_pipeline sv sts' ctx" if "set sts' \<subseteq> set sts" for sts'
    using that assms(4)
  proof (induction sts' arbitrary: ctx)
    case (Cons st sts')
    then have st: "st \<in> set sts" by simp
    note same = assms(3) [OF st Cons.prems(2)]
    have "run_stage sv' st ctx = run_stage sv st ctx"
      unfolding run_stage_def stage_enabled_def assms(2) same ..
    moreover have "ebind (run_stage sv st ctx) (run_pipeline sv' sts') =
        ebind (run_stage sv st ctx) (run_pipeline sv sts')"
    proof (rule ebind_cong_returns [OF stage_contract.stage [OF assms(1) st]])
      fix c assume "same_request ctx c"
      with Cons.prems have "keyless c" by (simp add: keyless_def same_request_def)
      then show "run_pipeline sv' sts' c = run_pipeline sv sts' c"
        using Cons by simp
    qed
    ultimately show ?case by simp
  qed simp
  then show ?thesis by simp
qed

lemma proxy_stages_contract:
  assumes "memory_keeps same_request mem"
  shows "stage_contract same_request sv (proxy_stages mem)"
  using assms intake.step planning.step delivery.step
  by (intro stage_contract_same_request)
    (auto simp: proxy_stages_def memory_entries_def entry_def memory_keeps_def)

lemma relimit_run:
  assumes "memory_keeps same_request mem" "keyless ctx"
  shows "run_pipeline (relimit a b c sv) (proxy_stages mem) ctx = run_pipeline sv (proxy_stages mem) ctx"
proof (rule run_cong_keyless [OF proxy_stages_contract [OF assms(1)] _ _ assms(2)])
  fix st and d :: pctx
  assume "st \<in> set (proxy_stages mem)" "keyless d"
  then show "se_call st (relimit a b c sv) d = se_call st sv d"
    by (auto simp: proxy_stages_def intake_entries_def memory_entries_def planning_entries_def
        delivery_entries_def entry_def keyless_budget keyless_meter auth_stage_def)
qed simp

text \<open>
  C14. Requests are neither limited nor metered: for every user the handlers serve, the answer and
  all effects are the same whatever the token limiter grants or refuses, and nothing is recorded
  with the metering buffer, because a user context has no virtual key.
\<close>

theorem handlers_ignore_limits:
  assumes "memory_keeps same_request (gw_memory gw)"
  shows "chat_completions (gw\<lparr>gw_services := relimit a b c (gw_services gw)\<rparr>) rq =
      chat_completions gw rq \<and>
    claude_messages (gw\<lparr>gw_services := relimit a b c (gw_services gw)\<rparr>) rq = claude_messages gw rq"
proof -
  let ?gw = "gw\<lparr>gw_services := relimit a b c (gw_services gw)\<rparr>"
  have defaults: "first_default ?gw srcs = first_default gw srcs" for srcs
  proof (induction srcs)
    case (Cons p srcs)
    obtain src i where p: "p = (src, i)" by fastforce
    show ?case unfolding p first_default.simps Cons.IH by simp
  qed simp
  have "keyless (request_context wr rq m ms)" for wr m ms
    by (simp add: keyless_def request_context_def new_context_def user_of_context_def)
  note run = relimit_run [OF assms this]
  have sel: "gw_services ?gw = relimit a b c (gw_services gw)" "gw_memory ?gw = gw_memory gw"
    "gw_enhance ?gw = gw_enhance gw" "gw_process_usage ?gw = gw_process_usage gw"
    "gw_add_turn ?gw = gw_add_turn gw" "gw_write_back ?gw = gw_write_back gw"
    by simp_all
  have written: "maybe_write_back ?gw ctx d u = maybe_write_back gw ctx d u" for ctx d u
    unfolding maybe_write_back_def sel ..
  have answered: "answer wr ?gw rq m ms ctx = answer wr gw rq m ms ctx" for wr m ms ctx
    unfolding answer_def sel relimit_sel written ..
  have served: "serve wr ?gw rq m fb = serve wr gw rq m fb" for wr m fb
    unfolding serve_def determine_target_model_def defaults sel run answered ..
  show ?thesis
    unfolding chat_completions_def claude_messages_def served by simp
qed

section \<open>The cache\<close>

definition cacheable :: "pctx \<Rightarrow> bool" where
  "cacheable ctx \<longleftrightarrow> \<not> cx_blocked ctx \<and> \<not> cx_cache_hit ctx \<and> cx_write_back ctx \<noteq> None"

lemma answer_writes:
  assumes "\<not> cacheable ctx"
  shows "(if cx_blocked ctx then f else answer wr (gw\<lparr>gw_write_back := g\<rparr>) rq m ms ctx) =
    (if cx_blocked ctx then f else answer wr gw rq m ms ctx)"
proof (cases "cx_blocked ctx")
  case False
  with assms have written: "maybe_write_back (gw\<lparr>gw_write_back := g\<rparr>) ctx d u =
      maybe_write_back gw ctx d u" for d u
    by (auto simp: maybe_write_back_def cacheable_def split: option.split)
  have sel: "gw_services (gw\<lparr>gw_write_back := g\<rparr>) = gw_services gw"
    "gw_process_usage (gw\<lparr>gw_write_back := g\<rparr>) = gw_process_usage gw"
    "gw_add_turn (gw\<lparr>gw_write_back := g\<rparr>) = gw_add_turn gw"
    by simp_all
  show ?thesis unfolding answer_def sel written ..
qed simp

lemma serve_writes:
  assumes "\<And>m ms. returns (\<lambda>ctx. \<not> cacheable ctx)
      (run_pipeline (gw_services gw) (proxy_stages (gw_memory gw)) (request_context wr rq m ms))"
  shows "serve wr (gw\<lparr>gw_write_back := g\<rparr>) rq m fb = serve wr gw rq m fb"
proof -
  let ?gw = "gw\<lparr>gw_write_back := g\<rparr>"
  have defaults: "first_default ?gw srcs = first_default gw srcs" for srcs
  proof (induction srcs)
    case (Cons p srcs)
    obtain src i where p: "p = (src, i)" by fastforce
    show ?case unfolding p first_default.simps Cons.IH by simp
  qed simp
  have sel: "gw_services ?gw = gw_services gw" "gw_memory ?gw = gw_memory gw"
    "gw_enhance ?gw = gw_enhance gw"
    by simp_all
  have ans: "ebind (run_pipeline (gw_services gw) (proxy_stages (gw_memory gw))
        (request_context wr rq model enhanced)) (\<lambda>ctx.
        if cx_blocked ctx then eret (blocked_reply wr ctx)
        else answer wr ?gw rq model messages ctx) =
      ebind (run_pipeline (gw_services gw) (proxy_stages (gw_memory gw))
        (request_context wr rq model enhanced)) (\<lambda>ctx.
        if cx_blocked ctx then eret (blocked_reply wr ctx)
        else answer wr gw rq model messages ctx)" for model enhanced messages
    by (rule ebind_cong_returns [OF assms]) (rule answer_writes)
  show ?thesis
    unfolding serve_def determine_target_model_def defaults sel Let_def ans ..
qed


section \<open>Cached answers\<close>

abbreviation extra_block :: "dict option \<Rightarrow> dict" where
  "extra_block extra \<equiv> (case extra of None \<Rightarrow> [] | Some d \<Rightarrow> [(''waddleai'', JDict d)])"

lemma use_cached_reads:
  assumes "extract_cached_text (cr_response cached) (cx_response_format ctx) = Inr (s, finish)"
    and "jget_null (cr_response cached) ''usage'' = JDict (p # ps)"
    and "cached_total_tokens (p # ps) = Inr n"
  shows "\<exists>ctx'. use_cached sv status cached ctx = Inr ctx' \<and> cx_cache_hit ctx' \<and>
    cx_response_text ctx' = s \<and> cx_finish_reason ctx' = finish \<and> cx_tokens_saved ctx' = n \<and>
    cx_usage ctx' = Some (p # ps)"
  using assms by (simp add: use_cached_def json_or_def)

lemma chat_body_read:
  assumes "chat_body now t model finish u (JInt a) (JInt b) n = Inr (parts, ub)"
  shows "extract_cached_text (response_dict parts ub extra) ''openai'' = Inr (t, finish)"
    and "jget_null (response_dict parts ub extra) ''usage'' = JDict (ub @ extra_block extra)"
    and "cached_total_tokens (ub @ extra_block extra) = Inr (a + b)"
    and "ub = (''prompt_tokens'', JInt a) # tl ub"
    and "usage_tokens (ub @ extra_block extra) ''input_tokens'' = JInt 0"
  using assms
  by (auto simp: chat_body_def extract_cached_text_def response_dict_def cached_total_tokens_def
      usage_tokens_def jget_def jget_null_def jget_or_def json_or_def usage_int_def
      nullable_text_def as_text_def split: option.split)

lemma claude_body_read:
  assumes "claude_body now t model finish u (JInt a) (JInt b) n = Inr (parts, ub)"
  shows "extract_cached_text (response_dict parts ub extra) ''anthropic'' = Inr (t, finish)"
    and "jget_null (response_dict parts ub extra) ''usage'' = JDict (ub @ extra_block extra)"
    and "cached_total_tokens (ub @ extra_block extra) = Inr (a + b)"
    and "ub = (''input_tokens'', JInt a) # tl ub"
    and "usage_tokens (ub @ extra_block extra) ''input_tokens'' = JInt a"
  using assms
  by (auto simp: claude_body_def extract_cached_text_def response_dict_def cached_total_tokens_def
      usage_tokens_def jget_def jget_null_def jget_or_def json_or_def usage_int_def
      nullable_text_def as_text_def split: option.split)

lemma wire_body_read:
  assumes "wr \<in> {chat_wire, claude_wire}"
    and "wr_body wr now t model finish u (JInt a) (JInt b) n = Inr (parts, ub)"
  shows "extract_cached_text (response_dict parts ub extra) (wr_format wr) = Inr (t, finish)"
    and "jget_null (response_dict parts ub extra) ''usage'' = JDict (ub @ extra_block extra)"
    and "cached_total_tokens (ub @ extra_block extra) = Inr (a + b)"
    and "ub \<noteq> []"
  using assms chat_body_read [of now t model finish u a b n parts ub]
    claude_body_read [of now t model finish u a b n parts ub]
  by (auto simp: chat_wire_def claude_wire_def)

lemma use_cached_answer:
  assumes "wr \<in> {chat_wire, claude_wire}" "cx_response_format ctx = wr_format wr"
    and "wr_body wr now response_text model finish u (JInt a) (JInt b) n = Inr (parts, ub)"
    and "cr_response cached = response_dict parts ub extra"
  shows "\<exists>ctx'. use_cached sv status cached ctx = Inr ctx' \<and> cx_cache_hit ctx' \<and>
    cx_response_text ctx' = response_text \<and> cx_finish_reason ctx' = finish \<and>
    cx_tokens_saved ctx' = a + b \<and> cx_usage ctx' = Some (ub @ extra_block extra)"
proof -
  obtain p ps where ub: "ub = p # ps" using wire_body_read(4) [OF assms(1,3)] by (cases ub) auto
  show ?thesis
    unfolding ub append_Cons
  proof (rule use_cached_reads)
    show "extract_cached_text (cr_response cached) (cx_response_format ctx) =
        Inr (response_text, finish)"
      unfolding assms(2,4) by (rule wire_body_read(1) [OF assms(1,3)])
    show "jget_null (cr_response cached) ''usage'' = JDict (p # (ps @ extra_block extra))"
      using wire_body_read(2) [OF assms(1,3)] unfolding assms(4) ub by simp
    show "cached_total_tokens (p # (ps @ extra_block extra)) = Inr (a + b)"
      using wire_body_read(3) [OF assms(1,3)] unfolding ub by simp
  qed
qed

text \<open>
  C13. A cached answer is the answer that was cached: what a handler writes back, read by the cache
  stage for a later request of the same format, has the text, the reason it finished and the
  token total it was made with.
\<close>

theorem cached_answer_returns:
  assumes "wr \<in> {chat_wire, claude_wire}" "cx_response_format ctx = wr_format wr"
    and "wr_body wr now response_text model finish u (JInt a) (JInt b) n = Inr (parts, ub)"
    and "cr_response cached = response_dict parts ub extra"
  shows "\<exists>ctx'. use_cached sv status cached ctx = Inr ctx' \<and> cx_cache_hit ctx' \<and>
    cx_response_text ctx' = response_text \<and> cx_finish_reason ctx' = finish \<and>
    cx_tokens_saved ctx' = a + b"
  using use_cached_answer [OF assms] by blast

text \<open>
  A chat completion answered from the cache is reported and charged with no tokens: the cached
  usage has the names of the wire format, and the handler reads those of the pipeline. The
  Messages format, whose names are those of the pipeline, keeps its counts.
\<close>

theorem cached_chat_counts_nothing:
  assumes "wr \<in> {chat_wire, claude_wire}" "cx_response_format ctx = wr_format wr"
    and "wr_body wr now response_text model finish u (JInt a) (JInt b) n = Inr (parts, ub)"
    and "cr_response cached = response_dict parts ub extra"
  shows "\<exists>ctx' usage. use_cached sv status cached ctx = Inr ctx' \<and> cx_usage ctx' = Some usage \<and>
    usage_tokens usage ''input_tokens'' = JInt (if wr_format wr = ''openai'' then 0 else a)"
proof -
  have "usage_tokens (ub @ extra_block extra) ''input_tokens'' =
      JInt (if wr_format wr = ''openai'' then 0 else a)"
    using assms(1,3) chat_body_read(5) claude_body_read(5)
    by (auto simp: chat_wire_def claude_wire_def)
  with use_cached_answer [OF assms, of sv status] show ?thesis by blast
qed

section \<open>Instances\<close>

definition demo_user :: user_context where
  "demo_user = \<lparr>uc_user_id = 1, uc_username = JStr ''ann'', uc_role = USER,
     uc_organization_id = 3, uc_managed_orgs = [], uc_permissions = [], uc_api_key_id = None\<rparr>"

definition demo_request :: gateway_request where
  "demo_request = \<lparr>gr_user = demo_user, gr_body = [(''model'', JStr ''gpt-4o''),
     (''messages'', JList [JDict [(''role'', JStr ''user''), (''content'', JStr ''hi'')]])],
     gr_preferred_model = None, gr_waddle_session = None, gr_session_header = None,
     gr_tool_type = None, gr_escalate = None\<rparr>"

text \<open>A gateway whose state counts the write-backs; every lookup misses and offers one.\<close>

definition demo_gateway :: "nat gateway" where
  "demo_gateway = \<lparr>gw_services = demo_services\<lparr>sv_enabled := \<lambda>f d s. f = RESPONSE_CACHE_FLAG,
       sv_lookup := \<lambda>rq s. (Inr (miss (Some [])), s)\<rparr>,
     gw_memory = no_memory, gw_default_model = \<lambda>src i s. (Inr None, s),
     gw_enhance = \<lambda>u org ms sid s. (Inr ms, s), gw_process_usage = \<lambda>c s. (Inr 1, s),
     gw_add_turn = \<lambda>ms t sid s. ((), s), gw_write_back = \<lambda>ws d u s. ((), Suc s)\<rparr>"

definition demo_state :: "nat world" where
  "demo_state = \<lparr>wd_state = 0, wd_calls = []\<rparr>"

definition no_gate :: "int \<Rightarrow> int \<Rightarrow> rat \<Rightarrow> key_limits \<Rightarrow> nat \<Rightarrow> gate_decision \<times> nat" where
  "no_gate vkey n usd limits s = (open_gate\<lparr>gd_allowed := False\<rparr>, s)"


lemma demo_gateway_ok:
  "production (gw_services demo_gateway)" "memory_keeps same_request (gw_memory demo_gateway)"
  by (simp_all add: production_def demo_gateway_def demo_services_def no_memory_keeps)

lemma demo_chat_reply:
  "\<exists>d. chat_completions demo_gateway demo_request demo_state =
     (Inr (Reply 200 d), \<lparr>wd_state = 1,
        wd_calls = [(''openai'', [JDict [(''role'', JStr ''user''), (''content'', JStr ''hi'')]], ''gpt-4o'')]\<rparr>)"
proof -
  have "(case chat_completions demo_gateway demo_request demo_state of
      (r, w) \<Rightarrow> (case r of Inl e \<Rightarrow> False | Inr (Reply c d) \<Rightarrow> c = 200 \<and> w = \<lparr>wd_state = 1,
        wd_calls = [(''openai'', [JDict [(''role'', JStr ''user''), (''content'', JStr ''hi'')]], ''gpt-4o'')]\<rparr>))"
    by code_simp
  then show ?thesis by (auto split: prod.splits sum.splits reply.splits)
qed

lemma demo_chat_unwritten:
  "wd_state (snd (chat_completions (demo_gateway\<lparr>gw_write_back := \<lambda>ws d u s. ((), s)\<rparr>) demo_request
     demo_state)) = 0"
  by code_simp

text \<open>A chat completion is answered although every reservation is refused.\<close>

theorem handlers_ignore_limits_witness:
  "\<exists>d w. chat_completions (demo_gateway\<lparr>gw_services :=
      relimit no_gate (\<lambda>r n usd s. ((), s)) (\<lambda>e s. ((), s)) (gw_services demo_gateway)\<rparr>)
      demo_request demo_state = (Inr (Reply 200 d), w)"
  using handlers_ignore_limits [OF demo_gateway_ok(2)] demo_chat_reply by fastforce


definition cached_as :: "dict \<Rightarrow> cached_response" where
  "cached_as d = \<lparr>cr_response = d, cr_usage = JNull, cr_stored_at = 0\<rparr>"

lemma demo_chat_body:
  "\<exists>parts ub. wr_body chat_wire 0 ''hello'' None JNull [] (JInt 3) (JInt 4) 0 = Inr (parts, ub)"
  by (simp add: chat_wire_def chat_body_def)

theorem cached_answer_returns_witness:
  "\<exists>parts ub ctx'. use_cached (demo_services :: unit services) ''exact''
      (cached_as (response_dict parts ub None)) demo_chat = Inr ctx' \<and>
    cx_response_text ctx' = ''hello'' \<and> cx_tokens_saved ctx' = 7"
proof -
  obtain parts ub where
    body: "wr_body chat_wire 0 ''hello'' None JNull [] (JInt 3) (JInt 4) 0 = Inr (parts, ub)"
    using demo_chat_body by blast
  have "cx_response_format demo_chat = wr_format chat_wire"
    by (simp add: demo_chat_def new_context_def chat_wire_def)
  from cached_answer_returns [OF _ this body, of "cached_as (response_dict parts ub None)" None
      "demo_services :: unit services" "''exact''"] show ?thesis
    by (auto simp: cached_as_def)
qed

theorem cached_chat_counts_nothing_witness:
  "\<exists>parts ub ctx' usage. use_cached (demo_services :: unit services) ''exact''
      (cached_as (response_dict parts ub None)) demo_chat = Inr ctx' \<and>
    cx_usage ctx' = Some usage \<and> usage_tokens usage ''input_tokens'' = JInt 0"
proof -
  obtain parts ub where
    body: "wr_body chat_wire 0 ''hello'' None JNull [] (JInt 3) (JInt 4) 0 = Inr (parts, ub)"
    using demo_chat_body by blast
  have "cx_response_format demo_chat = wr_format chat_wire"
    by (simp add: demo_chat_def new_context_def chat_wire_def)
  from cached_chat_counts_nothing [OF _ this body, of "cached_as (response_dict parts ub None)" None
      "demo_services :: unit services" "''exact''"] show ?thesis
    by (auto simp: cached_as_def chat_wire_def)
qed

end
