(* ===== verification/Scratchpad.thy ===== *)
theory Scratchpad
  imports Provenance
begin

text \<open>
  The session scratchpad (\<open>shared/memory/scratchpad.py\<close>) and its tool handlers
  (\<open>shared/memory/scratchpad_tools.py\<close>): a store with a hot tier on the Valkey server and a
  durable table. A statement to the database succeeds; a command to the server may raise.
\<close>

section \<open>State\<close>

record pad_scope =
  sc_org :: int
  sc_session :: string
  sc_user :: int

record pad_row =
  pw_scope :: pad_scope
  pw_key :: string
  pw_value :: string
  pw_status :: string
  pw_expires_at :: "int option"
  pw_updated_at :: int
  pw_version :: int

record 's pad_state =
  ps_server :: 's
  ps_rows :: "pad_row list"

record pad_limits =
  pl_max_value_kb :: nat
  pl_max_keys :: nat

definition default_limits :: pad_limits where
  "default_limits = \<lparr>pl_max_value_kb = 256, pl_max_keys = 128\<rparr>"

definition DEFAULT_TTL_SECONDS :: nat where
  "DEFAULT_TTL_SECONDS = 86400"

datatype pad_error = ValueTooLarge nat nat | KeyLimitExceeded nat nat

record put_result =
  pr_ok :: bool
  pr_quarantined :: bool
  pr_reasons :: "string list"

record key_info =
  ki_key :: string
  ki_size_bytes :: nat
  ki_updated_at :: int

text \<open>
  What the store is built with, the length of a text in UTF-8, \<open>repr\<close> of a text, the collation of
  the database as a place among the rationals, and whether the driver returns the times of the
  table with a time zone: its column has none, and Python refuses to compare a time without one
  to \<open>datetime.now(UTC)\<close>.
\<close>

record 's pad_env =
  pe_valkey :: "'s valkey option"
  pe_guard :: guard
  pe_ttl :: nat
  pe_utf8 :: "string \<Rightarrow> nat"
  pe_repr :: "string \<Rightarrow> string"
  pe_aware :: bool
  pe_collate :: "string \<Rightarrow> rat"

section \<open>The table\<close>

definition select_row :: "pad_scope \<Rightarrow> string \<Rightarrow> pad_row list \<Rightarrow> pad_row option" where
  "select_row sc key rows = List.find (\<lambda>r. pw_scope r = sc \<and> pw_key r = key) rows"

definition active_rows :: "pad_scope \<Rightarrow> pad_row list \<Rightarrow> pad_row list" where
  "active_rows sc rows = filter (\<lambda>r. pw_scope r = sc \<and> pw_status r = ''active'') rows"

definition count_active_keys :: "pad_scope \<Rightarrow> pad_row list \<Rightarrow> nat" where
  "count_active_keys sc rows = length (active_rows sc rows)"

definition upsert_row ::
    "int \<Rightarrow> pad_scope \<Rightarrow> string \<Rightarrow> string \<Rightarrow> string \<Rightarrow> int \<Rightarrow> pad_row list \<Rightarrow> pad_row list" where
  "upsert_row now sc key v status expires rows =
     (if select_row sc key rows = None
      then rows @ [\<lparr>pw_scope = sc, pw_key = key, pw_value = v, pw_status = status,
        pw_expires_at = Some expires, pw_updated_at = now, pw_version = 1\<rparr>]
      else map (\<lambda>r. if pw_scope r = sc \<and> pw_key r = key
        then r\<lparr>pw_value := v, pw_status := status, pw_expires_at := Some expires,
          pw_updated_at := now, pw_version := pw_version r + 1\<rparr> else r) rows)"

definition delete_row :: "pad_scope \<Rightarrow> string \<Rightarrow> pad_row list \<Rightarrow> pad_row list" where
  "delete_row sc key rows = filter (\<lambda>r. \<not> (pw_scope r = sc \<and> pw_key r = key)) rows"

section \<open>Operations\<close>

definition pad_valkey_key :: "pad_scope \<Rightarrow> string \<Rightarrow> string" where
  "pad_valkey_key sc key = ''waddleai:sp:'' @ str_int (sc_org sc) @ '':'' @ sc_session sc @ '':'' @
     str_int (sc_user sc) @ '':'' @ key"

definition on_server ::
    "'s pad_env \<Rightarrow> ('s valkey \<Rightarrow> ('s, 'a) script) \<Rightarrow> ('s pad_state, 'a) script" where
  "on_server env f st = (case pe_valkey env of
     None \<Rightarrow> (Raised, st)
   | Some vk \<Rightarrow> (let (r, s) = f vk (ps_server st) in (r, st\<lparr>ps_server := s\<rparr>)))"

definition on_rows :: "(pad_row list \<Rightarrow> 'a \<times> pad_row list) \<Rightarrow> ('s pad_state, 'a) script" where
  "on_rows f st = (let (a, rows) = f (ps_rows st) in (Ok a, st\<lparr>ps_rows := rows\<rparr>))"

text \<open>The client decodes replies: what it gets of a stored text is that text.\<close>

fun blob_text :: "blob \<Rightarrow> string option" where
  "blob_text (RawText s) = Some s"
| "blob_text (JsonText j) = None"

definition pad_put ::
    "'s pad_env \<Rightarrow> int \<Rightarrow> pad_limits \<Rightarrow> pad_scope \<Rightarrow> string \<Rightarrow> string \<Rightarrow>
     ('s pad_state, pad_error + put_result) script" where
  "pad_put env now limits sc key v =
     (let size_bytes = pe_utf8 env v; vkey = pad_valkey_key sc key in
      if pl_max_value_kb limits * 1024 < size_bytes
      then sret (Inl (ValueTooLarge size_bytes (pl_max_value_kb limits)))
      else
        sbind (on_rows (\<lambda>rows. (select_row sc key rows, rows))) (\<lambda>existing.
        sbind (on_rows (\<lambda>rows. (count_active_keys sc rows, rows))) (\<lambda>current.
          if existing = None \<and> pl_max_keys limits \<le> current
          then sret (Inl (KeyLimitExceeded current (pl_max_keys limits)))
          else
            (case filter_on_write (pe_guard env) (Some (sc_org sc)) v of
               Inl _ \<Rightarrow> sraise
             | Inr verdict \<Rightarrow>
                 (let status = (if wv_quarantine verdict then ''quarantined'' else ''active'');
                      expires_at = now + seconds (pe_ttl env);
                      s = wv_filtered_text verdict
                  in
                   sbind (on_rows (\<lambda>rows. ((), upsert_row now sc key s status expires_at rows))) (\<lambda>_.
                   sbind (on_server env (\<lambda>vk. command (\<lambda>st.
                       if status = ''active''
                       then vk_set vk now st vkey (RawText s) (Some (pe_ttl env))
                       else vk_del vk now st [vkey]))) (\<lambda>_.
                     sret (Inr \<lparr>pr_ok = (status = ''active''),
                       pr_quarantined = (status = ''quarantined''),
                       pr_reasons = wv_reasons verdict\<rparr>))))))))"

definition pad_get ::
    "'s pad_env \<Rightarrow> int \<Rightarrow> pad_scope \<Rightarrow> string \<Rightarrow> ('s pad_state, string option) script" where
  "pad_get env now sc key =
     (let vkey = pad_valkey_key sc key in
      sbind (on_server env (\<lambda>vk. query (\<lambda>st. vk_get vk now st vkey))) (\<lambda>cached.
        case cached of
          Some b \<Rightarrow> (case blob_text b of Some s \<Rightarrow> sret (Some s) | None \<Rightarrow> sraise)
        | None \<Rightarrow>
            sbind (on_rows (\<lambda>rows. (select_row sc key rows, rows))) (\<lambda>row.
              case row of
                None \<Rightarrow> sret None
              | Some r \<Rightarrow>
                  if pw_status r \<noteq> ''active'' then sret None
                  else
                    (case pw_expires_at r of
                       Some e \<Rightarrow>
                         if \<not> pe_aware env then sraise
                         else if e < now then sret None
                         else sbind (on_server env (\<lambda>vk. command (\<lambda>st.
                             vk_set vk now st vkey (RawText (pw_value r)) (Some (pe_ttl env)))))
                           (\<lambda>_. sret (Some (pw_value r)))
                     | None \<Rightarrow> sbind (on_server env (\<lambda>vk. command (\<lambda>st.
                             vk_set vk now st vkey (RawText (pw_value r)) (Some (pe_ttl env)))))
                           (\<lambda>_. sret (Some (pw_value r)))))))"

definition pad_list :: "'s pad_env \<Rightarrow> pad_scope \<Rightarrow> ('s pad_state, key_info list) script" where
  "pad_list env sc = on_rows (\<lambda>rows.
     (map (\<lambda>r. \<lparr>ki_key = pw_key r, ki_size_bytes = pe_utf8 env (pw_value r),
        ki_updated_at = pw_updated_at r\<rparr>) (sort_key (\<lambda>r. pe_collate env (pw_key r)) (active_rows sc rows)), rows))"

definition pad_delete :: "'s pad_env \<Rightarrow> int \<Rightarrow> pad_scope \<Rightarrow> string \<Rightarrow> ('s pad_state, bool) script" where
  "pad_delete env now sc key =
     sbind (on_server env (\<lambda>vk. command (\<lambda>st. vk_del vk now st [pad_valkey_key sc key]))) (\<lambda>_.
       on_rows (\<lambda>rows. (select_row sc key rows \<noteq> None, delete_row sc key rows)))"


section \<open>Tools\<close>

text \<open>
  The handlers take the identity from the caller's context, never from the arguments. A key or
  a value that is no text raises.
\<close>

definition tool_error :: "string \<Rightarrow> string \<Rightarrow> dict" where
  "tool_error kind msg =
     [(''error'', JDict [(''type'', JStr kind), (''message'', JStr msg)])]"

fun pad_error_text :: "pad_error \<Rightarrow> string" where
  "pad_error_text (ValueTooLarge n k) =
     ''value is '' @ str_nat n @ '' bytes, exceeds max_value_kb='' @ str_nat k"
| "pad_error_text (KeyLimitExceeded n k) =
     ''session already has '' @ str_nat n @ '' keys, exceeds max_keys='' @ str_nat k"

definition pad_disabled :: dict where
  "pad_disabled = tool_error ''feature_disabled'' ''scratchpad is disabled for this key''"

definition tool_text :: "json \<Rightarrow> ('s, string) script" where
  "tool_text j = (case j of JStr s \<Rightarrow> sret s | _ \<Rightarrow> sraise)"

definition scratchpad_put ::
    "'s pad_env \<Rightarrow> int \<Rightarrow> proxy_memory_config \<Rightarrow> pad_scope \<Rightarrow> dict \<Rightarrow> ('s pad_state, dict) script" where
  "scratchpad_put env now cfg sc arguments =
     (if \<not> pm_scratchpad_enabled cfg then sret pad_disabled
      else
        (let key = jget_null arguments ''key''; v = jget_null arguments ''value'' in
         if \<not> json_truthy key \<or> v = JNull
         then sret (tool_error ''invalid_arguments'' ''key and value are required'')
         else
           sbind (tool_text key) (\<lambda>k.
           sbind (tool_text v) (\<lambda>s.
           sbind (pad_put env now default_limits sc k s) (\<lambda>r.
             case r of
               Inl e \<Rightarrow> sret (tool_error ''limit_exceeded'' (pad_error_text e))
             | Inr res \<Rightarrow>
                 if pr_quarantined res
                 then sret [(''quarantined'', JBool True), (''message'',
                   JStr ''value was quarantined by security filtering and not stored'')]
                 else sret [(''ok'', JBool True), (''key'', key)])))))"

definition scratchpad_get ::
    "'s pad_env \<Rightarrow> int \<Rightarrow> proxy_memory_config \<Rightarrow> pad_scope \<Rightarrow> dict \<Rightarrow> ('s pad_state, dict) script" where
  "scratchpad_get env now cfg sc arguments =
     (if \<not> pm_scratchpad_enabled cfg then sret pad_disabled
      else
        (let key = jget_null arguments ''key'' in
         if \<not> json_truthy key then sret (tool_error ''invalid_arguments'' ''key is required'')
         else
           sbind (tool_text key) (\<lambda>k.
           sbind (pad_get env now sc k) (\<lambda>r.
             case r of
               None \<Rightarrow> sret (tool_error ''not_found'' (''no scratchpad value for key '' @ pe_repr env k))
             | Some v \<Rightarrow> sret [(''key'', key), (''value'', JStr v)]))))"

definition scratchpad_list ::
    "'s pad_env \<Rightarrow> proxy_memory_config \<Rightarrow> pad_scope \<Rightarrow> ('s pad_state, dict) script" where
  "scratchpad_list env cfg sc =
     (if \<not> pm_scratchpad_enabled cfg then sret pad_disabled
      else
        sbind (pad_list env sc) (\<lambda>infos. sret [(''keys'', JList (map (\<lambda>i. JDict
          [(''key'', JStr (ki_key i)), (''size_bytes'', JInt (int (ki_size_bytes i))),
           (''updated_at'', JStr (gd_isoformat (pe_guard env) (ki_updated_at i)))]) infos))]))"

end
