(* ===== verification/CacheAside.thy ===== *)
theory CacheAside
  imports Upstream
begin

text \<open>
  The pattern the memory caches share: read the server, and on a miss compute and write. With
  the cache of token counts (\<open>shared/memory/token_len_cache.py\<close>) and the cache of retrieval
  results (\<open>shared/memory/retrieval_cache.py\<close>). Unlike the read-through caches of the resolvers, a
  command that fails raises.
\<close>

section \<open>The pattern\<close>

definition cache_aside ::
    "('v \<Rightarrow> blob) \<Rightarrow> (blob \<Rightarrow> 'v option) \<Rightarrow> 's valkey \<Rightarrow> int \<Rightarrow> string \<Rightarrow> nat \<Rightarrow> ('s, 'v) script \<Rightarrow>
     ('s, 'v) script" where
  "cache_aside enc dec vk t key ttl compute =
     sbind (query (\<lambda>s. vk_get vk t s key)) (\<lambda>cached.
       case cached of
         Some b \<Rightarrow> (case dec b of Some v \<Rightarrow> sret v | None \<Rightarrow> sraise)
       | None \<Rightarrow> sbind compute (\<lambda>v.
           sbind (command (\<lambda>s. vk_set vk t s key (enc v) (Some ttl))) (\<lambda>_. sret v)))"

text \<open>Whatever the server still holds under a key is the value, now and later.\<close>

definition agrees :: "(blob \<Rightarrow> 'v option) \<Rightarrow> 's valkey \<Rightarrow> int \<Rightarrow> 's \<Rightarrow> string \<Rightarrow> 'v \<Rightarrow> bool" where
  "agrees dec vk t s key v \<longleftrightarrow>
     (\<forall>t' b. t \<le> t' \<longrightarrow> vk_get vk t' s key = Ok (Some b) \<longrightarrow> dec b = Some v)"

lemma agreesD: "agrees dec vk t s key v \<Longrightarrow> vk_get vk t s key = Ok (Some b) \<Longrightarrow> dec b = Some v"
  unfolding agrees_def by blast

lemma agrees_later: "agrees dec vk t s key v \<Longrightarrow> t \<le> t' \<Longrightarrow> agrees dec vk t' s key v"
  unfolding agrees_def by (meson order_trans)

text \<open>The interface of a cached value: what is written is read back.\<close>

locale blob_codec =
  fixes enc :: "'v \<Rightarrow> blob" and dec :: "blob \<Rightarrow> 'v option"
  assumes dec_enc: "dec (enc v) = Some v"
begin

lemma agrees_set:
  assumes "valkey_laws vk" "vk_set vk t s key (enc v) ex = Ok s'"
  shows "agrees dec vk t s' key v"
  using valkey_get_set [OF assms] by (auto simp: agrees_def dec_enc split: if_splits)

lemma agrees_set_other:
  assumes "valkey_laws vk" "vk_set vk t s key b ex = Ok s'" "agrees dec vk t s key' v" "key' \<noteq> key"
  shows "agrees dec vk t s' key' v"
  using valkey_get_set [OF assms(1,2)] assms(3,4) by (auto simp: agrees_def)

text \<open>
  A memo: when the server agrees with a function at every key of a family, a run at one of them
  raises or returns the value of the function there, and the server agrees afterwards.
\<close>

lemma memo_run:
  assumes laws: "valkey_laws vk"
    and agree: "\<And>x. x \<in> X \<Longrightarrow> agrees dec vk t s (key x) (f x)"
    and respects: "\<And>x y. x \<in> X \<Longrightarrow> y \<in> X \<Longrightarrow> key x = key y \<Longrightarrow> f x = f y"
    and compute: "\<And>s r s'. c s = (r, s') \<Longrightarrow> s' = s \<and> (r = Raised \<or> r = Ok (f x))"
    and x: "x \<in> X" and run: "cache_aside enc dec vk t (key x) ttl c s = (r, s')"
  shows "(r = Raised \<or> r = Ok (f x)) \<and> (\<forall>y\<in>X. agrees dec vk t s' (key y) (f y))"
proof -
  have unchanged: "s' = s \<and> (r = Raised \<or> r = Ok (f x)) \<or>
      (\<exists>s1. vk_set vk t s (key x) (enc (f x)) (Some ttl) = Ok s1 \<and> s' = s1 \<and> r = Ok (f x))"
  proof (cases "vk_get vk t s (key x)")
    case Raised
    with run show ?thesis by (simp add: cache_aside_def script_simps)
  next
    case (Ok cached)
    show ?thesis
    proof (cases cached)
      case None
      obtain rc sc where "c s = (rc, sc)" by fastforce
      moreover from compute [OF this] have "sc = s" "rc = Raised \<or> rc = Ok (f x)" by auto
      ultimately show ?thesis
        using run Ok None by (auto simp: cache_aside_def script_simps split: reply.splits)
    next
      case (Some b)
      with agreesD [OF agree [OF x]] Ok have "dec b = Some (f x)" by blast
      with run Ok Some show ?thesis by (simp add: cache_aside_def script_simps)
    qed
  qed
  then show ?thesis
  proof
    assume "s' = s \<and> (r = Raised \<or> r = Ok (f x))"
    with agree show ?thesis by auto
  next
    assume "\<exists>s1. vk_set vk t s (key x) (enc (f x)) (Some ttl) = Ok s1 \<and> s' = s1 \<and> r = Ok (f x)"
    then have set: "vk_set vk t s (key x) (enc (f x)) (Some ttl) = Ok s'" and r: "r = Ok (f x)" by auto
    have "agrees dec vk t s' (key y) (f y)" if y: "y \<in> X" for y
    proof (cases "key y = key x")
      case True
      with respects [OF y x] agrees_set [OF laws set] show ?thesis by simp
    next
      case False
      with agrees_set_other [OF laws set agree [OF y]] show ?thesis by blast
    qed
    with r show ?thesis by blast
  qed
qed

end

section \<open>Token counts\<close>

definition TOKEN_LEN_TTL :: nat where
  "TOKEN_LEN_TTL = 604800"

definition count_enc :: "int \<Rightarrow> blob" where
  "count_enc n = RawText (str_int n)"

fun count_dec :: "blob \<Rightarrow> int option" where
  "count_dec (RawText s) = (case int_of_str s of Inr n \<Rightarrow> Some n | Inl _ \<Rightarrow> None)"
| "count_dec (JsonText j) = None"

interpretation token_counts: blob_codec count_enc count_dec
  by unfold_locales (simp add: count_enc_def int_of_str_str_int)

definition token_len_key :: "(string \<Rightarrow> string) \<Rightarrow> string \<Rightarrow> string \<Rightarrow> string" where
  "token_len_key sha model s = ''waddleai:toklen:'' @ model @ '':'' @ sha s"

definition token_count ::
    "(string \<Rightarrow> string) \<Rightarrow> 's valkey option \<Rightarrow> int \<Rightarrow> string \<Rightarrow> (string \<Rightarrow> py_error + int) \<Rightarrow> string \<Rightarrow>
     ('s, int) script" where
  "token_count sha client t model counter s = (case client of
     None \<Rightarrow> sraise
   | Some vk \<Rightarrow> cache_aside count_enc count_dec vk t (token_len_key sha model s) TOKEN_LEN_TTL
       (slift (counter s)))"

text \<open>The counts of a family of texts that the cache and a counter agree on.\<close>

definition counts_agree ::
    "(string \<Rightarrow> string) \<Rightarrow> 's valkey \<Rightarrow> int \<Rightarrow> string \<Rightarrow> (string \<Rightarrow> int) \<Rightarrow> string set \<Rightarrow> 's \<Rightarrow> bool" where
  "counts_agree sha vk t model toks X s \<longleftrightarrow>
     (\<forall>x\<in>X. agrees count_dec vk t s (token_len_key sha model x) (toks x))"

lemma token_count_memo:
  assumes "valkey_laws vk" "counts_agree sha vk t model toks X s" "inj_on sha X"
    and "\<And>x. x \<in> X \<Longrightarrow> counter x = Inr (toks x)" "x \<in> X"
    and "token_count sha (Some vk) t model counter x s = (r, s')"
  shows "(r = Raised \<or> r = Ok (toks x)) \<and> counts_agree sha vk t model toks X s'"
proof -
  have "(r = Raised \<or> r = Ok (toks x)) \<and>
      (\<forall>y\<in>X. agrees count_dec vk t s' (token_len_key sha model y) (toks y))"
  proof (rule token_counts.memo_run [OF assms(1), where s = s and X = X])
    show "token_len_key sha model y = token_len_key sha model z \<Longrightarrow> toks y = toks z"
      if "y \<in> X" "z \<in> X" for y z
      using that assms(3) by (auto simp: token_len_key_def dest: inj_onD)
    show "s' = s \<and> (r = Raised \<or> r = Ok (toks x))" if "slift (counter x) s = (r, s')" for s r s'
      using that assms(4) [OF assms(5)] by (simp add: slift_def sret_def)
    show "cache_aside count_enc count_dec vk t (token_len_key sha model x) TOKEN_LEN_TTL
        (slift (counter x)) s = (r, s')"
      using assms(6) by (simp add: token_count_def)
  qed (use assms(2,5) in \<open>auto simp: counts_agree_def\<close>)
  then show ?thesis by (simp add: counts_agree_def)
qed


text \<open>
  Counters that share the cache share their counts: the key names the model and the text, not
  the tokenizer, so for a week every counter answers with the number the first one found. The
  elision counts a quarter of the characters, the summarizer asks the connector of the model.
\<close>

theorem first_counter_wins:
  assumes "valkey_laws vk" "vk_get vk t s (token_len_key sha model x) = Ok None"
    and "token_count sha (Some vk) t model (\<lambda>_. Inr n) x s = (Ok n, s')"
    and "t \<le> t'" "t' < t + seconds TOKEN_LEN_TTL"
  shows "token_count sha (Some vk) t' model counter x s' = (Ok n, s')"
proof -
  have "vk_set vk t s (token_len_key sha model x) (count_enc n) (Some TOKEN_LEN_TTL) = Ok s'"
    using assms(2,3)
    by (auto simp: token_count_def cache_aside_def script_simps slift_def split: reply.splits)
  from valkey_get_set [OF assms(1) this assms(4), of "token_len_key sha model x"] assms(5)
  show ?thesis
    by (simp add: token_count_def cache_aside_def script_simps expired_def token_counts.dec_enc)
qed

theorem first_counter_wins_witness:
  "\<exists>s. token_count (\<lambda>x. x) (Some mem_valkey) 1 ''m'' (\<lambda>_. Inr 9) ''abcd'' s = (Ok 1, s)"
proof -
  have "\<exists>s. token_count (\<lambda>x. x) (Some mem_valkey) 0 ''m'' (\<lambda>_. Inr 1) ''abcd'' (\<lambda>_. None) = (Ok 1, s)"
    by (simp add: token_count_def cache_aside_def script_simps slift_def mem_valkey_simps)
  then obtain s where "token_count (\<lambda>x. x) (Some mem_valkey) 0 ''m'' (\<lambda>_. Inr 1) ''abcd'' (\<lambda>_. None) = (Ok 1, s)"
    by blast
  from first_counter_wins [OF mem_valkey_laws _ this, of 1 "\<lambda>_. Inr 9"] show ?thesis
    by (auto simp: mem_valkey_simps TOKEN_LEN_TTL_def seconds_def)
qed

section \<open>Retrieval results\<close>

definition RETRIEVAL_TTL :: nat where
  "RETRIEVAL_TTL = 300"

definition corpus_version_key :: "int \<Rightarrow> string \<Rightarrow> string" where
  "corpus_version_key org store = ''waddleai:corpus_ver:'' @ str_int org @ '':'' @ store"

text \<open>\<open>int(raw) if raw is not None else 0\<close>\<close>

definition current_corpus_version :: "'s valkey \<Rightarrow> int \<Rightarrow> int \<Rightarrow> string \<Rightarrow> ('s, int) script" where
  "current_corpus_version vk t org store =
     sbind (query (\<lambda>s. vk_get vk t s (corpus_version_key org store))) (\<lambda>raw.
       case raw of
         None \<Rightarrow> sret 0
       | Some b \<Rightarrow> (case count_dec b of Some n \<Rightarrow> sret n | None \<Rightarrow> sraise))"

definition bump_corpus_version :: "'s counting_valkey \<Rightarrow> int \<Rightarrow> int \<Rightarrow> string \<Rightarrow> ('s, int) script" where
  "bump_corpus_version v t org store = incr v t (corpus_version_key org store)"

definition result_key :: "(string \<Rightarrow> string) \<Rightarrow> int \<Rightarrow> string \<Rightarrow> int \<Rightarrow> string \<Rightarrow> int \<Rightarrow> string" where
  "result_key sha org store ver q top_k =
     ''waddleai:rr:'' @ str_int org @ '':'' @ store @ '':'' @ str_int ver @ '':'' @ sha q @ '':'' @
     str_int top_k"

definition get_or_compute ::
    "bool \<Rightarrow> (string \<Rightarrow> string) \<Rightarrow> 's valkey \<Rightarrow> int \<Rightarrow> int \<Rightarrow> string \<Rightarrow> string \<Rightarrow> int \<Rightarrow> ('s, json) script \<Rightarrow>
     ('s, json) script" where
  "get_or_compute enabled sha vk t org store q top_k compute =
     (if \<not> enabled then compute
      else
        sbind (current_corpus_version vk t org store) (\<lambda>ver.
          cache_aside json_dumps json_loads vk t (result_key sha org store ver q top_k) RETRIEVAL_TTL
            compute))"

interpretation retrieval_results: blob_codec json_dumps json_loads
  by unfold_locales simp

lemma result_key_org: "result_key sha org store ver q k = result_key sha org' store' ver' q' k' \<Longrightarrow> org = org'"
  using append_colon_inj [OF str_int_no_colon [of org] str_int_no_colon [of org']]
  unfolding result_key_def by (fastforce dest: str_int_inj)

lemma frame_cache_aside:
  assumes "\<And>s s' v. vk_set vk t s key (enc v) (Some ttl) = Ok s' \<Longrightarrow> obs s' = obs s" "frame obs c"
  shows "frame obs (cache_aside enc dec vk t key ttl c)"
  unfolding cache_aside_def
proof (rule frame_sbind [OF frame_query])
  fix cached
  show "frame obs (case cached of Some b \<Rightarrow> (case dec b of Some v \<Rightarrow> sret v | None \<Rightarrow> sraise)
      | None \<Rightarrow> sbind c (\<lambda>v. sbind (command (\<lambda>s. vk_set vk t s key (enc v) (Some ttl))) (\<lambda>_. sret v)))"
    using assms by (auto intro!: frame_intro frame_command split: option.split)
qed

text \<open>
  Retrieval results are isolated: whatever one organisation asks for, the results cached for
  every other organisation stay as they were, at every later time.
\<close>

theorem retrieval_isolated:
  assumes "valkey_laws vk" "org' \<noteq> org" "t \<le> u"
    and "frame (\<lambda>s. vk_get vk u s (result_key sha org' store' ver' q' k')) compute"
    and "get_or_compute enabled sha vk t org store q top_k compute s = (r, s')"
  shows "vk_get vk u s' (result_key sha org' store' ver' q' k') =
    vk_get vk u s (result_key sha org' store' ver' q' k')"
proof -
  let ?obs = "\<lambda>s. vk_get vk u s (result_key sha org' store' ver' q' k')"
  have "frame ?obs (cache_aside json_dumps json_loads vk t (result_key sha org store ver q top_k)
      RETRIEVAL_TTL compute)" for ver
  proof (rule frame_cache_aside [OF _ assms(4)])
    have "result_key sha org' store' ver' q' k' \<noteq> result_key sha org store ver q top_k"
      using result_key_org assms(2) by blast
    then show "?obs s' = ?obs s"
      if "vk_set vk t s (result_key sha org store ver q top_k) (json_dumps v) (Some RETRIEVAL_TTL) = Ok s'"
      for s s' v
      using valkey_get_set [OF assms(1) that assms(3)] by simp
  qed
  moreover have "frame ?obs (current_corpus_version vk t org store)"
    by (auto simp: current_corpus_version_def intro!: frame_intro split: option.split)
  ultimately have "frame ?obs (get_or_compute enabled sha vk t org store q top_k compute)"
    using assms(4) by (simp add: get_or_compute_def frame_intro)
  from frameD [OF this assms(5)] show ?thesis .
qed

theorem retrieval_isolated_witness:
  "vk_get mem_valkey 5 (snd (get_or_compute True (\<lambda>q. q) mem_valkey 5 1 ''m'' ''q'' 3 (sret JNull)
      (\<lambda>_. None))) (result_key (\<lambda>q. q) 2 ''m'' 0 ''q'' 3) = Ok None"
proof -
  obtain r s' where "get_or_compute True (\<lambda>q. q) mem_valkey 5 1 ''m'' ''q'' 3 (sret JNull)
      (\<lambda>_. None) = (r, s')"
    by fastforce
  with retrieval_isolated [OF mem_valkey_laws _ _ frame_sret this, of 2 5 "''m''" 0 "''q''" 3]
  show ?thesis by (simp add: mem_valkey_simps)
qed

section \<open>Embeddings\<close>

text \<open>
  Both tiers of \<open>shared/memory/embedding_cache.py\<close>; the vector is its JSON, the embedding backend a
  parameter that may raise.
\<close>

record 's embed_state =
  es_server :: 's
  es_rows :: "((string \<times> string) \<times> json option) list"

definition EMBED_TTL :: nat where
  "EMBED_TTL = 604800"

definition embed_key :: "string \<Rightarrow> string \<Rightarrow> string" where
  "embed_key model content_hash = ''waddleai:emb:'' @ model @ '':'' @ content_hash"

definition on_es_server :: "('s, 'a) script \<Rightarrow> ('s embed_state, 'a) script" where
  "on_es_server f st = (let (r, s) = f (es_server st) in (r, st\<lparr>es_server := s\<rparr>))"

definition embed_select_row :: "string \<Rightarrow> string \<Rightarrow> ('s embed_state, json option) script" where
  "embed_select_row model h st = (Ok (Option.bind (map_of (es_rows st) (model, h)) (\<lambda>v. v)), st)"

definition embed_upsert_row :: "string \<Rightarrow> string \<Rightarrow> json \<Rightarrow> ('s embed_state, unit) script" where
  "embed_upsert_row model h v st = (Ok (),
     if map_of (es_rows st) (model, h) = None
     then st\<lparr>es_rows := es_rows st @ [((model, h), Some v)]\<rparr> else st)"

definition embed ::
    "bool \<Rightarrow> (string \<Rightarrow> string) \<Rightarrow> 's valkey \<Rightarrow> (string \<Rightarrow> py_error + json) \<Rightarrow> int \<Rightarrow> string \<Rightarrow> string \<Rightarrow>
     ('s embed_state, json) script" where
  "embed enabled sha vk manager t model s =
     (if \<not> enabled then slift (manager s)
      else
        (let h = sha s; vkey = embed_key model h;
             warm = (\<lambda>v. on_es_server (command (\<lambda>st. vk_set vk t st vkey (json_dumps v) (Some EMBED_TTL))))
         in
          sbind (on_es_server (query (\<lambda>st. vk_get vk t st vkey))) (\<lambda>cached.
            case cached of
              Some b \<Rightarrow> (case json_loads b of Some v \<Rightarrow> sret v | None \<Rightarrow> sraise)
            | None \<Rightarrow>
                sbind (embed_select_row model h) (\<lambda>row.
                  case row of
                    Some v \<Rightarrow> sbind (warm v) (\<lambda>_. sret v)
                  | None \<Rightarrow>
                      sbind (slift (manager s)) (\<lambda>v.
                      sbind (embed_upsert_row model h v) (\<lambda>_.
                      sbind (warm v) (\<lambda>_. sret v)))))))"

definition embed_agrees ::
    "'s valkey \<Rightarrow> int \<Rightarrow> string \<Rightarrow> string \<Rightarrow> json \<Rightarrow> 's embed_state \<Rightarrow> bool" where
  "embed_agrees vk t model h v st \<longleftrightarrow> agrees json_loads vk t (es_server st) (embed_key model h) v \<and>
     (\<forall>x. map_of (es_rows st) (model, h) = Some (Some x) \<longrightarrow> x = v)"

text \<open>
  The embedding cache is transparent: while both tiers agree with the backend on a text, what
  \<open>embed\<close> returns is the vector the backend gives, whichever tier it comes from, and both tiers
  still agree.
\<close>

theorem embed_transparent:
  assumes "valkey_laws vk" "manager x = Inr v" "embed_agrees vk t model (sha x) v st"
    and "embed enabled sha vk manager t model x st = (r, st')"
  shows "(r = Raised \<or> r = Ok v) \<and> embed_agrees vk t model (sha x) v st'"
proof (cases enabled)
  case False
  with assms(2-4) show ?thesis by (simp add: embed_def slift_def sret_def)
next
  case True
  note run = assms(4) [unfolded embed_def Let_def]
  let ?k = "embed_key model (sha x)"
  have warmed: "embed_agrees vk t model (sha x) v (st\<lparr>es_rows := rows, es_server := s\<rparr>)"
    if "vk_set vk t (es_server st) ?k (json_dumps v) (Some EMBED_TTL) = Ok s"
      "\<forall>y. map_of rows (model, sha x) = Some (Some y) \<longrightarrow> y = v" for rows s
    using that retrieval_results.agrees_set [OF assms(1)] by (auto simp: embed_agrees_def)
  show ?thesis
  proof (cases "vk_get vk t (es_server st) ?k")
    case Raised
    with run True assms(3) show ?thesis by (simp add: on_es_server_def script_simps)
  next
    case (Ok cached)
    show ?thesis
    proof (cases cached)
      case (Some b)
      with assms(3) Ok have "json_loads b = Some v" by (auto simp: embed_agrees_def dest: agreesD)
      with run True Ok Some assms(3) show ?thesis by (simp add: on_es_server_def script_simps)
    next
      case None
      note miss = run True Ok None assms(2)
      show ?thesis
      proof (cases "map_of (es_rows st) (model, sha x)")
        case none: None
        have rows: "\<forall>y. map_of (es_rows st @ [((model, sha x), Some v)]) (model, sha x) = Some (Some y) \<longrightarrow>
            y = v"
          using none by (auto simp: map_add_def)
        have kept: "embed_agrees vk t model (sha x) v (st\<lparr>es_rows := es_rows st @ [((model, sha x), Some v)]\<rparr>)"
          using assms(3) rows by (simp add: embed_agrees_def)
        from miss none warmed [OF _ rows] kept show ?thesis
          by (auto simp: on_es_server_def embed_select_row_def embed_upsert_row_def slift_def
              script_simps split: reply.splits)
      next
        case (Some row)
        then have rows: "\<forall>y. map_of (es_rows st) (model, sha x) = Some (Some y) \<longrightarrow> y = v"
          using assms(3) by (auto simp: embed_agrees_def)
        from miss Some warmed [OF _ rows] assms(3) rows show ?thesis
          by (cases row) (auto simp: on_es_server_def embed_select_row_def embed_upsert_row_def
              slift_def script_simps split: reply.splits)
      qed
    qed
  qed
qed

theorem embed_transparent_witness:
  "\<exists>r st. embed True (\<lambda>q. q) mem_valkey (\<lambda>_. Inr (JList [])) 5 ''m'' ''q'' \<lparr>es_server = \<lambda>_. None, es_rows = []\<rparr> =
      (r, st) \<and> (r = Raised \<or> r = Ok (JList [])) \<and> es_rows st = [((''m'', ''q''), Some (JList []))]"
proof -
  obtain r st where run: "embed True (\<lambda>q. q) mem_valkey (\<lambda>_. Inr (JList [])) 5 ''m'' ''q''
      \<lparr>es_server = \<lambda>_. None, es_rows = []\<rparr> = (r, st)"
    by fastforce
  then have "es_rows st = [((''m'', ''q''), Some (JList []))]"
    by (auto simp: embed_def on_es_server_def embed_select_row_def embed_upsert_row_def slift_def
        script_simps mem_valkey_simps Let_def)
  moreover have "embed_agrees mem_valkey 5 ''m'' ''q'' (JList []) \<lparr>es_server = \<lambda>_. None, es_rows = []\<rparr>"
    by (simp add: embed_agrees_def agrees_def mem_valkey_simps)
  ultimately show ?thesis
    using embed_transparent [OF mem_valkey_laws _ _ run] run by auto
qed

end
