(* ===== verification/Summarizer.thy ===== *)
theory Summarizer
  imports CacheAside Provenance
begin

text \<open>
  The rolling conversation summarizer (\<open>shared/memory/summarizer.py\<close>): when to summarize, reuse
  of a stored summary, the guardrail on its length, the versions in the table. The connectors and
  the model they call are parameters, and so is the environment variable that names the model.
\<close>

section \<open>State\<close>

record summary_row =
  sm_id :: int
  sm_org :: int
  sm_conversation :: string
  sm_summary :: string
  sm_covers :: int
  sm_tokens :: int
  sm_model :: string
  sm_author :: "int option"
  sm_version :: int
  sm_status :: string
  sm_superseded_by :: "int option"

record 's sum_state =
  su_server :: 's
  su_rows :: "summary_row list"
  su_next_id :: int

record summarization =
  sz_applied :: bool
  sz_summary :: "string option"
  sz_covers :: int
  sz_elided :: int

text \<open>
  A connector counts tokens and completes a chat; each may raise. There may be none for a model,
  and then a count is the length of the text divided by four.
\<close>

record connector =
  cn_count :: "string \<Rightarrow> string \<Rightarrow> py_error + int"
  cn_chat :: "json list \<Rightarrow> string \<Rightarrow> py_error + string"

record 's sum_env =
  se_valkey :: "'s valkey option"
  se_sha :: "string \<Rightarrow> string"
  se_repr :: "json \<Rightarrow> string"
  se_guard :: guard
  se_connector :: "string \<Rightarrow> connector option"
  se_model_var :: "string option"

definition DEFAULT_SUMMARIZE_MODEL :: string where
  "DEFAULT_SUMMARIZE_MODEL = ''gemma4:e2b''"

definition SUMMARIZE_SYSTEM_PROMPT :: string where
  "SUMMARIZE_SYSTEM_PROMPT = ''Summarize the following conversation turns concisely, preserving key '' @
     ''facts, decisions, and open questions. Output only the summary text, no preamble.''"

definition resolve_summarize_model :: "'s sum_env \<Rightarrow> string" where
  "resolve_summarize_model env = (case se_model_var env of Some m \<Rightarrow> m | None \<Rightarrow> DEFAULT_SUMMARIZE_MODEL)"

definition no_summary :: summarization where
  "no_summary = \<lparr>sz_applied = False, sz_summary = None, sz_covers = 0, sz_elided = 0\<rparr>"

definition turn_text :: "(json \<Rightarrow> string) \<Rightarrow> dict \<Rightarrow> string" where
  "turn_text repr d = py_str repr (jget_or d ''role'' (JStr ''user'')) @ '': '' @
     py_str repr (jget_or d ''content'' (JStr []))"

definition build_summarize_messages :: "(json \<Rightarrow> string) \<Rightarrow> dict list \<Rightarrow> json list" where
  "build_summarize_messages repr older =
     [JDict [(''role'', JStr ''system''), (''content'', JStr SUMMARIZE_SYSTEM_PROMPT)],
      JDict [(''role'', JStr ''user''),
        (''content'', JStr (join [CHR 0x0A] (map (turn_text repr) older)))]]"

section \<open>Counting\<close>

definition on_su_server :: "('s, 'a) script \<Rightarrow> ('s sum_state, 'a) script" where
  "on_su_server f st = (let (r, s) = f (su_server st) in (r, st\<lparr>su_server := s\<rparr>))"

definition invoke_counter :: "connector option \<Rightarrow> string \<Rightarrow> string \<Rightarrow> py_error + int" where
  "invoke_counter c model s = (case c of
     None \<Rightarrow> Inr (int (length s) div 4) | Some cn \<Rightarrow> cn_count cn s model)"

definition count_text :: "'s sum_env \<Rightarrow> int \<Rightarrow> string \<Rightarrow> string \<Rightarrow> ('s sum_state, int) script" where
  "count_text env t model s = on_su_server
     (token_count (se_sha env) (se_valkey env) t model (invoke_counter (se_connector env model) model) s)"

text \<open>\<open>msg.get("content", "") or ""\<close>, which has to be a text to be counted.\<close>

definition turn_content :: "dict \<Rightarrow> ('s, string) script" where
  "turn_content d = (case json_or (jget_or d ''content'' (JStr [])) (JStr []) of
     JStr s \<Rightarrow> sret s | _ \<Rightarrow> sraise)"

fun count_messages :: "'s sum_env \<Rightarrow> int \<Rightarrow> string \<Rightarrow> dict list \<Rightarrow> ('s sum_state, int) script" where
  "count_messages env t model [] = sret 0"
| "count_messages env t model (d # ds) =
     sbind (turn_content d) (\<lambda>s.
     sbind (count_text env t model s) (\<lambda>n.
     sbind (count_messages env t model ds) (\<lambda>rest. sret (n + rest))))"

definition elision_savings ::
    "'s sum_env \<Rightarrow> int \<Rightarrow> string \<Rightarrow> dict list \<Rightarrow> string \<Rightarrow> ('s sum_state, int) script" where
  "elision_savings env t model older summary =
     sbind (count_messages env t model older) (\<lambda>a.
     sbind (count_text env t model summary) (\<lambda>b. sret (max 0 (a - b))))"

section \<open>The table\<close>

definition conversation_rows :: "int \<Rightarrow> string \<Rightarrow> summary_row list \<Rightarrow> summary_row list" where
  "conversation_rows org conv rows = filter (\<lambda>r. sm_org r = org \<and> sm_conversation r = conv) rows"

definition select_latest_summary :: "int \<Rightarrow> string \<Rightarrow> summary_row list \<Rightarrow> summary_row option" where
  "select_latest_summary org conv rows = py_max sm_version (conversation_rows org conv rows)"

definition insert_summary ::
    "int \<Rightarrow> string \<Rightarrow> string \<Rightarrow> int \<Rightarrow> int \<Rightarrow> string \<Rightarrow> int \<Rightarrow> int option \<Rightarrow> ('s sum_state, int) script" where
  "insert_summary org conv summary covers tokens model version author st =
     (Ok (su_next_id st), st\<lparr>su_next_id := su_next_id st + 1,
        su_rows := su_rows st @ [\<lparr>sm_id = su_next_id st, sm_org = org, sm_conversation = conv,
          sm_summary = summary, sm_covers = covers, sm_tokens = tokens, sm_model = model,
          sm_author = author, sm_version = version, sm_status = ''active'',
          sm_superseded_by = None\<rparr>]\<rparr>)"

definition supersede :: "int \<Rightarrow> int \<Rightarrow> summary_row list \<Rightarrow> summary_row list" where
  "supersede old new rows = map (\<lambda>r. if sm_id r = old
     then r\<lparr>sm_status := ''superseded'', sm_superseded_by := Some new\<rparr> else r) rows"

definition mark_superseded :: "int \<Rightarrow> int \<Rightarrow> ('s sum_state, unit) script" where
  "mark_superseded old new st = (Ok (), st\<lparr>su_rows := supersede old new (su_rows st)\<rparr>)"

section \<open>Summarizing\<close>

definition dispatch_summarize :: "'s sum_env \<Rightarrow> string \<Rightarrow> dict list \<Rightarrow> py_error + string" where
  "dispatch_summarize env model older = (case se_connector env model of
     None \<Rightarrow> Inl (RuntimeError ''no connector available for summarize model'')
   | Some cn \<Rightarrow> cn_chat cn (build_summarize_messages (se_repr env) older) model)"

text \<open>A summary of its own: made, measured, filtered, stored, and the former one superseded.\<close>

definition new_summary ::
    "'s sum_env \<Rightarrow> int \<Rightarrow> int \<Rightarrow> int option \<Rightarrow> string \<Rightarrow> proxy_memory_config \<Rightarrow> string \<Rightarrow> dict list \<Rightarrow>
     summary_row option \<Rightarrow> ('s sum_state, summarization) script" where
  "new_summary env t org user conv cfg model older existing =
     (let summarize_model = resolve_summarize_model env in
      sbind (count_messages env t model older) (\<lambda>older_tokens.
        case dispatch_summarize env summarize_model older of
          Inl _ \<Rightarrow> sret no_summary
        | Inr summary_text \<Rightarrow>
            sbind (count_text env t model summary_text) (\<lambda>summary_tokens.
              if 0 < older_tokens \<and> pm_ratio cfg * of_int older_tokens < of_int summary_tokens
              then sret no_summary
              else
                (case filter_on_write (se_guard env) (Some org) summary_text of
                   Inl _ \<Rightarrow> sraise
                 | Inr verdict \<Rightarrow>
                     if wv_quarantine verdict then sret no_summary
                     else
                       (let version = (case existing of Some r \<Rightarrow> sm_version r + 1 | None \<Rightarrow> 1);
                            covers = int (length older) in
                        sbind (insert_summary org conv (wv_filtered_text verdict) covers older_tokens
                          summarize_model version user) (\<lambda>new_id.
                        sbind (case existing of Some r \<Rightarrow> mark_superseded (sm_id r) new_id | None \<Rightarrow> sret ())
                          (\<lambda>_. sret \<lparr>sz_applied = True, sz_summary = Some (wv_filtered_text verdict),
                            sz_covers = covers, sz_elided = max 0 (older_tokens - summary_tokens)\<rparr>)))))))"

definition kept_turns :: "proxy_memory_config \<Rightarrow> 'a list \<Rightarrow> nat" where
  "kept_turns cfg ms = nat (max 0 (min (pm_keep_recent cfg) (int (length ms))))"

definition maybe_summarize ::
    "'s sum_env \<Rightarrow> int \<Rightarrow> int \<Rightarrow> int option \<Rightarrow> string \<Rightarrow> dict list \<Rightarrow> proxy_memory_config \<Rightarrow> string \<Rightarrow>
     ('s sum_state, summarization) script" where
  "maybe_summarize env t org user conv ms cfg model =
     (if \<not> pm_summarization_enabled cfg \<or> conv = [] then sret no_summary
      else
        sbind (count_messages env t model ms) (\<lambda>total_tokens.
          if total_tokens < pm_threshold_tokens cfg then sret no_summary
          else
            (let covers = length ms - kept_turns cfg ms; older = take covers ms in
             if older = [] then sret no_summary
             else
               sbind (\<lambda>st. (Ok (select_latest_summary org conv (su_rows st)), st)) (\<lambda>existing.
                 case existing of
                   Some r \<Rightarrow>
                     if sm_status r = ''active'' \<and> int covers \<le> sm_covers r
                     then sbind (elision_savings env t model older (sm_summary r)) (\<lambda>n.
                       sret \<lparr>sz_applied = True, sz_summary = Some (sm_summary r),
                         sz_covers = sm_covers r, sz_elided = n\<rparr>)
                     else new_summary env t org user conv cfg model older existing
                 | None \<Rightarrow> new_summary env t org user conv cfg model older existing))))"

end
