(* ===== verification/Dedup.thy ===== *)
theory Dedup
  imports CacheAside
begin

text \<open>
  The deduplication of large blocks within a request (\<open>shared/memory/dedup_store.py\<close>): the
  observation of stable blocks, the elision of repeated contents. The theorems: elision loses
  nothing, and eliding twice is eliding once.
\<close>

section \<open>Operations\<close>

definition DEDUP_STUB_PREFIX :: string where
  "DEDUP_STUB_PREFIX = ''[deduplicated: see block #''"

definition dedup_stub :: "nat \<Rightarrow> string" where
  "dedup_stub i = DEDUP_STUB_PREFIX @ str_nat i @ '' above]''"

text \<open>
  \<open>json.dumps(entry, sort_keys=True)\<close> and \<open>str(entry)\<close> are parameters.
\<close>

definition entry_text :: "(json \<Rightarrow> string) \<Rightarrow> (json \<Rightarrow> string) \<Rightarrow> json \<Rightarrow> string" where
  "entry_text dumps repr e = (case e of JDict _ \<Rightarrow> dumps e | _ \<Rightarrow> py_str repr e)"

fun drop_seen :: "(json \<Rightarrow> string) \<Rightarrow> string list \<Rightarrow> json list \<Rightarrow> json list" where
  "drop_seen key seen [] = []"
| "drop_seen key seen (e # es) =
     (if key e \<in> set seen then drop_seen key seen es else e # drop_seen key (key e # seen) es)"

definition dedup_entry_list :: "(json \<Rightarrow> string) \<Rightarrow> json \<Rightarrow> py_error + json" where
  "dedup_entry_list key entries =
     (if entries = JNull then Inr JNull
      else rbind (py_iter entries) (\<lambda>es. Inr (JList (drop_seen key [] es))))"

definition dedup_canonical_key :: "int \<Rightarrow> string \<Rightarrow> string \<Rightarrow> string" where
  "dedup_canonical_key org session h = ''waddleai:dedup:'' @ str_int org @ '':'' @ session @ '':'' @ h"

definition dedup_prefix_key :: "string \<Rightarrow> string \<Rightarrow> string" where
  "dedup_prefix_key vkey h = ''waddleai:prefix:'' @ vkey @ '':'' @ h"

definition observe_block ::
    "(string \<Rightarrow> string) \<Rightarrow> 's counting_valkey \<Rightarrow> int \<Rightarrow> int \<Rightarrow> string \<Rightarrow> string \<Rightarrow> string \<Rightarrow> ('s, unit) script" where
  "observe_block sha v t org session vkey block =
     sbind (incr v t (dedup_prefix_key vkey (sha block))) (\<lambda>_.
       command (\<lambda>s. vk_set (nv_kv v) t s (dedup_canonical_key org session (sha block))
         (RawText block) None))"

definition observe_blocks ::
    "(string \<Rightarrow> string) \<Rightarrow> 's counting_valkey \<Rightarrow> int \<Rightarrow> int \<Rightarrow> string \<Rightarrow> string \<Rightarrow> string list \<Rightarrow>
     ('s, unit) script" where
  "observe_blocks sha v t org session vkey = for_each (observe_block sha v t org session vkey)"

definition get_canonical :: "'s valkey \<Rightarrow> int \<Rightarrow> int \<Rightarrow> string \<Rightarrow> string \<Rightarrow> ('s, blob option) script" where
  "get_canonical vk t org session h =
     query (\<lambda>s. vk_get vk t s (dedup_canonical_key org session h))"

text \<open>
  The loop over the messages: \<open>cnt\<close> counts the tokens of a text, \<open>seen\<close> numbers the blocks met,
  the last being \<open>n\<close>.
\<close>

fun elide ::
    "(string \<Rightarrow> string) \<Rightarrow> (string \<Rightarrow> ('s, int) script) \<Rightarrow> int \<Rightarrow> (string \<times> nat) list \<Rightarrow> nat \<Rightarrow>
     json list \<Rightarrow> ('s, json list \<times> int) script" where
  "elide sha cnt least seen n [] = sret ([], 0)"
| "elide sha cnt least seen n (m # ms) =
     sbind (slift (must_dict m)) (\<lambda>d.
       let keep = (\<lambda>seen n. sbind (elide sha cnt least seen n ms) (\<lambda>(rest, saved).
             sret (m # rest, saved)))
       in case jget_null d ''content'' of
            JStr c \<Rightarrow>
              if prefix DEDUP_STUB_PREFIX c then keep seen n
              else
                sbind (cnt c) (\<lambda>tokens.
                  if tokens < least then keep seen n
                  else
                    (case map_of seen (sha c) of
                       None \<Rightarrow> keep ((sha c, Suc n) # seen) (Suc n)
                     | Some i \<Rightarrow>
                         sbind (cnt (dedup_stub i)) (\<lambda>stub_tokens.
                         sbind (elide sha cnt least seen n ms) (\<lambda>(rest, saved).
                           sret (JDict (dict_set d ''content'' (JStr (dedup_stub i))) # rest,
                             max 0 (tokens - stub_tokens) + saved)))))
          | _ \<Rightarrow> keep seen n)"

definition elide_intra_request ::
    "(string \<Rightarrow> string) \<Rightarrow> (json \<Rightarrow> string) \<Rightarrow> (string \<Rightarrow> ('s, int) script) \<Rightarrow> int \<Rightarrow> json list \<Rightarrow>
     json \<Rightarrow> json \<Rightarrow> ('s, json list \<times> json \<times> json \<times> int) script" where
  "elide_intra_request sha key cnt least messages tools system =
     sbind (elide sha cnt least [] 0 messages) (\<lambda>(ms, saved).
     sbind (slift (dedup_entry_list key tools)) (\<lambda>new_tools.
     sbind (slift (case system of JList _ \<Rightarrow> dedup_entry_list key system | _ \<Rightarrow> Inr system))
       (\<lambda>new_system. sret (ms, new_tools, new_system, saved))))"

section \<open>Elision loses nothing\<close>

text \<open>
  The reader: it collects the large contents as it meets them and puts back, for a stub, the block
  the stub names. \<open>toks\<close> is the token count of a text.
\<close>

definition named_block :: "string list \<Rightarrow> string \<Rightarrow> string option" where
  "named_block blocks c =
     List.find (\<lambda>b. True) (map (\<lambda>i. blocks ! (i - 1)) (filter (\<lambda>i. c = dedup_stub i) [1..<Suc (length blocks)]))"

fun reinsert :: "(string \<Rightarrow> int) \<Rightarrow> int \<Rightarrow> string list \<Rightarrow> json list \<Rightarrow> json list" where
  "reinsert toks least blocks [] = []"
| "reinsert toks least blocks (JDict d # ms) =
     (case jget_null d ''content'' of
        JStr c \<Rightarrow>
          if prefix DEDUP_STUB_PREFIX c
          then (case named_block blocks c of
                  Some b \<Rightarrow> JDict (dict_set d ''content'' (JStr b))
                | None \<Rightarrow> JDict d) # reinsert toks least blocks ms
          else if toks c < least \<or> c \<in> set blocks then JDict d # reinsert toks least blocks ms
          else JDict d # reinsert toks least (blocks @ [c]) ms
      | _ \<Rightarrow> JDict d # reinsert toks least blocks ms)"
| "reinsert toks least blocks (m # ms) = m # reinsert toks least blocks ms"

lemma dict_set_back: "jget d k = Some v0 \<Longrightarrow> dict_set (dict_set d k v) k v0 = d"
  by (induction d) (auto simp: jget_def split: if_splits)

lemma dedup_stub_inj [simp]: "dedup_stub i = dedup_stub j \<longleftrightarrow> i = j"
  by (auto simp: dedup_stub_def dest: str_nat_inj)

lemma prefix_dedup_stub [simp]: "prefix DEDUP_STUB_PREFIX (dedup_stub i)"
  by (simp add: dedup_stub_def)

lemma named_block_stub:
  "0 < i \<Longrightarrow> i \<le> length blocks \<Longrightarrow> named_block blocks (dedup_stub i) = Some (blocks ! (i - 1))"
proof -
  assume i: "0 < i" "i \<le> length blocks"
  have "filter (\<lambda>j. i = j) xs = (if i \<in> set xs then [i] else [])" if "distinct xs" for xs :: "nat list"
    using that by (induction xs) auto
  with i show ?thesis by (simp add: named_block_def)
qed

text \<open>A text count that, as long as an invariant of the server holds, raises or counts right.\<close>

definition counts :: "('s \<Rightarrow> bool) \<Rightarrow> string set \<Rightarrow> (string \<Rightarrow> int) \<Rightarrow> (string \<Rightarrow> ('s, int) script) \<Rightarrow> bool" where
  "counts I X toks cnt \<longleftrightarrow> (\<forall>c\<in>X. \<forall>s r s'. I s \<longrightarrow> cnt c s = (r, s') \<longrightarrow> I s' \<and> (r = Raised \<or> r = Ok (toks c)))"

lemma countsD:
  "counts I X toks cnt \<Longrightarrow> c \<in> X \<Longrightarrow> I s \<Longrightarrow> cnt c s = (r, s') \<Longrightarrow> I s' \<and> (r = Raised \<or> r = Ok (toks c))"
  unfolding counts_def by blast

definition contents :: "json list \<Rightarrow> string set" where
  "contents ms = {c. \<exists>d. JDict d \<in> set ms \<and> jget_null d ''content'' = JStr c}"

lemma sbind_Ok:
  "sbind f g s = (Ok b, s') \<longleftrightarrow> (\<exists>a s1. f s = (Ok a, s1) \<and> g a s1 = (Ok b, s'))"
  by (auto simp: sbind_def split: prod.splits reply.splits)


lemma elide_Cons:
  assumes "elide sha cnt least seen n (m # ms) s = (Ok (out, saved), s')"
  obtains (plain) d rest where "m = JDict d" "out = m # rest"
      and "\<And>c. jget_null d ''content'' = JStr c \<Longrightarrow> prefix DEDUP_STUB_PREFIX c"
      and "elide sha cnt least seen n ms s = (Ok (rest, saved), s')"
  | (small) d c tokens s1 rest where "m = JDict d" "out = m # rest"
      and "jget_null d ''content'' = JStr c" "\<not> prefix DEDUP_STUB_PREFIX c"
      and "cnt c s = (Ok tokens, s1)" "tokens < least"
      and "elide sha cnt least seen n ms s1 = (Ok (rest, saved), s')"
  | (first) d c tokens s1 rest where "m = JDict d" "out = m # rest"
      and "jget_null d ''content'' = JStr c" "\<not> prefix DEDUP_STUB_PREFIX c"
      and "cnt c s = (Ok tokens, s1)" "\<not> tokens < least" "map_of seen (sha c) = None"
      and "elide sha cnt least ((sha c, Suc n) # seen) (Suc n) ms s1 = (Ok (rest, saved), s')"
  | (again) d c tokens s1 i stub_tokens s2 rest saved' where "m = JDict d"
      and "out = JDict (dict_set d ''content'' (JStr (dedup_stub i))) # rest"
      and "jget_null d ''content'' = JStr c" "\<not> prefix DEDUP_STUB_PREFIX c"
      and "cnt c s = (Ok tokens, s1)" "\<not> tokens < least" "map_of seen (sha c) = Some i"
      and "cnt (dedup_stub i) s1 = (Ok stub_tokens, s2)"
      and "elide sha cnt least seen n ms s2 = (Ok (rest, saved'), s')"
      and "saved = max 0 (tokens - stub_tokens) + saved'"
proof (cases m)
  case (JDict d)
  show ?thesis
  proof (cases "\<exists>c. jget_null d ''content'' = JStr c \<and> \<not> prefix DEDUP_STUB_PREFIX c")
    case True
    then obtain c where c: "jget_null d ''content'' = JStr c" "\<not> prefix DEDUP_STUB_PREFIX c" by blast
    with assms JDict obtain tokens s1 where 1: "cnt c s = (Ok tokens, s1)"
      by (auto simp: slift_def sbind_Ok sret_def)
    note run = assms JDict c 1
    show ?thesis
    proof (cases "tokens < least")
      case True
      with run show ?thesis
        by (auto simp: slift_def sbind_Ok sret_def intro: small)
    next
      case False
      show ?thesis
      proof (cases "map_of seen (sha c)")
        case None
        with run False show ?thesis
          by (auto simp: slift_def sbind_Ok sret_def intro: first)
      next
        case (Some i)
        with run False obtain stub_tokens s2 rest saved' where
          "cnt (dedup_stub i) s1 = (Ok stub_tokens, s2)"
          "elide sha cnt least seen n ms s2 = (Ok (rest, saved'), s')"
          "out = JDict (dict_set d ''content'' (JStr (dedup_stub i))) # rest"
          "saved = max 0 (tokens - stub_tokens) + saved'"
          by (auto simp: slift_def sbind_Ok sret_def)
        with again [OF JDict _ c 1 False Some] show ?thesis by blast
      qed
    qed
  next
    case False
    with assms JDict show ?thesis
      by (cases "jget_null d ''content''") (auto simp: slift_def sbind_Ok sret_def intro!: plain)
  qed
qed (use assms in \<open>auto simp: slift_def sbind_Ok sraise_def\<close>)

text \<open>The numbers of the loop name the blocks the reader has collected.\<close>

definition numbers :: "(string \<Rightarrow> string) \<Rightarrow> (string \<times> nat) list \<Rightarrow> string list \<Rightarrow> bool" where
  "numbers sha seen blocks \<longleftrightarrow>
     (\<forall>h i. map_of seen h = Some i \<longrightarrow> 0 < i \<and> i \<le> length blocks \<and> sha (blocks ! (i - 1)) = h) \<and>
     (\<forall>b\<in>set blocks. map_of seen (sha b) \<noteq> None)"

lemma numbers_first:
  "numbers sha seen blocks \<Longrightarrow> map_of seen (sha c) = None \<Longrightarrow>
     numbers sha ((sha c, Suc (length blocks)) # seen) (blocks @ [c])"
  by (fastforce simp: numbers_def nth_append split: if_splits)

lemma contents_Cons:
  "contents (m # ms) = {c. \<exists>d. m = JDict d \<and> jget_null d ''content'' = JStr c} \<union> contents ms"
  by (auto simp: contents_def)

lemma jget_null_Some: "jget_null d k = JStr c \<Longrightarrow> jget d k = Some (JStr c)"
  by (auto simp: jget_null_def split: option.splits)

lemma elide_reinsert:
  assumes "counts I X toks cnt" "I s" "contents ms \<union> set blocks \<union> range dedup_stub \<subseteq> X"
    and "inj_on sha X" "\<And>c. c \<in> contents ms \<Longrightarrow> \<not> prefix DEDUP_STUB_PREFIX c"
    and "numbers sha seen blocks"
    and "elide sha cnt least seen (length blocks) ms s = (Ok (out, saved), s')"
  shows "reinsert toks least blocks out = ms \<and> 0 \<le> saved"
  using assms(2-)
proof (induction ms arbitrary: s seen blocks out saved s')
  case Nil
  then show ?case by (simp add: sret_def)
next
  case (Cons m ms)
  note IH = Cons.IH
  have X: "contents ms \<subseteq> X" "set blocks \<subseteq> X" "range dedup_stub \<subseteq> X"
    using Cons.prems(2) by (auto simp: contents_Cons)
  have unmarked: "\<And>c. c \<in> contents ms \<Longrightarrow> \<not> prefix DEDUP_STUB_PREFIX c"
    using Cons.prems(4) by (auto simp: contents_Cons)
  from Cons.prems(6) show ?case
  proof (cases rule: elide_Cons)
    case (plain d rest)
    have "\<nexists>c. jget_null d ''content'' = JStr c"
      using plain(1,3) Cons.prems(4) by (auto simp: contents_Cons)
    moreover have "reinsert toks least blocks rest = ms \<and> 0 \<le> saved"
      using IH [OF Cons.prems(1) _ Cons.prems(3) unmarked Cons.prems(5) plain(4)] X by auto
    ultimately show ?thesis using plain(1,2) by (auto split: json.split)
  next
    case (small d c tokens s1 rest)
    have c: "c \<in> X" using small(1,3) Cons.prems(2) by (auto simp: contents_Cons)
    from countsD [OF assms(1) c Cons.prems(1) small(5)] have "I s1" "tokens = toks c" by auto
    moreover have "reinsert toks least blocks rest = ms \<and> 0 \<le> saved"
      using IH [OF \<open>I s1\<close> _ Cons.prems(3) unmarked Cons.prems(5) small(7)] X by auto
    ultimately show ?thesis using small(1-4,6) by simp
  next
    case (first d c tokens s1 rest)
    have c: "c \<in> X" using first(1,3) Cons.prems(2) by (auto simp: contents_Cons)
    from countsD [OF assms(1) c Cons.prems(1) first(5)] have "I s1" "tokens = toks c" by auto
    moreover have "c \<notin> set blocks" using first(7) Cons.prems(5) by (auto simp: numbers_def)
    moreover have "reinsert toks least (blocks @ [c]) rest = ms \<and> 0 \<le> saved"
      using IH [OF \<open>I s1\<close> _ Cons.prems(3) unmarked numbers_first [OF Cons.prems(5) first(7)], of rest saved s']
        X c first(8) by auto
    ultimately show ?thesis using first(1-4,6) by simp
  next
    case (again d c tokens s1 i stub_tokens s2 rest saved')
    have c: "c \<in> X" using again(1,3) Cons.prems(2) by (auto simp: contents_Cons)
    have "I s1" using countsD [OF assms(1) c Cons.prems(1) again(5)] by auto
    have stub: "dedup_stub i \<in> X" using X(3) by auto
    have "I s2" using countsD [OF assms(1) stub \<open>I s1\<close> again(8)] by auto
    have i: "0 < i" "i \<le> length blocks" "sha (blocks ! (i - 1)) = sha c"
      using Cons.prems(5) again(7) by (auto simp: numbers_def)
    moreover have "blocks ! (i - 1) \<in> X" using i X(2) by (auto dest!: nth_mem [of "i - 1"])
    ultimately have "blocks ! (i - 1) = c" using c Cons.prems(3) by (auto dest: inj_onD)
    with named_block_stub [OF i(1,2)] have named: "named_block blocks (dedup_stub i) = Some c" by simp
    have "reinsert toks least blocks rest = ms \<and> 0 \<le> saved'"
      using IH [OF \<open>I s2\<close> _ Cons.prems(3) unmarked Cons.prems(5) again(9)] X by auto
    then show ?thesis
      using again(1,2,10) named dict_set_back [OF jget_null_Some [OF again(3)]]
      by (simp add: jget_null_def jget_dict_set)
  qed
qed

section \<open>Eliding twice\<close>

lemma sbind_keep:
  assumes "\<And>r s'. f s = (r, s') \<Longrightarrow> r = Raised \<or> r = Ok (rest, 0)"
    and "sbind f (\<lambda>(rest, saved). sret (m # rest, saved)) s = (r2, s2)"
  shows "r2 = Raised \<or> r2 = Ok (m # rest, 0 :: int)"
proof -
  obtain r s' where f: "f s = (r, s')" by fastforce
  from assms(1) [OF f] show ?thesis
    using assms(2) f by (auto simp: sbind_def sret_def)
qed

lemma elide_again:
  assumes "counts I X toks cnt" "contents ms \<union> range dedup_stub \<subseteq> X"
    and "I s" "elide sha cnt least seen n ms s = (Ok (out, saved), s')"
    and "I s1" "elide sha cnt least seen n out s1 = (r, s2)"
  shows "r = Raised \<or> r = Ok (out, 0)"
  using assms(2-)
proof (induction ms arbitrary: s seen n out saved s' s1 r s2)
  case Nil
  then show ?case by (simp add: sret_def)
next
  case (Cons m ms)
  have X: "contents ms \<union> range dedup_stub \<subseteq> X"
    using Cons.prems(1) by (auto simp: contents_Cons)
  from Cons.prems(3) show ?case
  proof (cases rule: elide_Cons)
    case (plain d rest)
    note IH = Cons.IH [OF X Cons.prems(2) plain(4)]
    have "elide sha cnt least seen n out s1 =
        sbind (elide sha cnt least seen n rest) (\<lambda>(rest, saved). sret (m # rest, saved)) s1"
      using plain(1-3) by (auto simp: slift_def sbind_def sret_def split: json.split)
    with Cons.prems(5) have "sbind (elide sha cnt least seen n rest)
        (\<lambda>(rest, saved). sret (m # rest, saved)) s1 = (r, s2)" by simp
    then show ?thesis
      unfolding plain(2) by (rule sbind_keep [rotated]) (rule IH [OF Cons.prems(4)])
  next
    case (small d c tokens s3 rest)
    have c: "c \<in> X" using small(1,3) Cons.prems(1) by (auto simp: contents_Cons)
    note counted = countsD [OF assms(1) c]
    from counted [OF Cons.prems(2) small(5)] have "I s3" "tokens = toks c" by auto
    note IH = Cons.IH [OF X \<open>I s3\<close> small(7)]
    obtain rc s4 where cnt: "cnt c s1 = (rc, s4)" by fastforce
    from counted [OF Cons.prems(4) this] show ?thesis
    proof (elim conjE disjE)
      assume "rc = Raised"
      with cnt Cons.prems(5) small(1-4) show ?thesis by (auto simp: slift_def sbind_def sret_def)
    next
      assume "I s4" "rc = Ok (toks c)"
      with cnt Cons.prems(5) small(1-4,6) \<open>tokens = toks c\<close>
      have "sbind (elide sha cnt least seen n rest) (\<lambda>(rest, saved). sret (m # rest, saved)) s4 = (r, s2)"
        by (simp add: slift_def sbind_def sret_def)
      then show ?thesis
        unfolding small(2) by (rule sbind_keep [rotated]) (rule IH [OF \<open>I s4\<close>])
    qed
  next
    case (first d c tokens s3 rest)
    have c: "c \<in> X" using first(1,3) Cons.prems(1) by (auto simp: contents_Cons)
    note counted = countsD [OF assms(1) c]
    from counted [OF Cons.prems(2) first(5)] have "I s3" "tokens = toks c" by auto
    note IH = Cons.IH [OF X \<open>I s3\<close> first(8)]
    obtain rc s4 where cnt: "cnt c s1 = (rc, s4)" by fastforce
    from counted [OF Cons.prems(4) this] show ?thesis
    proof (elim conjE disjE)
      assume "rc = Raised"
      with cnt Cons.prems(5) first(1-4) show ?thesis by (auto simp: slift_def sbind_def sret_def)
    next
      assume "I s4" "rc = Ok (toks c)"
      with cnt Cons.prems(5) first(1-4,6,7) \<open>tokens = toks c\<close>
      have "sbind (elide sha cnt least ((sha c, Suc n) # seen) (Suc n) rest)
          (\<lambda>(rest, saved). sret (m # rest, saved)) s4 = (r, s2)"
        by (simp add: slift_def sbind_def sret_def)
      then show ?thesis
        unfolding first(2) by (rule sbind_keep [rotated]) (rule IH [OF \<open>I s4\<close>])
    qed
  next
    case (again d c tokens s3 i stub_tokens s4 rest saved')
    have c: "c \<in> X" using again(1,3) Cons.prems(1) by (auto simp: contents_Cons)
    have "I s3" using countsD [OF assms(1) c Cons.prems(2) again(5)] by auto
    have stub: "dedup_stub i \<in> X" using X by auto
    have "I s4" using countsD [OF assms(1) stub \<open>I s3\<close> again(8)] by auto
    note IH = Cons.IH [OF X \<open>I s4\<close> again(9)]
    let ?m = "JDict (dict_set d ''content'' (JStr (dedup_stub i)))"
    have "sbind (elide sha cnt least seen n rest) (\<lambda>(rest, saved). sret (?m # rest, saved)) s1 = (r, s2)"
      using Cons.prems(5) again(2)
      by (simp add: slift_def sbind_def sret_def jget_null_def jget_dict_set)
    then show ?thesis
      unfolding again(2) by (rule sbind_keep [rotated]) (rule IH [OF Cons.prems(4)])
  qed
qed

section \<open>The request\<close>

text \<open>The counter of the elision: \<open>len(text) // 4\<close>.\<close>

definition fallback_tokens :: "string \<Rightarrow> int" where
  "fallback_tokens c = int (length c) div 4"

definition fallback_count ::
    "(string \<Rightarrow> string) \<Rightarrow> 's valkey \<Rightarrow> int \<Rightarrow> string \<Rightarrow> string \<Rightarrow> ('s, int) script" where
  "fallback_count sha vk t model = token_count sha (Some vk) t model (\<lambda>c. Inr (fallback_tokens c))"

definition dedup_texts :: "json list \<Rightarrow> string set" where
  "dedup_texts ms = contents ms \<union> range dedup_stub"

lemma fallback_counts:
  assumes "valkey_laws vk" "inj_on sha X"
  shows "counts (counts_agree sha vk t model fallback_tokens X) X fallback_tokens
    (fallback_count sha vk t model)"
  unfolding counts_def fallback_count_def
proof (intro ballI allI impI)
  fix c s r s'
  assume c: "c \<in> X" and agree: "counts_agree sha vk t model fallback_tokens X s"
    and run: "token_count sha (Some vk) t model (\<lambda>c. Inr (fallback_tokens c)) c s = (r, s')"
  from token_count_memo [OF assms(1) agree assms(2) refl c run]
  show "counts_agree sha vk t model fallback_tokens X s' \<and> (r = Raised \<or> r = Ok (fallback_tokens c))"
    by blast
qed

lemma elide_intra_Ok:
  "elide_intra_request sha key cnt least ms tools system s = (Ok (out, tools', system', saved), s') \<Longrightarrow>
     elide sha cnt least [] 0 ms s = (Ok (out, saved), s') \<and> dedup_entry_list key tools = Inr tools'"
  by (auto simp: elide_intra_request_def sbind_Ok slift_def sret_def sraise_def split: sum.splits)


lemma drop_seen_keys:
  "distinct (map key (drop_seen key seen es)) \<and> key ` set (drop_seen key seen es) \<inter> set seen = {}"
  by (induction key seen es rule: drop_seen.induct) auto

lemma drop_seen_id:
  "distinct (map key es) \<Longrightarrow> key ` set es \<inter> set seen = {} \<Longrightarrow> drop_seen key seen es = es"
  by (induction key seen es rule: drop_seen.induct) auto

lemma dedup_entry_list_again:
  assumes "dedup_entry_list key e = Inr e'"
  shows "dedup_entry_list key e' = Inr e'"
  using assms drop_seen_keys [of key "[]"]
  by (auto simp: dedup_entry_list_def rbind_Inr drop_seen_id split: if_splits)

text \<open>
  Eliding is idempotent: the elision of an elided request, at any time and in any state of
  the server, changes neither its messages nor its tools and saves nothing.
\<close>

theorem elision_idempotent:
  assumes "valkey_laws vk" "inj_on sha (dedup_texts ms)"
    and "counts_agree sha vk t model fallback_tokens (dedup_texts ms) s"
    and "elide_intra_request sha key (fallback_count sha vk t model) least ms tools system s =
      (Ok (out, tools', system', saved), s')"
    and "counts_agree sha vk t model fallback_tokens (dedup_texts ms) s1"
    and "elide_intra_request sha key (fallback_count sha vk t model) least out tools' system' s1 =
      (Ok (out2, tools2, system2, saved2), s2)"
  shows "out2 = out \<and> tools2 = tools' \<and> saved2 = 0"
proof -
  note first = elide_intra_Ok [OF assms(4)] and second = elide_intra_Ok [OF assms(6)]
  have "contents ms \<union> range dedup_stub \<subseteq> dedup_texts ms" by (simp add: dedup_texts_def)
  from elide_again [OF fallback_counts [OF assms(1,2), of t model] this assms(3) _ assms(5)] first second
  show ?thesis using dedup_entry_list_again [of key tools tools'] by fastforce
qed

section \<open>The counters\<close>

text \<open>
  The blocks this store observes are never seen by the prompt-cache layer, which it observes
  them for: the two name their counters by different keys.
\<close>

theorem observed_counters_unread:
  "dedup_prefix_key vkey h \<noteq> prefix_counter_key vkey' h'"
  by (simp add: dedup_prefix_key_def prefix_counter_key_def)

section \<open>Instances\<close>

definition twice :: "json list" where
  "twice = [JDict [(''role'', JStr ''user''), (''content'', JStr ''abcdefgh'')],
     JDict [(''role'', JStr ''user''), (''content'', JStr ''abcdefgh'')]]"

lemma empty_counts: "counts_agree sha mem_valkey t model toks X (\<lambda>_. None)"
  by (simp add: counts_agree_def agrees_def mem_valkey_simps)

lemma twice_unmarked: "c \<in> contents twice \<Longrightarrow> \<not> prefix DEDUP_STUB_PREFIX c"
  by (auto simp: twice_def contents_def jget_null_def jget_def DEDUP_STUB_PREFIX_def)

abbreviation demo_elide :: "json list \<Rightarrow> json \<Rightarrow> (mem, json list \<times> json \<times> json \<times> int) script" where
  "demo_elide ms tools \<equiv> elide_intra_request (\<lambda>c. c) (\<lambda>_. []) (fallback_count (\<lambda>c. c) mem_valkey 0 ''m'')
     1 ms tools JNull"

lemma demo_elide_run:
  "\<exists>s saved. demo_elide twice (JList []) (\<lambda>_. None) = (Ok ([hd twice,
     JDict [(''role'', JStr ''user''), (''content'', JStr (dedup_stub 1))]], JList [], JNull, saved), s)"
proof -
  have "int (length ''abcdefgh'') div 4 = 2" by simp
  then show ?thesis
    by (simp add: twice_def elide_intra_request_def fallback_count_def fallback_tokens_def
        token_count_def cache_aside_def script_simps slift_def mem_valkey_simps jget_null_def jget_def
        DEDUP_STUB_PREFIX_def count_enc_def int_of_str_str_int dedup_entry_list_def TOKEN_LEN_TTL_def
        seconds_def token_len_key_def dedup_stub_def)
qed


theorem elision_idempotent_witness:
  "\<exists>out saved s. demo_elide twice (JList []) (\<lambda>_. None) = (Ok (out, JList [], JNull, saved), s) \<and>
     (\<forall>out2 tools2 system2 saved2 s2. demo_elide out (JList []) (\<lambda>_. None) =
        (Ok (out2, tools2, system2, saved2), s2) \<longrightarrow> out2 = out \<and> saved2 = 0)"
proof -
  obtain out s saved where run: "demo_elide twice (JList []) (\<lambda>_. None) =
      (Ok (out, JList [], JNull, saved), s)"
    using demo_elide_run by blast
  with elision_idempotent [OF mem_valkey_laws _ empty_counts run empty_counts] show ?thesis
    by (force simp: inj_on_def)
qed

end
