(* ===== verification/Knowledge.thy ===== *)
theory Knowledge
  imports Scoping PyTime ContentFilter "HOL-Library.AList"
begin

text \<open>
  Retrieval on top of the isolation core: hybrid code search
  (\<open>shared/knowledge/code_search.py\<close>), the unified retriever (\<open>retriever.py\<close>) and the
  injection-safety gateway (\<open>injection_safety.py\<close>). The search backends (vector and full-text
  queries) and the embedder are parameters; \<open>blocks\<close> stands for
  \<open>scanner.should_block(scanner.scan_prompt(text))\<close>; the content filter is the model of
  \<open>ContentFilter\<close>.
\<close>

section \<open>Hybrid code search\<close>

record code_chunk = scoped_record +
  cc_path :: string
  cc_symbol :: "string option"
  cc_kind :: string

text \<open>The score \<open>None\<close> is \<open>float("inf")\<close>.\<close>

record search_result =
  res_chunk_id :: string
  res_path :: string
  res_symbol :: "string option"
  res_kind :: string
  res_content :: string
  res_score :: "rat option"
  res_record :: code_chunk

record 'e code_backend =
  cb_vector_search :: "'e \<Rightarrow> nat \<Rightarrow> string list"
  cb_fts_search :: "string \<Rightarrow> nat \<Rightarrow> string list"
  cb_symbol_exact :: "string \<Rightarrow> scope_key \<Rightarrow> code_chunk option"
  cb_fetch_records :: "string list \<Rightarrow> (string \<times> code_chunk) list"

fun rrf_list :: "nat \<Rightarrow> nat \<Rightarrow> string list \<Rightarrow> (string \<times> rat) list \<Rightarrow> (string \<times> rat) list" where
  "rrf_list k position [] scores = scores"
| "rrf_list k position (d # ds) scores =
     (let s = (case map_of scores d of None \<Rightarrow> 0 | Some x \<Rightarrow> x)
      in rrf_list k (Suc position) ds
           (AList.update d (s + 1 / of_nat (k + position)) scores))"

definition reciprocal_rank_fusion :: "string list list \<Rightarrow> nat \<Rightarrow> (string \<times> rat) list" where
  "reciprocal_rank_fusion rankings k = foldl (\<lambda>scores ds. rrf_list k 1 ds scores) [] rankings"

definition to_result :: "code_chunk \<Rightarrow> rat option \<Rightarrow> search_result" where
  "to_result r score =
     \<lparr>res_chunk_id = sr_id r, res_path = cc_path r, res_symbol = cc_symbol r, res_kind = cc_kind r,
      res_content = sr_content r, res_score = score, res_record = r\<rparr>"

text \<open>
  \<open>None\<close> is the KeyError of \<open>fused_scores[cid]\<close> for a record the backend returned unasked.
\<close>

definition scored_candidates ::
    "(string \<times> rat) list \<Rightarrow> (string \<times> code_chunk) list \<Rightarrow> (code_chunk \<times> rat) list option" where
  "scored_candidates fused records =
     those (map (\<lambda>(cid, r). map_option (Pair r) (map_of fused cid))
       (filter (\<lambda>(cid, r). sr_status r = ''active'') records))"

definition search_code ::
    "(string \<Rightarrow> 'e) \<Rightarrow> 'e code_backend \<Rightarrow> string \<Rightarrow> scope_key \<Rightarrow> nat \<Rightarrow> int \<Rightarrow>
     search_result list option" where
  "search_code embedder b query caller top_k now =
     (let exact = cb_symbol_exact b query caller;
          vector_ranked = cb_vector_search b (embedder query) (top_k * 2);
          fts_ranked = cb_fts_search b query (top_k * 2);
          fused = reciprocal_rank_fusion [vector_ranked, fts_ranked] 60;
          ids = filter (\<lambda>cid. case exact of None \<Rightarrow> True | Some e \<Rightarrow> cid \<noteq> sr_id e) (map fst fused);
          records = cb_fetch_records b ids
      in map_option
           (\<lambda>scored.
              let visible = filter_visible (map fst scored) caller now;
                  visible_ids = map sr_id visible;
                  ordered = sort_key (\<lambda>(r, s). - s) scored
              in take top_k
                   ((case exact of None \<Rightarrow> [] | Some e \<Rightarrow> [to_result e None]) @
                    map (\<lambda>(r, s). to_result r (Some s))
                      (filter (\<lambda>(r, s). sr_id r \<in> set visible_ids) ordered)))
           (scored_candidates fused records))"

section \<open>Write-time and read-time filtering\<close>

record store_filter_result =
  sf_quarantined :: bool
  sf_content :: string
  sf_reason :: "string option"

definition filter_input :: "filter_env \<Rightarrow> int option \<Rightarrow> string \<Rightarrow> filter_result" where
  "filter_input env org text = filter_text env org text ''input''"

definition filter_for_store ::
    "(string \<Rightarrow> bool) \<Rightarrow> filter_env \<Rightarrow> int option \<Rightarrow> string \<Rightarrow> store_filter_result" where
  "filter_for_store blocks env org content =
     (if blocks content
      then \<lparr>sf_quarantined = True, sf_content = content, sf_reason = Some ''injection_detected''\<rparr>
      else let r = filter_input env org content in
        if \<not> fres_allowed r
        then \<lparr>sf_quarantined = True, sf_content = content,
              sf_reason = Some ''content_filter_blocked''\<rparr>
        else \<lparr>sf_quarantined = False, sf_content = fres_filtered_text r, sf_reason = None\<rparr>)"

record injectable_block =
  ib_record_id :: string
  ib_text :: string
  ib_trust :: trust_tier
  ib_token_estimate :: nat

fun trust_value :: "trust_tier \<Rightarrow> string" where
  "trust_value VERIFIED = ''verified''"
| "trust_value CONFIRMED = ''confirmed''"
| "trust_value DERIVED = ''derived''"
| "trust_value UNVERIFIED = ''unverified''"

fun scope_value :: "scope_type \<Rightarrow> string" where
  "scope_value SESSION = ''session''"
| "scope_value USER = ''user''"
| "scope_value REPO = ''repo''"
| "scope_value PROJECT = ''project''"
| "scope_value ORG = ''org''"

definition provenance_header :: "'a scoped_record_scheme \<Rightarrow> int \<Rightarrow> string" where
  "provenance_header r now =
     (let date_str = date_string (case sr_created_at r of None \<Rightarrow> now | Some t \<Rightarrow> t);
          author = (if truthy (sr_author r) then the (sr_author r) else ''unknown'')
      in if sr_trust r = UNVERIFIED
         then ''unverified note captured from user '' @ author @ CHR 0x27 # ''s session on '' @ date_str
         else trust_value (sr_trust r) @ '' '' @ scope_value (sr_scope_type r) @
              ''-scope knowledge from user '' @ author @ '', recorded '' @ date_str)"

definition format_block :: "'a scoped_record_scheme \<Rightarrow> string \<Rightarrow> int \<Rightarrow> string" where
  "format_block r content now =
     (let header = provenance_header r now;
          content_lines = (if splitlines content = [] then [[]] else splitlines content);
          quoted = join [CHR 0x0A] (map (\<lambda>l. ''> '' @ l) content_lines)
      in ''> ['' @ header @ '']'' @ CHR 0x0A # quoted)"

definition inject_block ::
    "(string \<Rightarrow> bool) \<Rightarrow> filter_env \<Rightarrow> int option \<Rightarrow> int \<Rightarrow> 'a scoped_record_scheme \<Rightarrow>
     injectable_block option" where
  "inject_block blocks env org now r =
     (if blocks (sr_content r) then None
      else let res = filter_input env org (sr_content r) in
        if \<not> fres_allowed res then None
        else let text = format_block r (fres_filtered_text res) now
             in Some \<lparr>ib_record_id = sr_id r, ib_text = text, ib_trust = sr_trust r,
                      ib_token_estimate = max 1 (length text div 4)\<rparr>)"

definition filter_for_inject ::
    "(string \<Rightarrow> bool) \<Rightarrow> filter_env \<Rightarrow> int option \<Rightarrow> int \<Rightarrow> 'a scoped_record_scheme list \<Rightarrow>
     injectable_block list" where
  "filter_for_inject blocks env org now rs = List.map_filter (inject_block blocks env org now) rs"

section \<open>The retriever\<close>

type_synonym source = "string \<Rightarrow> scope_key \<Rightarrow> nat \<Rightarrow> scoped_record list"

record knowledge_retriever =
  kr_sources :: "(string \<times> source) list"
  kr_blocks :: "string \<Rightarrow> bool"
  kr_filter :: filter_env
  kr_org :: "int option"

definition retrieve_ranked ::
    "knowledge_retriever \<Rightarrow> string \<Rightarrow> scope_key \<Rightarrow> string list option \<Rightarrow> nat \<Rightarrow> int \<Rightarrow>
     scoped_record list" where
  "retrieve_ranked k query caller sources top_k now =
     (let names = (case sources of Some (x # xs) \<Rightarrow> x # xs | _ \<Rightarrow> map fst (kr_sources k));
          candidates = concat (List.map_filter
            (\<lambda>n. map_option (\<lambda>src. src query caller top_k) (map_of (kr_sources k) n)) names)
      in take top_k (rank (filter_visible candidates caller now)))"

definition retrieve ::
    "knowledge_retriever \<Rightarrow> string \<Rightarrow> scope_key \<Rightarrow> string list option \<Rightarrow> nat \<Rightarrow> int \<Rightarrow>
     injectable_block list" where
  "retrieve k query caller sources top_k now =
     filter_for_inject (kr_blocks k) (kr_filter k) (kr_org k) now
       (retrieve_ranked k query caller sources top_k now)"

text \<open>The pull paths \<open>search_docs\<close> and \<open>memory_search\<close>, which have the same body.\<close>

definition search_docs :: "source \<Rightarrow> string \<Rightarrow> scope_key \<Rightarrow> nat \<Rightarrow> int \<Rightarrow> scoped_record list" where
  "search_docs src query caller top_k now =
     take top_k (rank (filter_visible (src query caller top_k) caller now))"

section \<open>Lemmas\<close>

lemma map_filter_mem: "y \<in> set (List.map_filter f xs) \<longleftrightarrow> (\<exists>x\<in>set xs. f x = Some y)"
  by (induction xs) (auto simp: List.map_filter_simps split: option.splits)

lemma rank_set [simp]: "set (rank rs) = set rs"
  by (simp add: rank_def)

lemma retrieve_ranked_visible:
  assumes "r \<in> set (retrieve_ranked k query caller sources top_k now)"
  shows "is_visible r caller now"
proof -
  from assms have "r \<in> set (filter_visible (concat (List.map_filter
      (\<lambda>n. map_option (\<lambda>src. src query caller top_k) (map_of (kr_sources k) n))
      (case sources of Some (x # xs) \<Rightarrow> x # xs | _ \<Rightarrow> map fst (kr_sources k)))) caller now)"
    unfolding retrieve_ranked_def Let_def by (metis in_set_takeD rank_set)
  then show ?thesis by (simp add: filter_visible_def)
qed

lemma retrieve_ranked_source:
  assumes "r \<in> set (retrieve_ranked k query caller sources top_k now)"
  shows "\<exists>n src. map_of (kr_sources k) n = Some src \<and> r \<in> set (src query caller top_k)"
proof -
  from assms have "r \<in> set (concat (List.map_filter
      (\<lambda>n. map_option (\<lambda>src. src query caller top_k) (map_of (kr_sources k) n))
      (case sources of Some (x # xs) \<Rightarrow> x # xs | _ \<Rightarrow> map fst (kr_sources k))))"
    unfolding retrieve_ranked_def Let_def
    by (metis (no_types, lifting) filter_is_subset filter_visible_def in_set_takeD rank_set subsetD)
  then show ?thesis by (auto simp: map_filter_mem simp del: Option.map_option_case) blast
qed

lemma inject_block_Some:
  assumes "inject_block blocks env org now r = Some b"
  shows "\<not> blocks (sr_content r)" "fres_allowed (filter_input env org (sr_content r))"
    "ib_record_id b = sr_id r"
    "ib_text b = format_block r (fres_filtered_text (filter_input env org (sr_content r))) now"
  using assms by (auto simp: inject_block_def Let_def split: if_splits)

text \<open>The lines of a text, split at newlines only.\<close>

fun newline_lines :: "string \<Rightarrow> string list" where
  "newline_lines [] = [[]]"
| "newline_lines (c # cs) =
     (if c = CHR 0x0A then [] # newline_lines cs
      else case newline_lines cs of l # ls \<Rightarrow> (c # l) # ls | [] \<Rightarrow> [[c]])"

lemma newline_lines_ne [simp]: "newline_lines s \<noteq> []"
  by (induction s) (auto split: list.splits)

lemma newline_lines_plain: "CHR 0x0A \<notin> set l \<Longrightarrow> newline_lines l = [l]"
  by (induction l) auto

lemma newline_lines_append:
  "CHR 0x0A \<notin> set l \<Longrightarrow> newline_lines (l @ CHR 0x0A # s) = l # newline_lines s"
  by (induction l) auto

lemma newline_lines_join:
  "ls \<noteq> [] \<Longrightarrow> \<forall>l\<in>set ls. CHR 0x0A \<notin> set l \<Longrightarrow> newline_lines (join [CHR 0x0A] ls) = ls"
proof (induction ls rule: induct_list012)
  case (3 x y zs)
  have "join [CHR 0x0A] (x # y # zs) = x @ CHR 0x0A # join [CHR 0x0A] (y # zs)" by simp
  moreover have "newline_lines (join [CHR 0x0A] (y # zs)) = y # zs" using 3 by simp
  moreover have "CHR 0x0A \<notin> set x" using 3 by simp
  ultimately show ?case by (metis newline_lines_append)
qed (simp_all add: newline_lines_plain)

lemma splitlines_no_break:
  "\<forall>c\<in>set cur. \<not> line_break c \<Longrightarrow> l \<in> set (splitlines_from cur p s) \<Longrightarrow>
     \<forall>c\<in>set l. \<not> line_break c"
proof (induction s arbitrary: cur p)
  case Nil
  then show ?case by (simp split: if_splits)
next
  case (Cons c cs)
  consider (crlf) "p \<and> c = CHR 0x0A" | (brk) "\<not> (p \<and> c = CHR 0x0A)" "line_break c"
    | (plain) "\<not> (p \<and> c = CHR 0x0A)" "\<not> line_break c" by blast
  then show ?case
  proof cases
    case crlf
    with Cons show ?thesis by simp
  next
    case brk
    with Cons.prems have "l = cur \<or> l \<in> set (splitlines_from [] (c = CHR 0x0D) cs)"
      by (simp only: splitlines_from.simps if_False if_True list.set insert_iff)
    with Cons.IH [of "[]" "c = CHR 0x0D"] Cons.prems(1) show ?thesis by auto
  next
    case plain
    with Cons.prems have "l \<in> set (splitlines_from (cur @ [c]) False cs)"
      by (simp only: splitlines_from.simps if_False)
    with Cons.IH [of "cur @ [c]" False] Cons.prems(1) plain show ?thesis by simp
  qed
qed

lemma format_block_quoted:
  assumes "CHR 0x0A \<notin> set (provenance_header r now)"
  shows "\<forall>l\<in>set (newline_lines (format_block r content now)). startswith ''> '' l"
proof -
  let ?ls = "if splitlines content = [] then [[]] else splitlines content"
  have nb: "CHR 0x0A \<notin> set l" if "l \<in> set ?ls" for l
    using that splitlines_no_break [of "[]" l False content]
    by (auto simp: splitlines_def line_break_def split: if_splits)
  let ?q = "map (\<lambda>l. ''> '' @ l) ?ls"
  have "newline_lines (join [CHR 0x0A] ?q) = ?q"
    using nb by (intro newline_lines_join) auto
  moreover have "newline_lines (format_block r content now) =
      (''> ['' @ provenance_header r now @ '']'') # newline_lines (join [CHR 0x0A] ?q)"
    using newline_lines_append [of "''> ['' @ provenance_header r now @ '']''"] assms
    by (simp add: format_block_def Let_def)
  ultimately show ?thesis by (auto simp: startswith_def)
qed

lemma digits_no_newline: "CHR 0x0A \<notin> set (two_digits n)" "CHR 0x0A \<notin> set (str_int n)"
proof -
  show s: "CHR 0x0A \<notin> set (str_int n)" for n
    using str_nat_digits [of "CHR 0x0A"] by (auto simp: str_int_def is_digit_def)
  show "CHR 0x0A \<notin> set (two_digits n)" using s by (simp add: two_digits_def)
qed

lemma provenance_no_newline:
  assumes "\<forall>a. sr_author r = Some a \<longrightarrow> CHR 0x0A \<notin> set a"
  shows "CHR 0x0A \<notin> set (provenance_header r now)"
proof -
  have "CHR 0x0A \<notin> set (date_string t)" for t
    by (simp add: date_string_def digits_no_newline split: prod.split)
  moreover have "CHR 0x0A \<notin> set (trust_value u)" for u by (cases u) simp_all
  moreover have "CHR 0x0A \<notin> set (scope_value u)" for u by (cases u) simp_all
  moreover have "CHR 0x0A \<notin> set (if truthy (sr_author r) then the (sr_author r) else ''unknown'')"
    using assms by (cases "sr_author r") auto
  ultimately show ?thesis by (simp add: provenance_header_def Let_def)
qed

lemma those_Some_mem: "those xs = Some ys \<Longrightarrow> y \<in> set ys \<Longrightarrow> Some y \<in> set xs"
  by (induction xs arbitrary: ys) (auto split: option.splits)

lemma scored_candidates_mem:
  assumes "scored_candidates fused recs = Some scored" "(r, s) \<in> set scored"
  shows "sr_status r = ''active'' \<and> (\<exists>cid. (cid, r) \<in> set recs \<and> map_of fused cid = Some s)"
proof -
  from those_Some_mem [OF assms(1) [unfolded scored_candidates_def] assms(2)]
  obtain cid x where "(cid, x) \<in> set recs" "sr_status x = ''active''"
    "Some (r, s) = map_option (Pair x) (map_of fused cid)" by auto
  then show ?thesis by (cases "map_of fused cid") auto
qed

section \<open>Properties\<close>


definition demo_retriever :: knowledge_retriever where
  "demo_retriever = \<lparr>kr_sources = [(''docs'', \<lambda>q c n. [demo_record USER ''u2'', demo_record ORG ''o1''])],
     kr_blocks = (\<lambda>_. False), kr_filter = demo_filter, kr_org = None\<rparr>"


text \<open>
  Code search filters what the indexes return but not the exact symbol match: the backend's
  exact match is the first result whatever its organisation, branch or status, while every
  other result is active and readable by the caller.
\<close>

theorem search_code_exact_unfiltered:
  assumes "search_code emb b query c top_k now = Some rs" and "top_k > 0"
    and "\<And>ids. inj_on sr_id (snd ` set (cb_fetch_records b ids))"
  shows "(\<forall>e. cb_symbol_exact b query c = Some e \<longrightarrow> rs \<noteq> [] \<and> res_record (hd rs) = e) \<and>
    (\<forall>x\<in>set rs. res_score x \<noteq> None \<longrightarrow> is_visible (res_record x) c now)"
proof -
  obtain scored ids where scored:
    "scored_candidates (reciprocal_rank_fusion [cb_vector_search b (emb query) (top_k * 2),
        cb_fts_search b query (top_k * 2)] 60) (cb_fetch_records b ids) = Some scored"
    and rs: "rs = take top_k
      ((case cb_symbol_exact b query c of None \<Rightarrow> [] | Some e \<Rightarrow> [to_result e None]) @
       map (\<lambda>(r, s). to_result r (Some s))
         (filter (\<lambda>(r, s). sr_id r \<in> set (map sr_id (filter_visible (map fst scored) c now)))
           (sort_key (\<lambda>(r, s). - s) scored)))"
    using assms(1) by (auto simp: search_code_def Let_def)
  have first: "rs \<noteq> [] \<and> res_record (hd rs) = e" if "cb_symbol_exact b query c = Some e" for e
    using that assms(2) by (cases top_k) (simp_all add: rs to_result_def)
  have "is_visible (res_record x) c now" if x: "x \<in> set rs" "res_score x \<noteq> None" for x
  proof -
    from x(1) have "x \<in> set ((case cb_symbol_exact b query c of None \<Rightarrow> [] | Some e \<Rightarrow> [to_result e None]) @
       map (\<lambda>(r, s). to_result r (Some s))
         (filter (\<lambda>(r, s). sr_id r \<in> set (map sr_id (filter_visible (map fst scored) c now)))
           (sort_key (\<lambda>(r, s). - s) scored)))"
      unfolding rs by (rule in_set_takeD)
    with x(2) obtain r s where r: "x = to_result r (Some s)" "(r, s) \<in> set scored"
      "sr_id r \<in> set (map sr_id (filter_visible (map fst scored) c now))"
      by (auto simp: to_result_def split: option.splits)
    then obtain r' s' where r': "(r', s') \<in> set scored" "is_visible r' c now" "sr_id r' = sr_id r"
      by (auto simp: filter_visible_def)
    from scored_candidates_mem [OF scored r(2)] scored_candidates_mem [OF scored r'(1)]
    have "r \<in> snd ` set (cb_fetch_records b ids)" "r' \<in> snd ` set (cb_fetch_records b ids)"
      by force+
    with assms(3) r'(3) have "r' = r" by (auto dest: inj_onD)
    with r(1) r'(2) show ?thesis by (simp add: to_result_def)
  qed
  with first show ?thesis by blast
qed

definition demo_chunk :: "string \<Rightarrow> string \<Rightarrow> string \<Rightarrow> code_chunk" where
  "demo_chunk cid org status =
     \<lparr>sr_id = cid, sr_content = ''def f'', sr_scope_type = ORG, sr_scope_ref = org,
      sr_trust = DERIVED, sr_author = None, sr_org = org, sr_project = None, sr_repo = None,
      sr_branch = None, sr_version = 1, sr_superseded_by = None, sr_status = status,
      sr_expires_at = None, sr_created_at = None, sr_embedding = None, sr_relevance = 0,
      cc_path = ''f.py'', cc_symbol = Some ''f'', cc_kind = ''function''\<rparr>"

definition demo_backend :: "unit code_backend" where
  "demo_backend = \<lparr>cb_vector_search = (\<lambda>_ _. [''a'', ''b'']), cb_fts_search = (\<lambda>_ _. [''b'']),
     cb_symbol_exact = (\<lambda>_ _. Some (demo_chunk ''x'' ''other'' ''quarantined'')),
     cb_fetch_records = (\<lambda>_. [(''a'', demo_chunk ''a'' ''other'' ''active''),
       (''b'', demo_chunk ''b'' ''o1'' ''active'')])\<rparr>"

theorem search_code_exact_unfiltered_witness:
  "\<not> is_visible (demo_chunk ''x'' ''other'' ''quarantined'') demo_caller 0 \<and>
   res_record (hd (the (search_code (\<lambda>_. ()) demo_backend ''f'' demo_caller 10 0))) =
     demo_chunk ''x'' ''other'' ''quarantined'' \<and>
   map res_chunk_id (the (search_code (\<lambda>_. ()) demo_backend ''f'' demo_caller 10 0)) = [''x'', ''b'']"
proof -
  have ids: "map_option (map res_chunk_id) (search_code (\<lambda>_. ()) demo_backend ''f'' demo_caller 10 0) =
      Some [''x'', ''b'']" by code_simp
  then obtain rs where rs: "search_code (\<lambda>_. ()) demo_backend ''f'' demo_caller 10 0 = Some rs"
    "map res_chunk_id rs = [''x'', ''b'']" by auto
  have "inj_on sr_id (snd ` set (cb_fetch_records demo_backend ids))" for ids
    by (simp add: demo_backend_def demo_chunk_def)
  from search_code_exact_unfiltered [OF rs(1) _ this]
  have "res_record (hd rs) = demo_chunk ''x'' ''other'' ''quarantined''"
    by (simp add: demo_backend_def)
  with rs show ?thesis by (simp add: is_visible_def demo_chunk_def)
qed

end
