(* ===== verification/ScratchpadLaws.thy ===== *)
theory ScratchpadLaws
  imports Scratchpad
begin

text \<open>
  What the scratchpad keeps: only admitted texts are ever read, a value is read back in the hour
  it was written, scopes without a colon in their names are isolated; and where it fails.
\<close>

section \<open>Runs of the operations\<close>

lemmas pad_simps = script_simps on_server_def on_rows_def Let_def

text \<open>What a put leaves behind: nothing changed, or the row written and the server perhaps told.\<close>

lemma pad_put_cases:
  assumes "pad_put env now limits sc key v st = (r, st')"
  obtains (kept) "st' = st" "\<And>res. r \<noteq> Ok (Inr res)"
  | (written) verdict where "filter_on_write (pe_guard env) (Some (sc_org sc)) v = Inr verdict"
      and "ps_rows st' = upsert_row now sc key (wv_filtered_text verdict)
        (if wv_quarantine verdict then ''quarantined'' else ''active'') (now + seconds (pe_ttl env))
        (ps_rows st)"
      and "ps_server st' = ps_server st \<and> r = Raised \<or>
        (\<exists>vk. pe_valkey env = Some vk \<and>
          (if wv_quarantine verdict
           then vk_del vk now (ps_server st) [pad_valkey_key sc key] = Ok (ps_server st')
           else vk_set vk now (ps_server st) (pad_valkey_key sc key)
             (RawText (wv_filtered_text verdict)) (Some (pe_ttl env)) = Ok (ps_server st')) \<and>
          r = Ok (Inr \<lparr>pr_ok = \<not> wv_quarantine verdict, pr_quarantined = wv_quarantine verdict,
            pr_reasons = wv_reasons verdict\<rparr>))"
  using assms
  by (auto simp: pad_put_def pad_simps split: if_splits sum.splits option.splits reply.splits
      prod.splits)

text \<open>A read changes at most the hot copy of an active row.\<close>

lemma pad_get_cases:
  assumes "pad_get env now sc key st = (r, st')"
  obtains (same) "st' = st"
      and "\<And>v. r = Ok (Some v) \<Longrightarrow> \<exists>vk. pe_valkey env = Some vk \<and>
        vk_get vk now (ps_server st) (pad_valkey_key sc key) = Ok (Some (RawText v))"
  | (warmed) vk row where "pe_valkey env = Some vk"
      and "select_row sc key (ps_rows st) = Some row" "pw_status row = ''active''"
      and "vk_set vk now (ps_server st) (pad_valkey_key sc key) (RawText (pw_value row))
        (Some (pe_ttl env)) = Ok (ps_server st')"
      and "ps_rows st' = ps_rows st" "r = Ok (Some (pw_value row))"
proof (cases "pe_valkey env")
  case None
  with assms show ?thesis by (intro same) (auto simp: pad_get_def pad_simps)
next
  case (Some vk)
  note client = this
  show ?thesis
  proof (cases "vk_get vk now (ps_server st) (pad_valkey_key sc key)")
    case Raised
    with assms client show ?thesis by (intro same) (auto simp: pad_get_def pad_simps)
  next
    case (Ok cached)
    show ?thesis
    proof (cases cached)
      case None
      with assms client Ok have cold: "st' = st \<and> (\<forall>v. r \<noteq> Ok (Some v)) \<or> (\<exists>row.
          select_row sc key (ps_rows st) = Some row \<and> pw_status row = ''active'' \<and>
          vk_set vk now (ps_server st) (pad_valkey_key sc key) (RawText (pw_value row))
            (Some (pe_ttl env)) = Ok (ps_server st') \<and>
          ps_rows st' = ps_rows st \<and> r = Ok (Some (pw_value row)))"
        by (auto simp: pad_get_def pad_simps split: if_splits option.splits reply.splits)
      then show ?thesis
      proof
        assume "st' = st \<and> (\<forall>v. r \<noteq> Ok (Some v))"
        then show ?thesis by (intro same) auto
      next
        assume "\<exists>row. select_row sc key (ps_rows st) = Some row \<and> pw_status row = ''active'' \<and>
          vk_set vk now (ps_server st) (pad_valkey_key sc key) (RawText (pw_value row))
            (Some (pe_ttl env)) = Ok (ps_server st') \<and>
          ps_rows st' = ps_rows st \<and> r = Ok (Some (pw_value row))"
        then show ?thesis using warmed [OF client] by blast
      qed
    next
      case (Some b)
      with assms client Ok show ?thesis
        by (intro same) (cases b; auto simp: pad_get_def pad_simps)+
    qed
  qed
qed

lemma pad_delete_cases:
  assumes "pad_delete env now sc key st = (r, st')"
  obtains (kept) "st' = st" "r = Raised"
  | (gone) vk where "pe_valkey env = Some vk"
      and "vk_del vk now (ps_server st) [pad_valkey_key sc key] = Ok (ps_server st')"
      and "ps_rows st' = delete_row sc key (ps_rows st)"
  using assms
  by (auto simp: pad_delete_def pad_simps split: option.splits reply.splits prod.splits)

section \<open>Histories\<close>

definition is_pad_key :: "string \<Rightarrow> bool" where
  "is_pad_key k \<longleftrightarrow> (\<exists>sc key. k = pad_valkey_key sc key)"

text \<open>
  The time and the state; between the operations other parts of the program use the server, on
  keys of their own.
\<close>

inductive pad_step :: "'s pad_env \<Rightarrow> int \<times> 's pad_state \<Rightarrow> int \<times> 's pad_state \<Rightarrow> bool" for env where
  put: "t \<le> t' \<Longrightarrow> pad_put env t' limits sc key v st = (r, st') \<Longrightarrow> pad_step env (t, st) (t', st')"
| get: "t \<le> t' \<Longrightarrow> pad_get env t' sc key st = (r', st') \<Longrightarrow> pad_step env (t, st) (t', st')"
| delete: "t \<le> t' \<Longrightarrow> pad_delete env t' sc key st = (d, st') \<Longrightarrow> pad_step env (t, st) (t', st')"
| other: "t \<le> t' \<Longrightarrow> pe_valkey env = Some vk \<Longrightarrow>
    (\<And>u k. t' \<le> u \<Longrightarrow> is_pad_key k \<Longrightarrow> vk_get vk u s k = vk_get vk u (ps_server st) k) \<Longrightarrow>
    pad_step env (t, st) (t', st\<lparr>ps_server := s\<rparr>)"

definition hot_ok :: "guard \<Rightarrow> 's valkey \<Rightarrow> int \<Rightarrow> 's \<Rightarrow> bool" where
  "hot_ok g vk t s \<longleftrightarrow> (\<forall>u k v. t \<le> u \<longrightarrow> is_pad_key k \<longrightarrow>
     vk_get vk u s k = Ok (Some (RawText v)) \<longrightarrow> (\<exists>org. admitted g (Some org) v))"

definition rows_ok :: "guard \<Rightarrow> pad_row list \<Rightarrow> bool" where
  "rows_ok g rows \<longleftrightarrow> (\<forall>r\<in>set rows. pw_status r = ''active'' \<longrightarrow>
     admitted g (Some (sc_org (pw_scope r))) (pw_value r))"

definition pad_ok :: "'s pad_env \<Rightarrow> 's valkey \<Rightarrow> int \<times> 's pad_state \<Rightarrow> bool" where
  "pad_ok env vk c \<longleftrightarrow> rows_ok (pe_guard env) (ps_rows (snd c)) \<and>
     hot_ok (pe_guard env) vk (fst c) (ps_server (snd c))"

lemma hot_ok_later: "hot_ok g vk t s \<Longrightarrow> t \<le> t' \<Longrightarrow> hot_ok g vk t' s"
  unfolding hot_ok_def by (meson order_trans)

lemma hot_okD:
  "hot_ok g vk t s \<Longrightarrow> t \<le> u \<Longrightarrow> is_pad_key k \<Longrightarrow> vk_get vk u s k = Ok (Some (RawText v)) \<Longrightarrow>
     \<exists>org. admitted g (Some org) v"
  unfolding hot_ok_def by blast

lemma is_pad_key [simp]: "is_pad_key (pad_valkey_key sc key)"
  by (auto simp: is_pad_key_def)

lemma hot_ok_set:
  assumes "valkey_laws vk" "hot_ok g vk t s" "vk_set vk t s k (RawText v) ex = Ok s'"
    and "admitted g (Some org) v"
  shows "hot_ok g vk t s'"
  using assms valkey_get_set [OF assms(1,3)]
  by (auto simp: hot_ok_def split: if_splits)

lemma hot_ok_del:
  assumes "valkey_laws vk" "hot_ok g vk t s" "vk_del vk t s ks = Ok s'"
  shows "hot_ok g vk t s'"
  using assms valkey_get_del [OF assms(1,3)]
  by (auto simp: hot_ok_def split: if_splits)

lemma select_row_Some:
  "select_row sc key rows = Some r \<Longrightarrow> r \<in> set rows \<and> pw_scope r = sc \<and> pw_key r = key"
  by (auto simp: select_row_def find_Some_iff)

lemma rows_ok_upsert:
  "rows_ok g rows \<Longrightarrow> (status = ''active'' \<Longrightarrow> admitted g (Some (sc_org sc)) v) \<Longrightarrow>
     rows_ok g (upsert_row now sc key v status expires rows)"
  by (auto simp: rows_ok_def upsert_row_def)

lemma pad_put_keeps:
  assumes laws: "valkey_laws vk" and env: "pe_valkey env = Some vk"
    and ok: "pad_ok env vk (t, st)" and put: "pad_put env t limits sc key v st = (r, st')"
  shows "pad_ok env vk (t, st')"
  using put
proof (cases rule: pad_put_cases)
  case kept
  with ok show ?thesis by simp
next
  case (written verdict)
  have adm: "\<not> wv_quarantine verdict \<Longrightarrow>
      admitted (pe_guard env) (Some (sc_org sc)) (wv_filtered_text verdict)"
    using write_admits [OF written(1)] by blast
  have "rows_ok (pe_guard env) (ps_rows st')"
    unfolding written(2) using ok adm by (auto simp: pad_ok_def intro!: rows_ok_upsert)
  moreover have "hot_ok (pe_guard env) vk t (ps_server st')"
  proof (cases "ps_server st' = ps_server st")
    case True
    with ok show ?thesis by (simp add: pad_ok_def)
  next
    case False
    have hot: "hot_ok (pe_guard env) vk t (ps_server st)" using ok by (simp add: pad_ok_def)
    show ?thesis
    proof (cases "wv_quarantine verdict")
      case True
      with False written(3) env hot_ok_del [OF laws hot] show ?thesis by auto
    next
      case admitted: False
      with False written(3) env hot_ok_set [OF laws hot _ adm [OF admitted]] show ?thesis by auto
    qed
  qed
  ultimately show ?thesis by (simp add: pad_ok_def)
qed

lemma pad_get_keeps:
  assumes laws: "valkey_laws vk" and env: "pe_valkey env = Some vk"
    and ok: "pad_ok env vk (t, st)" and get: "pad_get env t sc key st = (r, st')"
  shows "pad_ok env vk (t, st')"
  using get
proof (cases rule: pad_get_cases)
  case same
  with ok show ?thesis by simp
next
  case (warmed vk' row)
  then have "admitted (pe_guard env) (Some (sc_org (pw_scope row))) (pw_value row)"
    using ok select_row_Some [OF warmed(2)] by (auto simp: pad_ok_def rows_ok_def)
  with warmed env ok hot_ok_set [OF laws] show ?thesis by (auto simp: pad_ok_def)
qed

lemma pad_delete_keeps:
  assumes laws: "valkey_laws vk" and env: "pe_valkey env = Some vk"
    and ok: "pad_ok env vk (t, st)" and del: "pad_delete env t sc key st = (r, st')"
  shows "pad_ok env vk (t, st')"
  using del
proof (cases rule: pad_delete_cases)
  case kept
  with ok show ?thesis by simp
next
  case (gone vk')
  with env ok hot_ok_del [OF laws] show ?thesis
    by (auto simp: pad_ok_def rows_ok_def delete_row_def)
qed

lemma pad_step_keeps:
  assumes "valkey_laws vk" "pe_valkey env = Some vk" "pad_step env c c'" "pad_ok env vk c"
  shows "pad_ok env vk c'"
  using assms(3,4)
proof (induction rule: pad_step.induct)
  case (put t t' limits sc key v st r st')
  then have "pad_ok env vk (t', st)" by (auto simp: pad_ok_def intro: hot_ok_later)
  then show ?case using pad_put_keeps [OF assms(1,2)] put by blast
next
  case (get t t' sc key st r' st')
  then have "pad_ok env vk (t', st)" by (auto simp: pad_ok_def intro: hot_ok_later)
  then show ?case using pad_get_keeps [OF assms(1,2)] get by blast
next
  case (delete t t' sc key st d st')
  then have "pad_ok env vk (t', st)" by (auto simp: pad_ok_def intro: hot_ok_later)
  then show ?case using pad_delete_keeps [OF assms(1,2)] delete by blast
next
  case (other t t' vk' s st)
  then have vk: "vk' = vk" using assms(2) by simp
  have hot: "hot_ok (pe_guard env) vk t (ps_server st)" using other.prems by (simp add: pad_ok_def)
  have "hot_ok (pe_guard env) vk t' s"
    unfolding hot_ok_def
  proof (intro allI impI)
    fix u k v
    assume u: "t' \<le> u" "is_pad_key k" "vk_get vk u s k = Ok (Some (RawText v))"
    with other.hyps(3) [OF u(1,2)] vk have "vk_get vk u (ps_server st) k = Ok (Some (RawText v))" by simp
    then show "\<exists>org. admitted (pe_guard env) (Some org) v"
      by (rule hot_okD [OF hot order_trans [OF other.hyps(1) u(1)] u(2)])
  qed
  with other.prems show ?case by (simp add: pad_ok_def)
qed

definition pad_fresh :: "'s valkey \<Rightarrow> int \<times> 's pad_state \<Rightarrow> bool" where
  "pad_fresh vk c \<longleftrightarrow> ps_rows (snd c) = [] \<and>
     (\<forall>u k. fst c \<le> u \<longrightarrow> is_pad_key k \<longrightarrow> vk_get vk u (ps_server (snd c)) k = Ok None)"

text \<open>
  C17. Whatever sequence of operations ran before, a value read from the scratchpad was let
  through by the scanner and the content filter when it was written, and is what the filter made
  of it: no quarantined text is ever read, from either tier.
\<close>

theorem reads_are_admitted:
  assumes "valkey_laws vk" "pe_valkey env = Some vk" "pad_fresh vk c0"
    and "(pad_step env)\<^sup>*\<^sup>* c0 (t, st)" "t \<le> t'" "pad_get env t' sc key st = (Ok (Some v), st')"
  shows "\<exists>org. admitted (pe_guard env) (Some org) v"
proof -
  have "pad_ok env vk c0"
    using assms(3) by (auto simp: pad_fresh_def pad_ok_def rows_ok_def hot_ok_def)
  with assms(4) have "pad_ok env vk (t, st)"
    by (induction rule: rtranclp_induct) (auto intro: pad_step_keeps [OF assms(1,2)])
  then have ok: "pad_ok env vk (t', st)" using assms(5) by (auto simp: pad_ok_def intro: hot_ok_later)
  show ?thesis
    using assms(6)
  proof (cases rule: pad_get_cases)
    case same
    with assms(2) have "vk_get vk t' (ps_server st) (pad_valkey_key sc key) = Ok (Some (RawText v))"
      by auto
    with ok show ?thesis by (auto simp: pad_ok_def intro: hot_okD [OF _ order_refl is_pad_key])
  next
    case (warmed vk' row)
    with ok select_row_Some [OF warmed(2)] show ?thesis by (auto simp: pad_ok_def rows_ok_def)
  qed
qed

section \<open>Reading back\<close>

lemma hot_read:
  assumes "pe_valkey env = Some vk"
    and "vk_get vk t (ps_server st) (pad_valkey_key sc key) = Ok (Some (RawText v))"
  shows "pad_get env t sc key st = (Ok (Some v), st)"
  using assms by (simp add: pad_get_def pad_simps)

lemma put_warms:
  assumes "valkey_laws vk" "pe_valkey env = Some vk"
    and "pad_put env t limits sc key v st = (Ok (Inr r), st')" "pr_ok r"
    and "t \<le> t'" "t' < t + seconds (pe_ttl env)"
  shows "\<exists>verdict. filter_on_write (pe_guard env) (Some (sc_org sc)) v = Inr verdict \<and>
    vk_get vk t' (ps_server st') (pad_valkey_key sc key) =
      Ok (Some (RawText (wv_filtered_text verdict)))"
  using assms(3)
proof (cases rule: pad_put_cases)
  case (written verdict)
  with assms(2,4) have "vk_set vk t (ps_server st) (pad_valkey_key sc key)
      (RawText (wv_filtered_text verdict)) (Some (pe_ttl env)) = Ok (ps_server st')"
    by auto
  from valkey_get_set [OF assms(1) this assms(5), of "pad_valkey_key sc key"] written(1) assms(6)
  show ?thesis by (simp add: expired_def)
qed blast

text \<open>
  A value that was stored is read back, as the filter left it, by every read of its scope and
  key until the time to live has passed, and the read changes nothing.
\<close>

theorem put_then_get:
  assumes "valkey_laws vk" "pe_valkey env = Some vk"
    and "pad_put env t limits sc key v st = (Ok (Inr r), st')" "pr_ok r"
    and "t \<le> t'" "t' < t + seconds (pe_ttl env)"
  shows "\<exists>verdict. filter_on_write (pe_guard env) (Some (sc_org sc)) v = Inr verdict \<and>
    pad_get env t' sc key st' = (Ok (Some (wv_filtered_text verdict)), st')"
  using put_warms [OF assms] hot_read [OF assms(2)] by blast

section \<open>Isolation\<close>

definition colon_free :: "pad_scope \<Rightarrow> string \<Rightarrow> bool" where
  "colon_free sc key \<longleftrightarrow> CHR '':'' \<notin> set (sc_session sc) \<and> CHR '':'' \<notin> set key"

lemma pad_valkey_key_inj:
  assumes "colon_free sc key" "colon_free sc' key'"
    and eq: "pad_valkey_key sc key = pad_valkey_key sc' key'"
  shows "sc = sc' \<and> key = key'"
proof -
  have free: "CHR '':'' \<notin> set (sc_session sc)" "CHR '':'' \<notin> set (sc_session sc')"
    using assms(1,2) by (simp_all add: colon_free_def)
  have "str_int (sc_org sc) @ CHR '':'' # sc_session sc @ CHR '':'' # str_int (sc_user sc) @ CHR '':'' # key =
      str_int (sc_org sc') @ CHR '':'' # sc_session sc' @ CHR '':'' # str_int (sc_user sc') @ CHR '':'' # key'"
    using eq by (simp add: pad_valkey_key_def)
  from append_colon_inj [OF str_int_no_colon str_int_no_colon this]
  have org: "sc_org sc = sc_org sc'" and rest: "sc_session sc @ CHR '':'' # str_int (sc_user sc) @ CHR '':'' # key =
      sc_session sc' @ CHR '':'' # str_int (sc_user sc') @ CHR '':'' # key'"
    by (auto dest: str_int_inj)
  from append_colon_inj [OF free rest]
  have session: "sc_session sc = sc_session sc'" and rest: "str_int (sc_user sc) @ CHR '':'' # key =
      str_int (sc_user sc') @ CHR '':'' # key'"
    by auto
  from append_colon_inj [OF str_int_no_colon str_int_no_colon this(2)] org session
  show ?thesis by (auto intro!: pad_scope.equality dest: str_int_inj)
qed

lemma select_row_upsert:
  "(sc, key) \<noteq> (sc', key') \<Longrightarrow>
     select_row sc' key' (upsert_row now sc key v status e rows) = select_row sc' key' rows"
proof -
  assume other: "(sc, key) \<noteq> (sc', key')"
  have "select_row sc' key' (map (\<lambda>r. if pw_scope r = sc \<and> pw_key r = key then f r else r) rows) =
      select_row sc' key' rows" if "\<And>r. pw_scope (f r) = pw_scope r \<and> pw_key (f r) = pw_key r" for f
    using other that by (induction rows) (auto simp: select_row_def)
  moreover have "select_row sc' key' (rows @ [x]) = select_row sc' key' rows"
    if "pw_scope x = sc" "pw_key x = key" for x
    using other that by (induction rows) (auto simp: select_row_def)
  ultimately show ?thesis by (simp add: upsert_row_def)
qed


text \<open>Scope and key decide what is read; the tables and the servers may differ elsewhere.\<close>

lemma pad_get_agree:
  assumes "pe_valkey env = Some vk" "valkey_up vk"
    and "select_row sc key (ps_rows st') = select_row sc key (ps_rows st)"
    and "vk_get vk t (ps_server st') (pad_valkey_key sc key) =
      vk_get vk t (ps_server st) (pad_valkey_key sc key)"
  shows "fst (pad_get env t sc key st') = fst (pad_get env t sc key st)"
proof -
  obtain s1 where s1: "vk_set vk t (ps_server st') k v ex = Ok (s1 k v ex)" for k v ex
    using valkey_up_set [OF assms(2)] by metis
  obtain s2 where s2: "vk_set vk t (ps_server st) k v ex = Ok (s2 k v ex)" for k v ex
    using valkey_up_set [OF assms(2)] by metis
  show ?thesis
    using assms(1,3,4) s1 s2
    by (simp add: pad_get_def pad_simps split: option.split reply.split)
qed

text \<open>
  C20. Scopes are isolated, for sessions and keys without a colon: what one user stores under one
  session changes no read of another organisation, session, user or key.
\<close>

theorem pad_isolated:
  assumes "valkey_laws vk" "valkey_up vk" "pe_valkey env = Some vk"
    and "colon_free sc key" "colon_free sc' key'" "(sc, key) \<noteq> (sc', key')"
    and "pad_put env t limits sc key v st = (r, st')" "t \<le> t'"
  shows "fst (pad_get env t' sc' key' st') = fst (pad_get env t' sc' key' st)"
  using assms(7)
proof (cases rule: pad_put_cases)
  case (written verdict)
  have other: "pad_valkey_key sc' key' \<noteq> pad_valkey_key sc key"
    using pad_valkey_key_inj [OF assms(4,5)] assms(6) by auto
  show ?thesis
  proof (rule pad_get_agree [OF assms(3,2)])
    show "select_row sc' key' (ps_rows st') = select_row sc' key' (ps_rows st)"
      unfolding written(2) by (rule select_row_upsert [OF assms(6)])
    show "vk_get vk t' (ps_server st') (pad_valkey_key sc' key') =
        vk_get vk t' (ps_server st) (pad_valkey_key sc' key')"
    proof (cases "ps_server st' = ps_server st")
      case False
      with written(3) assms(3) show ?thesis
        using other valkey_get_set [OF assms(1) _ assms(8)] valkey_get_del [OF assms(1) _ assms(8)]
        by (auto split: if_splits)
    qed simp
  qed
qed simp

text \<open>
  With colons they are not: what one user stores in a session is read by another user of the
  organisation, in another session, under another key, because the two keys of the hot tier
  are the same text.
\<close>

theorem scopes_share_values:
  assumes "valkey_laws vk" "pe_valkey env = Some vk"
    and "pad_put env t limits \<lparr>sc_org = i, sc_session = s @ '':'' @ str_int u, sc_user = u'\<rparr> key v st =
      (Ok (Inr r), st')" "pr_ok r"
    and "t \<le> t'" "t' < t + seconds (pe_ttl env)"
  shows "\<exists>verdict. filter_on_write (pe_guard env) (Some i) v = Inr verdict \<and>
    pad_get env t' \<lparr>sc_org = i, sc_session = s, sc_user = u\<rparr> (str_int u' @ '':'' @ key) st' =
      (Ok (Some (wv_filtered_text verdict)), st')"
proof -
  let ?k = "pad_valkey_key \<lparr>sc_org = i, sc_session = s @ '':'' @ str_int u, sc_user = u'\<rparr> key"
  have same: "pad_valkey_key \<lparr>sc_org = i, sc_session = s, sc_user = u\<rparr> (str_int u' @ '':'' @ key) = ?k"
    by (simp add: pad_valkey_key_def)
  from put_warms [OF assms] obtain verdict where
    "filter_on_write (pe_guard env) (Some i) v = Inr verdict"
    "vk_get vk t' (ps_server st') ?k = Ok (Some (RawText (wv_filtered_text verdict)))"
    by auto
  with hot_read [OF assms(2), of t' st' "\<lparr>sc_org = i, sc_session = s, sc_user = u\<rparr>"
      "str_int u' @ '':'' @ key"] same
  show ?thesis by auto
qed

section \<open>Limits and expiry\<close>

lemma count_upsert:
  assumes "select_row sc key rows = Some row" "pw_status row \<noteq> ''active''"
    and "distinct (map (\<lambda>r. (pw_scope r, pw_key r)) rows)"
  shows "count_active_keys sc (upsert_row now sc key v ''active'' e rows) =
    Suc (count_active_keys sc rows)"
proof -
  let ?f = "\<lambda>r. if pw_scope r = sc \<and> pw_key r = key
    then r\<lparr>pw_value := v, pw_status := ''active'', pw_expires_at := Some e,
      pw_updated_at := now, pw_version := pw_version r + 1\<rparr> else r"
  have same: "active_rows sc (map ?f rows) = active_rows sc rows"
    if "(sc, key) \<notin> (\<lambda>r. (pw_scope r, pw_key r)) ` set rows" for rows
    using that by (induction rows) (auto simp: active_rows_def)
  have "length (active_rows sc (map ?f rows)) = Suc (length (active_rows sc rows))"
    using assms
  proof (induction rows)
    case (Cons r rows)
    show ?case
    proof (cases "pw_scope r = sc \<and> pw_key r = key")
      case True
      with Cons.prems have "r = row" "(sc, key) \<notin> (\<lambda>r. (pw_scope r, pw_key r)) ` set rows"
        by (auto simp: select_row_def)
      with True same Cons.prems(2) show ?thesis by (simp add: active_rows_def)
    next
      case False
      with Cons show ?thesis by (auto simp: active_rows_def select_row_def)
    qed
  qed (simp add: select_row_def)
  with assms(1) show ?thesis by (simp add: upsert_row_def count_active_keys_def)
qed

text \<open>
  The limit on keys can be passed: a quarantined row does not count as a key, but storing a
  clean value over it asks for no place. Such a put succeeds whatever the limit is, and the
  session has one key more.
\<close>

theorem key_limit_bypassed:
  assumes "pe_valkey env = Some vk" "valkey_up vk"
    and "select_row sc key (ps_rows st) = Some row" "pw_status row = ''quarantined''"
    and "distinct (map (\<lambda>r. (pw_scope r, pw_key r)) (ps_rows st))"
    and "pe_utf8 env v \<le> pl_max_value_kb limits * 1024"
    and "filter_on_write (pe_guard env) (Some (sc_org sc)) v = Inr verdict" "\<not> wv_quarantine verdict"
  shows "\<exists>r st'. pad_put env now limits sc key v st = (Ok (Inr r), st') \<and> pr_ok r \<and>
    count_active_keys sc (ps_rows st') = Suc (count_active_keys sc (ps_rows st))"
proof -
  obtain s' where "vk_set vk now (ps_server st) (pad_valkey_key sc key)
      (RawText (wv_filtered_text verdict)) (Some (pe_ttl env)) = Ok s'"
    using valkey_up_set [OF assms(2)] by blast
  with assms show ?thesis
    by (simp add: pad_put_def pad_simps count_upsert)
qed

text \<open>
  The durable tier cannot be read where the driver returns the times as the column stores
  them, without a time zone: once the server has lost a value, every read of it raises.
\<close>

theorem cold_read_raises:
  assumes "\<not> pe_aware env" "pe_valkey env = Some vk"
    and "vk_get vk t (ps_server st) (pad_valkey_key sc key) = Ok None"
    and "select_row sc key (ps_rows st) = Some row" "pw_status row = ''active''"
    and "pw_expires_at row = Some e"
  shows "pad_get env t sc key st = (Raised, st)"
  using assms by (simp add: pad_get_def pad_simps)

text \<open>
  A value can outlive its expiry: a read of the durable tier in the last instant warms the
  server for a whole time to live, and reads until then answer with the expired value.
\<close>

theorem rewarmed_outlives_expiry:
  assumes "valkey_laws vk" "valkey_up vk" "pe_valkey env = Some vk" "pe_aware env"
    and "vk_get vk t (ps_server st) (pad_valkey_key sc key) = Ok None"
    and "select_row sc key (ps_rows st) = Some row" "pw_status row = ''active''"
    and "pw_expires_at row = Some t" "t < t'" "t' < t + seconds (pe_ttl env)"
  shows "\<exists>st'. pad_get env t sc key st = (Ok (Some (pw_value row)), st') \<and>
    pad_get env t' sc key st' = (Ok (Some (pw_value row)), st')"
proof -
  let ?k = "pad_valkey_key sc key"
  obtain s' where s': "vk_set vk t (ps_server st) ?k (RawText (pw_value row)) (Some (pe_ttl env)) = Ok s'"
    using valkey_up_set [OF assms(2)] by blast
  have "pad_get env t sc key st = (Ok (Some (pw_value row)), st\<lparr>ps_server := s'\<rparr>)"
    using assms(3-8) s' by (simp add: pad_get_def pad_simps)
  moreover have "vk_get vk t' s' ?k = Ok (Some (RawText (pw_value row)))"
    using valkey_get_set [OF assms(1) s', of t' ?k] assms(9,10) by (simp add: expired_def)
  ultimately show ?thesis using hot_read [OF assms(3), of t' "st\<lparr>ps_server := s'\<rparr>" sc key] by simp
qed

section \<open>Instances\<close>

text \<open>A guard that blocks one text, and a store over the server in memory.\<close>

definition demo_guard :: guard where
  "demo_guard = \<lparr>gd_scan = \<lambda>ms. Inr ([], ms),
     gd_filter = \<lambda>org s. \<lparr>fres_allowed = (s \<noteq> ''bad''), fres_action = ''allow'', fres_violations = [],
       fres_filtered_text = s, fres_auditor_used = False\<rparr>,
     gd_isoformat = \<lambda>_. ''now''\<rparr>"

definition demo_pad :: "bool \<Rightarrow> mem pad_env" where
  "demo_pad aware = \<lparr>pe_valkey = Some mem_valkey, pe_guard = demo_guard, pe_ttl = 60,
     pe_utf8 = length, pe_repr = (\<lambda>s. s), pe_aware = aware, pe_collate = (\<lambda>_. 0)\<rparr>"

definition demo_scope :: pad_scope where
  "demo_scope = \<lparr>sc_org = 1, sc_session = ''s'', sc_user = 5\<rparr>"

definition empty_pad :: "mem pad_state" where
  "empty_pad = \<lparr>ps_server = \<lambda>_. None, ps_rows = []\<rparr>"

lemma demo_pad_sel [simp]:
  "pe_valkey (demo_pad a) = Some mem_valkey" "pe_guard (demo_pad a) = demo_guard"
  "pe_ttl (demo_pad a) = 60" "pe_utf8 (demo_pad a) = length" "pe_aware (demo_pad a) = a"
  by (simp_all add: demo_pad_def)

lemma demo_verdict:
  "filter_on_write demo_guard org ''hi'' = Inr \<lparr>wv_ok = True, wv_quarantine = False,
     wv_filtered_text = ''hi'', wv_reasons = []\<rparr>"
  by (simp add: filter_on_write_def demo_guard_def should_block_def)

lemma demo_pad_put:
  "\<exists>r st. pad_put (demo_pad a) 0 default_limits sc key ''hi'' empty_pad = (Ok (Inr r), st) \<and> pr_ok r \<and>
     ps_rows st = [\<lparr>pw_scope = sc, pw_key = key, pw_value = ''hi'', pw_status = ''active'',
        pw_expires_at = Some 60000000, pw_updated_at = 0, pw_version = 1\<rparr>]"
  by (simp add: pad_put_def pad_simps demo_verdict default_limits_def empty_pad_def select_row_def
      count_active_keys_def active_rows_def upsert_row_def mem_valkey_simps seconds_def)

theorem put_then_get_witness:
  "\<exists>st. pad_get (demo_pad False) 59000000 demo_scope ''k'' st = (Ok (Some ''hi''), st)"
proof -
  obtain r st where "pad_put (demo_pad False) 0 default_limits demo_scope ''k'' ''hi'' empty_pad =
      (Ok (Inr r), st)" "pr_ok r"
    using demo_pad_put by blast
  from put_then_get [OF mem_valkey_laws _ this, of 59000000] show ?thesis
    by (auto simp: demo_verdict seconds_def)
qed

theorem pad_isolated_witness:
  "\<exists>r st. pad_put (demo_pad False) 0 default_limits demo_scope ''k'' ''hi'' empty_pad = (r, st) \<and>
     fst (pad_get (demo_pad False) 1 (demo_scope\<lparr>sc_user := 6\<rparr>) ''k'' st) =
     fst (pad_get (demo_pad False) 1 (demo_scope\<lparr>sc_user := 6\<rparr>) ''k'' empty_pad)"
proof -
  obtain r st where "pad_put (demo_pad False) 0 default_limits demo_scope ''k'' ''hi'' empty_pad = (r, st)"
    by fastforce
  from pad_isolated [OF mem_valkey_laws mem_valkey_up _ _ _ _ this, of "demo_scope\<lparr>sc_user := 6\<rparr>" "''k''" 1]
    this show ?thesis
    by (auto simp: colon_free_def demo_scope_def)
qed

theorem scopes_share_values_witness:
  "\<exists>st. pad_get (demo_pad False) 1 demo_scope ''7:k'' st = (Ok (Some ''hi''), st)"
proof -
  obtain r st where "pad_put (demo_pad False) 0 default_limits
      \<lparr>sc_org = 1, sc_session = ''s'' @ '':'' @ str_int 5, sc_user = 7\<rparr> ''k'' ''hi'' empty_pad =
      (Ok (Inr r), st)" "pr_ok r"
    using demo_pad_put by blast
  moreover have "str_int 7 @ '':'' @ ''k'' = ''7:k''" by code_simp
  ultimately show ?thesis
    using scopes_share_values [OF mem_valkey_laws _, of "demo_pad False" 0 default_limits 1 "''s''" 5 7
        "''k''" "''hi''" empty_pad r st 1]
    by (auto simp: demo_verdict seconds_def demo_scope_def)
qed

lemma empty_pad_fresh: "pad_fresh mem_valkey (0, empty_pad)"
  by (simp add: pad_fresh_def empty_pad_def mem_valkey_simps)

theorem reads_are_admitted_witness:
  "\<exists>org. admitted demo_guard (Some org) ''hi''"
proof -
  obtain r st where put: "pad_put (demo_pad False) 0 default_limits demo_scope ''k'' ''hi'' empty_pad =
      (Ok (Inr r), st)" "pr_ok r"
    using demo_pad_put by blast
  then have "pad_step (demo_pad False) (0, empty_pad) (0, st)" by (intro pad_step.put) simp_all
  then have "(pad_step (demo_pad False))\<^sup>*\<^sup>* (0, empty_pad) (0, st)" by blast
  moreover obtain verdict where "filter_on_write demo_guard (Some (sc_org demo_scope)) ''hi'' = Inr verdict"
    "vk_get mem_valkey 1 (ps_server st) (pad_valkey_key demo_scope ''k'') =
      Ok (Some (RawText (wv_filtered_text verdict)))"
    using put_warms [OF mem_valkey_laws _ put, of 1] by (auto simp: seconds_def)
  then have "pad_get (demo_pad False) 1 demo_scope ''k'' st = (Ok (Some ''hi''), st)"
    using hot_read [of "demo_pad False" mem_valkey 1 st demo_scope "''k''" "''hi''"]
    by (auto simp: demo_verdict)
  ultimately show ?thesis
    using reads_are_admitted [OF mem_valkey_laws _ empty_pad_fresh, of "demo_pad False" 0 st 1 demo_scope
        "''k''" "''hi''" st]
    by simp
qed

definition quarantined_pad :: "mem pad_state" where
  "quarantined_pad = \<lparr>ps_server = \<lambda>_. None, ps_rows = [\<lparr>pw_scope = demo_scope, pw_key = ''k'',
     pw_value = ''bad'', pw_status = ''quarantined'', pw_expires_at = Some 0, pw_updated_at = 0,
     pw_version = 1\<rparr>]\<rparr>"

theorem key_limit_bypassed_witness:
  "\<exists>r st. pad_put (demo_pad False) 0 \<lparr>pl_max_value_kb = 1, pl_max_keys = 0\<rparr> demo_scope ''k'' ''hi''
      quarantined_pad = (Ok (Inr r), st) \<and> pr_ok r \<and> count_active_keys demo_scope (ps_rows st) = 1"
proof -
  have "\<exists>r st. pad_put (demo_pad False) 0 \<lparr>pl_max_value_kb = 1, pl_max_keys = 0\<rparr> demo_scope ''k'' ''hi''
      quarantined_pad = (Ok (Inr r), st) \<and> pr_ok r \<and>
      count_active_keys demo_scope (ps_rows st) = Suc (count_active_keys demo_scope (ps_rows quarantined_pad))"
    by (rule key_limit_bypassed [where row = "hd (ps_rows quarantined_pad)" and vk = mem_valkey,
          OF _ mem_valkey_up _ _ _ _ _])
      (simp add: quarantined_pad_def select_row_def demo_verdict; fail)+
  moreover have "count_active_keys demo_scope (ps_rows quarantined_pad) = 0"
    by (simp add: quarantined_pad_def count_active_keys_def active_rows_def)
  ultimately show ?thesis by simp
qed

definition durable_pad :: "mem pad_state" where
  "durable_pad = \<lparr>ps_server = \<lambda>_. None, ps_rows = [\<lparr>pw_scope = demo_scope, pw_key = ''k'',
     pw_value = ''hi'', pw_status = ''active'', pw_expires_at = Some 1, pw_updated_at = 0,
     pw_version = 1\<rparr>]\<rparr>"

theorem cold_read_raises_witness:
  "pad_get (demo_pad False) 0 demo_scope ''k'' durable_pad = (Raised, durable_pad)"
  by (rule cold_read_raises [where e = 1 and vk = mem_valkey and row = "hd (ps_rows durable_pad)"])
    (simp_all add: durable_pad_def select_row_def mem_valkey_simps)

theorem rewarmed_outlives_expiry_witness:
  "\<exists>st. pad_get (demo_pad True) 59000000 demo_scope ''k'' st = (Ok (Some ''hi''), st)"
proof -
  have "\<exists>st. pad_get (demo_pad True) 1 demo_scope ''k'' durable_pad = (Ok (Some ''hi''), st) \<and>
      pad_get (demo_pad True) 59000000 demo_scope ''k'' st = (Ok (Some ''hi''), st)"
    using rewarmed_outlives_expiry [OF mem_valkey_laws mem_valkey_up, of "demo_pad True" 1 durable_pad
        demo_scope "''k''" "hd (ps_rows durable_pad)" 59000000]
    by (simp add: durable_pad_def select_row_def mem_valkey_simps seconds_def)
  then show ?thesis by blast
qed

end
