(* ===== verification/SummarizerLaws.thy ===== *)
theory SummarizerLaws
  imports Summarizer ScratchpadLaws
begin

text \<open>
  What the summarizer keeps: only admitted summaries are stored and used, every version is kept
  and at most the latest is active, a stored summary obeys the ratio; and whose summaries it uses.
\<close>

section \<open>Runs\<close>

lemma sbind_cases:
  assumes "sbind f g s = (r, s')"
  obtains (raised) "f s = (Raised, s')" "r = Raised" | (step) a s1 where "f s = (Ok a, s1)" "g a s1 = (r, s')"
  using assms by (auto simp: sbind_def split: prod.splits reply.splits)

definition su_table :: "'s sum_state \<Rightarrow> summary_row list \<times> int" where
  "su_table st = (su_rows st, su_next_id st)"

lemma frame_count_text [frame_intro]: "frame su_table (count_text env t model s)"
  by (simp add: frame_def su_table_def count_text_def on_su_server_def split: prod.split)

lemma frame_turn_content [frame_intro]: "frame su_table (turn_content d)"
  by (auto simp: turn_content_def intro!: frame_intro split: json.split)

lemma frame_count_messages [frame_intro]: "frame su_table (count_messages env t model ds)"
  by (induction env t model ds rule: count_messages.induct) (auto intro!: frame_intro)

lemma frame_elision [frame_intro]: "frame su_table (elision_savings env t model older summary)"
  by (auto simp: elision_savings_def intro!: frame_intro)

definition stored_rows :: "summary_row option \<Rightarrow> summary_row \<Rightarrow> summary_row list \<Rightarrow> summary_row list" where
  "stored_rows existing row rows = (case existing of
     Some r \<Rightarrow> supersede (sm_id r) (sm_id row) (rows @ [row]) | None \<Rightarrow> rows @ [row])"

text \<open>Either the table is as it was and no summary is applied, or one admitted summary was added.\<close>

lemma new_summary_cases:
  assumes "new_summary env t org user conv cfg model older existing st = (r, st')"
  obtains (none) "su_table st' = su_table st" "\<And>z. r = Ok z \<Longrightarrow> \<not> sz_applied z"
  | (stored) row older_tokens summary_tokens where "admitted (se_guard env) (Some org) (sm_summary row)"
      and "sm_org row = org" "sm_conversation row = conv" "sm_id row = su_next_id st"
      and "sm_status row = ''active''" "sm_covers row = int (length older)"
      and "sm_version row = (case existing of Some r \<Rightarrow> sm_version r + 1 | None \<Rightarrow> 1)"
      and "sm_tokens row = older_tokens"
      and "0 < older_tokens \<Longrightarrow> of_int summary_tokens \<le> pm_ratio cfg * of_int older_tokens"
      and "su_rows st' = stored_rows existing row (su_rows st)" "su_next_id st' = su_next_id st + 1"
      and "r = Ok \<lparr>sz_applied = True, sz_summary = Some (sm_summary row), sz_covers = int (length older),
        sz_elided = max 0 (older_tokens - summary_tokens)\<rparr>"
proof -
  note run = assms [unfolded new_summary_def Let_def]
  have noted: "\<not> sz_applied no_summary" by (simp add: no_summary_def)
  from run show ?thesis
  proof (cases rule: sbind_cases)
    case raised
    with frameD [OF frame_count_messages raised(1)] show ?thesis by (intro none) auto
  next
    case (step older_tokens s1)
    have t1: "su_table s1 = su_table st" by (rule frameD [OF frame_count_messages step(1)])
    show ?thesis
    proof (cases "dispatch_summarize env (resolve_summarize_model env) older")
      case (Inl e)
      with step t1 noted show ?thesis by (intro none) (auto simp: sret_def)
    next
      case (Inr summary_text)
      from step(2) Inr have "sbind (count_text env t model summary_text) (\<lambda>summary_tokens.
          if 0 < older_tokens \<and> pm_ratio cfg * of_int older_tokens < of_int summary_tokens
          then sret no_summary
          else (case filter_on_write (se_guard env) (Some org) summary_text of
             Inl _ \<Rightarrow> sraise
           | Inr verdict \<Rightarrow>
               if wv_quarantine verdict then sret no_summary
               else sbind (insert_summary org conv (wv_filtered_text verdict) (int (length older))
                   older_tokens (resolve_summarize_model env)
                   (case existing of Some r \<Rightarrow> sm_version r + 1 | None \<Rightarrow> 1) user) (\<lambda>new_id.
                 sbind (case existing of Some r \<Rightarrow> mark_superseded (sm_id r) new_id | None \<Rightarrow> sret ())
                   (\<lambda>_. sret \<lparr>sz_applied = True, sz_summary = Some (wv_filtered_text verdict),
                     sz_covers = int (length older),
                     sz_elided = max 0 (older_tokens - summary_tokens)\<rparr>)))) s1 = (r, st')"
        by simp
      then show ?thesis
      proof (cases rule: sbind_cases)
        case raised
        with frameD [OF frame_count_text raised(1)] t1 show ?thesis by (intro none) auto
      next
        case (step summary_tokens s2)
        have t2: "su_table s2 = su_table st" using frameD [OF frame_count_text step(1)] t1 by simp
        show ?thesis
        proof (cases "0 < older_tokens \<and> pm_ratio cfg * of_int older_tokens < of_int summary_tokens")
          case True
          with step(2) t2 noted show ?thesis by (intro none) (auto simp: sret_def)
        next
          case ratio: False
          show ?thesis
          proof (cases "filter_on_write (se_guard env) (Some org) summary_text")
            case (Inl e)
            with step(2) ratio t2 show ?thesis by (intro none) (auto simp: sraise_def)
          next
            case verdict: (Inr verdict)
            show ?thesis
            proof (cases "wv_quarantine verdict")
              case True
              with step(2) ratio verdict t2 noted show ?thesis by (intro none) (auto simp: sret_def)
            next
              case False
              with write_admits [OF verdict]
              have adm: "admitted (se_guard env) (Some org) (wv_filtered_text verdict)" by simp
              let ?row = "\<lparr>sm_id = su_next_id st, sm_org = org, sm_conversation = conv,
                sm_summary = wv_filtered_text verdict, sm_covers = int (length older),
                sm_tokens = older_tokens, sm_model = resolve_summarize_model env, sm_author = user,
                sm_version = (case existing of Some r \<Rightarrow> sm_version r + 1 | None \<Rightarrow> 1),
                sm_status = ''active'', sm_superseded_by = None\<rparr>"
              show ?thesis
                using step(2) ratio verdict False t2
                by (intro stored [of ?row older_tokens summary_tokens])
                  (auto simp: adm insert_summary_def mark_superseded_def stored_rows_def su_table_def
                    sbind_def sret_def not_less split: option.splits)
            qed
          qed
        qed
      qed
    qed
  qed
qed

definition covered :: "proxy_memory_config \<Rightarrow> dict list \<Rightarrow> int" where
  "covered cfg ms = int (length ms - kept_turns cfg ms)"

lemma maybe_summarize_cases:
  assumes "maybe_summarize env t org user conv ms cfg model st = (r, st')"
  obtains (kept) "su_table st' = su_table st"
      and "\<And>z. r = Ok z \<Longrightarrow> sz_applied z \<Longrightarrow> \<exists>row. select_latest_summary org conv (su_rows st) = Some row \<and>
        sm_status row = ''active'' \<and> covered cfg ms \<le> sm_covers row \<and> sz_summary z = Some (sm_summary row)"
  | (made) s1 older existing where "existing = select_latest_summary org conv (su_rows st)"
      and "\<And>row. existing = Some row \<Longrightarrow> sm_status row = ''active'' \<Longrightarrow> sm_covers row < covered cfg ms"
      and "su_table s1 = su_table st" "int (length older) = covered cfg ms"
      and "new_summary env t org user conv cfg model older existing s1 = (r, st')"
proof (cases "pm_summarization_enabled cfg \<and> conv \<noteq> []")
  case False
  with assms show ?thesis by (intro kept) (auto simp: maybe_summarize_def sret_def no_summary_def)
next
  case True
  let ?older = "take (length ms - kept_turns cfg ms) ms"
  have len: "int (length ?older) = covered cfg ms" by (simp add: covered_def)
  have on: "(\<not> pm_summarization_enabled cfg \<or> conv = []) = False" using True by simp
  from assms have "sbind (count_messages env t model ms) (\<lambda>total_tokens.
      if total_tokens < pm_threshold_tokens cfg then sret no_summary
      else if ?older = [] then sret no_summary
      else
        sbind (\<lambda>st. (Ok (select_latest_summary org conv (su_rows st)), st)) (\<lambda>existing.
          case existing of
            Some r \<Rightarrow>
              if sm_status r = ''active'' \<and> covered cfg ms \<le> sm_covers r
              then sbind (elision_savings env t model ?older (sm_summary r)) (\<lambda>n.
                sret \<lparr>sz_applied = True, sz_summary = Some (sm_summary r),
                  sz_covers = sm_covers r, sz_elided = n\<rparr>)
              else new_summary env t org user conv cfg model ?older existing
          | None \<Rightarrow> new_summary env t org user conv cfg model ?older existing)) st = (r, st')"
    unfolding maybe_summarize_def Let_def covered_def on if_False .
  then show ?thesis
  proof (cases rule: sbind_cases)
    case raised
    with frameD [OF frame_count_messages raised(1)] show ?thesis by (intro kept) auto
  next
    case (step total s1)
    have t1: "su_table s1 = su_table st" by (rule frameD [OF frame_count_messages step(1)])
    then have rows: "su_rows s1 = su_rows st" by (simp add: su_table_def)
    show ?thesis
    proof (cases "total < pm_threshold_tokens cfg \<or> ?older = []")
      case True
      with step(2) t1 show ?thesis
        by (intro kept) (auto simp: sret_def no_summary_def split: if_splits)
    next
      case False
      show ?thesis
      proof (cases "\<exists>row. select_latest_summary org conv (su_rows st) = Some row \<and>
          sm_status row = ''active'' \<and> covered cfg ms \<le> sm_covers row")
        case True
        then obtain row where row: "select_latest_summary org conv (su_rows st) = Some row"
          "sm_status row = ''active''" "covered cfg ms \<le> sm_covers row" by blast
        with step(2) False rows have "sbind (elision_savings env t model ?older (sm_summary row)) (\<lambda>n.
            sret \<lparr>sz_applied = True, sz_summary = Some (sm_summary row),
              sz_covers = sm_covers row, sz_elided = n\<rparr>) s1 = (r, st')"
          by (auto simp: sbind_def)
        then show ?thesis
        proof (cases rule: sbind_cases)
          case raised
          with frameD [OF frame_elision raised(1)] t1 show ?thesis by (intro kept) auto
        next
          case (step n s2)
          with frameD [OF frame_elision step(1)] t1 row show ?thesis
            by (intro kept) (auto simp: sret_def)
        qed
      next
        case fresh: False
        with step(2) False rows have
          "new_summary env t org user conv cfg model ?older (select_latest_summary org conv (su_rows st)) s1 =
            (r, st')"
          by (auto simp: sbind_def split: option.splits if_splits)
        with fresh t1 len show ?thesis by (intro made [OF refl]) (auto simp: not_le)
      qed
    qed
  qed
qed

section \<open>The table\<close>

definition same_conversation :: "summary_row \<Rightarrow> summary_row \<Rightarrow> bool" where
  "same_conversation a b \<longleftrightarrow> sm_org a = sm_org b \<and> sm_conversation a = sm_conversation b"

text \<open>
  Active summaries are admitted; ids are distinct and used up; within a conversation versions are
  distinct and an active one is the latest.
\<close>

definition sum_ok :: "guard \<Rightarrow> summary_row list \<times> int \<Rightarrow> bool" where
  "sum_ok g tb \<longleftrightarrow> distinct (map sm_id (fst tb)) \<and> (\<forall>r\<in>set (fst tb). sm_id r < snd tb \<and>
     (sm_status r = ''active'' \<longrightarrow> admitted g (Some (sm_org r)) (sm_summary r)) \<and>
     (\<forall>r'\<in>set (fst tb). same_conversation r r' \<longrightarrow> (sm_version r = sm_version r' \<longrightarrow> r = r') \<and>
        (sm_status r = ''active'' \<longrightarrow> sm_version r' \<le> sm_version r)))"

lemma latest_None: "select_latest_summary org conv rows = None \<Longrightarrow> r \<in> set rows \<Longrightarrow>
    \<not> (sm_org r = org \<and> sm_conversation r = conv)"
  by (auto simp: select_latest_summary_def conversation_rows_def filter_empty_conv)

lemma latest_Some:
  assumes "select_latest_summary org conv rows = Some m"
  shows "m \<in> set rows \<and> sm_org m = org \<and> sm_conversation m = conv \<and>
    (\<forall>r\<in>set rows. sm_org r = org \<and> sm_conversation r = conv \<longrightarrow> sm_version r \<le> sm_version m)"
  using assms py_max_in [of sm_version _ m] py_max_ge [of sm_version _ m]
  by (fastforce simp: select_latest_summary_def conversation_rows_def)

text \<open>A row after a store: the new one, or one there was, superseded if it was the latest.\<close>

lemma stored_row_cases [consumes 2, case_names new old superseded]:
  assumes "r \<in> set (stored_rows existing row rows)" "\<forall>e. existing = Some e \<longrightarrow> sm_id e \<noteq> sm_id row"
  obtains (new) "r = row"
  | (old) "r \<in> set rows" "\<And>e. existing = Some e \<Longrightarrow> sm_id r \<noteq> sm_id e"
  | (superseded) r0 e where "existing = Some e" "r0 \<in> set rows" "sm_id r0 = sm_id e"
      and "r = r0\<lparr>sm_status := ''superseded'', sm_superseded_by := Some (sm_id row)\<rparr>"
  using assms by (auto simp: stored_rows_def supersede_def split: option.splits if_splits)

lemma map_stored_rows:
  "map sm_id (stored_rows existing row rows) = map sm_id rows @ [sm_id row] \<and>
   map sm_summary (stored_rows existing row rows) = map sm_summary rows @ [sm_summary row]"
  by (auto simp: stored_rows_def supersede_def split: option.split)

lemma sum_okD:
  assumes "sum_ok g tb"
  shows "distinct (map sm_id (fst tb))" "\<And>r. r \<in> set (fst tb) \<Longrightarrow> sm_id r < snd tb"
    and "\<And>r. r \<in> set (fst tb) \<Longrightarrow> sm_status r = ''active'' \<Longrightarrow> admitted g (Some (sm_org r)) (sm_summary r)"
    and "\<And>r r'. r \<in> set (fst tb) \<Longrightarrow> r' \<in> set (fst tb) \<Longrightarrow> same_conversation r r' \<Longrightarrow>
      sm_version r = sm_version r' \<Longrightarrow> r = r'"
    and "\<And>r r'. r \<in> set (fst tb) \<Longrightarrow> r' \<in> set (fst tb) \<Longrightarrow> same_conversation r r' \<Longrightarrow>
      sm_status r = ''active'' \<Longrightarrow> sm_version r' \<le> sm_version r"
  using assms unfolding sum_ok_def by blast+

text \<open>
  Every row after a store is the new row, or stands for a row there was: the same but, if it was
  the latest of the conversation, no longer active.
\<close>

lemma stored_row_origin:
  assumes "sum_ok g (rows, next)" "existing = select_latest_summary org conv rows"
    and "sm_org row = org" "sm_conversation row = conv" "sm_id row = next"
    and "r \<in> set (stored_rows existing row rows)"
  shows "r = row \<or> (\<exists>r0\<in>set rows. sm_id r = sm_id r0 \<and> sm_version r = sm_version r0 \<and>
    same_conversation r r0 \<and> sm_summary r = sm_summary r0 \<and>
    (same_conversation r row \<longrightarrow> sm_status r \<noteq> ''active'') \<and>
    (r = r0 \<or> sm_status r \<noteq> ''active''))"
proof -
  have fresh: "sm_id e \<noteq> sm_id row" if "existing = Some e" for e
    using latest_Some [of org conv rows e] that assms(1,2,5) sum_okD(2) [OF assms(1), of e] by simp
  then have "\<forall>e. existing = Some e \<longrightarrow> sm_id e \<noteq> sm_id row" by blast
  with assms(6) show ?thesis
  proof (cases rule: stored_row_cases)
    case old
    have "sm_status r \<noteq> ''active''" if same: "same_conversation r row"
    proof
      assume active: "sm_status r = ''active''"
      have rc: "sm_org r = org" "sm_conversation r = conv"
        using same assms(3,4) by (simp_all add: same_conversation_def)
      have "existing \<noteq> None" unfolding assms(2) using latest_None [OF _ old(1)] rc by blast
      then obtain e where e: "existing = Some e" by blast
      note latest = latest_Some [OF e [unfolded assms(2)]]
      have "same_conversation r e" using latest rc by (simp add: same_conversation_def)
      then have "sm_version e \<le> sm_version r"
        using sum_okD(5) [OF assms(1), of r e] old(1) latest active by simp
      moreover have "sm_version r \<le> sm_version e" using latest old(1) rc by blast
      ultimately have "sm_version r = sm_version e" by simp
      with old(1) latest have "r = e"
        by (intro sum_okD(4) [OF assms(1) _ _ \<open>same_conversation r e\<close>]) auto
      with old(2) [OF e] show False by simp
    qed
    with old(1) show ?thesis by (auto simp: same_conversation_def)
  next
    case (superseded r0 e)
    have "sm_id r = sm_id r0 \<and> sm_version r = sm_version r0 \<and> same_conversation r r0 \<and>
        sm_summary r = sm_summary r0 \<and> sm_status r \<noteq> ''active''"
      unfolding superseded(4) same_conversation_def by simp
    with superseded(2) show ?thesis by blast
  qed simp
qed

lemma stored_newer:
  assumes "r0 \<in> set rows" "same_conversation r0 row"
    and "existing = select_latest_summary org conv rows" "sm_org row = org" "sm_conversation row = conv"
    and "sm_version row = (case existing of Some r \<Rightarrow> sm_version r + 1 | None \<Rightarrow> 1)"
  shows "sm_version r0 < sm_version row"
proof (cases existing)
  case None
  with latest_None [of org conv rows r0] assms show ?thesis by (simp add: same_conversation_def)
next
  case (Some e)
  with latest_Some [of org conv rows e] assms have "sm_version r0 \<le> sm_version e"
    by (simp add: same_conversation_def)
  with assms(6) Some show ?thesis by simp
qed

lemma latest_stored:
  assumes "sum_ok g (rows, next)" "existing = select_latest_summary org conv rows"
    and row: "sm_org row = org" "sm_conversation row = conv" "sm_id row = next"
    and version: "sm_version row = (case existing of Some r \<Rightarrow> sm_version r + 1 | None \<Rightarrow> 1)"
  shows "select_latest_summary org conv (stored_rows existing row rows) = Some row"
proof -
  have "row \<in> set (stored_rows existing row rows)"
  proof (cases existing)
    case (Some e)
    with latest_Some [of org conv rows e] assms sum_okD(2) [OF assms(1), of e]
    have "sm_id row \<noteq> sm_id e" by simp
    with Some show ?thesis by (simp add: stored_rows_def supersede_def)
  qed (simp add: stored_rows_def)
  with row obtain m where m: "select_latest_summary org conv (stored_rows existing row rows) = Some m"
    using latest_None [of org conv "stored_rows existing row rows" row] by fastforce
  note latest = latest_Some [OF m]
  have "sm_version row \<le> sm_version m"
    using latest \<open>row \<in> set (stored_rows existing row rows)\<close> row by blast
  moreover have "same_conversation m row" using latest row by (simp add: same_conversation_def)
  ultimately have "m = row"
    using stored_row_origin [OF assms(1,2) row, of m] latest
      stored_newer [OF _ _ assms(2) row(1,2) version]
    by (fastforce simp: same_conversation_def)
  with m show ?thesis by simp
qed

lemma sum_ok_stored:
  assumes ok: "sum_ok g (rows, next)" and existing: "existing = select_latest_summary org conv rows"
    and row: "sm_org row = org" "sm_conversation row = conv" "sm_id row = next"
    and version: "sm_version row = (case existing of Some r \<Rightarrow> sm_version r + 1 | None \<Rightarrow> 1)"
    and adm: "admitted g (Some org) (sm_summary row)"
  shows "sum_ok g (stored_rows existing row rows, next + 1)"
proof -
  note origin = stored_row_origin [OF ok existing row]
  note newer = stored_newer [OF _ _ existing row(1,2) version]
  have ids: "distinct (map sm_id (stored_rows existing row rows))"
    using map_stored_rows [of existing row rows] sum_okD(1,2) [OF ok] row(3) by fastforce
  have one: "sm_id r < next + 1 \<and>
      (sm_status r = ''active'' \<longrightarrow> admitted g (Some (sm_org r)) (sm_summary r))"
    if "r \<in> set (stored_rows existing row rows)" for r
    using origin [OF that] sum_okD(2,3) [OF ok] row adm by fastforce
  have two: "(sm_version r = sm_version r' \<longrightarrow> r = r') \<and> (sm_status r = ''active'' \<longrightarrow> sm_version r' \<le> sm_version r)"
    if r: "r \<in> set (stored_rows existing row rows)" and r': "r' \<in> set (stored_rows existing row rows)"
      and same: "same_conversation r r'" for r r'
  proof -
    have id_eq: "sm_id r = sm_id r' \<Longrightarrow> r = r'"
      using ids r r' by (auto simp: distinct_map dest: inj_onD)
    from origin [OF r] origin [OF r'] show ?thesis
    proof (elim disjE bexE)
      assume "r = row" "r' = row"
      then show ?thesis by simp
    next
      fix r0 assume "r' = row" and r0: "r0 \<in> set rows" "sm_id r = sm_id r0 \<and> sm_version r = sm_version r0 \<and>
        same_conversation r r0 \<and> sm_summary r = sm_summary r0 \<and>
        (same_conversation r row \<longrightarrow> sm_status r \<noteq> ''active'') \<and> (r = r0 \<or> sm_status r \<noteq> ''active'')"
      with same newer [OF r0(1)] show ?thesis by (auto simp: same_conversation_def)
    next
      fix r0 assume "r = row" and r0: "r0 \<in> set rows" "sm_id r' = sm_id r0 \<and> sm_version r' = sm_version r0 \<and>
        same_conversation r' r0 \<and> sm_summary r' = sm_summary r0 \<and>
        (same_conversation r' row \<longrightarrow> sm_status r' \<noteq> ''active'') \<and> (r' = r0 \<or> sm_status r' \<noteq> ''active'')"
      with same newer [OF r0(1)] show ?thesis by (auto simp: same_conversation_def)
    next
      fix r0 r1 assume r0: "r0 \<in> set rows" "sm_id r = sm_id r0 \<and> sm_version r = sm_version r0 \<and>
        same_conversation r r0 \<and> sm_summary r = sm_summary r0 \<and>
        (same_conversation r row \<longrightarrow> sm_status r \<noteq> ''active'') \<and> (r = r0 \<or> sm_status r \<noteq> ''active'')"
      and r1: "r1 \<in> set rows" "sm_id r' = sm_id r1 \<and> sm_version r' = sm_version r1 \<and>
        same_conversation r' r1 \<and> sm_summary r' = sm_summary r1 \<and>
        (same_conversation r' row \<longrightarrow> sm_status r' \<noteq> ''active'') \<and> (r' = r1 \<or> sm_status r' \<noteq> ''active'')"
      have "same_conversation r0 r1" using same r0(2) r1(2) by (auto simp: same_conversation_def)
      with r0 r1 id_eq sum_okD(4,5) [OF ok, of r0 r1] show ?thesis by auto
    qed
  qed
  show ?thesis
    unfolding sum_ok_def fst_conv snd_conv using ids one two by blast
qed

section \<open>An instance\<close>

text \<open>A server that keeps nothing, and a connector that counts characters and answers with one.\<close>

definition demo_connector :: connector where
  "demo_connector = \<lparr>cn_count = \<lambda>s _. Inr (int (length s)), cn_chat = \<lambda>_ _. Inr ''s''\<rparr>"

definition demo_sum :: "unit sum_env" where
  "demo_sum = \<lparr>se_valkey = Some \<lparr>vk_get = \<lambda>_ _ _. Ok None, vk_set = \<lambda>_ _ _ _ _. Ok (), vk_del = \<lambda>_ _ _. Ok ()\<rparr>,
     se_sha = (\<lambda>s. s), se_repr = (\<lambda>_. []), se_guard = demo_guard,
     se_connector = (\<lambda>_. Some demo_connector), se_model_var = None\<rparr>"

definition demo_summarizing :: proxy_memory_config where
  "demo_summarizing = ALL_DISABLED\<lparr>pm_summarization_enabled := True, pm_threshold_tokens := 4,
     pm_keep_recent := 0\<rparr>"

definition demo_turns :: "string \<Rightarrow> dict list" where
  "demo_turns s = [[(''content'', JStr s)]]"

definition no_rows :: "unit sum_state" where
  "no_rows = \<lparr>su_server = (), su_rows = [], su_next_id = 1\<rparr>"

lemma no_rows_ok: "sum_ok g (su_table no_rows)"
  by (simp add: sum_ok_def su_table_def no_rows_def)

lemma demo_count: "count_text demo_sum t model s = sret (int (length s))"
  by (rule ext) (simp add: count_text_def on_su_server_def token_count_def cache_aside_def script_simps
    slift_def demo_sum_def invoke_counter_def demo_connector_def)

lemma demo_turns_count: "count_messages demo_sum t model (demo_turns s) = sret (int (length s))"
  by (rule ext) (simp add: demo_turns_def demo_count turn_content_def jget_or_def jget_def script_simps
    json_or_def)

lemmas demo_config = demo_summarizing_def ALL_DISABLED_def DEFAULT_RATIO_def kept_turns_def

lemma demo_verdict_s:
  "filter_on_write demo_guard org ''s'' = Inr \<lparr>wv_ok = True, wv_quarantine = False,
     wv_filtered_text = ''s'', wv_reasons = []\<rparr>"
  by (simp add: filter_on_write_def demo_guard_def should_block_def)

lemma demo_dispatch: "dispatch_summarize demo_sum m ms = Inr ''s''" "se_guard demo_sum = demo_guard"
  "resolve_summarize_model demo_sum = DEFAULT_SUMMARIZE_MODEL"
  by (simp_all add: dispatch_summarize_def demo_sum_def demo_connector_def resolve_summarize_model_def)

definition one_row :: "unit sum_state" where
  "one_row = \<lparr>su_server = (), su_rows = [\<lparr>sm_id = 1, sm_org = 1, sm_conversation = ''c'', sm_summary = ''s'',
     sm_covers = 1, sm_tokens = 11, sm_model = DEFAULT_SUMMARIZE_MODEL, sm_author = Some 5, sm_version = 1,
     sm_status = ''active'', sm_superseded_by = None\<rparr>], su_next_id = 2\<rparr>"

lemma demo_first: "maybe_summarize demo_sum 0 1 (Some 5) ''c'' (demo_turns ''hello world'') demo_summarizing ''m''
    no_rows = (Ok \<lparr>sz_applied = True, sz_summary = Some ''s'', sz_covers = 1, sz_elided = 10\<rparr>, one_row)"
proof -
  have none: "select_latest_summary 1 ''c'' (su_rows no_rows) = None"
    by (simp add: no_rows_def select_latest_summary_def conversation_rows_def)
  have one: "length (demo_turns s) = 1" for s by (simp add: demo_turns_def)
  have older: "take 1 (demo_turns s) = demo_turns s" "demo_turns s \<noteq> []" for s by (simp_all add: demo_turns_def)
  show ?thesis
    unfolding maybe_summarize_def new_summary_def Let_def
    by (simp add: demo_turns_count script_simps demo_config none one older demo_dispatch demo_count
        demo_verdict_s insert_summary_def) (simp add: no_rows_def one_row_def)
qed

lemma demo_second: "maybe_summarize demo_sum 1 1 (Some 6) ''c'' (demo_turns ''other text'') demo_summarizing ''m''
    one_row = (Ok \<lparr>sz_applied = True, sz_summary = Some ''s'', sz_covers = 1, sz_elided = 9\<rparr>, one_row)"
proof -
  have latest: "select_latest_summary 1 ''c'' (su_rows one_row) = Some (hd (su_rows one_row))"
    by (simp add: one_row_def select_latest_summary_def conversation_rows_def)
  have row: "sm_status (hd (su_rows one_row)) = ''active''" "sm_covers (hd (su_rows one_row)) = 1"
    "sm_summary (hd (su_rows one_row)) = ''s''"
    by (simp_all add: one_row_def)
  have one: "length (demo_turns s) = 1" "take 1 (demo_turns s) = demo_turns s" "demo_turns s \<noteq> []" for s
    by (simp_all add: demo_turns_def)
  show ?thesis
    unfolding maybe_summarize_def Let_def
    by (simp add: demo_turns_count script_simps demo_config one latest row elision_savings_def demo_count)
qed

text \<open>
  C18. Whatever it is asked, the summarizer keeps its table sound: active summaries are admitted,
  versions are unique, only the latest is active; no summary is ever lost or changed; and a
  summary it hands out to be put into a request was let through by the guard.
\<close>

theorem summaries_sound:
  assumes "sum_ok (se_guard env) (su_table st)"
    and "maybe_summarize env t org user conv ms cfg model st = (r, st')"
  shows "sum_ok (se_guard env) (su_table st') \<and>
    prefix (map sm_summary (su_rows st)) (map sm_summary (su_rows st')) \<and>
    (\<forall>z. r = Ok z \<and> sz_applied z \<longrightarrow>
       (\<exists>s. sz_summary z = Some s \<and> admitted (se_guard env) (Some org) s))"
  using assms(2)
proof (cases rule: maybe_summarize_cases)
  case kept
  have "admitted (se_guard env) (Some org) (sm_summary row)"
    if "select_latest_summary org conv (su_rows st) = Some row" "sm_status row = ''active''" for row
    using sum_okD(3) [OF assms(1), of row] latest_Some [OF that(1)] that(2) by (simp add: su_table_def)
  with kept assms(1) show ?thesis by (fastforce simp: su_table_def)
next
  case (made s1 older existing)
  have t1: "su_rows s1 = su_rows st" "su_next_id s1 = su_next_id st"
    using made(3) by (simp_all add: su_table_def)
  from made(5) show ?thesis
  proof (cases rule: new_summary_cases)
    case none
    with made(3) assms(1) show ?thesis by (auto simp: su_table_def)
  next
    case (stored row older_tokens summary_tokens)
    have "sum_ok (se_guard env) (stored_rows existing row (su_rows st), su_next_id st + 1)"
      by (rule sum_ok_stored [OF assms(1) [unfolded su_table_def] made(1)])
        (simp_all add: stored(1-4,7) t1)
    then have "sum_ok (se_guard env) (su_table st')"
      by (simp add: su_table_def stored(10,11) t1)
    moreover have "prefix (map sm_summary (su_rows st)) (map sm_summary (su_rows st'))"
      using map_stored_rows [of existing row "su_rows st"] by (simp add: stored(10) t1)
    ultimately show ?thesis using stored(1,12) by auto
  qed
qed

text \<open>
  A summary that was put into one request is put into every later request of the organisation
  that names the same conversation and is not longer, whoever sends it and whatever it says; no
  model is asked again and nothing is stored.
\<close>

theorem summary_reused:
  assumes "sum_ok (se_guard env) (su_table st)"
    and "maybe_summarize env t org user conv ms cfg model st = (Ok z, st')" "sz_applied z"
    and "maybe_summarize env' t' org user' conv ms' cfg' model' st' = (Ok z', st'')" "sz_applied z'"
    and "length ms' - kept_turns cfg' ms' \<le> length ms - kept_turns cfg ms"
  shows "sz_summary z' = sz_summary z \<and> su_table st'' = su_table st'"
proof -
  have "\<exists>row. select_latest_summary org conv (su_rows st') = Some row \<and> sm_status row = ''active'' \<and>
      covered cfg ms \<le> sm_covers row \<and> sz_summary z = Some (sm_summary row)"
    using assms(2)
  proof (cases rule: maybe_summarize_cases)
    case kept
    with assms(3) show ?thesis by (auto simp: su_table_def)
  next
    case (made s1 older existing)
    from made(5) show ?thesis
    proof (cases rule: new_summary_cases)
      case none
      with assms(3) show ?thesis by simp
    next
      case (stored row older_tokens summary_tokens)
      have t1: "su_rows s1 = su_rows st" "su_next_id s1 = su_next_id st"
        using made(3) by (simp_all add: su_table_def)
      have "select_latest_summary org conv (su_rows st') = Some row"
        unfolding stored(10) t1
        by (rule latest_stored [OF assms(1) [unfolded su_table_def] made(1) stored(2,3) _ stored(7)])
          (simp add: stored(4) t1)
      with stored made(4) show ?thesis by simp
    qed
  qed
  then obtain row where row: "select_latest_summary org conv (su_rows st') = Some row"
      "sm_status row = ''active''" "covered cfg ms \<le> sm_covers row" "sz_summary z = Some (sm_summary row)"
    by blast
  have "covered cfg' ms' \<le> sm_covers row" using row(3) assms(6) by (simp add: covered_def)
  with assms(4) show ?thesis
    using row assms(5) by (cases rule: maybe_summarize_cases) fastforce+
qed

theorem summaries_sound_witness: "sum_ok demo_guard (su_table one_row) \<and> admitted demo_guard (Some 1) ''s''"
  using summaries_sound [OF no_rows_ok demo_first] by (simp add: demo_dispatch)

theorem summary_reused_witness:
  "su_table (snd (maybe_summarize demo_sum 1 1 (Some 6) ''c'' (demo_turns ''other text'') demo_summarizing ''m''
     one_row)) = su_table one_row"
  using summary_reused [OF no_rows_ok demo_first _ demo_second]
  by (simp add: demo_second)

end
