(* ===== verification/MemoryLaws.thy ===== *)
theory MemoryLaws
  imports MemoryStages PipelineSafety SummarizerLaws
begin

text \<open>
  What the memory and knowledge stages put into a request: they leave everything of it but its
  messages alone, and every message they hand on is one that was cleared, or quoted material a
  guard let through, or a reference to a block of the same request.
\<close>

section \<open>The request is kept\<close>

lemma add_meta_keeps: "add_meta k n c = Inr d \<Longrightarrow> same_request ctx d = same_request ctx c"
  by (auto simp: add_meta_def rbind_Inr same_request_def)

lemma account_keeps: "account_injected n c = Inr d \<Longrightarrow> same_request ctx d = same_request ctx c"
  by (auto simp: account_injected_def Let_def same_request_def split: json.splits)

lemma same_request_messages [simp]:
  "same_request ctx (c\<lparr>cx_messages := ms\<rparr>) = same_request ctx c"
  "same_request ctx (c\<lparr>cx_usage_meta := meta\<rparr>) = same_request ctx c"
  by (simp_all add: same_request_def)

lemma keeps_unidentified: "returns (same_request ctx) (unidentified env ctx)"
  by (auto simp: unidentified_def intro!: returns_intro split: prod.split)

lemma keeps_memory_stages:
  "returns (same_request ctx) (scratchpad_stage env ctx)"
  "returns (same_request ctx) (summarization_stage env ctx)"
  "returns (same_request ctx) (knowledge_stage env ctx)"
  "returns (same_request ctx) (dedup_stage env ctx)"
  by (auto simp: scratchpad_stage_def summarization_stage_def summarize_session_def knowledge_stage_def
      dedup_stage_def Let_def
      add_meta_keeps account_keeps intro!: returns_intro keeps_unidentified split: option.split prod.split)

lemma proxy_memory_keeps: "memory_keeps same_request (proxy_memory env)"
  by (simp add: memory_keeps_def proxy_memory_def keeps_memory_stages)

text \<open>
  With the memory stages of the proxy in it, a pipeline returns the request it was given: the
  user, the body, the response format, the session and the hints are what they were.
\<close>

theorem memory_pipeline_keeps_request:
  "returns (same_request ctx) (run_pipeline sv (proxy_stages (proxy_memory env)) ctx)"
  by (rule run_same_request [OF proxy_memory_keeps])

section \<open>What is put into a request\<close>

text \<open>Quoted material: a text the guard let through for the organisation, in its block.\<close>

definition quoted_material :: "('s, 'x) memory_env \<Rightarrow> int \<Rightarrow> string \<Rightarrow> bool" where
  "quoted_material env org b \<longleftrightarrow> (\<exists>u tag. admitted (me_guard env) (Some org) u \<and>
     b = wrap_provenance_block (gd_isoformat (me_guard env)) u tag)"

lemma recall_quoted:
  "recall (me_guard env) (Some org) s tag = Inr (Some b) \<Longrightarrow> quoted_material env org b"
  by (auto simp: recall_def rbind_Inr Let_def admitted_def quoted_material_def split: if_splits)

text \<open>A text with markers, after each was left or replaced by quoted material.\<close>

fun filled :: "(string \<Rightarrow> bool) \<Rightarrow> piece list \<Rightarrow> string \<Rightarrow> bool" where
  "filled Q [] t \<longleftrightarrow> t = []"
| "filled Q (Plain c # ps) t \<longleftrightarrow> (\<exists>rest. t = c # rest \<and> filled Q ps rest)"
| "filled Q (Marker k # ps) t \<longleftrightarrow>
     (\<exists>b rest. t = b @ rest \<and> (b = SCRATCHPAD_MARKER @ k \<or> Q b) \<and> filled Q ps rest)"

definition expanded :: "(string \<Rightarrow> bool) \<Rightarrow> json \<Rightarrow> json \<Rightarrow> bool" where
  "expanded Q m m' \<longleftrightarrow> m' = m \<or> (\<exists>d s t. m = JDict d \<and> jget_or d ''content'' (JStr []) = JStr s \<and>
     filled Q (marker_pieces s) t \<and> m' = JDict (dict_set d ''content'' (JStr t)))"

definition user_message :: "string \<Rightarrow> json" where
  "user_message s = JDict [(''role'', JStr ''user''), (''content'', JStr s)]"

text \<open>A block of the knowledge base: a record that passed the injection filter of the retriever.\<close>

definition vetted_block :: "('s, 'x) memory_env \<Rightarrow> injectable_block \<Rightarrow> bool" where
  "vetted_block env b \<longleftrightarrow> (\<exists>r :: scoped_record. inject_block (kr_blocks (me_retriever env))
     (kr_filter (me_retriever env)) (kr_org (me_retriever env)) (me_now env) r = Some b)"

definition material :: "('s, 'x) memory_env \<Rightarrow> int \<Rightarrow> json \<Rightarrow> bool" where
  "material env org m \<longleftrightarrow> (\<exists>b. quoted_material env org b \<and> m = user_message b) \<or>
     (\<exists>found. (\<forall>b\<in>set found. vetted_block env b) \<and> m = knowledge_message found)"

definition referred :: "json \<Rightarrow> json \<Rightarrow> bool" where
  "referred m m' \<longleftrightarrow> m' = m \<or> (\<exists>d i. m = JDict d \<and> m' = JDict (dict_set d ''content'' (JStr (dedup_stub i))))"

definition supplied :: "('s, 'x) memory_env \<Rightarrow> int \<Rightarrow> json set \<Rightarrow> json \<Rightarrow> bool" where
  "supplied env org M m \<longleftrightarrow> material env org m \<or> (\<exists>m0\<in>M. expanded (quoted_material env org) m0 m)"

definition assembled :: "('s, 'x) memory_env \<Rightarrow> int \<Rightarrow> json set \<Rightarrow> json \<Rightarrow> bool" where
  "assembled env org M m \<longleftrightarrow> (\<exists>m1. supplied env org M m1 \<and> referred m1 m)"

lemma supplied_member: "m \<in> M \<Longrightarrow> supplied env org M m"
  by (auto simp: supplied_def expanded_def)

lemma supplied_assembled: "supplied env org M m \<Longrightarrow> assembled env org M m"
  by (auto simp: assembled_def referred_def)

lemma filled_quoted: "filled Q ps t \<Longrightarrow> Q b \<Longrightarrow> filled Q (Marker k # ps) (b @ t)"
  unfolding filled.simps by (rule exI [of _ b], rule exI [of _ t]) simp

lemma filled_left: "filled Q ps t \<Longrightarrow> filled Q (Marker k # ps) (SCRATCHPAD_MARKER @ k @ t)"
  unfolding filled.simps by (rule exI [of _ "SCRATCHPAD_MARKER @ k"], rule exI [of _ t]) simp

lemma regex_sub_filled:
  assumes "\<And>k. returns (\<lambda>r. \<forall>b. r = Some b \<longrightarrow> Q b) (look k)"
  shows "returns (\<lambda>(t, n). filled Q ps t) (regex_sub look ps)"
proof (induction ps rule: list.induct)
  case (Cons p ps)
  show ?case
  proof (cases p)
    case (Plain c)
    show ?thesis unfolding Plain regex_sub.simps by (rule returns_seq [OF Cons]) (auto intro!: returns_eret)
  next
    case (Marker k)
    show ?thesis
      unfolding Marker regex_sub.simps
    proof (rule returns_seq [OF assms], rule returns_seq [OF Cons])
      fix r :: "string option" and x :: "string \<times> nat"
      assume r: "\<forall>b. r = Some b \<longrightarrow> Q b" and x: "case x of (t, n) \<Rightarrow> filled Q ps t"
      obtain t n where "x = (t, n)" by fastforce
      with r x show "returns (\<lambda>(t, n). filled Q (Marker k # ps) t) (case x of (rest, n) \<Rightarrow>
          case r of None \<Rightarrow> eret (SCRATCHPAD_MARKER @ k @ rest, n) | Some quoted \<Rightarrow> eret (quoted @ rest, Suc n))"
        by (cases r) (auto intro!: returns_eret filled_quoted filled_left simp del: filled.simps)
    qed
  qed
qed (simp add: returns_eret)

lemma substitute_expanded:
  assumes "\<And>k. returns (\<lambda>r. \<forall>b. r = Some b \<longrightarrow> Q b) (look k)"
  shows "returns (\<lambda>(out, n). \<forall>m'\<in>set out. \<exists>m\<in>set ms. expanded Q m m') (substitute_messages look ms)"
proof (induction ms rule: list.induct)
  case (Cons m ms)
  have one: "returns (\<lambda>(m', n). expanded Q m m') (case jget_or d ''content'' (JStr []) of
      JStr s \<Rightarrow> if sublist SCRATCHPAD_MARKER s
        then ebind (regex_sub look (marker_pieces s)) (\<lambda>(s', n). eret (JDict (dict_set d ''content'' (JStr s')), n))
        else eret (m, 0)
    | _ \<Rightarrow> eret (m, 0))" if "m = JDict d" for d
  proof (cases "jget_or d ''content'' (JStr [])")
    case (JStr s)
    have "returns (\<lambda>(m', n). expanded Q m m') (ebind (regex_sub look (marker_pieces s))
        (\<lambda>(s', n). eret (JDict (dict_set d ''content'' (JStr s')), n)))"
      using that JStr by (intro returns_seq [OF regex_sub_filled [OF assms]]) (auto simp: expanded_def intro!: returns_eret)
    with JStr show ?thesis by (auto simp: expanded_def intro!: returns_eret)
  qed (auto simp: expanded_def intro!: returns_intro)
  show ?case
    unfolding substitute_messages.simps
  proof (rule returns_seq [where P = "\<lambda>d. m = JDict d"])
    show "returns (\<lambda>d. m = JDict d) (ereturn (must_dict m))" by (cases m) (auto intro!: returns_intro)
  next
    fix d assume "m = JDict d"
    note one = one [OF this]
    show "returns (\<lambda>(out, n). \<forall>m'\<in>set out. \<exists>m0\<in>set (m # ms). expanded Q m0 m') (ebind (case jget_or d ''content'' (JStr []) of
        JStr s \<Rightarrow> if sublist SCRATCHPAD_MARKER s
          then ebind (regex_sub look (marker_pieces s)) (\<lambda>(s', n). eret (JDict (dict_set d ''content'' (JStr s')), n))
          else eret (m, 0)
      | _ \<Rightarrow> eret (m, 0)) (\<lambda>(m', n).
       ebind (substitute_messages look ms) (\<lambda>(rest, n'). eret (m' # rest, n + n'))))"
    proof (rule returns_seq [OF one])
      fix x :: "json \<times> nat" assume "case x of (m', n) \<Rightarrow> expanded Q m m'"
      then show "returns (\<lambda>(out, n). \<forall>m'\<in>set out. \<exists>m0\<in>set (m # ms). expanded Q m0 m') (case x of (m', n) \<Rightarrow>
          ebind (substitute_messages look ms) (\<lambda>(rest, n'). eret (m' # rest, n + n')))"
        by (cases x) (auto intro!: returns_seq [OF Cons] returns_eret)
    qed
  qed
qed (simp add: returns_eret)

section \<open>The stages\<close>

text \<open>A context of the request \<open>ctx\<close> that is blocked or has messages of a kind only.\<close>

definition holds_all :: "pctx \<Rightarrow> (json \<Rightarrow> bool) \<Rightarrow> pctx \<Rightarrow> bool" where
  "holds_all ctx A c \<longleftrightarrow> same_request ctx c \<and> (cx_blocked c \<or> (\<forall>m\<in>set (cx_messages c). A m))"

lemma holds_all_mono: "holds_all ctx A c \<Longrightarrow> (\<And>m. A m \<Longrightarrow> B m) \<Longrightarrow> holds_all ctx B c"
  by (auto simp: holds_all_def)

text \<open>The user, the session and so the scope of the request, which the memory stages act in.\<close>

definition identified :: "pctx \<Rightarrow> int \<Rightarrow> bool" where
  "identified ctx org \<longleftrightarrow> json_truthy (cx_session_id ctx) \<longrightarrow>
     (\<exists>sc. memory_scope ctx = Some sc \<and> sc_org sc = org)"

lemma identified_same: "same_request ctx c \<Longrightarrow> identified c org = identified ctx org"
  by (simp add: identified_def memory_scope_def same_request_def)

lemma add_meta_messages: "add_meta k n c = Inr d \<Longrightarrow> cx_messages d = cx_messages c"
  by (auto simp: add_meta_def rbind_Inr)

lemma resolve_marker_quoted:
  "returns (\<lambda>r. \<forall>b. r = Some b \<longrightarrow> quoted_material env (sc_org sc) b) (resolve_marker env sc key)"
  by (auto simp: resolve_marker_def recall_quoted intro!: returns_intro split: option.split)

lemma scratchpad_supplies:
  assumes "identified c org"
  shows "returns (\<lambda>d. \<forall>m\<in>set (cx_messages d). supplied env org (set (cx_messages c)) m) (scratchpad_stage env c)"
    (is "returns ?R _")
proof (cases "json_truthy (cx_session_id c)")
  case True
  then obtain sc where sc: "memory_scope c = Some sc" "sc_org sc = org"
    using assms by (auto simp: identified_def)
  have "returns ?R (ebind (substitute_messages (resolve_marker env sc) (cx_messages c)) (\<lambda>(ms, n).
      ereturn (add_meta ''scratchpad_substitutions'' (int n) (c\<lparr>cx_messages := ms\<rparr>))))"
    by (rule returns_seq [OF substitute_expanded [OF resolve_marker_quoted]])
      (auto intro!: returns_ereturn dest!: add_meta_messages simp: supplied_def sc(2))
  with sc True show ?thesis
    by (auto simp: scratchpad_stage_def supplied_member intro!: returns_intro)
qed (auto simp: scratchpad_stage_def supplied_member intro!: returns_eret)

lemma rmap_must_dict: "rmap must_dict ms = Inr ds \<Longrightarrow> ms = map JDict ds"
proof (induction ms arbitrary: ds)
  case (Cons m ms)
  then show ?case by (cases m) (auto simp: rbind_Inr)
qed simp

lemma summary_supplies:
  assumes "identified c org"
  shows "returns (\<lambda>d. \<forall>m\<in>set (cx_messages d). m \<in> set (cx_messages c) \<or> material env org m)
    (summarization_stage env c)"
    (is "returns ?R _")
proof (cases "json_truthy (cx_session_id c)")
  case True
  then obtain sc where sc: "memory_scope c = Some sc" "sc_org sc = org"
    using assms by (auto simp: identified_def)
  have dicts: "returns (\<lambda>ds. cx_messages c = map JDict ds) (ereturn (rmap must_dict (cx_messages c)))"
    by (auto intro!: returns_ereturn rmap_must_dict)
  have inject: "returns ?R (ereturn (add_meta ''tokens_elided'' n (c\<lparr>cx_messages :=
        map JDict (filter is_system ds) @ JDict [(''role'', JStr ''user''), (''content'', JStr b)] #
        map JDict (drop k (filter (\<lambda>d. \<not> is_system d) ds)), cx_usage_meta := meta\<rparr>)))"
    if "cx_messages c = map JDict ds" "quoted_material env org b" for ds b n k meta
    using that by (auto intro!: returns_ereturn dest!: add_meta_messages in_set_dropD
        simp: material_def user_message_def)
  have session: "returns ?R (summarize_session config sc env c)" for config
    unfolding summarize_session_def Let_def
  proof (rule returns_seq [OF dicts], rule returns_ebind)
    fix ds r assume ds: "cx_messages c = map JDict ds"
    have rec: "returns (\<lambda>w. \<forall>b. w = Some b \<longrightarrow> quoted_material env org b)
        (ereturn (recall (me_guard env) (Some (sc_org sc)) s (session_tag (me_now env) sc)))" for s
      by (auto intro!: returns_ereturn recall_quoted simp: sc(2))
    show "returns ?R (if \<not> sz_applied r \<or> \<not> truthy (sz_summary r) then eret c
        else ebind (ereturn (recall (me_guard env) (Some (sc_org sc)) (the (sz_summary r))
            (session_tag (me_now env) sc))) (\<lambda>wrapped. case wrapped of
              None \<Rightarrow> eret c
            | Some q \<Rightarrow> ereturn (add_meta ''tokens_elided'' (sz_elided r)
                (c\<lparr>cx_messages := map JDict (filter is_system ds) @
                     [JDict [(''role'', JStr ''user''), (''content'', JStr q)]] @
                     map JDict (drop (length (filter (\<lambda>d. \<not> is_system d) ds) -
                       kept_turns config (filter (\<lambda>d. \<not> is_system d) ds)) (filter (\<lambda>d. \<not> is_system d) ds)),
                   cx_usage_meta := dict_set (cx_usage_meta c) ''summarized'' (JBool True)\<rparr>))))"
      by (auto intro!: returns_eret returns_seq [OF rec] inject [OF ds] split: option.split)
  qed
  from sc True show ?thesis
    by (auto simp: summarization_stage_def intro!: returns_ebind returns_eret session [unfolded sc(2) [symmetric]])
qed (auto simp: summarization_stage_def intro!: returns_eret)

lemma truncate_subset: "set (fst (truncate_to_budget budget used bs)) \<subseteq> set bs"
  by (induction budget used bs rule: truncate_to_budget.induct) (auto split: prod.splits)

lemma retrieve_vetted: "b \<in> set (retrieve (me_retriever env) q k srcs n (me_now env)) \<Longrightarrow> vetted_block env b"
  by (auto simp: retrieve_def filter_for_inject_def map_filter_mem vetted_block_def)

lemma account_messages: "account_injected n c = Inr d \<Longrightarrow> cx_messages d = cx_messages c"
  by (auto simp: account_injected_def Let_def split: json.splits)

lemma knowledge_supplies:
  "returns (\<lambda>d. \<forall>m\<in>set (cx_messages d). m \<in> set (cx_messages c) \<or> material env org m) (knowledge_stage env c)"
    (is "returns ?R _")
proof (cases "cx_messages c = []")
  case False
  have ok: "?R d" if "account_injected n (c\<lparr>cx_messages :=
      butlast (cx_messages c) @ [knowledge_message (fst (truncate_to_budget b 0 (retrieve (me_retriever env) q k srcs 10 (me_now env))))
        , last (cx_messages c)]\<rparr>) = Inr d" for n b q k srcs d
  proof -
    let ?found = "fst (truncate_to_budget b 0 (retrieve (me_retriever env) q k srcs 10 (me_now env)))"
    have "material env org (knowledge_message ?found)"
      using truncate_subset retrieve_vetted unfolding material_def by blast
    then show ?thesis
      using account_messages [OF that] False by (auto dest: in_set_butlastD)
  qed
  show ?thesis
    by (auto simp: knowledge_stage_def Let_def split_def intro!: returns_intro dest!: ok)
qed (simp add: knowledge_stage_def Let_def returns_eret)

lemma elide_refers:
  "elide sha cnt least seen n ms s = (Ok (out, saved), s') \<Longrightarrow> \<forall>m'\<in>set out. \<exists>m\<in>set ms. referred m m'"
proof (induction ms arbitrary: s seen n out saved s')
  case (Cons m ms)
  from Cons.prems show ?case
  proof (cases rule: elide_Cons)
    case (plain d rest)
    with Cons.IH [OF plain(4)] show ?thesis by (auto simp: referred_def)
  next
    case (small d c tokens s1 rest)
    with Cons.IH [OF small(7)] show ?thesis by (auto simp: referred_def)
  next
    case (first d c tokens s1 rest)
    with Cons.IH [OF first(8)] show ?thesis by (auto simp: referred_def)
  next
    case (again d c tokens s1 i stub_tokens s2 rest saved')
    with Cons.IH [OF again(9)] show ?thesis by (auto simp: referred_def)
  qed
qed (simp add: sret_def)

lemma raised_Inr: "raised r = Inr a \<Longrightarrow> r = Ok a"
  by (cases r) (simp_all add: raised_def)

lemma elided_refers:
  "returns (\<lambda>(out, _). \<forall>m'\<in>set out. \<exists>m\<in>set ms. referred m m')
     (service (on_memory (elide_intra_request sha key cnt least ms tools system)))"
  unfolding returns_def
proof (intro allI impI)
  fix w x w'
  assume run: "service (on_memory (elide_intra_request sha key cnt least ms tools system)) w = (Inr x, w')"
  obtain out tools' system' saved where x: "x = (out, tools', system', saved)" by (cases x) auto
  obtain r s where e: "elide_intra_request sha key cnt least ms tools system (mw_server (wd_state w)) = (r, s)"
    by fastforce
  with run x have "r = Ok (out, tools', system', saved)"
    by (auto simp: service_def on_memory_def split: prod.splits dest: raised_Inr)
  with e have "elide_intra_request sha key cnt least ms tools system (mw_server (wd_state w)) =
      (Ok (out, tools', system', saved), s)" by simp
  from elide_refers [OF conjunct1 [OF elide_intra_Ok [OF this]]] show "case x of (out, _) \<Rightarrow> \<forall>m'\<in>set out. \<exists>m\<in>set ms. referred m m'"
    by (simp add: x)
qed

lemma dedup_refers:
  "returns (\<lambda>d. \<forall>m'\<in>set (cx_messages d). \<exists>m\<in>set (cx_messages c). referred m m') (dedup_stage env c)"
    (is "returns ?R _")
proof -
  have step: "returns ?R (ebind (service (on_memory (elide_intra_request sha key cnt least (cx_messages c) tools system)))
      (\<lambda>(ms, _, _, saved). ereturn (add_meta ''tokens_saved'' saved (c\<lparr>cx_messages := ms\<rparr>))))"
    for sha key cnt least tools system
    by (rule returns_seq [OF elided_refers]) (auto intro!: returns_ereturn dest!: add_meta_messages)
  have "?R c" by (auto simp: referred_def)
  then show ?thesis
    unfolding dedup_stage_def Let_def
    by (intro returns_ebind) (auto intro!: returns_eret step returns_ebind [of _ "\<lambda>_. ebind _ _"] split: option.split)
qed

section \<open>What a provider is sent\<close>

lemma holds_stage:
  assumes "holds_all ctx A c" "se_flag st \<noteq> None" "\<And>m. A m \<Longrightarrow> B m"
    and "same_request ctx c \<Longrightarrow> returns (same_request c) (se_call st sv c)"
    and "same_request ctx c \<Longrightarrow> \<forall>m\<in>set (cx_messages c). A m \<Longrightarrow>
      returns (\<lambda>d. \<forall>m\<in>set (cx_messages d). B m) (se_call st sv c)"
  shows "returns (holds_all ctx B) (run_stage sv st c)"
proof (cases "cx_blocked c")
  case True
  have "holds_all ctx B c" using holds_all_mono [OF assms(1,3)] .
  then show ?thesis
    unfolding returns_def
    using True by (auto simp: run_stage_def log_stage_def holds_all_def same_request_def split: if_splits)
next
  case False
  have c: "same_request ctx c" "\<forall>m\<in>set (cx_messages c). A m"
    using assms(1) False by (auto simp: holds_all_def)
  have "returns (holds_all ctx B) (se_call st sv c)"
    using returns_conj [OF assms(4) [OF c(1)] assms(5) [OF c]]
    by (rule returns_mono) (auto simp: holds_all_def intro: same_request_trans [OF c(1)])
  then show ?thesis
    by (rule returns_run_stage)
      (use assms(2) holds_all_mono [OF assms(1,3)] in \<open>auto simp: holds_all_def same_request_def\<close>)
qed

lemma memory_assembles:
  assumes "identified ctx org" "same_request ctx c" "cx_blocked c \<or> cx_messages c = ms"
  shows "returns (holds_all ctx (assembled env org (set ms)))
    (run_pipeline sv (memory_entries (proxy_memory env)) c)"
proof -
  let ?S = "supplied env org (set ms)"
  have start: "holds_all ctx (\<lambda>m. m \<in> set ms) c"
    using assms(2,3) by (auto simp: holds_all_def)
  note keeps = keeps_memory_stages
  have scratch: "returns (holds_all ctx ?S) (run_stage sv (entry ''scratchpad'' (Some PROXY_MEMORY_FLAG) (\<lambda>_. scratchpad_stage env)) c)"
    if "holds_all ctx (\<lambda>m. m \<in> set ms) c" for c
  proof (rule holds_stage [OF that])
    assume c: "same_request ctx c" "\<forall>m\<in>set (cx_messages c). m \<in> set ms"
    then have "identified c org" using assms(1) identified_same by blast
    from scratchpad_supplies [OF this, of env] show "returns (\<lambda>d. \<forall>m\<in>set (cx_messages d). ?S m)
        (se_call (entry ''scratchpad'' (Some PROXY_MEMORY_FLAG) (\<lambda>_. scratchpad_stage env)) sv c)"
      unfolding entry_def stage_entry.simps
      by (rule returns_mono) (use c(2) in \<open>auto simp: supplied_def\<close>)
  qed (auto simp: entry_def keeps supplied_member)
  have summary: "returns (holds_all ctx ?S) (run_stage sv (entry ''summarize'' (Some PROXY_MEMORY_FLAG) (\<lambda>_. summarization_stage env)) c)"
    if "holds_all ctx ?S c" for c
  proof (rule holds_stage [OF that])
    assume c: "same_request ctx c" "\<forall>m\<in>set (cx_messages c). ?S m"
    then have "identified c org" using assms(1) identified_same by blast
    from summary_supplies [OF this, of env] show "returns (\<lambda>d. \<forall>m\<in>set (cx_messages d). ?S m)
        (se_call (entry ''summarize'' (Some PROXY_MEMORY_FLAG) (\<lambda>_. summarization_stage env)) sv c)"
      unfolding entry_def stage_entry.simps
      by (rule returns_mono) (use c(2) in \<open>auto simp: supplied_def\<close>)
  qed (auto simp: entry_def keeps)
  have knowledge: "returns (holds_all ctx ?S) (run_stage sv (entry ''knowledge'' (Some KNOWLEDGE_INJECT_FLAG) (\<lambda>_. knowledge_stage env)) c)"
    if "holds_all ctx ?S c" for c
  proof (rule holds_stage [OF that])
    assume c: "same_request ctx c" "\<forall>m\<in>set (cx_messages c). ?S m"
    from knowledge_supplies [of c env org] show "returns (\<lambda>d. \<forall>m\<in>set (cx_messages d). ?S m)
        (se_call (entry ''knowledge'' (Some KNOWLEDGE_INJECT_FLAG) (\<lambda>_. knowledge_stage env)) sv c)"
      unfolding entry_def stage_entry.simps
      by (rule returns_mono) (use c(2) in \<open>auto simp: supplied_def\<close>)
  qed (auto simp: entry_def keeps)
  have dedup: "returns (holds_all ctx (assembled env org (set ms)))
      (run_stage sv (entry ''dedup'' (Some PROXY_MEMORY_FLAG) (\<lambda>_. dedup_stage env)) c)"
    if "holds_all ctx ?S c" for c
  proof (rule holds_stage [OF that])
    assume c: "same_request ctx c" "\<forall>m\<in>set (cx_messages c). ?S m"
    from dedup_refers [of c env] show "returns (\<lambda>d. \<forall>m\<in>set (cx_messages d). assembled env org (set ms) m)
        (se_call (entry ''dedup'' (Some PROXY_MEMORY_FLAG) (\<lambda>_. dedup_stage env)) sv c)"
      unfolding entry_def stage_entry.simps
      by (rule returns_mono) (use c(2) in \<open>auto simp: assembled_def\<close>)
  qed (auto simp: entry_def keeps supplied_assembled)
  have "returns (holds_all ctx (assembled env org (set ms)))
    (run_pipeline sv [entry ''scratchpad'' (Some PROXY_MEMORY_FLAG) (\<lambda>_. scratchpad_stage env),
      entry ''summarize'' (Some PROXY_MEMORY_FLAG) (\<lambda>_. summarization_stage env),
      entry ''knowledge'' (Some KNOWLEDGE_INJECT_FLAG) (\<lambda>_. knowledge_stage env),
      entry ''dedup'' (Some PROXY_MEMORY_FLAG) (\<lambda>_. dedup_stage env)] c)"
    unfolding run_pipeline.simps
    by (rule returns_seq [OF scratch [OF start]], rule returns_seq [OF summary], assumption,
      rule returns_seq [OF knowledge], assumption, rule returns_seq [OF dedup], assumption, rule returns_eret)
  then show ?thesis by (simp add: memory_entries_def proxy_memory_def)
qed

lemma quiet_regex_sub: "(\<And>k. quiet (look k)) \<Longrightarrow> quiet (regex_sub look ps)"
proof (induction ps rule: list.induct)
  case (Cons p ps)
  then show ?case by (cases p) (auto intro!: quiet_intro split: option.split)
qed (simp add: quiet_eret)

lemma quiet_substitute: "quiet (substitute_messages (resolve_marker env sc) ms)"
proof (induction ms rule: list.induct)
  case (Cons m ms)
  have "quiet (resolve_marker env sc k)" for k
    by (auto simp: resolve_marker_def intro!: quiet_intro split: option.split)
  with Cons show ?case
    by (auto intro!: quiet_intro quiet_regex_sub split: json.split)
qed (simp add: quiet_eret)

lemma memory_quiet: "quiet (run_pipeline sv (memory_entries (proxy_memory env)) c)"
  by (rule quiet_run) (auto simp: memory_entries_def proxy_memory_def entry_def scratchpad_stage_def
      summarization_stage_def summarize_session_def knowledge_stage_def dedup_stage_def unidentified_def Let_def
      intro!: quiet_intro quiet_substitute split: option.split prod.split)


section \<open>An instance\<close>

text \<open>
  A session with one note in its table, a key that opted in to substitution, and a request that
  names the note.
\<close>

definition demo_kv :: "unit valkey" where
  "demo_kv = \<lparr>vk_get = \<lambda>_ _ _. Ok None, vk_set = \<lambda>_ _ _ _ _. Ok (), vk_del = \<lambda>_ _ _. Ok ()\<rparr>"

definition demo_memory :: "(unit, unit) memory_env" where
  "demo_memory = \<lparr>
     me_valkey = \<lparr>nv_kv = demo_kv, nv_incr = \<lambda>_ _ _. Ok (1, ()), nv_expire = \<lambda>_ _ _ _. Ok ()\<rparr>,
     me_pad = \<lparr>pe_valkey = Some demo_kv, pe_guard = demo_guard, pe_ttl = 60, pe_utf8 = length,
       pe_repr = (\<lambda>s. s), pe_aware = True, pe_collate = (\<lambda>_. 0)\<rparr>,
     me_sum = demo_sum, me_guard = demo_guard, me_sha = (\<lambda>s. s), me_entry_key = (\<lambda>_. []),
     me_read_float = (\<lambda>_. Inl ValueError),
     me_key_settings = Some (\<lambda>_. Inr (JDict [(''scratchpad_substitution'', JBool True),
       (''schema_dedup'', JBool False)])),
     me_memory_flag = (\<lambda>_. Inr True), me_source_flag = (\<lambda>_ _. Inr False), me_attrs = (\<lambda>_. no_attrs),
     me_retriever = demo_retriever, me_query = (\<lambda>_. []), me_floor_tokens = 512, me_now = 1,
     me_unidentified = (\<lambda>c s. (Inl TypeError, s))\<rparr>"

definition demo_memory_services :: "(unit, unit) memory_world_scheme services" where
  "demo_memory_services = demo_services\<lparr>sv_enabled := \<lambda>f d s. f = PROXY_MEMORY_FLAG\<rparr>"

definition demo_session :: pad_scope where
  "demo_session = \<lparr>sc_org = 3, sc_session = ''s'', sc_user = 1\<rparr>"

definition demo_noted :: "(unit, unit) memory_world_scheme world" where
  "demo_noted = \<lparr>wd_state = \<lparr>mw_server = (), mw_pad = [\<lparr>pw_scope = demo_session, pw_key = ''k'',
     pw_value = ''hi'', pw_status = ''active'', pw_expires_at = None, pw_updated_at = 0, pw_version = 1\<rparr>],
     mw_summaries = [], mw_next_summary = 1\<rparr>, wd_calls = []\<rparr>"

definition noted_chat :: pctx where
  "noted_chat = new_context (Some (demo_pipeline_user\<lparr>pu_api_key_id := Some 7\<rparr>)) [] (Some ''gpt-4o'')
     [user_message ''waddleai://scratchpad/k'', user_message ''waddleai://scratchpad/x''] False ''openai''
     (JStr ''s'') None None"

lemma noted_chat_run:
  "\<exists>r w'. run_pipeline demo_memory_services (proxy_stages (proxy_memory demo_memory)) noted_chat demo_noted = (r, w') \<and>
    wd_calls w' = [(''openai'', [user_message (wrap_provenance_block (\<lambda>_. ''now'') ''hi'' (session_tag 1 demo_session)),
      user_message ''waddleai://scratchpad/x''], ''gpt-4o'')]"
proof -
  have "wd_calls (snd (run_pipeline demo_memory_services (proxy_stages (proxy_memory demo_memory)) noted_chat demo_noted)) =
      [(''openai'', [user_message (wrap_provenance_block (\<lambda>_. ''now'') ''hi'' (session_tag 1 demo_session)),
      user_message ''waddleai://scratchpad/x''], ''gpt-4o'')]"
    by code_simp
  then show ?thesis by (metis prod.collapse)
qed


section \<open>What is accounted\<close>

text \<open>
  What the knowledge stage accounts does not survive dispatch: an answer of a provider gives
  the same context whatever usage was noted before the call.
\<close>

theorem injection_unaccounted:
  assumes "\<not> cx_stream ctx" "call_provider sv call (ctx\<lparr>cx_usage := u\<rparr>) w = (Inr (d, None), w')"
  shows "call_provider sv call ctx w = (Inr (d, None), w')"
  using assms
  by (auto simp: call_provider_def answered_def eff_simps log_call_def split: prod.splits sum.splits)

theorem injection_unaccounted_witness:
  "\<exists>d w'. call_provider demo_services (''openai'', [], ''gpt-4o'') demo_chat demo_world = (Inr (d, None), w') \<and>
     cx_usage d = Some [(''input_tokens'', JInt 1), (''output_tokens'', JInt 2)]"
proof -
  have "\<exists>d w'. call_provider demo_services (''openai'', [], ''gpt-4o'')
      (demo_chat\<lparr>cx_usage := Some [(''waddleai'', JDict [(''injected_tokens'', JInt 9)])]\<rparr>) demo_world =
        (Inr (d, None), w') \<and> cx_usage d = Some [(''input_tokens'', JInt 1), (''output_tokens'', JInt 2)]"
    by (simp add: call_provider_def answered_def eff_simps log_call_def demo_services_def demo_chat_def
        new_context_def)
  then obtain d w' where run: "call_provider demo_services (''openai'', [], ''gpt-4o'')
      (demo_chat\<lparr>cx_usage := Some [(''waddleai'', JDict [(''injected_tokens'', JInt 9)])]\<rparr>) demo_world =
        (Inr (d, None), w')" "cx_usage d = Some [(''input_tokens'', JInt 1), (''output_tokens'', JInt 2)]"
    by blast
  have "\<not> cx_stream demo_chat" by (simp add: demo_chat_def new_context_def)
  from injection_unaccounted [OF this run(1)] run(2) show ?thesis by blast
qed

end
