(* ===== verification/RequestRouter.thy ===== *)
theory RequestRouter
  imports PyJson "HOL-Library.AList"
begin

text \<open>
  The provider tier (\<open>shared/utils/request_router.py\<close>): which providers a model may go to, the
  six strategies that choose among them, the circuit breaker of each provider, and the execution
  with fallback. Times are microseconds; a latency is a rational number of milliseconds.
\<close>

section \<open>State\<close>

datatype strategy =
  RoundRobin | CostOptimized | LatencyOptimized | LoadBalanced | Failover | RandomChoice

fun strategy_value :: "strategy \<Rightarrow> string" where
  "strategy_value RoundRobin = ''round_robin''"
| "strategy_value CostOptimized = ''cost_optimized''"
| "strategy_value LatencyOptimized = ''latency_optimized''"
| "strategy_value LoadBalanced = ''load_balanced''"
| "strategy_value Failover = ''failover''"
| "strategy_value RandomChoice = ''random''"

record provider_stats =
  ps_total :: int
  ps_successful :: int
  ps_failed :: int
  ps_latency :: rat
  ps_last_success :: "int option"
  ps_last_failure :: "int option"
  ps_consecutive :: int
  ps_probe :: bool

definition new_stats :: provider_stats where
  "new_stats = \<lparr>ps_total = 0, ps_successful = 0, ps_failed = 0, ps_latency = 0,
     ps_last_success = None, ps_last_failure = None, ps_consecutive = 0, ps_probe = False\<rparr>"

record model_config =
  mc_preferred :: "string list"
  mc_cost :: "(string \<times> rat) list"

record provider_connector =
  pc_models :: "string list"
  pc_local :: bool

text \<open>
  The connectors in the order of their dict, the configurations of models, and \<open>random.choice\<close>.
\<close>

record router_env =
  re_connectors :: "(string \<times> provider_connector) list"
  re_configs :: "(string \<times> model_config) list"
  re_choice :: "string list \<Rightarrow> string"

record router =
  ro_stats :: "(string \<times> provider_stats) list"
  ro_counters :: "(string \<times> nat) list"
  ro_strategy :: strategy

definition BREAKER_FAILURE_THRESHOLD :: int where
  "BREAKER_FAILURE_THRESHOLD = 3"

definition BREAKER_COOLDOWN :: int where
  "BREAKER_COOLDOWN = 300000000"

definition stats_of :: "router \<Rightarrow> string \<Rightarrow> provider_stats" where
  "stats_of r p = (case map_of (ro_stats r) p of Some s \<Rightarrow> s | None \<Rightarrow> new_stats)"

definition set_stats :: "string \<Rightarrow> provider_stats \<Rightarrow> router \<Rightarrow> router" where
  "set_stats p s r = r\<lparr>ro_stats := AList.update p s (ro_stats r)\<rparr>"

definition new_router :: "router_env \<Rightarrow> router" where
  "new_router env = \<lparr>ro_stats = map (\<lambda>(p, _). (p, new_stats)) (re_connectors env),
     ro_counters = map (\<lambda>(p, _). (p, 0)) (re_connectors env), ro_strategy = LoadBalanced\<rparr>"

section \<open>Availability and the breaker\<close>

definition in_cooldown :: "int \<Rightarrow> provider_stats \<Rightarrow> bool" where
  "in_cooldown now s = (case ps_last_failure s of
     None \<Rightarrow> False
   | Some f \<Rightarrow> (case ps_last_success s of None \<Rightarrow> True | Some g \<Rightarrow> g < f) \<and> now - f < BREAKER_COOLDOWN)"

definition tripped :: "provider_stats \<Rightarrow> bool" where
  "tripped s \<longleftrightarrow> BREAKER_FAILURE_THRESHOLD \<le> ps_consecutive s"

definition supports :: "string \<Rightarrow> provider_connector \<Rightarrow> bool" where
  "supports model c \<longleftrightarrow> model \<in> set (pc_models c) \<or> pc_models c = []"

text \<open>A provider that has no entry is looked at through fresh numbers, which are not tripped.\<close>

fun available_from :: "int \<Rightarrow> string \<Rightarrow> (string \<times> provider_connector) list \<Rightarrow> router \<Rightarrow> string list \<times> router" where
  "available_from now model [] r = ([], r)"
| "available_from now model ((p, c) # cs) r =
     (let s = stats_of r p in
      if \<not> supports model c then available_from now model cs r
      else if tripped s then
        (if in_cooldown now s \<or> ps_probe s then available_from now model cs r
         else let (ps, r') = available_from now model cs (set_stats p (s\<lparr>ps_probe := True\<rparr>) r)
              in (p # ps, r'))
      else if in_cooldown now s then available_from now model cs r
      else let (ps, r') = available_from now model cs r in (p # ps, r'))"

definition get_available_providers :: "router_env \<Rightarrow> int \<Rightarrow> string \<Rightarrow> router \<Rightarrow> string list \<times> router" where
  "get_available_providers env now model r = available_from now model (re_connectors env) r"

section \<open>Strategies\<close>

text \<open>
  The first provider with the strictly smallest score; \<open>None\<close> is infinite. Without providers the
  source raises, which is \<open>None\<close> here.
\<close>

fun less_score :: "rat option \<Rightarrow> rat option \<Rightarrow> bool" where
  "less_score (Some a) (Some b) = (a < b)"
| "less_score (Some a) None = True"
| "less_score None _ = False"

fun scan_min :: "(string \<Rightarrow> rat option) \<Rightarrow> string \<Rightarrow> rat option \<Rightarrow> string list \<Rightarrow> string" where
  "scan_min score best least [] = best"
| "scan_min score best least (p # ps) =
     (if less_score (score p) least then scan_min score p (score p) ps else scan_min score best least ps)"

definition first_min :: "(string \<Rightarrow> rat option) \<Rightarrow> string list \<Rightarrow> string option" where
  "first_min score ps = (case ps of [] \<Rightarrow> None | p # _ \<Rightarrow> Some (scan_min score p None ps))"

definition first_of :: "string list \<Rightarrow> string option" where
  "first_of ps = (case ps of [] \<Rightarrow> None | p # _ \<Rightarrow> Some p)"

definition counter_key :: "string \<Rightarrow> string" where
  "counter_key model = model @ ''_rr''"

definition counter_of :: "router \<Rightarrow> string \<Rightarrow> nat" where
  "counter_of r model = (case map_of (ro_counters r) (counter_key model) of Some n \<Rightarrow> n | None \<Rightarrow> 0)"

definition round_robin_selection :: "string \<Rightarrow> string list \<Rightarrow> router \<Rightarrow> string option \<times> router" where
  "round_robin_selection model ps r =
     (if ps = [] then (None, r)
      else (Some (ps ! (counter_of r model mod length ps)),
        r\<lparr>ro_counters := AList.update (counter_key model) (Suc (counter_of r model)) (ro_counters r)\<rparr>))"

definition cost_optimized_selection :: "router_env \<Rightarrow> string \<Rightarrow> string list \<Rightarrow> string option" where
  "cost_optimized_selection env model ps = (case map_of (re_configs env) model of
     None \<Rightarrow> first_of ps
   | Some cfg \<Rightarrow> first_min (map_of (mc_cost cfg)) ps)"

definition latency_optimized_selection :: "string list \<Rightarrow> router \<Rightarrow> string option" where
  "latency_optimized_selection ps r = first_min (\<lambda>p. Some (ps_latency (stats_of r p))) ps"

definition load_score :: "provider_stats \<Rightarrow> int" where
  "load_score s = ps_total s - ps_successful s + ps_consecutive s * 10"

definition load_balanced_selection :: "string list \<Rightarrow> router \<Rightarrow> string option" where
  "load_balanced_selection ps r = first_min (\<lambda>p. Some (of_int (load_score (stats_of r p)))) ps"

definition failover_selection :: "router_env \<Rightarrow> string \<Rightarrow> string list \<Rightarrow> string option" where
  "failover_selection env model ps = (case map_of (re_configs env) model of
     None \<Rightarrow> first_of ps
   | Some cfg \<Rightarrow> (case List.find (\<lambda>p. p \<in> set ps) (mc_preferred cfg) of
       Some p \<Rightarrow> Some p | None \<Rightarrow> first_of ps))"

definition select_by_strategy ::
    "router_env \<Rightarrow> string \<Rightarrow> string list \<Rightarrow> strategy \<Rightarrow> router \<Rightarrow> string option \<times> router" where
  "select_by_strategy env model ps strat r = (case strat of
     RoundRobin \<Rightarrow> round_robin_selection model ps r
   | CostOptimized \<Rightarrow> (cost_optimized_selection env model ps, r)
   | LatencyOptimized \<Rightarrow> (latency_optimized_selection ps r, r)
   | LoadBalanced \<Rightarrow> (load_balanced_selection ps r, r)
   | Failover \<Rightarrow> (failover_selection env model ps, r)
   | RandomChoice \<Rightarrow> (if ps = [] then None else Some (re_choice env ps), r))"

section \<open>Selection\<close>

definition is_affinity_eligible :: "router_env \<Rightarrow> string \<Rightarrow> bool" where
  "is_affinity_eligible env p = (case map_of (re_connectors env) p of Some c \<Rightarrow> pc_local c | None \<Rightarrow> False)"

definition select_provider ::
    "router_env \<Rightarrow> int \<Rightarrow> string \<Rightarrow> strategy option \<Rightarrow> string option \<Rightarrow> router \<Rightarrow>
     (string \<times> string) option \<times> router" where
  "select_provider env now model strat preferred r =
     (let (ps, r1) = get_available_providers env now model r in
      if ps = [] then (None, r1)
      else if truthy preferred \<and> the preferred \<in> set ps \<and> is_affinity_eligible env (the preferred)
      then (Some (the preferred, model), r1)
      else
        (let (p, r2) = select_by_strategy env model ps (case strat of Some s \<Rightarrow> s | None \<Rightarrow> ro_strategy r1) r1
         in (if truthy p then Some (the p, model) else None, r2)))"

section \<open>Reports\<close>

definition reported_stats :: "int \<Rightarrow> bool \<Rightarrow> rat \<Rightarrow> provider_stats \<Rightarrow> provider_stats" where
  "reported_stats now success latency s =
     (let s1 = s\<lparr>ps_total := ps_total s + 1, ps_probe := False\<rparr> in
      if success
      then s1\<lparr>ps_successful := ps_successful s + 1, ps_last_success := Some now, ps_consecutive := 0,
        ps_latency := (if ps_latency s = 0 then latency else ps_latency s * (9 / 10) + latency * (1 / 10))\<rparr>
      else s1\<lparr>ps_failed := ps_failed s + 1, ps_last_failure := Some now,
        ps_consecutive := ps_consecutive s + 1\<rparr>)"

definition update_provider_stats :: "int \<Rightarrow> string \<Rightarrow> bool \<Rightarrow> rat \<Rightarrow> router \<Rightarrow> router" where
  "update_provider_stats now p success latency r =
     set_stats p (reported_stats now success latency (stats_of r p)) r"

definition health_checked :: "int \<Rightarrow> bool \<Rightarrow> provider_stats \<Rightarrow> provider_stats" where
  "health_checked now healthy s =
     (if healthy then s\<lparr>ps_consecutive := 0, ps_last_success := Some now\<rparr>
      else s\<lparr>ps_consecutive := ps_consecutive s + 1, ps_last_failure := Some now\<rparr>)"

text \<open>The results of the health check, in order; only known providers are noted.\<close>

fun health_check_providers :: "int \<Rightarrow> (string \<times> bool) list \<Rightarrow> router \<Rightarrow> router" where
  "health_check_providers now [] r = r"
| "health_check_providers now ((p, healthy) # results) r =
     health_check_providers now results
       (if map_of (ro_stats r) p = None then r
        else set_stats p (health_checked now healthy (stats_of r p)) r)"

definition set_routing_strategy :: "strategy \<Rightarrow> router \<Rightarrow> router" where
  "set_routing_strategy s r = r\<lparr>ro_strategy := s\<rparr>"

definition stats_report :: "(int \<Rightarrow> string) \<Rightarrow> provider_stats \<Rightarrow> dict" where
  "stats_report stamp s =
     [(''total_requests'', JInt (ps_total s)), (''successful_requests'', JInt (ps_successful s)),
      (''failed_requests'', JInt (ps_failed s)),
      (''success_rate'', JFloat (of_int (ps_successful s) / of_int (max (ps_total s) 1))),
      (''avg_latency_ms'', JFloat (ps_latency s)), (''consecutive_failures'', JInt (ps_consecutive s)),
      (''last_success'', case ps_last_success s of Some t \<Rightarrow> JStr (stamp t) | None \<Rightarrow> JNull),
      (''last_failure'', case ps_last_failure s of Some t \<Rightarrow> JStr (stamp t) | None \<Rightarrow> JNull)]"

definition get_provider_stats :: "(int \<Rightarrow> string) \<Rightarrow> router \<Rightarrow> (string \<times> dict) list" where
  "get_provider_stats stamp r = map (\<lambda>(p, s). (p, stats_report stamp s)) (ro_stats r)"

section \<open>Execution with fallback\<close>

text \<open>
  What a call to a connector gives, with the time it ends and how long it took. A failure is one
  the client is to blame for, or any other, by its message.
\<close>

datatype call_result =
    Answered string dict
  | ClientFailed string
  | RetryableFailed string

record call_outcome =
  co_result :: call_result
  co_end :: int
  co_latency :: rat

datatype execution = Executed string dict | AllFailed "string option"

fun execute_from ::
    "router_env \<Rightarrow> (string \<Rightarrow> 'w \<Rightarrow> call_outcome \<times> 'w) \<Rightarrow> string option \<Rightarrow> string list \<Rightarrow> 'w \<Rightarrow> router \<Rightarrow>
     execution \<times> 'w \<times> router" where
  "execute_from env chat err [] w r = (AllFailed err, w, r)"
| "execute_from env chat err (p # ps) w r =
     (if map_of (re_connectors env) p = None then execute_from env chat err ps w r
      else
        (let (res, w') = chat p w in
         case co_result res of
           Answered s usage \<Rightarrow>
             (Executed s (dict_set (dict_set usage ''provider'' (JStr p)) ''routing_strategy''
                (JStr (strategy_value (ro_strategy r)))),
              w', update_provider_stats (co_end res) p True (co_latency res) r)
         | ClientFailed e \<Rightarrow> execute_from env chat (Some e) ps w' r
         | RetryableFailed e \<Rightarrow>
             execute_from env chat (Some e) ps w' (update_provider_stats (co_end res) p False 0 r)))"

definition execute_with_fallback ::
    "router_env \<Rightarrow> (string \<Rightarrow> 'w \<Rightarrow> call_outcome \<times> 'w) \<Rightarrow> string \<Rightarrow> string list \<Rightarrow> 'w \<Rightarrow> router \<Rightarrow>
     execution \<times> 'w \<times> router" where
  "execute_with_fallback env chat primary available w r =
     execute_from env chat None (primary # filter (\<lambda>p. p \<noteq> primary) available) w r"

end
