(* ===== verification/RouterLaws.thy ===== *)
theory RouterLaws
  imports RequestRouter
begin

text \<open>
  The circuit breaker as a state machine: what an offered provider is, what a probe does, what
  histories keep; and which provider a strategy chooses.
\<close>

section \<open>Numbers of a provider\<close>

lemma stats_of_set [simp]: "stats_of (set_stats p s r) q = (if q = p then s else stats_of r q)"
  by (simp add: stats_of_def set_stats_def update_conv')

lemma set_stats_more [simp]:
  "ro_counters (set_stats p s r) = ro_counters r" "ro_strategy (set_stats p s r) = ro_strategy r"
  by (simp_all add: set_stats_def)

text \<open>
  A provider is offered when it supports the model and is not cooling down, and either is not
  tripped or has no probe in flight; the offer of a tripped one is its probe.
\<close>

definition offerable :: "int \<Rightarrow> provider_stats \<Rightarrow> bool" where
  "offerable now s \<longleftrightarrow> \<not> in_cooldown now s \<and> \<not> (tripped s \<and> ps_probe s)"

definition offered_stats :: "provider_stats \<Rightarrow> provider_stats" where
  "offered_stats s = (if tripped s then s\<lparr>ps_probe := True\<rparr> else s)"

lemma tripped_probe [simp]: "tripped (s\<lparr>ps_probe := b\<rparr>) = tripped s"
  by (simp add: tripped_def)

lemma available_from_spec:
  assumes "distinct (map fst cs)" "available_from now model cs r = (ps, r')"
  shows "ps = map fst (filter (\<lambda>(p, c). supports model c \<and> offerable now (stats_of r p)) cs) \<and>
    (\<forall>q. stats_of r' q = (if q \<in> set ps then offered_stats (stats_of r q) else stats_of r q)) \<and>
    ro_counters r' = ro_counters r \<and> ro_strategy r' = ro_strategy r"
  using assms
proof (induction cs arbitrary: r ps r')
  case (Cons pc cs)
  obtain p c where pc: "pc = (p, c)" by fastforce
  have notin: "p \<notin> fst ` set cs" and d: "distinct (map fst cs)" using Cons.prems(1) pc by auto
  have other: "q \<noteq> p" if "(q, c') \<in> set cs" for q c' using notin that by force
  show ?case
  proof (cases "supports model c \<and> offerable now (stats_of r p)")
    case True
    obtain ps0 r0 where rest: "available_from now model cs
        (if tripped (stats_of r p) then set_stats p (stats_of r p\<lparr>ps_probe := True\<rparr>) r else r) = (ps0, r0)"
      by fastforce
    have run: "ps = p # ps0" "r' = r0"
      using Cons.prems(2) True rest pc by (auto simp: offerable_def Let_def split: if_splits)
    note IH = Cons.IH [OF d rest]
    have same: "filter (\<lambda>(q, c). supports model c \<and> offerable now (stats_of
        (if tripped (stats_of r p) then set_stats p (stats_of r p\<lparr>ps_probe := True\<rparr>) r else r) q)) cs =
        filter (\<lambda>(q, c). supports model c \<and> offerable now (stats_of r q)) cs"
      by (rule filter_cong) (use other in auto)
    have "p \<notin> set ps0" using IH notin by auto
    with IH run same True pc show ?thesis
      by (auto simp: offered_stats_def split: if_splits)
  next
    case False
    then have "available_from now model cs r = (ps, r')"
      using Cons.prems(2) pc by (auto simp: offerable_def Let_def split: if_splits)
    from Cons.IH [OF d this] False pc show ?thesis by auto
  qed
qed simp

section \<open>Choices\<close>

lemma scan_min_in: "scan_min score best least ps \<in> insert best (set ps)"
  by (induction score best least ps rule: scan_min.induct) auto

lemma first_min_in: "first_min score ps = Some p \<Longrightarrow> p \<in> set ps"
  using scan_min_in [of score "hd ps" None ps]
  by (cases ps) (auto simp: first_min_def simp del: scan_min.simps)

lemma first_of_in: "first_of ps = Some p \<Longrightarrow> p \<in> set ps"
  by (auto simp: first_of_def split: list.splits)

lemma find_in: "List.find P xs = Some x \<Longrightarrow> x \<in> set xs \<and> P x"
  by (auto simp: find_Some_iff)

lemma select_by_strategy_in:
  assumes "select_by_strategy env model ps strat r = (Some p, r')"
    and "\<And>xs. xs \<noteq> [] \<Longrightarrow> re_choice env xs \<in> set xs"
  shows "p \<in> set ps"
  using assms
  by (cases strat) (auto simp: select_by_strategy_def round_robin_selection_def cost_optimized_selection_def
      latency_optimized_selection_def load_balanced_selection_def failover_selection_def
      dest: first_min_in first_of_in find_in split: if_splits option.splits)

lemma select_by_strategy_stats:
  "select_by_strategy env model ps strat r = (p, r') \<Longrightarrow> stats_of r' = stats_of r"
  by (cases strat) (auto simp: select_by_strategy_def round_robin_selection_def stats_of_def fun_eq_iff
      split: if_splits)

section \<open>Selection\<close>

definition router_ok :: "router_env \<Rightarrow> bool" where
  "router_ok env \<longleftrightarrow> distinct (map fst (re_connectors env)) \<and> (\<forall>xs. xs \<noteq> [] \<longrightarrow> re_choice env xs \<in> set xs)"

definition offers_to :: "router_env \<Rightarrow> int \<Rightarrow> string \<Rightarrow> router \<Rightarrow> string list" where
  "offers_to env now model r =
     map fst (filter (\<lambda>(p, c). supports model c \<and> offerable now (stats_of r p)) (re_connectors env))"

lemma select_provider_spec:
  assumes "router_ok env" "select_provider env now model strat hint r = (out, r')"
  shows "(\<forall>q. stats_of r' q =
      (if q \<in> set (offers_to env now model r) then offered_stats (stats_of r q) else stats_of r q)) \<and>
    (\<forall>p m. out = Some (p, m) \<longrightarrow> m = model \<and> p \<in> set (offers_to env now model r))"
proof -
  obtain ps r1 where av: "get_available_providers env now model r = (ps, r1)" by fastforce
  note spec = available_from_spec [OF _ av [unfolded get_available_providers_def]]
  have ps: "ps = offers_to env now model r" and
    st: "\<forall>q. stats_of r1 q = (if q \<in> set ps then offered_stats (stats_of r q) else stats_of r q)"
    using spec assms(1) by (auto simp: router_ok_def offers_to_def)
  obtain p r2 where sel: "select_by_strategy env model ps (case strat of Some s \<Rightarrow> s | None \<Rightarrow> ro_strategy r1) r1 = (p, r2)"
    by fastforce
  have r2: "stats_of r2 = stats_of r1" by (rule select_by_strategy_stats [OF sel])
  have inp: "p = Some x \<Longrightarrow> x \<in> set ps" for x
    using select_by_strategy_in [of env model ps _ r1 x r2] sel assms(1) by (auto simp: router_ok_def)
  have "truthy p \<Longrightarrow> the p \<in> set ps" using inp by (cases p) auto
  then show ?thesis
    using assms(2) av sel st r2 unfolding ps [symmetric]
    by (auto simp: select_provider_def split: if_splits)
qed

text \<open>
  C23. The breaker is never bypassed: a provider that is selected supports the model, has had no
  failure within the cooldown that no later success made up for, and if it is tripped, no probe of
  it was in flight and this selection is the probe. That holds for an affinity hint, too.
\<close>

theorem selected_is_live:
  assumes "router_ok env" "select_provider env now model strat hint r = (Some (p, m), r')"
  shows "m = model \<and> (\<exists>c. (p, c) \<in> set (re_connectors env) \<and> supports model c) \<and>
    \<not> in_cooldown now (stats_of r p) \<and>
    (tripped (stats_of r p) \<longrightarrow> \<not> ps_probe (stats_of r p) \<and> ps_probe (stats_of r' p))"
  using select_provider_spec [OF assms] by (auto simp: offers_to_def offerable_def offered_stats_def)

text \<open>
  A provider whose cooldown has passed is offered again: if it is the only connector of the
  model and no probe is in flight, it is selected.
\<close>

theorem cooled_provider_selected:
  assumes "router_ok env" "re_connectors env = [(p, c)]" "supports model c" "p \<noteq> []"
    and "ps_last_failure (stats_of r p) = Some f" "f + BREAKER_COOLDOWN \<le> now" "\<not> ps_probe (stats_of r p)"
  shows "fst (select_provider env now model strat hint r) = Some (p, model)"
proof -
  obtain out r' where run: "select_provider env now model strat hint r = (out, r')" by fastforce
  have off: "offers_to env now model r = [p]"
    using assms(2-7) by (auto simp: offers_to_def offerable_def in_cooldown_def)
  obtain ps r1 where av: "get_available_providers env now model r = (ps, r1)" by fastforce
  have ps: "ps = [p]"
    using available_from_spec [OF _ av [unfolded get_available_providers_def]] assms(1) off
    by (auto simp: router_ok_def offers_to_def)
  have only: "q \<in> set [p] \<Longrightarrow> q = p" for q by simp
  have total: "\<exists>q r2. select_by_strategy env model [p] st r1 = (Some q, r2)" for st
    by (cases st) (auto simp: select_by_strategy_def round_robin_selection_def cost_optimized_selection_def
        latency_optimized_selection_def load_balanced_selection_def failover_selection_def first_min_def
        first_of_def split: option.split)
  obtain q r2 where q: "select_by_strategy env model [p] (case strat of Some s \<Rightarrow> s | None \<Rightarrow> ro_strategy r1) r1 =
      (Some q, r2)" using total by blast
  have "q = p" using select_by_strategy_in [OF q] assms(1) by (auto simp: router_ok_def)
  with av ps q assms(4) show ?thesis by (auto simp: select_provider_def)
qed

section \<open>Histories\<close>

datatype router_event =
    Select string "strategy option" "string option"
  | Report string bool rat
  | Health "(string \<times> bool) list"
  | SetStrategy strategy

fun router_apply :: "router_env \<Rightarrow> int \<Rightarrow> router_event \<Rightarrow> router \<Rightarrow> (string \<times> string) option \<times> router" where
  "router_apply env now (Select model strat hint) r = select_provider env now model strat hint r"
| "router_apply env now (Report p ok latency) r = (None, update_provider_stats now p ok latency r)"
| "router_apply env now (Health results) r = (None, health_check_providers now results r)"
| "router_apply env now (SetStrategy s) r = (None, set_routing_strategy s r)"

inductive router_steps :: "router_env \<Rightarrow> (int \<times> router_event) list \<Rightarrow> router \<Rightarrow> router \<Rightarrow> bool" for env where
  start: "router_steps env [] r r"
| step: "router_steps env evs r r1 \<Longrightarrow> router_apply env now ev r1 = (out, r2) \<Longrightarrow>
    router_steps env (evs @ [(now, ev)]) r r2"

lemma stats_of_health:
  "stats_of (health_check_providers now results r) p = stats_of r p \<or>
   (\<exists>s. stats_of (health_check_providers now results r) p = s \<and> ps_total s = ps_total (stats_of r p) \<and>
     ps_successful s = ps_successful (stats_of r p) \<and> ps_failed s = ps_failed (stats_of r p) \<and>
     ps_probe s = ps_probe (stats_of r p))"
  by (induction now results r rule: health_check_providers.induct) (auto simp: health_checked_def split: if_splits)

text \<open>
  In every history each request that was reported is counted once, as a success or as a
  failure, and successes and failures are never negative.
\<close>

theorem router_counts:
  assumes "router_steps env evs (new_router env) r" "router_ok env"
  shows "ps_total (stats_of r p) = ps_successful (stats_of r p) + ps_failed (stats_of r p) \<and>
    0 \<le> ps_successful (stats_of r p) \<and> 0 \<le> ps_failed (stats_of r p)"
  using assms(1)
proof (induction evs "new_router env" r arbitrary: p rule: router_steps.induct)
  case start
  have "stats_of (new_router env) p = new_stats"
    by (auto simp: stats_of_def new_router_def dest!: map_of_SomeD split: option.splits)
  then show ?case by (simp add: new_stats_def)
next
  case (step evs r1 now ev out r2)
  show ?case
  proof (cases ev)
    case (Select model strat hint)
    with step(3) have "select_provider env now model strat hint r1 = (out, r2)" by simp
    from select_provider_spec [OF assms(2) this] step(2) [of p] show ?thesis
      by (simp add: offered_stats_def)
  next
    case (Report q ok latency)
    with step(2) [of p] step(3) show ?thesis
      by (auto simp: update_provider_stats_def reported_stats_def Let_def)
  next
    case (Health results)
    with step(2) [of p] step(3) stats_of_health [of now results r1 p] show ?thesis by auto
  next
    case (SetStrategy s)
    with step(2) [of p] step(3) show ?thesis
      by (auto simp: set_routing_strategy_def stats_of_def)
  qed
qed

text \<open>What leaves a provider's probe as it is: anything but a report or a health check of it.\<close>

fun silent_on :: "string \<Rightarrow> router_event \<Rightarrow> bool" where
  "silent_on q (Report p ok latency) \<longleftrightarrow> p \<noteq> q"
| "silent_on q (Health results) \<longleftrightarrow> q \<notin> fst ` set results"
| "silent_on q _ \<longleftrightarrow> True"

definition probing :: "router \<Rightarrow> string \<Rightarrow> bool" where
  "probing r q \<longleftrightarrow> tripped (stats_of r q) \<and> ps_probe (stats_of r q)"

lemma health_silent: "q \<notin> fst ` set results \<Longrightarrow>
    stats_of (health_check_providers now results r) q = stats_of r q"
  by (induction now results r rule: health_check_providers.induct) auto

lemma probing_kept:
  assumes "router_steps env evs r r'" "router_ok env" "probing r q" "\<forall>(t, ev)\<in>set evs. silent_on q ev"
  shows "probing r' q"
  using assms(1,3,4)
proof (induction rule: router_steps.induct)
  case (step evs r r1 now ev out r2)
  then have before: "probing r1 q" and silent: "silent_on q ev" by auto
  show ?case
  proof (cases ev)
    case (Select model strat hint)
    with step.hyps(2) have "select_provider env now model strat hint r1 = (out, r2)" by simp
    from select_provider_spec [OF assms(2) this] before show ?thesis
      by (simp add: probing_def offered_stats_def)
  next
    case (Report p ok latency)
    with step.hyps(2) before silent show ?thesis by (auto simp: probing_def update_provider_stats_def)
  next
    case (Health results)
    with step.hyps(2) before silent show ?thesis by (auto simp: probing_def health_silent)
  next
    case (SetStrategy s)
    with step.hyps(2) before show ?thesis by (auto simp: probing_def set_routing_strategy_def stats_of_def)
  qed
qed

lemma probing_not_selected:
  assumes "router_ok env" "probing r q" "select_provider env now model strat hint r = (Some (p, m), r')"
  shows "p \<noteq> q"
  using select_provider_spec [OF assms(1,3)] assms(2) by (auto simp: probing_def offers_to_def offerable_def)

text \<open>
  C25. A probe can be lost: the listing reserves the probe of every tripped provider whose cooldown
  has passed, but only one provider is chosen. The others are never selected again, however long
  the history is, until a request is reported for them, which no request is made for, or a health
  check finds them.
\<close>

theorem lost_probe_ejects:
  assumes "router_ok env" "select_provider env now model strat hint r = (Some (p, m), r1)"
    and "q \<in> set (offers_to env now model r)" "tripped (stats_of r q)" "p \<noteq> q"
    and "router_steps env evs r1 r2" "\<forall>(t, ev)\<in>set evs. silent_on q ev"
    and "select_provider env now' model' strat' hint' r2 = (Some (p', m'), r3)"
  shows "p' \<noteq> q"
proof -
  have "probing r1 q"
    using select_provider_spec [OF assms(1,2)] assms(3,4) by (simp add: probing_def offered_stats_def)
  from probing_kept [OF assms(6,1) this assms(7)] show ?thesis
    using probing_not_selected [OF assms(1) _ assms(8)] by blast
qed

text \<open>
  One failure is enough: a provider that failed once, with no success since, is not selected
  until the cooldown has passed, although the breaker is documented to trip after three.
\<close>

theorem one_failure_ejects:
  assumes "router_ok env" "\<forall>g. ps_last_success (stats_of r p) = Some g \<longrightarrow> g < t"
    and "t' < t + BREAKER_COOLDOWN"
    and "select_provider env t' model strat hint (update_provider_stats t p False latency r) = (Some (q, m), r')"
  shows "q \<noteq> p"
proof
  assume "q = p"
  with select_provider_spec [OF assms(1,4)]
  have "offerable t' (stats_of (update_provider_stats t p False latency r) p)"
    by (auto simp: offers_to_def)
  with assms(2,3) show False
    by (auto simp: offerable_def in_cooldown_def update_provider_stats_def reported_stats_def Let_def
        split: option.splits)
qed

definition selects_only :: "(int \<times> router_event) list \<Rightarrow> bool" where
  "selects_only evs \<longleftrightarrow> (\<forall>(t, ev)\<in>set evs. case ev of Select _ _ _ \<Rightarrow> True | _ \<Rightarrow> False)"

text \<open>
  The proxy only selects: it reports no outcome and runs no health check of the router. In such
  a history the breaker never leaves its initial state, and every provider that supports a model
  is offered at every time, whatever became of the requests.
\<close>

theorem unreported_breaker_inert:
  assumes "router_steps env evs (new_router env) r" "router_ok env" "selects_only evs"
  shows "stats_of r p = new_stats \<and>
    offers_to env now model r = map fst (filter (\<lambda>(p, c). supports model c) (re_connectors env))"
proof -
  have fresh: "stats_of r p = new_stats" for p
    using assms(1,3)
  proof (induction evs "new_router env" r arbitrary: p rule: router_steps.induct)
    case start
    show ?case by (auto simp: stats_of_def new_router_def dest!: map_of_SomeD split: option.splits)
  next
    case (step evs r1 now ev out r2)
    then obtain model strat hint where ev: "ev = Select model strat hint" and "selects_only evs"
      by (auto simp: selects_only_def split: router_event.splits)
    with step(2) have "stats_of r1 q = new_stats" for q by blast
    moreover have "select_provider env now model strat hint r1 = (out, r2)" using step(3) ev by simp
    ultimately show ?case
      using select_provider_spec [OF assms(2), of now model strat hint r1 out r2]
      by (simp add: offered_stats_def tripped_def new_stats_def BREAKER_FAILURE_THRESHOLD_def)
  qed
  have "offerable now new_stats"
    by (simp add: offerable_def in_cooldown_def new_stats_def tripped_def BREAKER_FAILURE_THRESHOLD_def)
  with fresh show ?thesis by (simp add: offers_to_def)
qed

section \<open>Round robin\<close>

fun picks :: "string \<Rightarrow> string list \<Rightarrow> nat \<Rightarrow> router \<Rightarrow> string list" where
  "picks model ps 0 r = []"
| "picks model ps (Suc n) r = (case round_robin_selection model ps r of
     (Some p, r') \<Rightarrow> p # picks model ps n r' | (None, r') \<Rightarrow> picks model ps n r')"

lemma counter_after: "ps \<noteq> [] \<Longrightarrow>
    counter_of (snd (round_robin_selection model ps r)) model = Suc (counter_of r model)"
  by (simp add: round_robin_selection_def counter_of_def update_conv')

lemma picks_nth: "ps \<noteq> [] \<Longrightarrow> picks model ps n r =
    map (\<lambda>i. ps ! ((counter_of r model + i) mod length ps)) [0..<n]"
proof (induction n arbitrary: r)
  case (Suc n)
  obtain r' where r': "round_robin_selection model ps r = (Some (ps ! (counter_of r model mod length ps)), r')"
    using Suc.prems by (simp add: round_robin_selection_def)
  have "counter_of r' model = Suc (counter_of r model)"
    using counter_after [OF Suc.prems, of model r] r' by simp
  with Suc.IH [OF Suc.prems, of r'] r' show ?case
    by (simp add: upt_conv_Cons map_Suc_upt [symmetric] del: upt_Suc)
qed simp

text \<open>
  C40. Round robin is fair: while the same providers are available, as many selections as there are
  providers choose every one of them exactly once.
\<close>

theorem round_robin_fair:
  assumes "ps \<noteq> []"
  shows "mset (picks model ps (length ps) r) = mset ps"
proof -
  have "picks model ps (length ps) r = rotate (counter_of r model) ps"
    by (rule nth_equalityI) (simp_all add: picks_nth [OF assms] nth_rotate)
  then show ?thesis
    by (simp add: rotate_drop_take) (metis add.commute append_take_drop_id mset_append)
qed

section \<open>Fallback\<close>

text \<open>
  Errors the client is to blame for never count against a provider: if all calls to it end in
  one, an execution with fallback leaves its numbers alone, whatever the others do.
\<close>

theorem client_errors_not_counted:
  assumes "\<And>w. \<exists>e. co_result (fst (chat p w)) = ClientFailed e"
    and "execute_with_fallback env chat primary available w r = (x, w', r')"
  shows "stats_of r' p = stats_of r p"
proof -
  have "execute_from env chat err ps w r = (x, w', r') \<Longrightarrow> stats_of r' p = stats_of r p" for err ps
  proof (induction ps arbitrary: err w r)
    case (Cons q ps)
    obtain res w1 where chat: "chat q w = (res, w1)" by fastforce
    note run = Cons.prems chat
    show ?case
    proof (cases "map_of (re_connectors env) q = None")
      case True
      with run Cons.IH show ?thesis by simp
    next
      case False
      show ?thesis
      proof (cases "co_result res")
        case (Answered t usage)
        then have "q \<noteq> p" using assms(1) [of w] chat by auto
        with run False Answered show ?thesis by (auto simp: update_provider_stats_def)
      next
        case (ClientFailed e)
        with run False Cons.IH [of "Some e" w1 r] show ?thesis by simp
      next
        case (RetryableFailed e)
        then have "q \<noteq> p" using assms(1) [of w] chat by auto
        with run False RetryableFailed
          Cons.IH [of "Some e" w1 "update_provider_stats (co_end res) q False 0 r"]
        show ?thesis by (simp add: update_provider_stats_def)
      qed
    qed
  qed simp
  with assms(2) show ?thesis unfolding execute_with_fallback_def by blast
qed

section \<open>Instances\<close>

text \<open>Two providers that take every model, both tripped long ago.\<close>

definition demo_connectors :: router_env where
  "demo_connectors = \<lparr>re_connectors = [(''a'', \<lparr>pc_models = [], pc_local = False\<rparr>),
     (''b'', \<lparr>pc_models = [], pc_local = False\<rparr>)], re_configs = [], re_choice = hd\<rparr>"

definition tripped_stats :: provider_stats where
  "tripped_stats = new_stats\<lparr>ps_last_failure := Some 0, ps_consecutive := 3\<rparr>"

definition demo_router :: router where
  "demo_router = \<lparr>ro_stats = [(''a'', tripped_stats), (''b'', tripped_stats)], ro_counters = [],
     ro_strategy = LoadBalanced\<rparr>"

lemma demo_connectors_ok: "router_ok demo_connectors"
  by (simp add: router_ok_def demo_connectors_def)

lemma demo_select: "\<exists>r. select_provider demo_connectors 400000000 ''m'' None None demo_router = (Some (''a'', ''m''), r)"
  by (simp add: select_provider_def get_available_providers_def demo_connectors_def demo_router_def
      tripped_stats_def new_stats_def stats_of_def set_stats_def Let_def supports_def tripped_def
      in_cooldown_def BREAKER_FAILURE_THRESHOLD_def BREAKER_COOLDOWN_def select_by_strategy_def
      load_balanced_selection_def first_min_def load_score_def)

theorem selected_is_live_witness:
  "\<exists>r. select_provider demo_connectors 400000000 ''m'' None None demo_router = (Some (''a'', ''m''), r) \<and>
     ps_probe (stats_of r ''a'')"
proof -
  obtain r where run: "select_provider demo_connectors 400000000 ''m'' None None demo_router = (Some (''a'', ''m''), r)"
    using demo_select by blast
  have "tripped (stats_of demo_router ''a'')"
    by (simp add: tripped_def stats_of_def demo_router_def tripped_stats_def BREAKER_FAILURE_THRESHOLD_def)
  with selected_is_live [OF demo_connectors_ok run] run show ?thesis by blast
qed

theorem cooled_provider_selected_witness:
  "fst (select_provider (demo_connectors\<lparr>re_connectors := [hd (re_connectors demo_connectors)]\<rparr>) 400000000 ''m''
     None None demo_router) = Some (''a'', ''m'')"
proof (rule cooled_provider_selected [where c = "\<lparr>pc_models = [], pc_local = False\<rparr>" and f = 0])
  show "router_ok (demo_connectors\<lparr>re_connectors := [hd (re_connectors demo_connectors)]\<rparr>)"
    by (simp add: router_ok_def demo_connectors_def)
qed (simp_all add: demo_connectors_def demo_router_def stats_of_def tripped_stats_def new_stats_def
    supports_def BREAKER_COOLDOWN_def)

theorem router_counts_witness:
  "ps_total (stats_of (update_provider_stats 5 ''a'' True 7 (new_router demo_connectors)) ''a'') = 1 \<and>
   ps_failed (stats_of (update_provider_stats 5 ''a'' True 7 (new_router demo_connectors)) ''a'') = 0"
proof -
  have "router_steps demo_connectors ([] @ [(5, Report ''a'' True 7)]) (new_router demo_connectors)
      (update_provider_stats 5 ''a'' True 7 (new_router demo_connectors))"
    by (rule router_steps.step [OF router_steps.start]) simp
  from router_counts [OF this demo_connectors_ok, of "''a''"] show ?thesis
    by (simp add: update_provider_stats_def reported_stats_def Let_def stats_of_def set_stats_def
        new_router_def demo_connectors_def new_stats_def)
qed

theorem lost_probe_ejects_witness:
  "\<exists>r1. select_provider demo_connectors 400000000 ''m'' None None demo_router = (Some (''a'', ''m''), r1) \<and>
     (\<forall>now model strat hint p m r2. select_provider demo_connectors now model strat hint r1 = (Some (p, m), r2) \<longrightarrow>
       p \<noteq> ''b'')"
proof -
  obtain r1 where run: "select_provider demo_connectors 400000000 ''m'' None None demo_router = (Some (''a'', ''m''), r1)"
    using demo_select by blast
  have "''b'' \<in> set (offers_to demo_connectors 400000000 ''m'' demo_router)" "tripped (stats_of demo_router ''b'')"
    by (simp_all add: offers_to_def demo_connectors_def supports_def offerable_def in_cooldown_def stats_of_def
        demo_router_def tripped_stats_def new_stats_def tripped_def BREAKER_FAILURE_THRESHOLD_def BREAKER_COOLDOWN_def)
  from lost_probe_ejects [OF demo_connectors_ok run this _ router_steps.start] run show ?thesis by fastforce
qed

theorem one_failure_ejects_witness:
  "\<forall>model strat hint q m r'. select_provider demo_connectors 100 model strat hint
     (update_provider_stats 50 ''a'' False 0 (new_router demo_connectors)) = (Some (q, m), r') \<longrightarrow> q \<noteq> ''a''"
  using one_failure_ejects [OF demo_connectors_ok, of "new_router demo_connectors" "''a''" 50 100]
  by (auto simp: stats_of_def new_router_def demo_connectors_def new_stats_def BREAKER_COOLDOWN_def)

theorem unreported_breaker_inert_witness:
  "offers_to demo_connectors 9 ''m'' (snd (select_provider demo_connectors 5 ''m'' None None (new_router demo_connectors)))
     = [''a'', ''b'']"
proof -
  have "router_steps demo_connectors ([] @ [(5, Select ''m'' None None)]) (new_router demo_connectors)
      (snd (select_provider demo_connectors 5 ''m'' None None (new_router demo_connectors)))"
    by (rule router_steps.step [OF router_steps.start]) (simp, rule surjective_pairing)
  from unreported_breaker_inert [OF this demo_connectors_ok, of "[]" 9 "''m''"] show ?thesis
    by (simp add: selects_only_def demo_connectors_def supports_def)
qed

theorem round_robin_fair_witness:
  "mset (picks ''m'' [''a'', ''b''] (length [''a'', ''b'']) demo_router) = {#''a'', ''b''#}"
  using round_robin_fair [of "[''a'', ''b'']" "''m''" demo_router] by simp

theorem client_errors_not_counted_witness:
  "\<exists>x w r. execute_with_fallback demo_connectors (\<lambda>p w. (\<lparr>co_result = ClientFailed ''400'', co_end = 0, co_latency = 0\<rparr>, w))
     ''a'' [''b''] () demo_router = (x, w, r) \<and> stats_of r ''a'' = tripped_stats"
proof -
  obtain x w r where run: "execute_with_fallback demo_connectors
      (\<lambda>p w. (\<lparr>co_result = ClientFailed ''400'', co_end = 0, co_latency = 0\<rparr>, w)) ''a'' [''b''] () demo_router = (x, w, r)"
    by (metis prod.collapse)
  have "stats_of r ''a'' = stats_of demo_router ''a''"
    by (rule client_errors_not_counted [OF _ run]) simp
  with run show ?thesis by (auto simp: stats_of_def demo_router_def)
qed

end
