(* ===== verification/TokenManager.thy ===== *)
theory TokenManager
  imports Metering PyTime Rbac
begin

text \<open>
  The dual token system (\<open>shared/utils/token_manager.py\<close>): counting, conversion, cost, the daily
  usage rows, the daily and monthly quota counters, the quota check and the statistics. Days are
  numbered from the epoch; the tokenizer and the local date of an instant are parameters.
\<close>

section \<open>Conversion\<close>

record conversion_rate =
  cr_input :: rat
  cr_output :: rat
  cr_cost :: rat

record token_env =
  te_rates :: "(string \<times> conversion_rate) list"
  te_encode :: "string \<Rightarrow> string \<Rightarrow> string \<Rightarrow> py_error + int"
  te_local_day :: "int \<Rightarrow> int"

definition default_rate :: "string \<Rightarrow> rat \<Rightarrow> rat \<Rightarrow> string \<times> conversion_rate" where
  "default_rate key output cost = (key, \<lparr>cr_input = 10, cr_output = output, cr_cost = cost\<rparr>)"

definition DEFAULT_CONVERSION_RATES :: "(string \<times> conversion_rate) list" where
  "DEFAULT_CONVERSION_RATES = [
     default_rate ''openai:gpt-4'' 20 (3 / 1000), default_rate ''openai:gpt-4-turbo'' 20 (1 / 1000),
     default_rate ''openai:gpt-4o'' 20 (5 / 10000), default_rate ''openai:gpt-4o-mini'' 10 (15 / 100000),
     default_rate ''openai:gpt-3.5-turbo'' 10 (2 / 10000), default_rate ''anthropic:claude-3-opus'' 20 (75 / 10000),
     default_rate ''anthropic:claude-3-sonnet'' 20 (15 / 10000), default_rate ''anthropic:claude-3-haiku'' 10 (25 / 100000),
     default_rate ''anthropic:claude-3.5-sonnet'' 20 (3 / 1000), default_rate ''ollama:llama2'' 10 0,
     default_rate ''ollama:mistral'' 10 0, default_rate ''ollama:codellama'' 10 0]"

definition rate_key :: "string \<Rightarrow> string \<Rightarrow> string" where
  "rate_key provider model = provider @ '':'' @ model"

text \<open>The enabled rows of the table, the last of a key winning; an empty table means the defaults.\<close>

definition load_conversion_rates :: "(string \<times> string \<times> conversion_rate) list \<Rightarrow> (string \<times> conversion_rate) list" where
  "load_conversion_rates rows =
     (if rows = [] then DEFAULT_CONVERSION_RATES
      else foldl (\<lambda>d (provider, model, rate). AList.update (rate_key provider model) rate d) [] rows)"

definition count_tokens :: "token_env \<Rightarrow> string \<Rightarrow> string \<Rightarrow> string \<Rightarrow> int" where
  "count_tokens env s provider model = (case te_encode env provider model s of
     Inr n \<Rightarrow> n | Inl _ \<Rightarrow> int (length s) div 4)"

text \<open>\<open>max(1, int(n / rate)) if n > 0 else 0\<close>; a rate of zero raises.\<close>

definition py_trunc :: "rat \<Rightarrow> int" where
  "py_trunc r = (if r < 0 then \<lceil>r\<rceil> else \<lfloor>r\<rfloor>)"

definition convert :: "int \<Rightarrow> rat \<Rightarrow> py_error + int" where
  "convert n rate =
     (if n \<le> 0 then Inr 0
      else if rate = 0 then Inl (RuntimeError ''division by zero'')
      else Inr (max 1 (py_trunc (of_int n / rate))))"

definition calculate_waddleai_tokens :: "token_env \<Rightarrow> int \<Rightarrow> int \<Rightarrow> string \<Rightarrow> string \<Rightarrow> py_error + int" where
  "calculate_waddleai_tokens env i out provider model =
     (case map_of (te_rates env) (rate_key provider model) of
        None \<Rightarrow> Inr (max 1 ((i + out * 2) div 10))
      | Some rate \<Rightarrow> rbind (convert i (cr_input rate)) (\<lambda>a.
          rbind (convert out (cr_output rate)) (\<lambda>b. Inr (a + b))))"

definition calculate_cost :: "token_env \<Rightarrow> int \<Rightarrow> string \<Rightarrow> string \<Rightarrow> rat \<times> rat" where
  "calculate_cost env n provider model = (of_int n,
     of_int n * (case map_of (te_rates env) (rate_key provider model) of
       Some rate \<Rightarrow> cr_cost rate | None \<Rightarrow> 1 / 1000))"

section \<open>The tables\<close>

record usage_row =
  ur_key :: int
  ur_user :: int
  ur_org :: int
  ur_date :: int
  ur_waddleai :: int
  ur_input :: int
  ur_output :: int
  ur_llm :: "blob option"
  ur_requests :: int

record quota_row =
  qr_key :: int
  qr_org :: int
  qr_period :: string
  qr_start :: int
  qr_used :: int
  qr_llm :: "blob option"
  qr_requests :: int

record quota_db =
  qd_usage :: "usage_row list"
  qd_cache :: "quota_row list"

record token_usage =
  tk_waddleai :: int
  tk_input :: int
  tk_output :: int
  tk_model_key :: string
  tk_cost_waddleai :: rat
  tk_cost_usd :: rat

text \<open>
  The row \<open>select().first()\<close> finds is updated, which may raise, or else a row is inserted. A row
  keeps its place; rows are told apart by their ids, which are their places here.
\<close>

fun upsert_first :: "('r \<Rightarrow> bool) \<Rightarrow> ('r \<Rightarrow> 'r option) \<Rightarrow> 'r \<Rightarrow> 'r list \<Rightarrow> 'r list option" where
  "upsert_first P f new [] = Some [new]"
| "upsert_first P f new (r # rs) =
     (if P r then map_option (\<lambda>r'. r' # rs) (f r)
      else map_option ((#) r) (upsert_first P f new rs))"

definition merged :: "token_usage \<Rightarrow> blob option \<Rightarrow> blob option" where
  "merged u b = map_option (\<lambda>d. json_dumps (JDict d))
     (Option.bind (load_breakdown b) (\<lambda>d. merge_breakdown d (tk_model_key u) (tk_input u) (tk_output u)))"

definition first_breakdown :: "token_usage \<Rightarrow> blob" where
  "first_breakdown u = json_dumps (JDict [(tk_model_key u,
     JDict [(''input'', JInt (tk_input u)), (''output'', JInt (tk_output u))])])"

definition utc_day :: "int \<Rightarrow> int" where
  "utc_day t = t div 86400000000"

definition month_start :: "int \<Rightarrow> int" where
  "month_start day = (let (y, m, d) = civil_from_days day in day - (d - 1))"

definition bump_usage_row :: "token_usage \<Rightarrow> usage_row \<Rightarrow> usage_row option" where
  "bump_usage_row u r = map_option (\<lambda>b. r\<lparr>ur_waddleai := ur_waddleai r + tk_waddleai u,
     ur_input := ur_input r + tk_input u, ur_output := ur_output r + tk_output u,
     ur_llm := Some b, ur_requests := ur_requests r + 1\<rparr>) (merged u (ur_llm r))"

definition bump_quota_row :: "token_usage \<Rightarrow> quota_row \<Rightarrow> quota_row option" where
  "bump_quota_row u r = map_option (\<lambda>b. r\<lparr>qr_used := qr_used r + tk_waddleai u,
     qr_llm := Some b, qr_requests := qr_requests r + 1\<rparr>) (merged u (qr_llm r))"

definition quota_slot :: "quota_row \<Rightarrow> int \<times> string \<times> int" where
  "quota_slot r = (qr_key r, qr_period r, qr_start r)"

definition update_quota_row :: "token_usage \<Rightarrow> int \<Rightarrow> int \<Rightarrow> string \<Rightarrow> int \<Rightarrow> quota_row list \<Rightarrow> quota_row list option" where
  "update_quota_row u key org period start =
     upsert_first (\<lambda>r. quota_slot r = (key, period, start)) (bump_quota_row u)
       \<lparr>qr_key = key, qr_org = org, qr_period = period, qr_start = start, qr_used = tk_waddleai u,
        qr_llm = Some (first_breakdown u), qr_requests = 1\<rparr>"

text \<open>
  A statement that raises leaves the effects of those before it. Which exception a malformed
  breakdown raises is not told apart.
\<close>

definition update_usage_cache :: "int \<Rightarrow> token_usage \<Rightarrow> int \<Rightarrow> int \<Rightarrow> quota_db \<Rightarrow> (py_error + unit) \<times> quota_db" where
  "update_usage_cache now u key org db =
     (case update_quota_row u key org ''daily'' (utc_day now) (qd_cache db) of
        None \<Rightarrow> (Inl TypeError, db)
      | Some rows \<Rightarrow>
          (case update_quota_row u key org ''monthly'' (month_start (utc_day now)) rows of
             None \<Rightarrow> (Inl TypeError, db\<lparr>qd_cache := rows\<rparr>)
           | Some rows' \<Rightarrow> (Inr (), db\<lparr>qd_cache := rows'\<rparr>)))"

definition update_usage_records ::
    "token_env \<Rightarrow> int \<Rightarrow> token_usage \<Rightarrow> int \<Rightarrow> int \<Rightarrow> int \<Rightarrow> quota_db \<Rightarrow> (py_error + unit) \<times> quota_db" where
  "update_usage_records env now u key user org db =
     (let today = te_local_day env now in
      case upsert_first (\<lambda>r. ur_key r = key \<and> ur_date r = today) (bump_usage_row u)
          \<lparr>ur_key = key, ur_user = user, ur_org = org, ur_date = today, ur_waddleai = tk_waddleai u,
           ur_input = tk_input u, ur_output = tk_output u, ur_llm = Some (first_breakdown u),
           ur_requests = 1\<rparr> (qd_usage db) of
        None \<Rightarrow> (Inl TypeError, db)
      | Some rows \<Rightarrow> update_usage_cache now u key org (db\<lparr>qd_usage := rows\<rparr>))"

section \<open>Usage\<close>

record usage_request =
  uq_input :: string
  uq_output :: string
  uq_provider :: string
  uq_model :: string
  uq_key :: int
  uq_user :: int
  uq_org :: int
  uq_input_tokens :: "int option"
  uq_output_tokens :: "int option"

definition usage_model_key :: "string \<Rightarrow> string \<Rightarrow> string" where
  "usage_model_key provider model =
     provider @ ''_'' @ map (\<lambda>c. if c = CHR ''-'' then CHR ''_'' else c) model"

definition measure_usage :: "token_env \<Rightarrow> usage_request \<Rightarrow> py_error + token_usage" where
  "measure_usage env q =
     (let i = (case uq_input_tokens q of Some n \<Rightarrow> n
             | None \<Rightarrow> count_tokens env (uq_input q) (uq_provider q) (uq_model q));
          out = (case uq_output_tokens q of Some n \<Rightarrow> n
             | None \<Rightarrow> count_tokens env (uq_output q) (uq_provider q) (uq_model q))
      in rbind (calculate_waddleai_tokens env i out (uq_provider q) (uq_model q)) (\<lambda>n.
        let (cost_waddleai, cost_usd) = calculate_cost env n (uq_provider q) (uq_model q) in
        Inr \<lparr>tk_waddleai = n, tk_input = i, tk_output = out,
          tk_model_key = usage_model_key (uq_provider q) (uq_model q),
          tk_cost_waddleai = cost_waddleai, tk_cost_usd = cost_usd\<rparr>))"

definition process_usage ::
    "token_env \<Rightarrow> int \<Rightarrow> usage_request \<Rightarrow> quota_db \<Rightarrow> (py_error + token_usage) \<times> quota_db" where
  "process_usage env now q db =
     (case measure_usage env q of
        Inl e \<Rightarrow> (Inl e, db)
      | Inr u \<Rightarrow>
          (let (r, db') = update_usage_records env now u (uq_key q) (uq_user q) (uq_org q) db in
           (rbind r (\<lambda>_. Inr u), db')))"

section \<open>Quotas\<close>

record key_quota =
  kq_user :: int
  kq_daily :: "int option"
  kq_monthly :: "int option"

record user_quota =
  uq_daily :: "int option"
  uq_monthly :: "int option"

definition int_or :: "int option \<Rightarrow> int option \<Rightarrow> int option" where
  "int_or a b = (case a of Some n \<Rightarrow> if n = 0 then b else a | None \<Rightarrow> b)"

definition used_in :: "int \<times> string \<times> int \<Rightarrow> quota_row list \<Rightarrow> int" where
  "used_in slot rows = (case List.find (\<lambda>r. quota_slot r = slot) rows of Some r \<Rightarrow> qr_used r | None \<Rightarrow> 0)"

definition quota_entry :: "int \<Rightarrow> int \<Rightarrow> json" where
  "quota_entry used limit = JDict [(''used'', JInt used), (''limit'', JInt limit),
     (''remaining'', JInt (limit - used)), (''ok'', JBool (used < limit))]"

text \<open>No limit at all is compared to a number, which raises.\<close>

definition check_quota ::
    "(int \<Rightarrow> key_quota option) \<Rightarrow> (int \<Rightarrow> user_quota option) \<Rightarrow> int \<Rightarrow> int \<Rightarrow> quota_db \<Rightarrow> py_error + bool \<times> dict" where
  "check_quota keys users now key db =
     (case keys key of
        None \<Rightarrow> Inr (False, [(''error'', JStr ''API key not found'')])
      | Some k \<Rightarrow>
          (case users (kq_user k) of
             None \<Rightarrow> Inr (False, [(''error'', JStr ''User not found'')])
           | Some u \<Rightarrow>
               (let daily_used = used_in (key, ''daily'', utc_day now) (qd_cache db);
                    monthly_used = used_in (key, ''monthly'', month_start (utc_day now)) (qd_cache db)
                in case (int_or (kq_daily k) (uq_daily u), int_or (kq_monthly k) (uq_monthly u)) of
                     (Some daily, Some monthly) \<Rightarrow>
                       Inr (daily_used < daily \<and> monthly_used < monthly,
                         [(''daily'', quota_entry daily_used daily), (''monthly'', quota_entry monthly_used monthly)])
                   | _ \<Rightarrow> Inl TypeError)))"

section \<open>Statistics\<close>

record usage_stats =
  us_waddleai :: int
  us_input :: int
  us_output :: int
  us_requests :: int
  us_breakdown :: dict
  us_daily :: dict
  us_average :: int

definition no_stats :: usage_stats where
  "no_stats = \<lparr>us_waddleai = 0, us_input = 0, us_output = 0, us_requests = 0, us_breakdown = [],
     us_daily = [], us_average = 0\<rparr>"

definition daily_entry :: "usage_row \<Rightarrow> json" where
  "daily_entry r = JDict [(''waddleai_tokens'', JInt (ur_waddleai r)), (''llm_input'', JInt (ur_input r)),
     (''llm_output'', JInt (ur_output r)), (''requests'', JInt (ur_requests r))]"

fun py_number :: "json \<Rightarrow> (rat \<times> bool) option" where
  "py_number (JInt i) = Some (of_int i, False)"
| "py_number (JBool b) = Some (if b then 1 else 0, False)"
| "py_number (JFloat r) = Some (r, True)"
| "py_number _ = None"

definition json_plus :: "json \<Rightarrow> json \<Rightarrow> py_error + json" where
  "json_plus a b = (case (py_number a, py_number b) of
     (Some (x, f), Some (y, g)) \<Rightarrow> Inr (if f \<or> g then JFloat (x + y) else JInt \<lfloor>x + y\<rfloor>)
   | _ \<Rightarrow> Inl TypeError)"

text \<open>The breakdown of one model added to those seen so far, whose entries are this code's.\<close>

definition add_model :: "dict \<Rightarrow> string \<times> json \<Rightarrow> py_error + dict" where
  "add_model acc entry =
     (let (model, tokens) = entry in
      rbind (must_dict (jget_or acc model (JDict [(''input'', JInt 0), (''output'', JInt 0)]))) (\<lambda>old.
      rbind (must_dict tokens) (\<lambda>t.
      rbind (json_plus (jget_null old ''input'') (jget_or t ''input'' (JInt 0))) (\<lambda>i.
      rbind (json_plus (jget_null old ''output'') (jget_or t ''output'' (JInt 0))) (\<lambda>out.
        Inr (dict_set acc model (JDict [(''input'', i), (''output'', out)])))))))"

fun add_models :: "dict \<Rightarrow> (string \<times> json) list \<Rightarrow> py_error + dict" where
  "add_models acc [] = Inr acc"
| "add_models acc (e # es) = rbind (add_model acc e) (\<lambda>acc'. add_models acc' es)"

definition add_record :: "usage_stats \<Rightarrow> usage_row \<Rightarrow> py_error + usage_stats" where
  "add_record st r =
     (case load_breakdown (ur_llm r) of
        None \<Rightarrow> Inl ValueError
      | Some d \<Rightarrow> rbind (add_models (us_breakdown st) d) (\<lambda>breakdown.
          Inr (st\<lparr>us_waddleai := us_waddleai st + ur_waddleai r, us_input := us_input st + ur_input r,
            us_output := us_output st + ur_output r, us_requests := us_requests st + ur_requests r,
            us_breakdown := breakdown,
            us_daily := dict_set (us_daily st) (date_string (ur_date r * 86400000000)) (daily_entry r)\<rparr>)))"

fun add_records :: "usage_stats \<Rightarrow> usage_row list \<Rightarrow> py_error + usage_stats" where
  "add_records st [] = Inr st"
| "add_records st (r # rs) = rbind (add_record st r) (\<lambda>st'. add_records st' rs)"

text \<open>The first of the filters that is given and not zero is used.\<close>

definition stats_filter :: "int option \<Rightarrow> int option \<Rightarrow> int option \<Rightarrow> usage_row \<Rightarrow> bool" where
  "stats_filter key user org r =
     (case int_or key None of
        Some k \<Rightarrow> ur_key r = k
      | None \<Rightarrow> (case int_or user None of
          Some u \<Rightarrow> ur_user r = u
        | None \<Rightarrow> (case int_or org None of Some g \<Rightarrow> ur_org r = g | None \<Rightarrow> True)))"

definition get_usage_stats ::
    "int \<Rightarrow> int option \<Rightarrow> int option \<Rightarrow> int option \<Rightarrow> int \<Rightarrow> quota_db \<Rightarrow> py_error + usage_stats" where
  "get_usage_stats now key user org days db =
     (let rows = filter (\<lambda>r. utc_day now - days \<le> ur_date r \<and> stats_filter key user org r) (qd_usage db) in
      rbind (add_records no_stats rows) (\<lambda>st.
        Inr (if rows = [] then st else st\<lparr>us_average := us_waddleai st div max 1 days\<rparr>)))"

section \<open>Endpoints\<close>

text \<open>\<open>/api/usage\<close> and \<open>/api/quota\<close>: the status and the document.\<close>

definition stats_document :: "usage_stats \<Rightarrow> dict" where
  "stats_document st =
     [(''total_waddleai_tokens'', JInt (us_waddleai st)), (''total_llm_input_tokens'', JInt (us_input st)),
      (''total_llm_output_tokens'', JInt (us_output st)), (''total_requests'', JInt (us_requests st)),
      (''llm_breakdown'', JDict (us_breakdown st)), (''daily_usage'', JDict (us_daily st)),
      (''average_daily'', JInt (us_average st))]"

definition server_error :: "string \<Rightarrow> int \<times> json" where
  "server_error msg = (500, JDict [(''error'',
     JDict [(''message'', JStr msg), (''type'', JStr ''server_error'')])])"

definition api_usage :: "int \<Rightarrow> user_context \<Rightarrow> quota_db \<Rightarrow> int \<times> json" where
  "api_usage now uc db = (case get_usage_stats now (uc_api_key_id uc) None None 30 db of
     Inl _ \<Rightarrow> server_error ''Failed to get usage stats''
   | Inr st \<Rightarrow> (200, JDict (stats_document st)))"

text \<open>No row has a null id, so a caller without a key is told the key is not found.\<close>

definition api_quota ::
    "(int \<Rightarrow> key_quota option) \<Rightarrow> (int \<Rightarrow> user_quota option) \<Rightarrow> int \<Rightarrow> user_context \<Rightarrow> quota_db \<Rightarrow> int \<times> json" where
  "api_quota keys users now uc db =
     (case (case uc_api_key_id uc of
              None \<Rightarrow> Inr (False, [(''error'', JStr ''API key not found'')])
            | Some k \<Rightarrow> check_quota keys users now k db) of
        Inl _ \<Rightarrow> server_error ''Failed to get quota info''
      | Inr (ok, info) \<Rightarrow> (200, JDict ((''quota_ok'', JBool ok) # info)))"

end
