(* ===== verification/TokenManagerLaws.thy ===== *)
theory TokenManagerLaws
  imports TokenManager
begin

text \<open>
  What the token manager keeps: accounting never fails on the rows it writes itself, the quota
  counters are the sums of what was accounted, the check compares those sums; and what the
  statistics show.
\<close>

section \<open>Conversion\<close>

text \<open>
  C38. A request is never free and never dearer than its tokens: with rates of at least one token
  per token, the normalized count of a request with any tokens is at least one and at most the
  tokens of input and output together.
\<close>

theorem conversion_bounds:
  assumes "map_of (te_rates env) (rate_key provider model) = Some rate"
    and "1 \<le> cr_input rate" "1 \<le> cr_output rate" "0 \<le> i" "0 \<le> out" "0 < i + out"
    and "calculate_waddleai_tokens env i out provider model = Inr n"
  shows "1 \<le> n \<and> n \<le> i + out"
proof -
  have one: "(0 < k \<longrightarrow> 1 \<le> m) \<and> 0 \<le> m \<and> m \<le> k" if "convert k r = Inr m" "1 \<le> r" "0 \<le> k" for k m r
  proof (cases "k = 0")
    case False
    with that have m: "m = max 1 (py_trunc (of_int k / r))" by (auto simp: convert_def)
    have "of_int k / r \<le> of_int k" using that by (simp add: divide_le_eq mult_le_cancel_left1)
    moreover have "0 \<le> of_int k / r" using that by simp
    ultimately have "py_trunc (of_int k / r) \<le> k" by (simp add: py_trunc_def floor_le_iff)
    with m False that(3) show ?thesis by simp
  qed (use that in \<open>simp add: convert_def\<close>)
  from assms(1,7) obtain a b where "convert i (cr_input rate) = Inr a" "convert out (cr_output rate) = Inr b" "n = a + b"
    by (auto simp: calculate_waddleai_tokens_def rbind_Inr)
  with one [of i "cr_input rate" a] one [of out "cr_output rate" b] assms(2-6) show ?thesis by auto
qed

section \<open>Accounting never fails\<close>

definition wf_blob :: "blob option \<Rightarrow> bool" where
  "wf_blob b = (case load_breakdown b of None \<Rightarrow> False | Some d \<Rightarrow> list_all (\<lambda>(k, j). wf_entry j) d)"

definition wf_quota_db :: "quota_db \<Rightarrow> bool" where
  "wf_quota_db db \<longleftrightarrow> (\<forall>r\<in>set (qd_usage db). wf_blob (ur_llm r)) \<and> (\<forall>r\<in>set (qd_cache db). wf_blob (qr_llm r))"

lemma merged_wf:
  assumes "wf_blob b"
  shows "\<exists>b'. merged u b = Some b' \<and> wf_blob (Some b')"
proof -
  obtain d where d: "load_breakdown b = Some d" "list_all (\<lambda>(k, j). wf_entry j) d"
    using assms by (auto simp: wf_blob_def split: option.splits)
  obtain d' where "merge_breakdown d (tk_model_key u) (tk_input u) (tk_output u) = Some d'"
    "list_all (\<lambda>(k, j). wf_entry j) d'"
    using merge_breakdown_sound [OF d(2)] by blast
  with d(1) show ?thesis by (simp add: merged_def wf_blob_def load_breakdown_def json_dumps_def)
qed

lemma first_breakdown_wf: "wf_blob (Some (first_breakdown u))"
  by (simp add: wf_blob_def first_breakdown_def load_breakdown_def json_dumps_def wf_entry_def)

lemma upsert_first_total:
  assumes "\<forall>r\<in>set rows. Q r" "\<And>r. Q r \<Longrightarrow> \<exists>r'. f r = Some r' \<and> Q r'" "Q new"
  shows "\<exists>rows'. upsert_first P f new rows = Some rows' \<and> (\<forall>r\<in>set rows'. Q r)"
  using assms(1)
proof (induction rows)
  case (Cons r rs)
  with assms(2) [of r] show ?case by auto
qed (simp add: assms(3))

lemma update_quota_total:
  fixes rows :: "quota_row list"
  assumes "\<forall>r\<in>set rows. wf_blob (qr_llm r)"
  shows "\<exists>rows'. update_quota_row u key org period start rows = Some rows' \<and> (\<forall>r\<in>set rows'. wf_blob (qr_llm r))"
  unfolding update_quota_row_def
proof (rule upsert_first_total [OF assms])
  fix r :: quota_row assume "wf_blob (qr_llm r)"
  with merged_wf [of "qr_llm r" u] show "\<exists>r'. bump_quota_row u r = Some r' \<and> wf_blob (qr_llm r')"
    by (auto simp: bump_quota_row_def)
qed (simp add: first_breakdown_wf)

lemma update_usage_total:
  fixes rows :: "usage_row list"
  assumes "\<forall>r\<in>set rows. wf_blob (ur_llm r)" "wf_blob (ur_llm new)"
  shows "\<exists>rows'. upsert_first P (bump_usage_row u) new rows = Some rows' \<and> (\<forall>r\<in>set rows'. wf_blob (ur_llm r))"
proof (rule upsert_first_total [OF assms(1)])
  fix r :: usage_row assume "wf_blob (ur_llm r)"
  with merged_wf [of "ur_llm r" u] show "\<exists>r'. bump_usage_row u r = Some r' \<and> wf_blob (ur_llm r')"
    by (auto simp: bump_usage_row_def)
qed (rule assms(2))

definition rates_ok :: "token_env \<Rightarrow> bool" where
  "rates_ok env \<longleftrightarrow> (\<forall>(k, rate)\<in>set (te_rates env). cr_input rate \<noteq> 0 \<and> cr_output rate \<noteq> 0)"

lemma measure_total: "rates_ok env \<Longrightarrow> \<exists>u. measure_usage env q = Inr u"
  by (auto simp: measure_usage_def calculate_waddleai_tokens_def convert_def rates_ok_def Let_def
      split: option.split prod.split dest!: map_of_SomeD)

text \<open>
  Accounting a request never fails and never spoils a row: with rates that are not zero and
  rows the token manager wrote, the usage is returned and the rows are again such rows.
\<close>

theorem accounting_total:
  assumes "rates_ok env" "wf_quota_db db"
  shows "\<exists>u db'. process_usage env now q db = (Inr u, db') \<and> measure_usage env q = Inr u \<and> wf_quota_db db'"
proof -
  obtain u where u: "measure_usage env q = Inr u" using measure_total [OF assms(1)] by blast
  define new where "new = \<lparr>ur_key = uq_key q, ur_user = uq_user q, ur_org = uq_org q,
    ur_date = te_local_day env now, ur_waddleai = tk_waddleai u, ur_input = tk_input u,
    ur_output = tk_output u, ur_llm = Some (first_breakdown u), ur_requests = 1\<rparr>"
  have "wf_blob (ur_llm new)" by (simp add: new_def first_breakdown_wf)
  then obtain rows where rows: "upsert_first (\<lambda>r. ur_key r = uq_key q \<and> ur_date r = te_local_day env now)
      (bump_usage_row u) new (qd_usage db) = Some rows" "\<forall>r\<in>set rows. wf_blob (ur_llm r)"
    using update_usage_total [of "qd_usage db" new] assms(2) unfolding wf_quota_db_def by blast
  obtain c where c: "update_quota_row u (uq_key q) (uq_org q) ''daily'' (utc_day now) (qd_cache db) = Some c"
      "\<forall>r\<in>set c. wf_blob (qr_llm r)"
    using update_quota_total assms(2) unfolding wf_quota_db_def by blast
  obtain c' where c': "update_quota_row u (uq_key q) (uq_org q) ''monthly'' (month_start (utc_day now)) c = Some c'"
      "\<forall>r\<in>set c'. wf_blob (qr_llm r)"
    using update_quota_total [OF c(2)] by blast
  show ?thesis
    using u rows c c'
    by (simp add: process_usage_def update_usage_records_def update_usage_cache_def new_def [symmetric]
        wf_quota_db_def)
qed

section \<open>The counters\<close>

lemma upsert_slot:
  assumes "upsert_first (\<lambda>r. quota_slot r = slot) f new rows = Some rows'"
    and "\<And>r r'. f r = Some r' \<Longrightarrow> quota_slot r' = quota_slot r \<and> qr_used r' = qr_used r + n"
    and "quota_slot new = slot" "qr_used new = n"
  shows "used_in slot' rows' = used_in slot' rows + (if slot' = slot then n else 0)"
  using assms(1)
proof (induction rows arbitrary: rows')
  case Nil
  with assms(3,4) show ?case by (auto simp: used_in_def)
next
  case (Cons r rs)
  show ?case
  proof (cases "quota_slot r = slot")
    case True
    with Cons.prems assms(2) show ?thesis by (fastforce simp: used_in_def)
  next
    case False
    then obtain rs' where "upsert_first (\<lambda>r. quota_slot r = slot) f new rs = Some rs'" "rows' = r # rs'"
      using Cons.prems by auto
    with Cons.IH [of rs'] False show ?thesis by (auto simp: used_in_def)
  qed
qed

lemma update_quota_used:
  assumes "update_quota_row u key org period start rows = Some rows'"
  shows "used_in slot rows' = used_in slot rows + (if slot = (key, period, start) then tk_waddleai u else 0)"
  using assms unfolding update_quota_row_def
  by (rule upsert_slot) (auto simp: bump_quota_row_def quota_slot_def)

lemma process_usage_steps:
  assumes "process_usage env now q db = (Inr u, db')"
  obtains c where "update_quota_row u (uq_key q) (uq_org q) ''daily'' (utc_day now) (qd_cache db) = Some c"
    and "update_quota_row u (uq_key q) (uq_org q) ''monthly'' (month_start (utc_day now)) c = Some (qd_cache db')"
  using assms
  by (auto simp: process_usage_def update_usage_records_def update_usage_cache_def Let_def rbind_Inr
      split: sum.splits option.splits prod.splits)

lemma process_usage_used:
  assumes "process_usage env now q db = (Inr u, db')"
  shows "used_in (k, ''daily'', d) (qd_cache db') = used_in (k, ''daily'', d) (qd_cache db) +
      (if uq_key q = k \<and> utc_day now = d then tk_waddleai u else 0) \<and>
    used_in (k, ''monthly'', d) (qd_cache db') = used_in (k, ''monthly'', d) (qd_cache db) +
      (if uq_key q = k \<and> month_start (utc_day now) = d then tk_waddleai u else 0)"
proof -
  obtain c where c: "update_quota_row u (uq_key q) (uq_org q) ''daily'' (utc_day now) (qd_cache db) = Some c"
    "update_quota_row u (uq_key q) (uq_org q) ''monthly'' (month_start (utc_day now)) c = Some (qd_cache db')"
    using assms by (rule process_usage_steps)
  from update_quota_used [OF c(1)] update_quota_used [OF c(2)] show ?thesis by auto
qed

text \<open>A history of requests at their times, with the usage each was accounted.\<close>

inductive accounted :: "token_env \<Rightarrow> (int \<times> usage_request \<times> token_usage) list \<Rightarrow> quota_db \<Rightarrow> bool" for env where
  nothing: "accounted env [] \<lparr>qd_usage = [], qd_cache = []\<rparr>"
| request: "accounted env h db \<Longrightarrow> process_usage env now q db = (Inr u, db') \<Longrightarrow>
    accounted env (h @ [(now, q, u)]) db'"

definition spent :: "int \<Rightarrow> (int \<Rightarrow> bool) \<Rightarrow> (int \<times> usage_request \<times> token_usage) list \<Rightarrow> int" where
  "spent key during h = (\<Sum>(t, q, u)\<leftarrow>h. if uq_key q = key \<and> during t then tk_waddleai u else 0)"

lemma spent_snoc [simp]:
  "spent key during (h @ [(t, q, u)]) = spent key during h + (if uq_key q = key \<and> during t then tk_waddleai u else 0)"
  by (simp add: spent_def)

lemma accounted_spent:
  "accounted env h db \<Longrightarrow>
    used_in (k, ''daily'', d) (qd_cache db) = spent k (\<lambda>t. utc_day t = d) h \<and>
    used_in (k, ''monthly'', d) (qd_cache db) = spent k (\<lambda>t. month_start (utc_day t) = d) h"
proof (induction arbitrary: d rule: accounted.induct)
  case nothing
  show ?case by (simp add: used_in_def spent_def)
next
  case (request h db now q u db')
  from process_usage_used [OF request(2), of k d] request.IH [of d] show ?case by simp
qed

text \<open>
  C28. The quota check is exact: after any history of accounted requests, a key whose limits are
  set is within its quota just when what its requests were accounted on this day of UTC is below
  the daily limit and what they were accounted in this month below the monthly one.
\<close>

theorem quota_check_exact:
  assumes "accounted env h db" "keys key = Some k" "users (kq_user k) = Some usr"
    and "int_or (kq_daily k) (uq_daily usr) = Some daily" "int_or (kq_monthly k) (uq_monthly usr) = Some monthly"
  shows "\<exists>info. check_quota keys users now key db =
    Inr (spent key (\<lambda>t. utc_day t = utc_day now) h < daily \<and>
         spent key (\<lambda>t. month_start (utc_day t) = month_start (utc_day now)) h < monthly, info)"
  using assms accounted_spent [OF assms(1), of key] by (simp add: check_quota_def Let_def)

lemma int_or_zero: "int_or (Some 0) b = b" "int_or None b = b"
  by (simp_all add: int_or_def)

text \<open>
  A limit of zero on a key does not block it: it counts as no limit, and the user's holds.
\<close>

theorem zero_quota_ignored:
  assumes "keys key = Some (k\<lparr>kq_daily := Some 0\<rparr>)"
  shows "check_quota keys users now key db = check_quota (keys(key := Some (k\<lparr>kq_daily := None\<rparr>))) users now key db"
  using assms by (simp add: check_quota_def int_or_zero Let_def cong: option.case_cong)

section \<open>Statistics\<close>

lemma add_records_totals:
  "add_records st rs = Inr st' \<Longrightarrow> us_waddleai st' = us_waddleai st + sum_list (map ur_waddleai rs) \<and>
    us_input st' = us_input st + sum_list (map ur_input rs) \<and>
    us_output st' = us_output st + sum_list (map ur_output rs) \<and>
    us_requests st' = us_requests st + sum_list (map ur_requests rs)"
proof (induction rs arbitrary: st)
  case (Cons r rs)
  then obtain st1 where "add_record st r = Inr st1" "add_records st1 rs = Inr st'" by (auto simp: rbind_Inr)
  with Cons.IH [of st1] show ?case
    by (auto simp: add_record_def rbind_Inr split: option.splits)
qed simp

lemma add_records_daily:
  "add_records st rs = Inr st' \<Longrightarrow> rs \<noteq> [] \<Longrightarrow>
    jget (us_daily st') (date_string (ur_date (last rs) * 86400000000)) = Some (daily_entry (last rs))"
proof (induction rs arbitrary: st)
  case (Cons r rs)
  then obtain st1 where s: "add_record st r = Inr st1" "add_records st1 rs = Inr st'" by (auto simp: rbind_Inr)
  show ?case
  proof (cases "rs = []")
    case True
    with s show ?thesis by (auto simp: add_record_def rbind_Inr jget_dict_set split: option.splits)
  next
    case False
    with Cons.IH [OF s(2)] show ?thesis by simp
  qed
qed simp

text \<open>
  C16. A caller without an API key is shown everybody's usage: whoever logged in by a token gets
  the totals over the rows of all organisations of the last thirty days.
\<close>

theorem usage_of_everyone:
  assumes "uc_api_key_id uc = None" "api_usage now uc db = (200, JDict doc)"
  shows "jget doc ''total_waddleai_tokens'' =
    Some (JInt (sum_list (map ur_waddleai (filter (\<lambda>r. utc_day now - 30 \<le> ur_date r) (qd_usage db)))))"
proof -
  from assms obtain st where "get_usage_stats now None None None 30 db = Inr st" "doc = stats_document st"
    by (auto simp: api_usage_def server_error_def split: sum.splits)
  then show ?thesis
    by (auto simp: get_usage_stats_def Let_def rbind_Inr stats_filter_def int_or_def stats_document_def jget_def
        no_stats_def dest!: add_records_totals split: if_splits)
qed

text \<open>
  The day by day figures of an organisation are not its days: of several keys used on a day
  only the last row is shown for it, while the totals count them all.
\<close>

theorem daily_figures_overwritten:
  assumes "get_usage_stats now key user org days db = Inr st"
    and "filter (\<lambda>r. utc_day now - days \<le> ur_date r \<and> stats_filter key user org r) (qd_usage db) = rs @ [r]"
  shows "jget (us_daily st) (date_string (ur_date r * 86400000000)) = Some (daily_entry r) \<and>
    us_waddleai st = sum_list (map ur_waddleai rs) + ur_waddleai r"
  using assms add_records_daily [of no_stats "rs @ [r]"] add_records_totals [of no_stats "rs @ [r]"]
  by (auto simp: get_usage_stats_def Let_def rbind_Inr no_stats_def)

section \<open>Instances\<close>

definition demo_tokens :: token_env where
  "demo_tokens = \<lparr>te_rates = [(''openai:m'', \<lparr>cr_input = 10, cr_output = 20, cr_cost = 0\<rparr>)],
     te_encode = (\<lambda>_ _ s. Inr (int (length s))), te_local_day = utc_day\<rparr>"

definition demo_usage :: "int \<Rightarrow> int \<Rightarrow> usage_request" where
  "demo_usage key org = \<lparr>uq_input = [], uq_output = [], uq_provider = ''openai'', uq_model = ''m'', uq_key = key,
     uq_user = 1, uq_org = org, uq_input_tokens = Some 100, uq_output_tokens = Some 40\<rparr>"

definition demo_measured :: token_usage where
  "demo_measured = \<lparr>tk_waddleai = 12, tk_input = 100, tk_output = 40, tk_model_key = ''openai_m'',
     tk_cost_waddleai = 12, tk_cost_usd = 0\<rparr>"

definition no_usage :: quota_db where
  "no_usage = \<lparr>qd_usage = [], qd_cache = []\<rparr>"

lemma demo_measure: "measure_usage demo_tokens (demo_usage key org) = Inr demo_measured"
  by (simp add: measure_usage_def demo_usage_def demo_tokens_def calculate_waddleai_tokens_def convert_def
      py_trunc_def calculate_cost_def rate_key_def usage_model_key_def demo_measured_def)

lemma demo_tokens_ok: "rates_ok demo_tokens" "wf_quota_db no_usage"
  by (simp_all add: rates_ok_def demo_tokens_def wf_quota_db_def no_usage_def)

theorem conversion_bounds_witness: "\<exists>n. calculate_waddleai_tokens demo_tokens 100 40 ''openai'' ''m'' = Inr n \<and> 1 \<le> n \<and> n \<le> 140"
proof -
  have n: "calculate_waddleai_tokens demo_tokens 100 40 ''openai'' ''m'' = Inr 12"
    by (simp add: demo_tokens_def calculate_waddleai_tokens_def convert_def py_trunc_def rate_key_def)
  have "map_of (te_rates demo_tokens) (rate_key ''openai'' ''m'') = Some \<lparr>cr_input = 10, cr_output = 20, cr_cost = 0\<rparr>"
    by (simp add: demo_tokens_def rate_key_def)
  from conversion_bounds [OF this _ _ _ _ _ n] n show ?thesis by auto
qed

theorem accounting_total_witness:
  "\<exists>db. process_usage demo_tokens 5 (demo_usage 7 1) no_usage = (Inr demo_measured, db) \<and> wf_quota_db db"
  using accounting_total [OF demo_tokens_ok, of 5 "demo_usage 7 1"] by (auto simp: demo_measure)

lemma demo_accounted: "\<exists>db. accounted demo_tokens ([] @ [(5, demo_usage 7 1, demo_measured)]) db"
proof -
  have "\<exists>u db. process_usage demo_tokens 5 (demo_usage 7 1) no_usage = (Inr u, db) \<and> u = demo_measured"
    by (simp add: process_usage_def demo_measure update_usage_records_def update_usage_cache_def
        update_quota_row_def no_usage_def quota_slot_def)
  then show ?thesis
    using accounted.request [OF accounted.nothing] unfolding no_usage_def by blast
qed

theorem quota_check_exact_witness:
  "\<exists>db info. accounted demo_tokens [(5, demo_usage 7 1, demo_measured)] db \<and>
     check_quota (\<lambda>_. Some \<lparr>kq_user = 1, kq_daily = Some 12, kq_monthly = None\<rparr>)
       (\<lambda>_. Some \<lparr>uq_daily = None, uq_monthly = Some 100\<rparr>) 6 7 db = Inr (False, info)"
proof -
  obtain db where h: "accounted demo_tokens [(5, demo_usage 7 1, demo_measured)] db" using demo_accounted by auto
  have "spent 7 (\<lambda>t. utc_day t = utc_day 6) [(5, demo_usage 7 1, demo_measured)] = 12"
    by (simp add: spent_def demo_usage_def demo_measured_def utc_day_def)
  with quota_check_exact [OF h, of "\<lambda>_. Some \<lparr>kq_user = 1, kq_daily = Some 12, kq_monthly = None\<rparr>" 7 _
      "\<lambda>_. Some \<lparr>uq_daily = None, uq_monthly = Some 100\<rparr>" _ 12 100 6] h
  show ?thesis by (auto simp: int_or_def)
qed

theorem zero_quota_ignored_witness:
  "check_quota (\<lambda>_. Some \<lparr>kq_user = 1, kq_daily = Some 0, kq_monthly = Some 5\<rparr>)
     (\<lambda>_. Some \<lparr>uq_daily = Some 9, uq_monthly = None\<rparr>) 6 7 no_usage =
   check_quota ((\<lambda>_. Some \<lparr>kq_user = 1, kq_daily = Some 0, kq_monthly = Some 5\<rparr>)
     (7 := Some \<lparr>kq_user = 1, kq_daily = None, kq_monthly = Some 5\<rparr>))
     (\<lambda>_. Some \<lparr>uq_daily = Some 9, uq_monthly = None\<rparr>) 6 7 no_usage"
  using zero_quota_ignored [of "\<lambda>_. Some \<lparr>kq_user = 1, kq_daily = Some 0, kq_monthly = Some 5\<rparr>" 7
      "\<lparr>kq_user = 1, kq_daily = Some 0, kq_monthly = Some 5\<rparr>"] by simp

definition two_keys :: quota_db where
  "two_keys = \<lparr>qd_usage = [\<lparr>ur_key = 7, ur_user = 1, ur_org = 1, ur_date = 3, ur_waddleai = 12, ur_input = 1,
       ur_output = 1, ur_llm = None, ur_requests = 1\<rparr>,
     \<lparr>ur_key = 8, ur_user = 2, ur_org = 1, ur_date = 3, ur_waddleai = 30, ur_input = 1, ur_output = 1,
       ur_llm = None, ur_requests = 1\<rparr>], qd_cache = []\<rparr>"

lemma two_keys_stats: "\<exists>st. get_usage_stats 0 None None org 30 two_keys = Inr st" if "org = None \<or> org = Some 1"
  using that by (auto simp: get_usage_stats_def two_keys_def utc_day_def stats_filter_def int_or_def
      add_record_def load_breakdown_def)

definition token_caller :: user_context where
  "token_caller = \<lparr>uc_user_id = 5, uc_username = JStr ''eve'', uc_role = USER, uc_organization_id = 2,
     uc_managed_orgs = [], uc_permissions = [], uc_api_key_id = None\<rparr>"

theorem usage_of_everyone_witness:
  "\<exists>doc. api_usage 0 token_caller two_keys = (200, JDict doc) \<and> jget doc ''total_waddleai_tokens'' = Some (JInt 42)"
proof -
  have "uc_api_key_id token_caller = None" by (simp add: token_caller_def)
  moreover from this two_keys_stats [of None] obtain doc where "api_usage 0 token_caller two_keys = (200, JDict doc)"
    by (auto simp: api_usage_def)
  ultimately show ?thesis
    using usage_of_everyone [of token_caller 0 two_keys doc] by (auto simp: two_keys_def utc_day_def)
qed

theorem daily_figures_overwritten_witness:
  "\<exists>st. get_usage_stats 0 None None (Some 1) 30 two_keys = Inr st \<and> us_waddleai st = 42 \<and>
     jget (us_daily st) (date_string (3 * 86400000000)) = Some (daily_entry (last (qd_usage two_keys)))"
proof -
  obtain st where st: "get_usage_stats 0 None None (Some 1) 30 two_keys = Inr st" using two_keys_stats by blast
  have rows: "filter (\<lambda>r. utc_day 0 - 30 \<le> ur_date r \<and> stats_filter None None (Some 1) r) (qd_usage two_keys) =
      [hd (qd_usage two_keys)] @ [last (qd_usage two_keys)]"
    by (simp add: two_keys_def utc_day_def stats_filter_def int_or_def)
  from daily_figures_overwritten [OF st rows] st show ?thesis by (auto simp: two_keys_def)
qed

end
