(* ===== verification/Hooks.thy ===== *)
theory Hooks
  imports PolicyEngine
begin

text \<open>
  \<open>shared/security/hooks_denylist.py\<close>, \<open>hooks_rules.py\<close>, \<open>hooks_config.py\<close> and
  \<open>hooks_engine.py\<close>: the evaluation chain of an agent hook, Tier-1 denylist, admin rules,
  opt-in Tier 2 over the security engine, allow. Tables are lists of rows; whether Tier 2
  finishes within its timeout, and its clock readings, are parameters.
\<close>

section \<open>The denylist\<close>

definition BUILTIN_DENYLIST_PATTERNS :: "string list" where
  "BUILTIN_DENYLIST_PATTERNS =
     [''.env'', ''.env.*'', ''.git/**'', ''*.pem'', ''*.key'', ''id_rsa*'', ''id_ed25519*'',
      ''credentials.json'', ''~/.ssh/**'', ''~/.aws/**'', ''package-lock.json'', ''yarn.lock'',
      ''pnpm-lock.yaml'', ''Cargo.lock'', ''poetry.lock'', ''Pipfile.lock'', ''go.sum'',
      ''Gemfile.lock'', ''*.lock'']"

record denylist_entry =
  de_pattern :: string
  de_source :: string
  de_scope_type :: "string option"
  de_scope_ref :: "string option"
  de_reason :: "string option"
  de_id :: "int option"

definition glob_search :: "string \<Rightarrow> string \<Rightarrow> bool" where
  "glob_search pattern s = (if pattern = [] \<or> s = [] then False else glob_anywhere pattern s)"

text \<open>The string leaves of a payload, in order.\<close>

fun walk :: "json \<Rightarrow> string list" where
  "walk (JStr s) = [s]"
| "walk (JDict d) = concat (map (\<lambda>kv. walk (snd kv)) d)"
| "walk (JList xs) = concat (map walk xs)"
| "walk _ = []"

definition flatten_tool_input_text :: "dict option \<Rightarrow> string" where
  "flatten_tool_input_text tool_input =
     (case tool_input of
        None \<Rightarrow> []
      | Some d \<Rightarrow> if d = [] then [] else join [CHR 0x1F] (walk (JDict d)))"

definition match_denylist :: "denylist_entry list \<Rightarrow> string \<Rightarrow> denylist_entry option" where
  "match_denylist entries s =
     (if s = [] then None else List.find (\<lambda>e. glob_search (de_pattern e) s) entries)"

definition builtin_entries :: "denylist_entry list" where
  "builtin_entries = map (\<lambda>p. \<lparr>de_pattern = p, de_source = ''builtin'', de_scope_type = None,
     de_scope_ref = None, de_reason = None, de_id = None\<rparr>) BUILTIN_DENYLIST_PATTERNS"

record denylist_row =
  dr_id :: int
  dr_pattern :: string
  dr_scope_type :: string
  dr_scope_ref :: "string option"
  dr_reason :: "string option"
  dr_enabled :: bool

definition fetch_denylist ::
    "denylist_row list \<Rightarrow> string \<times> string option \<Rightarrow> denylist_entry list" where
  "fetch_denylist table scope =
     map (\<lambda>r. \<lparr>de_pattern = dr_pattern r, de_source = ''admin'',
               de_scope_type = Some (dr_scope_type r), de_scope_ref = dr_scope_ref r,
               de_reason = dr_reason r, de_id = Some (dr_id r)\<rparr>)
       (filter (\<lambda>r. dr_enabled r \<and> (dr_scope_type r, dr_scope_ref r) = scope) table)"

definition denylist_of :: "denylist_row list \<Rightarrow> int option \<Rightarrow> denylist_entry list" where
  "denylist_of table org = builtin_entries @ concat (map (fetch_denylist table) (org_scope_chain org))"

definition denylist_key :: "int option \<Rightarrow> string" where
  "denylist_key org = ''waddleai:hookdenylist:'' @ ref_text org"

definition denylist_entry_enc :: "denylist_entry \<Rightarrow> json" where
  "denylist_entry_enc e =
     JDict [(''pattern'', JStr (de_pattern e)), (''source'', JStr (de_source e)),
            (''scope_type'', of_opt JStr (de_scope_type e)),
            (''scope_ref'', of_opt JStr (de_scope_ref e)),
            (''reason'', of_opt JStr (de_reason e)), (''id'', of_opt JInt (de_id e))]"

definition denylist_entry_dec :: "json \<Rightarrow> denylist_entry option" where
  "denylist_entry_dec j =
     (case j of
        JDict d \<Rightarrow>
          if only_keys d [''pattern'', ''source'', ''scope_type'', ''scope_ref'', ''reason'', ''id''] then
            Option.bind (kwarg_req d ''pattern'' as_str) (\<lambda>p.
            Option.bind (kwarg_req d ''source'' as_str) (\<lambda>so.
            Option.bind (kwarg d ''scope_type'' (as_opt as_str) None) (\<lambda>st.
            Option.bind (kwarg d ''scope_ref'' (as_opt as_str) None) (\<lambda>sr.
            Option.bind (kwarg d ''reason'' (as_opt as_str) None) (\<lambda>re.
            Option.bind (kwarg d ''id'' (as_opt as_int) None) (\<lambda>i.
              Some \<lparr>de_pattern = p, de_source = so, de_scope_type = st, de_scope_ref = sr,
                    de_reason = re, de_id = i\<rparr>))))))
          else None
      | _ \<Rightarrow> None)"

definition denylist_enc :: "denylist_entry list \<Rightarrow> json" where
  "denylist_enc es = JList (map denylist_entry_enc es)"

definition denylist_dec :: "json \<Rightarrow> denylist_entry list option" where
  "denylist_dec j = as_list denylist_entry_dec j"

definition resolve_denylist ::
    "'s valkey option \<Rightarrow> int \<Rightarrow> 's \<Rightarrow> denylist_row list \<Rightarrow> int option \<Rightarrow>
     denylist_entry list \<times> 's" where
  "resolve_denylist vk t s table org =
     (case cache_read vk denylist_dec t s (denylist_key org) of
        Some es \<Rightarrow> (es, s)
      | None \<Rightarrow>
          (let es = denylist_of table org
           in (es, cache_write vk denylist_enc t s (denylist_key org) 300 es)))"

definition invalidate_denylist ::
    "'s valkey option \<Rightarrow> (int \<Rightarrow> 's \<Rightarrow> string \<Rightarrow> string list reply) \<Rightarrow> int \<Rightarrow> 's \<Rightarrow> 's" where
  "invalidate_denylist vk scan t s = invalidate_prefix vk scan t s ''waddleai:hookdenylist:''"

section \<open>Admin rules\<close>

definition HOOK_DECISION_SEVERITY :: "(string \<times> nat) list" where
  "HOOK_DECISION_SEVERITY = [(''allow'', 0), (''ask'', 1), (''deny'', 2)]"

record hook_rule =
  hr_id :: int
  hr_scope_type :: string
  hr_scope_ref :: "string option"
  hr_ecosystem :: "string option"
  hr_event :: "string option"
  hr_tool_name_pattern :: "string option"
  hr_match_pattern :: "string option"
  hr_decision :: string
  hr_reason :: string
  hr_priority :: int

definition matches_rule :: "hook_rule \<Rightarrow> string \<Rightarrow> string \<Rightarrow> string \<Rightarrow> string \<Rightarrow> bool" where
  "matches_rule r ecosystem event tool_name s =
     (if truthy (hr_ecosystem r) \<and> hr_ecosystem r \<noteq> Some ecosystem then False
      else if truthy (hr_event r) \<and> hr_event r \<noteq> Some event then False
      else if truthy (hr_tool_name_pattern r) \<and>
              \<not> glob_search (the (hr_tool_name_pattern r)) tool_name then False
      else if truthy (hr_match_pattern r) \<and> \<not> glob_search (the (hr_match_pattern r)) s then False
      else True)"

definition decision_severity :: "string \<Rightarrow> nat" where
  "decision_severity d = (case map_of HOOK_DECISION_SEVERITY d of None \<Rightarrow> 0 | Some n \<Rightarrow> n)"

definition rule_rank :: "hook_rule \<Rightarrow> nat \<times> int \<times> int" where
  "rule_rank r = (decision_severity (hr_decision r), - hr_priority r, - hr_id r)"

text \<open>A decision outside the severity table raises KeyError.\<close>

definition combine_hook_rule_matches :: "hook_rule list \<Rightarrow> py_error + hook_rule option" where
  "combine_hook_rule_matches matched =
     (if list_ex (\<lambda>r. map_of HOOK_DECISION_SEVERITY (hr_decision r) = None) matched then Inl KeyError
      else Inr (py_max rule_rank matched))"

record hook_rule_row =
  hrr_rule :: hook_rule
  hrr_enabled :: bool

definition fetch_rules :: "hook_rule_row list \<Rightarrow> string \<times> string option \<Rightarrow> hook_rule list" where
  "fetch_rules table scope =
     map hrr_rule (filter (\<lambda>r. hrr_enabled r \<and>
       (hr_scope_type (hrr_rule r), hr_scope_ref (hrr_rule r)) = scope) table)"

definition rules_of :: "hook_rule_row list \<Rightarrow> int option \<Rightarrow> hook_rule list" where
  "rules_of table org = concat (map (fetch_rules table) (org_scope_chain org))"

definition hook_rules_key :: "int option \<Rightarrow> string" where
  "hook_rules_key org = ''waddleai:hookrules:'' @ ref_text org"

definition hook_rule_enc :: "hook_rule \<Rightarrow> json" where
  "hook_rule_enc r =
     JDict [(''id'', JInt (hr_id r)), (''scope_type'', JStr (hr_scope_type r)),
            (''scope_ref'', of_opt JStr (hr_scope_ref r)),
            (''ecosystem'', of_opt JStr (hr_ecosystem r)), (''event'', of_opt JStr (hr_event r)),
            (''tool_name_pattern'', of_opt JStr (hr_tool_name_pattern r)),
            (''match_pattern'', of_opt JStr (hr_match_pattern r)),
            (''decision'', JStr (hr_decision r)), (''reason'', JStr (hr_reason r)),
            (''priority'', JInt (hr_priority r))]"

definition hook_rule_dec :: "json \<Rightarrow> hook_rule option" where
  "hook_rule_dec j =
     (case j of
        JDict d \<Rightarrow>
          if only_keys d [''id'', ''scope_type'', ''scope_ref'', ''ecosystem'', ''event'',
               ''tool_name_pattern'', ''match_pattern'', ''decision'', ''reason'', ''priority''] then
            Option.bind (kwarg_req d ''id'' as_int) (\<lambda>i.
            Option.bind (kwarg_req d ''scope_type'' as_str) (\<lambda>st.
            Option.bind (kwarg_req d ''scope_ref'' (as_opt as_str)) (\<lambda>sr.
            Option.bind (kwarg_req d ''ecosystem'' (as_opt as_str)) (\<lambda>ec.
            Option.bind (kwarg_req d ''event'' (as_opt as_str)) (\<lambda>ev.
            Option.bind (kwarg_req d ''tool_name_pattern'' (as_opt as_str)) (\<lambda>tp.
            Option.bind (kwarg_req d ''match_pattern'' (as_opt as_str)) (\<lambda>mp.
            Option.bind (kwarg_req d ''decision'' as_str) (\<lambda>de.
            Option.bind (kwarg_req d ''reason'' as_str) (\<lambda>re.
            Option.bind (kwarg d ''priority'' as_int 100) (\<lambda>pr.
              Some \<lparr>hr_id = i, hr_scope_type = st, hr_scope_ref = sr, hr_ecosystem = ec,
                    hr_event = ev, hr_tool_name_pattern = tp, hr_match_pattern = mp,
                    hr_decision = de, hr_reason = re, hr_priority = pr\<rparr>))))))))))
          else None
      | _ \<Rightarrow> None)"

definition hook_rules_enc :: "hook_rule list \<Rightarrow> json" where
  "hook_rules_enc rs = JList (map hook_rule_enc rs)"

definition hook_rules_dec :: "json \<Rightarrow> hook_rule list option" where
  "hook_rules_dec j = as_list hook_rule_dec j"

definition resolve_rules ::
    "'s valkey option \<Rightarrow> int \<Rightarrow> 's \<Rightarrow> hook_rule_row list \<Rightarrow> int option \<Rightarrow> hook_rule list \<times> 's" where
  "resolve_rules vk t s table org =
     (case cache_read vk hook_rules_dec t s (hook_rules_key org) of
        Some rs \<Rightarrow> (rs, s)
      | None \<Rightarrow>
          (let rs = rules_of table org
           in (rs, cache_write vk hook_rules_enc t s (hook_rules_key org) 300 rs)))"

definition invalidate_rules ::
    "'s valkey option \<Rightarrow> (int \<Rightarrow> 's \<Rightarrow> string \<Rightarrow> string list reply) \<Rightarrow> int \<Rightarrow> 's \<Rightarrow> 's" where
  "invalidate_rules vk scan t s = invalidate_prefix vk scan t s ''waddleai:hookrules:''"

section \<open>Configuration\<close>

record hook_config =
  remote_eval_enabled :: bool
  remote_eval_timeout_ms :: int
  remote_eval_fail_mode :: string
  capture_raw_payloads :: bool

definition hook_config_floor :: hook_config where
  "hook_config_floor = \<lparr>remote_eval_enabled = False, remote_eval_timeout_ms = 200,
     remote_eval_fail_mode = ''open'', capture_raw_payloads = False\<rparr>"

record hook_config_row =
  hc_scope_type :: string
  hc_scope_ref :: "string option"
  hc_remote_eval_enabled :: "bool option"
  hc_remote_eval_timeout_ms :: "int option"
  hc_remote_eval_fail_mode :: "string option"
  hc_capture_raw_payloads :: "bool option"

definition merge_hook_config :: "hook_config \<Rightarrow> hook_config_row \<Rightarrow> hook_config" where
  "merge_hook_config c r =
     \<lparr>remote_eval_enabled = set_field (remote_eval_enabled c) (hc_remote_eval_enabled r),
      remote_eval_timeout_ms = set_field (remote_eval_timeout_ms c) (hc_remote_eval_timeout_ms r),
      remote_eval_fail_mode = set_field (remote_eval_fail_mode c) (hc_remote_eval_fail_mode r),
      capture_raw_payloads = set_field (capture_raw_payloads c) (hc_capture_raw_payloads r)\<rparr>"

definition fetch_config ::
    "hook_config_row list \<Rightarrow> string \<times> string option \<Rightarrow> hook_config_row option" where
  "fetch_config table scope = List.find (\<lambda>r. (hc_scope_type r, hc_scope_ref r) = scope) table"

definition hook_config_of :: "hook_config_row list \<Rightarrow> int option \<Rightarrow> hook_config" where
  "hook_config_of table org =
     foldl merge_hook_config hook_config_floor
       (List.map_filter (fetch_config table) (org_scope_chain org))"

definition hook_config_key :: "int option \<Rightarrow> string" where
  "hook_config_key org = ''waddleai:hookconfig:'' @ ref_text org"

definition hook_config_enc :: "hook_config \<Rightarrow> json" where
  "hook_config_enc c =
     JDict [(''remote_eval_enabled'', JBool (remote_eval_enabled c)),
            (''remote_eval_timeout_ms'', JInt (remote_eval_timeout_ms c)),
            (''remote_eval_fail_mode'', JStr (remote_eval_fail_mode c)),
            (''capture_raw_payloads'', JBool (capture_raw_payloads c))]"

definition hook_config_dec :: "json \<Rightarrow> hook_config option" where
  "hook_config_dec j =
     (case j of
        JDict d \<Rightarrow>
          (let c = hook_config_floor in
           if only_keys d [''remote_eval_enabled'', ''remote_eval_timeout_ms'',
                ''remote_eval_fail_mode'', ''capture_raw_payloads''] then
             Option.bind (kwarg d ''remote_eval_enabled'' as_bool (remote_eval_enabled c)) (\<lambda>e.
             Option.bind (kwarg d ''remote_eval_timeout_ms'' as_int (remote_eval_timeout_ms c)) (\<lambda>ms.
             Option.bind (kwarg d ''remote_eval_fail_mode'' as_str (remote_eval_fail_mode c)) (\<lambda>fm.
             Option.bind (kwarg d ''capture_raw_payloads'' as_bool (capture_raw_payloads c)) (\<lambda>cr.
               Some \<lparr>remote_eval_enabled = e, remote_eval_timeout_ms = ms,
                     remote_eval_fail_mode = fm, capture_raw_payloads = cr\<rparr>))))
           else None)
      | _ \<Rightarrow> None)"

definition resolve_hook_config ::
    "'s valkey option \<Rightarrow> int \<Rightarrow> 's \<Rightarrow> hook_config_row list \<Rightarrow> int option \<Rightarrow> hook_config \<times> 's" where
  "resolve_hook_config vk t s table org =
     (case cache_read vk hook_config_dec t s (hook_config_key org) of
        Some c \<Rightarrow> (c, s)
      | None \<Rightarrow>
          (let c = hook_config_of table org
           in (c, cache_write vk hook_config_enc t s (hook_config_key org) 300 c)))"

definition invalidate_hook_config ::
    "'s valkey option \<Rightarrow> (int \<Rightarrow> 's \<Rightarrow> string \<Rightarrow> string list reply) \<Rightarrow> int \<Rightarrow> 's \<Rightarrow> 's" where
  "invalidate_hook_config vk scan t s = invalidate_prefix vk scan t s ''waddleai:hookconfig:''"

section \<open>The engine\<close>

definition ACTION_TO_DECISION :: "(string \<times> string) list" where
  "ACTION_TO_DECISION =
     [(''allow'', ''allow''), (''flag'', ''ask''), (''redact'', ''ask''), (''block'', ''deny'')]"

record hook_evaluation =
  he_decision :: string
  he_reason :: string
  he_rule_id :: "string option"
  he_tier :: string
  he_degraded :: bool

record 's hooks_env =
  hk_valkey :: "'s valkey option"
  hk_denylist :: "denylist_row list"
  hk_rules :: "hook_rule_row list"
  hk_config :: "hook_config_row list"
  hk_policies :: "policy_row list option"
  hk_engine :: "filter_env option"

text \<open>How the Tier-2 call runs: cut off by the timeout, or finished with these readings.\<close>

datatype tier2_run = Tier2TimedOut | Tier2Ran rat rat auditor_run

definition hook_fail_mode :: "hook_config \<Rightarrow> string \<Rightarrow> hook_evaluation" where
  "hook_fail_mode config reason =
     (if remote_eval_fail_mode config = ''closed'' then
        \<lparr>he_decision = ''deny'',
         he_reason = ''Tier-2 evaluation unavailable ('' @ reason @ ''); fail_mode=closed'',
         he_rule_id = None, he_tier = ''tier2'', he_degraded = True\<rparr>
      else
        \<lparr>he_decision = ''allow'',
         he_reason = ''Tier-2 evaluation unavailable ('' @ reason @ ''); fail_mode=open'',
         he_rule_id = None, he_tier = ''tier2'', he_degraded = True\<rparr>)"

definition evaluate_tier2 ::
    "'s hooks_env \<Rightarrow> filter_env \<Rightarrow> int \<Rightarrow> 's \<Rightarrow> string \<Rightarrow> string \<Rightarrow> int option \<Rightarrow> hook_config \<Rightarrow>
     tier2_run \<Rightarrow> hook_evaluation \<times> 's" where
  "evaluate_tier2 env fe t s tool_name mtext org config outcome =
     (case hk_policies env of
        None \<Rightarrow>
          (\<lparr>he_decision = ''allow'', he_reason = ''Tier 2 misconfigured (no policy resolver)'',
            he_rule_id = None, he_tier = ''default'', he_degraded = False\<rparr>, s)
      | Some policies \<Rightarrow>
          (let (resolved, s') =
                 resolve_policy (hk_valkey env) t s policies org None (Some tool_name) ''input''
           in case outcome of
                Tier2TimedOut \<Rightarrow> (hook_fail_mode config ''tier2_timeout'', s')
              | Tier2Ran t3 t4 auditor \<Rightarrow>
                  (case evaluate fe resolved org mtext ''input'' t3 t4 auditor of
                     Inl e \<Rightarrow> (hook_fail_mode config ''tier2_error'', s')
                   | Inr v \<Rightarrow>
                       (\<lparr>he_decision = (case map_of ACTION_TO_DECISION (sv_action v) of
                             None \<Rightarrow> ''allow'' | Some d \<Rightarrow> d),
                         he_reason = ''Tier-2 policy evaluation: '' @ sv_action v @
                           (if sv_violations v = [] then []
                            else '' ('' @ str_nat (length (sv_violations v)) @ '' violation(s))''),
                         he_rule_id = None, he_tier = ''tier2'', he_degraded = sv_degraded v\<rparr>,
                        s'))))"

definition evaluate_hook ::
    "'s hooks_env \<Rightarrow> int \<Rightarrow> 's \<Rightarrow> string \<Rightarrow> string \<Rightarrow> string \<Rightarrow> dict option \<Rightarrow> int option \<Rightarrow>
     tier2_run \<Rightarrow> py_error + hook_evaluation \<times> 's" where
  "evaluate_hook env t s ecosystem event tool_name tool_input org outcome =
     (let mtext = flatten_tool_input_text tool_input;
          (denylist, s1) = resolve_denylist (hk_valkey env) t s (hk_denylist env) org
      in case match_denylist denylist mtext of
           Some hit \<Rightarrow>
             Inr (\<lparr>he_decision = ''deny'',
                   he_reason = ''Blocked by protected-path policy: matches '' @ [CHR 0x27] @
                     de_pattern hit @ [CHR 0x27],
                   he_rule_id = None, he_tier = ''tier1'', he_degraded = False\<rparr>, s1)
         | None \<Rightarrow>
             (let (rules, s2) = resolve_rules (hk_valkey env) t s1 (hk_rules env) org
              in case combine_hook_rule_matches
                        (filter (\<lambda>r. matches_rule r ecosystem event tool_name mtext) rules) of
                   Inl e \<Rightarrow> Inl e
                 | Inr (Some w) \<Rightarrow>
                     Inr (\<lparr>he_decision = hr_decision w, he_reason = hr_reason w,
                           he_rule_id = Some (str_int (hr_id w)), he_tier = ''hook_rule'',
                           he_degraded = False\<rparr>, s2)
                 | Inr None \<Rightarrow>
                     (let (config, s3) = resolve_hook_config (hk_valkey env) t s2 (hk_config env) org
                      in case hk_engine env of
                           Some fe \<Rightarrow>
                             if remote_eval_enabled config
                             then Inr (evaluate_tier2 env fe t s3 tool_name mtext org config outcome)
                             else Inr (\<lparr>he_decision = ''allow'',
                               he_reason = ''No matching rule; Tier 2 not enabled for this organization'',
                               he_rule_id = None, he_tier = ''default'', he_degraded = False\<rparr>, s3)
                         | None \<Rightarrow>
                             Inr (\<lparr>he_decision = ''allow'',
                               he_reason = ''No matching rule; Tier 2 not enabled for this organization'',
                               he_rule_id = None, he_tier = ''default'', he_degraded = False\<rparr>, s3))))"

section \<open>Caches and merged configuration\<close>

lemma denylist_entry_dec_enc: "denylist_entry_dec (denylist_entry_enc e) = Some e"
  by (cases e) (simp add: denylist_entry_dec_def denylist_entry_enc_def kw_simps)

interpretation denylist_cache: json_codec denylist_enc denylist_dec
  by unfold_locales (simp add: denylist_enc_def denylist_dec_def as_list_map denylist_entry_dec_enc)

lemma hook_rule_dec_enc: "hook_rule_dec (hook_rule_enc r) = Some r"
  by (cases r) (simp add: hook_rule_dec_def hook_rule_enc_def kw_simps)

interpretation hook_rules_cache: json_codec hook_rules_enc hook_rules_dec
  by unfold_locales (simp add: hook_rules_enc_def hook_rules_dec_def as_list_map hook_rule_dec_enc)

interpretation hook_config_cache: json_codec hook_config_enc hook_config_dec
proof
  fix c :: hook_config
  show "hook_config_dec (hook_config_enc c) = Some c"
    by (cases c) (simp add: hook_config_dec_def hook_config_enc_def kw_simps Let_def)
qed

interpretation h_enabled: layered_field merge_hook_config remote_eval_enabled hc_remote_eval_enabled
  by unfold_locales (simp add: merge_hook_config_def set_field_def)
interpretation h_timeout: layered_field merge_hook_config remote_eval_timeout_ms
  hc_remote_eval_timeout_ms
  by unfold_locales (simp add: merge_hook_config_def set_field_def)
interpretation h_fail: layered_field merge_hook_config remote_eval_fail_mode hc_remote_eval_fail_mode
  by unfold_locales (simp add: merge_hook_config_def set_field_def)
interpretation h_capture: layered_field merge_hook_config capture_raw_payloads hc_capture_raw_payloads
  by unfold_locales (simp add: merge_hook_config_def set_field_def)

section \<open>Globs\<close>

lemma suffixes_of_mem: "t \<in> set (suffixes_of s) \<longleftrightarrow> (\<exists>p. s = p @ t)"
proof (induction s)
  case Nil
  then show ?case by auto
next
  case (Cons c cs)
  show ?case
  proof
    assume "t \<in> set (suffixes_of (c # cs))"
    with Cons show "\<exists>p. c # cs = p @ t" by (metis append_Cons append_Nil set_ConsD suffixes_of.simps(2))
  next
    assume "\<exists>p. c # cs = p @ t"
    then obtain p where "c # cs = p @ t" by blast
    with Cons show "t \<in> set (suffixes_of (c # cs))" by (cases p) auto
  qed
qed

definition wildcard_free :: "string \<Rightarrow> bool" where
  "wildcard_free p \<longleftrightarrow> CHR ''*'' \<notin> set p \<and> CHR ''?'' \<notin> set p"

lemma glob_prefix_literal:
  "wildcard_free p \<Longrightarrow> glob_prefix p s \<longleftrightarrow> startswith (lower p) (lower s)"
proof (induction p s rule: glob_prefix.induct)
  case (1 s)
  then show ?case by (simp add: startswith_def)
next
  case (2 p ps)
  then show ?case by (auto simp: startswith_def wildcard_free_def lower_def)
next
  case (3 p ps c cs)
  then show ?case by (auto simp: startswith_def wildcard_free_def lower_Cons)
qed

lemma contains_suffix: "contains q s \<longleftrightarrow> (\<exists>p t. s = p @ t \<and> startswith q t)"
proof
  assume "contains q s"
  then obtain a b where "s = a @ (q @ b)" unfolding contains_iff by blast
  moreover have "startswith q (q @ b)" by simp
  ultimately show "\<exists>p t. s = p @ t \<and> startswith q t" by blast
next
  assume "\<exists>p t. s = p @ t \<and> startswith q t"
  then obtain p t where "s = p @ t" "take (length q) t = q" by (auto simp: startswith_def)
  then have "s = p @ q @ drop (length q) t" by (metis append_take_drop_id)
  then show "contains q s" unfolding contains_iff by blast
qed

lemma glob_search_literal:
  assumes "wildcard_free p" "p \<noteq> []"
  shows "glob_search p s \<longleftrightarrow> contains (lower p) (lower s)"
proof -
  have "glob_anywhere p s \<longleftrightarrow> (\<exists>a t. s = a @ t \<and> startswith (lower p) (lower t))"
    unfolding glob_anywhere_def list_ex_iff Bex_def suffixes_of_mem glob_prefix_literal [OF assms(1)]
    by blast
  also have "\<dots> \<longleftrightarrow> contains (lower p) (lower s)"
  proof
    assume "\<exists>a t. s = a @ t \<and> startswith (lower p) (lower t)"
    then show "contains (lower p) (lower s)" unfolding contains_suffix by (metis lower_append)
  next
    assume "contains (lower p) (lower s)"
    then obtain a t where "lower s = a @ t" "startswith (lower p) t" unfolding contains_suffix by blast
    moreover from this(1) have "lower (drop (length a) s) = t" by (simp add: lower_drop)
    ultimately show "\<exists>a t. s = a @ t \<and> startswith (lower p) (lower t)"
      by (metis append_take_drop_id)
  qed
  finally have g: "glob_anywhere p s \<longleftrightarrow> contains (lower p) (lower s)" .
  moreover have "\<not> contains (lower p) []" using assms(2) by (simp add: lower_def)
  ultimately show ?thesis using assms(2) by (auto simp: glob_search_def)
qed

section \<open>The builtin denylist is always in force\<close>

definition holds_builtins :: "denylist_entry list \<Rightarrow> bool" where
  "holds_builtins es \<longleftrightarrow> set builtin_entries \<subseteq> set es"

definition denylist_cache_ok :: "'s valkey option \<Rightarrow> int \<Rightarrow> 's \<Rightarrow> bool" where
  "denylist_cache_ok vk t s \<longleftrightarrow>
     (\<forall>t' org es. t \<le> t' \<longrightarrow> cache_read vk denylist_dec t' s (denylist_key org) = Some es \<longrightarrow>
        holds_builtins es)"

lemma holds_builtins_of: "holds_builtins (denylist_of table org)"
  by (simp add: holds_builtins_def denylist_of_def)

lemma denylist_write_ok:
  assumes "\<forall>c. vk = Some c \<longrightarrow> valkey_laws c" "denylist_cache_ok vk t s" "holds_builtins es"
  shows "denylist_cache_ok vk t (cache_write vk denylist_enc t s (denylist_key org) ttl es)"
proof (cases vk)
  case None
  with assms(2) show ?thesis by simp
next
  case (Some k)
  show ?thesis
  proof (cases "vk_set k t s (denylist_key org) (json_dumps (denylist_enc es)) (Some ttl)")
    case Raised
    with Some assms(2) show ?thesis by (simp add: cache_write_def)
  next
    case (Ok s')
    have laws: "valkey_laws k" using assms(1) Some by simp
    have "holds_builtins x"
      if "t \<le> t'" "cache_read (Some k) denylist_dec t' s' (denylist_key org') = Some x" for t' org' x
    proof (cases "denylist_key org' = denylist_key org")
      case True
      with that valkey_get_set [OF laws Ok that(1), of "denylist_key org'"] assms(3) show ?thesis
        by (auto simp: cache_read_def denylist_cache.dec_enc split: if_splits)
    next
      case False
      with that valkey_get_set [OF laws Ok that(1), of "denylist_key org'"]
      have "cache_read (Some k) denylist_dec t' s (denylist_key org') = Some x"
        by (simp add: cache_read_def)
      with assms(2) that(1) Some show ?thesis by (auto simp: denylist_cache_ok_def)
    qed
    with Some Ok show ?thesis by (simp add: denylist_cache_ok_def cache_write_def)
  qed
qed

lemma resolve_denylist_builtins:
  assumes "\<forall>c. vk = Some c \<longrightarrow> valkey_laws c" "denylist_cache_ok vk t s"
    and "resolve_denylist vk t s table org = (es, s')"
  shows "holds_builtins es \<and> denylist_cache_ok vk t s'"
proof (cases "cache_read vk denylist_dec t s (denylist_key org)")
  case None
  with assms(3) have "es = denylist_of table org"
    "s' = cache_write vk denylist_enc t s (denylist_key org) 300 es"
    by (auto simp: resolve_denylist_def Let_def)
  with denylist_write_ok [OF assms(1,2)] holds_builtins_of show ?thesis by metis
next
  case (Some x)
  with assms(2,3) show ?thesis by (auto simp: resolve_denylist_def denylist_cache_ok_def)
qed

lemma match_denylist_mem:
  assumes "e \<in> set es" "glob_search (de_pattern e) s"
  shows "match_denylist es s \<noteq> None"
proof -
  have "s \<noteq> []" using assms(2) by (auto simp: glob_search_def)
  with assms show ?thesis by (auto simp: match_denylist_def find_None_iff)
qed

section \<open>Properties\<close>

text \<open>
  C26. The Tier-1 denylist is absolute: a tool call whose payload matches a builtin pattern is
  denied in Tier 1, for every organisation and whatever admin rules, denylist rows, hook
  configuration, security policies and Tier-2 outcome there are, as long as the cached lists
  hold the builtin patterns; and evaluation keeps them so.
\<close>

theorem denylist_absolute:
  assumes "\<forall>c. hk_valkey env = Some c \<longrightarrow> valkey_laws c"
    and "denylist_cache_ok (hk_valkey env) t s"
    and "p \<in> set BUILTIN_DENYLIST_PATTERNS" "glob_search p (flatten_tool_input_text tool_input)"
  shows "\<exists>e s'. evaluate_hook env t s ecosystem event tool_name tool_input org outcome = Inr (e, s') \<and>
    he_decision e = ''deny'' \<and> he_tier e = ''tier1'' \<and> denylist_cache_ok (hk_valkey env) t s'"
proof -
  obtain es s1 where r: "resolve_denylist (hk_valkey env) t s (hk_denylist env) org = (es, s1)"
    by fastforce
  from resolve_denylist_builtins [OF assms(1,2) r]
  have es: "holds_builtins es" and ok: "denylist_cache_ok (hk_valkey env) t s1" by simp_all
  from assms(3) have "p \<in> de_pattern ` set builtin_entries"
    by (simp add: builtin_entries_def image_image)
  then obtain e where "e \<in> set builtin_entries" "de_pattern e = p" by blast
  with es assms(4) have "match_denylist es (flatten_tool_input_text tool_input) \<noteq> None"
    using match_denylist_mem by (auto simp: holds_builtins_def)
  then obtain hit where "match_denylist es (flatten_tool_input_text tool_input) = Some hit" by blast
  with r ok show ?thesis by (simp add: evaluate_hook_def)
qed

definition demo_hooks :: "mem hooks_env" where
  "demo_hooks = \<lparr>hk_valkey = Some mem_valkey, hk_denylist = [],
     hk_rules = [\<lparr>hrr_rule = \<lparr>hr_id = 1, hr_scope_type = ''global'', hr_scope_ref = None,
        hr_ecosystem = None, hr_event = None, hr_tool_name_pattern = None, hr_match_pattern = None,
        hr_decision = ''allow'', hr_reason = ''all'', hr_priority = 1\<rparr>, hrr_enabled = True\<rparr>],
     hk_config = [], hk_policies = None, hk_engine = None\<rparr>"

theorem denylist_absolute_witness:
  "map_sum id (\<lambda>(e, _). he_decision e) (evaluate_hook demo_hooks 0 Map.empty ''claude''
     ''PreToolUse'' ''Bash'' (Some [(''command'', JStr ''cat ~/.SSH/id'')]) (Some 7) Tier2TimedOut)
   = Inr ''deny''"
proof -
  have a: "\<forall>c. hk_valkey demo_hooks = Some c \<longrightarrow> valkey_laws c"
    using mem_valkey_laws by (simp add: demo_hooks_def)
  have b: "denylist_cache_ok (hk_valkey demo_hooks) 0 Map.empty"
    by (simp add: denylist_cache_ok_def cache_read_def mem_valkey_simps demo_hooks_def)
  have c: "''~/.ssh/**'' \<in> set BUILTIN_DENYLIST_PATTERNS" by code_simp
  have d: "glob_search ''~/.ssh/**''
      (flatten_tool_input_text (Some [(''command'', JStr ''cat ~/.SSH/id'')]))"
    by code_simp
  from denylist_absolute [OF a b c d, of "''claude''" "''PreToolUse''" "''Bash''" "Some 7" Tier2TimedOut]
  show ?thesis by auto
qed

text \<open>
  Admin rules combine by severity alone: with decisions of the table and distinct ids, the
  rule credited is the same for any order of the matched rules, no matched rule is more severe
  than it, so a matched deny of any scope is never outvoted, and the decision of an allow rule
  stands only if no other matched rule asks or denies.
\<close>

theorem hook_rules_max_severity:
  assumes "\<forall>r\<in>set matched. hr_decision r \<in> {''allow'', ''ask'', ''deny''}"
    and "inj_on hr_id (set matched)" "set matched' = set matched" "matched \<noteq> []"
  shows "\<exists>w\<in>set matched. combine_hook_rule_matches matched = Inr (Some w) \<and>
    combine_hook_rule_matches matched' = Inr (Some w) \<and>
    (\<forall>r\<in>set matched. decision_severity (hr_decision r) \<le> decision_severity (hr_decision w)) \<and>
    ((\<exists>r\<in>set matched. hr_decision r = ''deny'') \<longrightarrow> hr_decision w = ''deny'') \<and>
    (hr_decision w = ''allow'' \<longrightarrow> (\<forall>r\<in>set matched. hr_decision r = ''allow''))"
proof -
  have known: "\<not> list_ex (\<lambda>r. map_of HOOK_DECISION_SEVERITY (hr_decision r) = None) ms"
    if "set ms = set matched" for ms
    using assms(1) that by (auto simp: list_ex_iff HOOK_DECISION_SEVERITY_def)
  obtain w where w: "py_max rule_rank matched = Some w" using py_max_exists [OF assms(4)] by blast
  have inj: "inj_on rule_rank (set matched)"
    using assms(2) by (auto simp: inj_on_def rule_rank_def)
  have same: "py_max rule_rank matched' = Some w"
    using py_max_set_cong [OF inj assms(3) [symmetric]] w by simp
  have win: "w \<in> set matched" by (rule py_max_in [OF w])
  have sev: "decision_severity (hr_decision r) \<le> decision_severity (hr_decision w)"
    if "r \<in> set matched" for r
    using py_max_ge [OF w that] by (auto simp: rule_rank_def less_eq_prod_def)
  have deny: "hr_decision w = ''deny''" if "r \<in> set matched" "hr_decision r = ''deny''" for r
    using sev [OF that(1)] that(2) assms(1) win
    by (auto simp: decision_severity_def HOOK_DECISION_SEVERITY_def)
  have allow: "hr_decision r = ''allow''" if "r \<in> set matched" "hr_decision w = ''allow''" for r
    using sev [OF that(1)] that assms(1)
    by (auto simp: decision_severity_def HOOK_DECISION_SEVERITY_def)
  show ?thesis
    by (rule bexI [OF _ win])
      (use known [OF refl] known [OF assms(3)] w same sev deny allow in
        \<open>auto simp: combine_hook_rule_matches_def\<close>)
qed

theorem hook_rules_max_severity_witness:
  "\<exists>w. combine_hook_rule_matches
     [hrr_rule (hd (hk_rules demo_hooks)),
      (hrr_rule (hd (hk_rules demo_hooks)))\<lparr>hr_id := 2, hr_scope_type := ''org'',
        hr_scope_ref := Some ''7'', hr_decision := ''deny''\<rparr>] = Inr (Some w) \<and>
   hr_decision w = ''deny''"
proof -
  let ?a = "hrr_rule (hd (hk_rules demo_hooks))"
  let ?b = "?a\<lparr>hr_id := 2, hr_scope_type := ''org'', hr_scope_ref := Some ''7'',
    hr_decision := ''deny''\<rparr>"
  have "\<forall>r\<in>set [?a, ?b]. hr_decision r \<in> {''allow'', ''ask'', ''deny''}"
    "inj_on hr_id (set [?a, ?b])" "set [?b, ?a] = set [?a, ?b]"
    by (auto simp: demo_hooks_def)
  from hook_rules_max_severity [OF this] show ?thesis by auto
qed

text \<open>
  A denylist pattern without wildcards is found exactly when it occurs anywhere in the
  flattened payload, in any case; but a wildcard does not stop at the separator put between
  two fields: a pattern matches across two unrelated values.
\<close>

theorem denylist_literal_search:
  "(wildcard_free p \<and> p \<noteq> [] \<longrightarrow> glob_search p s = contains (lower p) (lower s)) \<and>
   glob_search ''rm*prod.db'' (flatten_tool_input_text
     (Some [(''description'', JStr ''remove form''), (''path'', JStr ''prod.db'')]))"
proof
  show "wildcard_free p \<and> p \<noteq> [] \<longrightarrow> glob_search p s = contains (lower p) (lower s)"
    using glob_search_literal by blast
  show "glob_search ''rm*prod.db'' (flatten_tool_input_text
     (Some [(''description'', JStr ''remove form''), (''path'', JStr ''prod.db'')]))"
    by code_simp
qed

theorem denylist_literal_search_witness:
  "glob_search ''go.sum'' ''vim src/GO.sum'' = contains (lower ''go.sum'') (lower ''vim src/GO.sum'')"
  using denylist_literal_search [of "''go.sum''" "''vim src/GO.sum''"]
  by (simp add: wildcard_free_def)

text \<open>
  Tier 2 never asks about uncertain content: the engine's verdict is never \<open>flag\<close>, and
  content whose only findings are log-only is allowed; it asks only for redactable content.
\<close>

theorem tier2_log_allows:
  assumes "evaluate fe p org mtext ''input'' t3 t4 auditor = Inr v" "hk_policies env = Some pol"
    and "resolve_policy (hk_valkey env) t s pol org None (Some tool) ''input'' = (p, s')"
  shows "sv_action v \<noteq> ''flag'' \<and>
    he_decision (fst (evaluate_tier2 env fe t s tool mtext org config (Tier2Ran t3 t4 auditor))) =
      (if sv_action v = ''redact'' then ''ask'' else if sv_action v = ''block'' then ''deny'' else ''allow'')"
proof -
  obtain vs names where r: "run_tiers fe p org mtext ''input'' t3 = Inr (vs, names)"
    using assms(1) by (auto simp: evaluate_def split: sum.splits)
  let ?d = "fst (determine_action mtext vs)"
  have "sv_action v \<in> {?d, ''block'', ''allow''}"
  proof (cases auditor)
    case (AuditorReturns x)
    with assms(1) r show ?thesis
      by (auto simp: evaluate_def Let_def combine_cases apply_fail_mode_def split: prod.splits if_splits)
  next
    case AuditorTimeout
    with assms(1) r show ?thesis
      by (auto simp: evaluate_def Let_def apply_fail_mode_def split: prod.splits if_splits)
  next
    case AuditorRaises
    with assms(1) r show ?thesis
      by (auto simp: evaluate_def Let_def apply_fail_mode_def split: prod.splits if_splits)
  qed
  with determine_action_range [of mtext vs]
  have act: "sv_action v \<in> {''allow'', ''block'', ''redact'', ''log''}" by auto
  have dec: "(case map_of ACTION_TO_DECISION a of None \<Rightarrow> ''allow'' | Some d \<Rightarrow> d) =
      (if a = ''redact'' then ''ask'' else if a = ''block'' then ''deny'' else ''allow'')"
    if "a \<in> {''allow'', ''block'', ''redact'', ''log''}" for a
    using that by (auto simp: ACTION_TO_DECISION_def)
  have "he_decision (fst (evaluate_tier2 env fe t s tool mtext org config (Tier2Ran t3 t4 auditor))) =
      (case map_of ACTION_TO_DECISION (sv_action v) of None \<Rightarrow> ''allow'' | Some d \<Rightarrow> d)"
    by (simp add: evaluate_tier2_def assms)
  with dec [OF act] act show ?thesis by auto
qed

theorem tier2_log_allows_witness:
  "\<exists>v. evaluate (demo_filter\<lparr>fe_rules := [card_rule\<lparr>fr_action := ''log''\<rparr>]\<rparr>) policy_floor (Some 7)
      ''pay 4111'' ''input'' 0 0 (AuditorReturns (HttpText ''NO'')) = Inr v \<and> sv_action v = ''log'' \<and>
    he_decision (fst (evaluate_tier2 (demo_hooks\<lparr>hk_policies := Some []\<rparr>)
      (demo_filter\<lparr>fe_rules := [card_rule\<lparr>fr_action := ''log''\<rparr>]\<rparr>) 0 Map.empty ''Bash'' ''pay 4111''
      (Some 7) hook_config_floor (Tier2Ran 0 0 (AuditorReturns (HttpText ''NO''))))) = ''allow''"
proof -
  let ?fe = "demo_filter\<lparr>fe_rules := [card_rule\<lparr>fr_action := ''log''\<rparr>]\<rparr>"
  let ?a = "AuditorReturns (HttpText ''NO'')"
  let ?env = "demo_hooks\<lparr>hk_policies := Some []\<rparr>"
  have "map_sum id sv_action (evaluate ?fe policy_floor (Some 7) ''pay 4111'' ''input'' 0 0 ?a) =
      Inr ''log''"
    by code_simp
  then obtain v where v: "evaluate ?fe policy_floor (Some 7) ''pay 4111'' ''input'' 0 0 ?a = Inr v"
    and log: "sv_action v = ''log''"
    by (cases "evaluate ?fe policy_floor (Some 7) ''pay 4111'' ''input'' 0 0 ?a") auto
  have "fst (resolve_policy (hk_valkey ?env) 0 Map.empty [] (Some 7) None (Some ''Bash'') ''input'') =
      policy_floor"
    by code_simp
  then obtain s' where
    "resolve_policy (hk_valkey ?env) 0 Map.empty [] (Some 7) None (Some ''Bash'') ''input'' =
      (policy_floor, s')"
    by (metis prod.collapse)
  from tier2_log_allows [OF v _ this, of hook_config_floor] v log show ?thesis by simp
qed

end
